(* ===== verification/Prelude.thy ===== *)
theory Prelude
  imports Main "HOL-Library.Word"
begin

text \<open>
  The vocabulary shared by every component of the pg_cuvs model: machine words under the names of
  the C types, the FILE streams the sidecar readers and writers use, the return convention of the
  C code (0 or -1), and the generic facts about lists and words that the component proofs share.
  The facts are collected in \<open>wire\<close> (sizes and encodings) and \<open>cint\<close> (reading
  machine integers).
\<close>

unbundle bit_operations_syntax

type_synonym u8 = "8 word"
type_synonym u16 = "16 word"
type_synonym u32 = "32 word"
type_synonym u64 = "64 word"
type_synonym bytes = "8 word list"

named_theorems wire \<open>sizes and round trips of the wire encodings\<close>
named_theorems cint \<open>reading machine integers as mathematical ones\<close>

section \<open>C integers\<close>

text \<open>
  A signed 64-bit value (\<open>int64_t\<close>) is stored as a 64-bit word and read by \<open>sint\<close>;
  \<open>size_t\<close> and \<open>uint64_t\<close> are read by \<open>unat\<close>. A bound on the signed reading
  of a non-negative value transfers to the unsigned one.
\<close>

lemma sint_eq_uint_nonneg [cint]:
  fixes w :: u64
  assumes "0 \<le> sint w"
  shows "sint w = uint w"
proof -
  have "\<not> bit w 63"
    using assms bit_last_iff [of w] by simp
  then have "\<not> bit (uint w) 63"
    by (simp add: bit_uint_iff)
  then show ?thesis
    using uint_lt2p [of w]
    by (simp add: sint_uint signed_take_bit_eq_take_bit_minus take_bit_int_eq_self)
qed

lemma unat_of_sint [cint]:
  fixes w :: u64
  assumes "0 \<le> sint w"
  shows "unat w = nat (sint w)"
  using sint_eq_uint_nonneg [OF assms] by simp

lemma sint_of_unat [cint]:
  fixes w :: u64
  assumes "unat w < 2 ^ 63"
  shows "sint w = int (unat w)"
proof -
  have "\<not> bit w 63"
    using assms by (simp add: bit_iff_odd_drop_bit drop_bit_eq_div word_arith_nat_div div_less)
  then have "0 \<le> sint w"
    using bit_last_iff [of w] by simp
  then show ?thesis
    by (simp add: sint_eq_uint_nonneg)
qed

lemma sint_bound_unat [cint]:
  fixes w :: u64
  assumes "0 \<le> sint w" "sint w \<le> int b"
  shows "unat w \<le> b"
  using assms by (simp add: unat_of_sint)

lemma unat_bound: "unat (w :: 'a::len word) < 2 ^ LENGTH('a)"
  by (rule unsigned_less)

lemma unat_ucast_u32 [cint]: "unat (ucast (d :: u32) :: u64) = unat d"
  using unat_bound [of d]
  by (simp add: unsigned_ucast_eq take_bit_nat_eq_self)

lemma unat_mult_small [cint]:
  fixes a b :: "'a::len word"
  assumes "unat a * unat b < 2 ^ LENGTH('a)"
  shows "unat (a * b) = unat a * unat b"
  using assms by (simp add: unat_word_ariths take_bit_nat_eq_self)

lemma unat_add_small [cint]:
  fixes a b :: "'a::len word"
  assumes "unat a + unat b < 2 ^ LENGTH('a)"
  shows "unat (a + b) = unat a + unat b"
  using assms by (simp add: unat_word_ariths take_bit_nat_eq_self)

lemma xor_left_inject [simp]:
  fixes a b c :: "'a::len word"
  shows "a XOR b = a XOR c \<longleftrightarrow> b = c"
  by (metis xor.assoc xor.left_neutral xor_self_eq)

lemma xor_right_inject [simp]:
  fixes a b c :: "'a::len word"
  shows "b XOR a = c XOR a \<longleftrightarrow> b = c"
  by (metis xor.commute xor_left_inject)

section \<open>FILE streams\<close>

text \<open>
  An input stream is the list of bytes still to be read. \<open>fread sz n f\<close> succeeds when
  \<open>n\<close> whole items of \<open>sz\<close> bytes are there (the code only ever compares the item
  count with the number it asked for). An output stream records what was written and how many
  bytes the device still takes: a write beyond that is the short count of the C library.
\<close>

definition fread :: "nat \<Rightarrow> nat \<Rightarrow> bytes \<Rightarrow> (bytes \<times> bytes) option" where
  "fread sz n f = (if sz * n \<le> length f then Some (take (sz * n) f, drop (sz * n) f) else None)"

record wfile =
  written :: bytes
  room :: nat

definition fwrite :: "bytes \<Rightarrow> wfile \<Rightarrow> bool \<times> wfile" where
  "fwrite bs f =
     (if length bs \<le> room f
      then (True, f\<lparr>written := written f @ bs, room := room f - length bs\<rparr>)
      else (False, f\<lparr>written := written f @ take (room f) bs, room := 0\<rparr>))"

lemma fread_append [wire]: "length xs = sz * n \<Longrightarrow> fread sz n (xs @ ys) = Some (xs, ys)"
  by (simp add: fread_def)

lemma fread_SomeD:
  assumes "fread sz n f = Some (xs, ys)"
  shows "f = xs @ ys" and "length xs = sz * n"
  using assms by (auto simp: fread_def split: if_splits)

lemma fread_None_iff: "fread sz n f = None \<longleftrightarrow> length f < sz * n"
  by (auto simp: fread_def)

lemma fst_fwrite [wire]: "fst (fwrite bs f) \<longleftrightarrow> length bs \<le> room f"
  by (simp add: fwrite_def)

lemma written_fwrite [wire]:
  "length bs \<le> room f \<Longrightarrow> written (snd (fwrite bs f)) = written f @ bs"
  by (simp add: fwrite_def)

lemma room_fwrite [wire]:
  "length bs \<le> room f \<Longrightarrow> room (snd (fwrite bs f)) = room f - length bs"
  by (simp add: fwrite_def)

lemma fwrite_Nil [simp]: "fwrite [] f = (True, f)"
  by (simp add: fwrite_def)

text \<open>Writing two buffers in turn, stopping at a short write, is writing their concatenation.\<close>

lemma fwrite_append:
  "fwrite (xs @ ys) f = (case fwrite xs f of (True, g) \<Rightarrow> fwrite ys g | (False, g) \<Rightarrow> (False, g))"
  by (auto simp: fwrite_def)

lemma written_fwrite_prefix: "\<exists>zs. written (snd (fwrite bs f)) = written f @ zs"
  by (auto simp: fwrite_def)

section \<open>Lists\<close>

lemma concat_map_const_length:
  assumes "\<And>x. x \<in> set xs \<Longrightarrow> length (f x) = n"
  shows "length (concat (map f xs)) = n * length xs"
  using assms by (induction xs) auto

lemma nth_split_Cons: "i < length xs \<Longrightarrow> xs = take i xs @ xs ! i # drop (Suc i) xs"
  by (rule id_take_nth_drop)

lemma sum_list_split_at:
  fixes f :: "'a \<Rightarrow> nat"
  shows "i < length xs \<Longrightarrow> (\<Sum>x\<leftarrow>xs. f x) = (\<Sum>x\<leftarrow>take i xs. f x) + f (xs ! i) + (\<Sum>x\<leftarrow>drop (Suc i) xs. f x)"
  by (subst id_take_nth_drop [of i xs]) simp_all

text \<open>Consecutive ranges given by their lengths: every number below the total lies in exactly one.\<close>

lemma prefix_sums_cover:
  fixes ns :: "nat list"
  assumes "g < sum_list ns"
  shows "\<exists>!i. i < length ns \<and> sum_list (take i ns) \<le> g \<and> g < sum_list (take i ns) + ns ! i"
  using assms
proof (induction ns arbitrary: g)
  case Nil
  then show ?case by simp
next
  case (Cons n ns)
  let ?P = "\<lambda>i. i < length (n # ns) \<and> sum_list (take i (n # ns)) \<le> g
      \<and> g < sum_list (take i (n # ns)) + (n # ns) ! i"
  show ?case
  proof (cases "g < n")
    case True
    then have "?P i \<longleftrightarrow> i = 0" for i
      by (cases i) auto
    then show ?thesis by simp
  next
    case False
    then have "g - n < sum_list ns"
      using Cons.prems by simp
    let ?Q = "\<lambda>i. i < length ns \<and> sum_list (take i ns) \<le> g - n
        \<and> g - n < sum_list (take i ns) + ns ! i"
    have step: "?P 0 \<longleftrightarrow> False" "\<And>i. ?P (Suc i) \<longleftrightarrow> ?Q i"
      using False by auto
    from Cons.IH [OF \<open>g - n < sum_list ns\<close>] obtain j where j: "?Q j" "\<And>i. ?Q i \<Longrightarrow> i = j"
      by (rule ex1E) blast
    show ?thesis
    proof (rule ex1I [of ?P "Suc j"])
      show "?P (Suc j)"
        using j(1) step(2) by blast
      show "i = Suc j" if "?P i" for i
        using that step j(2) by (cases i) blast+
    qed
  qed
qed

end
