(* ===== verification/Byte_Codec.thy ===== *)
theory Byte_Codec
  imports Prelude
begin

text \<open>
  The little-endian byte encoding of machine words and of the packed C structs built from them.
  Every on-disk header and record of pg_cuvs is written by copying the struct's bytes on x86-64,
  so a field of \<open>n\<close> bytes is its \<open>n\<close> base-256 digits, least significant first. The locale
  \<open>codec\<close> is the interface the sidecar formats use: an encoder of fixed width and a
  decoder that undoes it. Its client lemmas lift a codec to arrays of records.
\<close>

section \<open>Words\<close>

primrec le_bytes :: "nat \<Rightarrow> 'a::len word \<Rightarrow> bytes" where
  "le_bytes 0 w = []"
| "le_bytes (Suc n) w = ucast w # le_bytes n (drop_bit 8 w)"

primrec le_word :: "bytes \<Rightarrow> 'a::len word" where
  "le_word [] = 0"
| "le_word (b # bs) = ucast b OR push_bit 8 (le_word bs)"

lemma length_le_bytes [simp, wire]: "length (le_bytes n w) = n"
  by (induction n arbitrary: w) auto

lemma le_word_le_bytes: "le_word (le_bytes n w) = take_bit (8 * n) (w :: 'a::len word)"
proof (induction n arbitrary: w)
  case 0
  then show ?case by simp
next
  case (Suc n)
  show ?case
    by (rule bit_word_eqI)
       (auto simp: Suc bit_or_iff bit_push_bit_iff bit_take_bit_iff bit_drop_bit_eq bit_ucast_iff)
qed

lemma le_word_bit_bound: "bit (le_word bs :: 'a::len word) i \<Longrightarrow> i < 8 * length bs"
proof (induction bs arbitrary: i)
  case Nil
  then show ?case by simp
next
  case (Cons b bs)
  then show ?case
    using bit_imp_le_length [of b i] Cons.IH [of "i - 8"]
    by (fastforce simp: bit_or_iff bit_push_bit_iff bit_ucast_iff)
qed

lemma le_bytes_le_word:
  assumes "length bs = n" "8 * n \<le> LENGTH('a::len)"
  shows "le_bytes n (le_word bs :: 'a word) = bs"
  using assms
proof (induction bs arbitrary: n)
  case Nil
  then show ?case by simp
next
  case (Cons b bs)
  then obtain m where m: "n = Suc m" "length bs = m" "8 * m + 8 \<le> LENGTH('a)"
    by auto
  have "ucast (ucast b OR push_bit 8 (le_word bs :: 'a word)) = b"
    using m(3) bit_imp_le_length [of b]
    by (intro bit_word_eqI) (auto simp: bit_or_iff bit_push_bit_iff bit_ucast_iff)
  moreover have "drop_bit 8 (ucast b OR push_bit 8 (le_word bs :: 'a word)) = le_word bs"
    using m bit_imp_le_length [of b] le_word_bit_bound [of bs]
    by (intro bit_word_eqI) (fastforce simp: bit_or_iff bit_push_bit_iff bit_ucast_iff bit_drop_bit_eq)
  ultimately show ?case
    using m Cons.IH [of m] by simp
qed

section \<open>The interface\<close>

locale codec =
  fixes enc :: "'x \<Rightarrow> bytes" and dec :: "bytes \<Rightarrow> 'x" and width :: nat
  assumes length_enc: "length (enc x) = width"
    and dec_enc: "dec (enc x) = x"
    and width_pos: "0 < width"
begin

lemma enc_inj: "enc x = enc y \<Longrightarrow> x = y"
  using dec_enc by metis

lemma length_concat_enc: "length (concat (map enc xs)) = width * length xs"
  by (rule concat_map_const_length) (simp add: length_enc)

lemma fread_enc: "fread width 1 (enc x @ ys) = Some (enc x, ys)"
  by (rule fread_append) (simp add: length_enc)

lemma fread_concat_enc:
  "fread width (length xs) (concat (map enc xs) @ ys) = Some (concat (map enc xs), ys)"
  by (rule fread_append) (simp add: length_concat_enc)

lemma concat_enc_inj:
  "concat (map enc xs) = concat (map enc ys) \<Longrightarrow> xs = ys"
proof (induction xs arbitrary: ys)
  case Nil
  then show ?case
    using length_concat_enc [of ys] width_pos length_enc by (cases ys) fastforce+
next
  case (Cons x xs)
  then obtain y zs where "ys = y # zs"
    using length_enc [of x] width_pos by (cases ys) auto
  with Cons show ?case
    by (auto simp: length_enc enc_inj)
qed

end

text \<open>Splitting a body into records of a fixed width, as indexing into the array does.\<close>

primrec chunks :: "nat \<Rightarrow> nat \<Rightarrow> bytes \<Rightarrow> bytes list" where
  "chunks w 0 bs = []"
| "chunks w (Suc n) bs = take w bs # chunks w n (drop w bs)"

lemma length_chunks [simp]: "length (chunks w n bs) = n"
  by (induction n arbitrary: bs) auto

lemma concat_chunks: "length bs = w * n \<Longrightarrow> concat (chunks w n bs) = bs"
  by (induction n arbitrary: bs) auto

lemma chunks_width: "length bs = w * n \<Longrightarrow> c \<in> set (chunks w n bs) \<Longrightarrow> length c = w"
proof (induction n arbitrary: bs)
  case 0
  then show ?case by simp
next
  case (Suc n)
  then show ?case
    using Suc.IH [of "drop w bs"] by auto
qed

context codec
begin

lemma chunks_concat_enc:
  "map dec (chunks width (length xs) (concat (map enc xs))) = xs"
  by (induction xs) (simp_all add: length_enc dec_enc)

end

locale exact_codec = codec +
  assumes enc_dec: "length bs = width \<Longrightarrow> enc (dec bs) = bs"
begin

lemma concat_enc_chunks:
  assumes "length bs = width * n"
  shows "concat (map enc (map dec (chunks width n bs))) = bs"
proof -
  have "map enc (map dec (chunks width n bs)) = chunks width n bs"
    using chunks_width [OF assms] by (auto simp: enc_dec intro: map_idI)
  then show ?thesis
    using concat_chunks [OF assms] by metis
qed

end

interpretation u16_codec: exact_codec "le_bytes 2 :: u16 \<Rightarrow> bytes" le_word 2
  by unfold_locales (simp_all add: le_word_le_bytes le_bytes_le_word take_bit_word_eq_self)

interpretation u32_codec: exact_codec "le_bytes 4 :: u32 \<Rightarrow> bytes" le_word 4
  by unfold_locales (simp_all add: le_word_le_bytes le_bytes_le_word take_bit_word_eq_self)

interpretation u64_codec: exact_codec "le_bytes 8 :: u64 \<Rightarrow> bytes" le_word 8
  by unfold_locales (simp_all add: le_word_le_bytes le_bytes_le_word take_bit_word_eq_self)

section \<open>Struct fields\<close>

text \<open>The field of \<open>n\<close> bytes at offset \<open>off\<close> of a struct's image.\<close>

definition fld :: "nat \<Rightarrow> nat \<Rightarrow> bytes \<Rightarrow> 'a::len word" where
  "fld off n bs = le_word (take n (drop off bs))"

lemma fld_le_bytes [wire]:
  fixes w :: "'a::len word"
  assumes "LENGTH('a) = 8 * n"
  shows "le_word (le_bytes n w) = w"
  using assms by (simp add: le_word_le_bytes take_bit_word_eq_self)

end
