(* ===== verification/Crc32.thy ===== *)
theory Crc32
  imports Byte_Codec
begin

text \<open>
  The table-driven CRC-32 of \<open>src/cuvs_util.c\<close> that guards every sidecar body. The
  lookup table is built by the code on first use (\<open>crc32_ensure_table\<close>, behind a static
  flag); it never changes afterwards, so it is the constant list \<open>crc32_table\<close> here. The
  lemmas show that the byte-at-a-time table walk is the bit-at-a-time shift register, that it
  streams over concatenation, and that it detects every corruption confined to four consecutive
  bytes. The locale \<open>checksum\<close> states that as the interface the sidecar readers rely on.
\<close>

section \<open>The code\<close>

text \<open>One turn of the inner loop of \<open>crc32_ensure_table\<close>.\<close>

definition crc_shift :: "u32 \<Rightarrow> u32" where
  "crc_shift c = (if c AND 1 \<noteq> 0 then 0xEDB88320 XOR drop_bit 1 c else drop_bit 1 c)"

definition crc32_table :: "u32 list" where
  "crc32_table = map (\<lambda>i. (crc_shift ^^ 8) (of_nat i)) [0..<256]"

definition cuvs_crc32_stream_begin :: u32 where
  "cuvs_crc32_stream_begin = 0xFFFFFFFF"

primrec cuvs_crc32_stream_update :: "u32 \<Rightarrow> bytes \<Rightarrow> u32" where
  "cuvs_crc32_stream_update crc [] = crc"
| "cuvs_crc32_stream_update crc (b # bs) =
     cuvs_crc32_stream_update
       (crc32_table ! unat ((crc XOR ucast b) AND 0xFF) XOR drop_bit 8 crc) bs"

definition cuvs_crc32_stream_end :: "u32 \<Rightarrow> u32" where
  "cuvs_crc32_stream_end crc = crc XOR 0xFFFFFFFF"

definition cuvs_crc32 :: "bytes \<Rightarrow> u32" where
  "cuvs_crc32 bs =
     cuvs_crc32_stream_end (cuvs_crc32_stream_update cuvs_crc32_stream_begin bs)"

section \<open>The reference: a bitwise shift register\<close>

primrec crc_ref :: "u32 \<Rightarrow> bytes \<Rightarrow> u32" where
  "crc_ref s [] = s"
| "crc_ref s (b # bs) = crc_ref ((crc_shift ^^ 8) (s XOR ucast b)) bs"

lemma crc_shift_bit: "crc_shift c = (if bit c 0 then 0xEDB88320 XOR drop_bit 1 c else drop_bit 1 c)"
  by (simp add: crc_shift_def and_one_eq odd_iff_mod_2_eq_one [symmetric] bit_0)

lemma crc_shift_xor: "crc_shift (a XOR b) = crc_shift a XOR crc_shift b"
  by (auto simp: crc_shift_bit bit_xor_iff drop_bit_xor ac_simps)

lemma crc_shifts_xor: "(crc_shift ^^ n) (a XOR b) = (crc_shift ^^ n) a XOR (crc_shift ^^ n) b"
  by (induction n) (simp_all add: crc_shift_xor)

lemma crc_shift_top: "bit (crc_shift c) 31 = bit c 0"
  by (simp add: crc_shift_bit bit_xor_iff bit_drop_bit_eq bit_word_iff_drop_bit_and)

lemma crc_shift_inj: "crc_shift a = crc_shift b \<Longrightarrow> a = b"
proof -
  assume eq: "crc_shift a = crc_shift b"
  then have lo: "bit a 0 = bit b 0"
    using crc_shift_top by metis
  with eq have "drop_bit 1 a = drop_bit 1 b"
    by (auto simp: crc_shift_bit split: if_splits)
  then have hi: "bit a (Suc i) = bit b (Suc i)" for i
    using bit_drop_bit_eq [of 1 a] bit_drop_bit_eq [of 1 b] by (metis comp_apply plus_1_eq_Suc)
  have "bit a i = bit b i" for i
    using lo hi by (cases i) auto
  then show "a = b"
    by (simp add: bit_eq_iff)
qed

lemma crc_shifts_inj: "(crc_shift ^^ n) a = (crc_shift ^^ n) b \<Longrightarrow> a = b"
  by (induction n) (auto dest: crc_shift_inj)

text \<open>Zeros below the top of the register shift out without meeting the polynomial.\<close>

lemma crc_shifts_push:
  assumes "take_bit (32 - n) y = y" "n \<le> 32"
  shows "(crc_shift ^^ n) (push_bit n y) = y"
  using assms
proof (induction n arbitrary: y)
  case 0
  then show ?case by simp
next
  case (Suc n)
  have "crc_shift (push_bit (Suc n) y) = push_bit n y"
  proof -
    have low: "bit y i \<Longrightarrow> i < 32 - Suc n" for i
      using Suc.prems(1) by (metis bit_take_bit_iff)
    have "drop_bit 1 (push_bit (Suc n) y) = push_bit n y"
    proof (rule bit_word_eqI)
      fix m assume "m < LENGTH(32)"
      then show "bit (drop_bit 1 (push_bit (Suc n) y)) m = bit (push_bit n y) m"
        using low [of "m - n"]
        by (auto simp: bit_drop_bit_eq bit_push_bit_iff simp del: push_bit_Suc)
    qed
    then show ?thesis
      by (simp add: crc_shift_bit bit_push_bit_iff del: push_bit_Suc)
  qed
  moreover have "take_bit (32 - n) y = y"
  proof -
    have "take_bit (32 - n) (take_bit (32 - Suc n) y) = take_bit (32 - Suc n) y"
      by (simp add: min_def)
    then show ?thesis
      by (simp only: Suc.prems(1))
  qed
  ultimately show ?case
    using Suc.IH [of y] Suc.prems(2) by (simp add: funpow_swap1)
qed

section \<open>The table walk is the shift register\<close>

lemma crc32_table_nth [wire]:
  "i < 256 \<Longrightarrow> crc32_table ! i = (crc_shift ^^ 8) (of_nat i)"
  by (simp add: crc32_table_def)

lemma length_crc32_table: "length crc32_table = 256"
  by (simp add: crc32_table_def)

lemma crc_low_byte_lookup:
  "crc32_table ! unat (x AND 0xFF) XOR drop_bit 8 x = (crc_shift ^^ 8) x"
proof -
  have mask: "x AND 0xFF = take_bit 8 x"
    using take_bit_eq_mask [of 8 x] by (simp add: mask_eq_exp_minus_1)
  have "unat (take_bit 8 x) < 256"
    using take_bit_nat_less_exp [of 8 "unat x"] by (simp add: unsigned_take_bit_eq)
  then have lookup: "crc32_table ! unat (x AND 0xFF) = (crc_shift ^^ 8) (take_bit 8 x)"
    by (simp add: mask crc32_table_nth)
  have "take_bit (32 - 8) (drop_bit 8 x) = drop_bit 8 x"
    by (simp add: take_bit_drop_bit take_bit_word_eq_self)
  then have "(crc_shift ^^ 8) (push_bit 8 (drop_bit 8 x)) = drop_bit 8 x"
    by (intro crc_shifts_push) simp_all
  moreover have "x = take_bit 8 x XOR push_bit 8 (drop_bit 8 x)"
    by (rule bit_word_eqI)
       (auto simp: bit_xor_iff bit_take_bit_iff bit_push_bit_iff bit_drop_bit_eq)
  ultimately show ?thesis
    using crc_shifts_xor [of 8 "take_bit 8 x" "push_bit 8 (drop_bit 8 x)"] lookup by simp
qed

lemma update_ref: "cuvs_crc32_stream_update s bs = crc_ref s bs"
proof (induction bs arbitrary: s)
  case (Cons b bs)
  have "drop_bit 8 s = drop_bit 8 (s XOR ucast b)"
  proof -
    have "drop_bit 8 (ucast b :: u32) = 0"
      by (rule bit_word_eqI) (auto simp: bit_drop_bit_eq bit_ucast_iff dest: bit_imp_le_length)
    then show ?thesis by (simp add: drop_bit_xor)
  qed
  then show ?case
    using crc_low_byte_lookup [of "s XOR ucast b"] Cons.IH by simp
qed simp

section \<open>Streaming and error detection\<close>

lemma update_append:
  "cuvs_crc32_stream_update s (xs @ ys) = cuvs_crc32_stream_update (cuvs_crc32_stream_update s xs) ys"
  by (induction xs arbitrary: s) auto

lemma crc_ref_inj: "crc_ref s xs = crc_ref t xs \<Longrightarrow> s = t"
  by (induction xs arbitrary: s t) (simp, metis crc_ref.simps(2) crc_shifts_inj xor_right_inject)

text \<open>
  Up to four bytes can be folded into the register at once: their contribution is their
  little-endian word. This is what makes the burst-detection argument a counting one.
\<close>

lemma crc_ref_word:
  assumes "length u \<le> 4"
  shows "crc_ref s u = (crc_shift ^^ (8 * length u)) (s XOR le_word u)"
  using assms
proof (induction u arbitrary: s)
  case (Cons b u)
  let ?w = "le_word u :: u32"
  have low: "take_bit (32 - 8) ?w = ?w"
  proof (rule bit_word_eqI)
    fix i assume "i < LENGTH(32)"
    show "bit (take_bit (32 - 8) ?w) i = bit ?w i"
      using le_word_bit_bound [of u i, where 'a = 32] Cons.prems by (auto simp: bit_take_bit_iff)
  qed
  have disj: "le_word (b # u) = (ucast b :: u32) XOR push_bit 8 ?w"
    by (rule bit_word_eqI)
       (auto simp: bit_or_iff bit_xor_iff bit_push_bit_iff bit_ucast_iff dest: bit_imp_le_length)
  have "(crc_shift ^^ 8) (s XOR le_word (b # u)) = (crc_shift ^^ 8) (s XOR ucast b) XOR ?w"
    unfolding disj
    using crc_shifts_xor [of 8 "s XOR ucast b" "push_bit 8 ?w"] crc_shifts_push [OF low]
    by (simp add: ac_simps)
  moreover have "(crc_shift ^^ (8 * length (b # u))) x
      = (crc_shift ^^ (8 * length u)) ((crc_shift ^^ 8) x)" for x
    using funpow_add [of "8 * length u" 8 crc_shift] by (simp add: add.commute)
  ultimately show ?case
    using Cons.IH [of "(crc_shift ^^ 8) (s XOR ucast b)"] Cons.prems by simp
qed simp

lemma le_word_inj:
  assumes "length u = length v" "8 * length u \<le> LENGTH('a::len)"
    and "(le_word u :: 'a word) = le_word v"
  shows "u = v"
  using assms le_bytes_le_word [of u "length u", where 'a = 'a]
    le_bytes_le_word [of v "length v", where 'a = 'a] by metis

lemma update_burst:
  assumes "length u = length v" "length u \<le> 4"
    and "cuvs_crc32_stream_update s u = cuvs_crc32_stream_update s v"
  shows "u = v"
proof -
  have "(crc_shift ^^ (8 * length u)) (s XOR le_word u) = (crc_shift ^^ (8 * length u)) (s XOR le_word v)"
    using assms by (simp add: update_ref crc_ref_word)
  then have "s XOR le_word u = s XOR le_word v"
    by (rule crc_shifts_inj)
  then show ?thesis
    using assms by (intro le_word_inj [where 'a = 32]) simp_all
qed

section \<open>The interface\<close>

locale checksum =
  fixes start :: 's and update :: "'s \<Rightarrow> bytes \<Rightarrow> 's" and finish :: "'s \<Rightarrow> 'c"
  assumes upd_nil: "update s [] = s"
    and upd_append: "update s (xs @ ys) = update (update s xs) ys"
    and upd_inj: "update s xs = update t xs \<Longrightarrow> s = t"
    and upd_burst: "length u = length v \<Longrightarrow> length u \<le> 4 \<Longrightarrow> update s u = update s v \<Longrightarrow> u = v"
    and finish_inj: "finish s = finish t \<Longrightarrow> s = t"
begin

text \<open>Feeding the parts one after another is feeding their concatenation.\<close>

lemma fold_parts: "fold (\<lambda>p s. update s p) ps s = update s (concat ps)"
  by (induction ps arbitrary: s) (simp_all add: upd_nil upd_append)

lemma detects_burst:
  assumes "length u = length v" "length u \<le> 4"
    and "finish (update start (xs @ u @ ys)) = finish (update start (xs @ v @ ys))"
  shows "u = v"
proof -
  have "update (update (update start xs) u) ys = update (update (update start xs) v) ys"
    using finish_inj [OF assms(3)] by (simp only: upd_append)
  then show ?thesis
    using upd_inj upd_burst assms(1,2) by blast
qed

lemma detects_byte:
  assumes "i < length xs" "finish (update start (xs[i := b])) = finish (update start xs)"
  shows "b = xs ! i"
proof -
  have "[b] = [xs ! i]"
    using assms detects_burst [of "[b]" "[xs ! i]" "take i xs" "drop (Suc i) xs"]
    by (simp add: upd_conv_take_nth_drop id_take_nth_drop [of i xs, symmetric])
  then show ?thesis by simp
qed

end

interpretation crc: checksum cuvs_crc32_stream_begin cuvs_crc32_stream_update cuvs_crc32_stream_end
proof unfold_locales
  show "cuvs_crc32_stream_update s (xs @ ys)
      = cuvs_crc32_stream_update (cuvs_crc32_stream_update s xs) ys" for s xs ys
    by (rule update_append)
  show "cuvs_crc32_stream_update s xs = cuvs_crc32_stream_update t xs \<Longrightarrow> s = t" for s t xs
    unfolding update_ref by (rule crc_ref_inj)
qed (simp_all add: update_burst cuvs_crc32_stream_end_def)

lemma cuvs_crc32_detects_byte:
  "i < length xs \<Longrightarrow> cuvs_crc32 (xs[i := b]) = cuvs_crc32 xs \<longleftrightarrow> b = xs ! i"
  using crc.detects_byte [of i xs b] by (auto simp: cuvs_crc32_def)

text \<open>
  The table-driven checksum is the bitwise CRC-32 (reflected polynomial \<open>0xEDB88320\<close>,
  initial value and final inversion all ones), whether the data comes in one piece or streamed in
  any number of parts.
\<close>

theorem crc32_is_bitwise:
  "cuvs_crc32 (concat ps) = crc_ref 0xFFFFFFFF (concat ps) XOR 0xFFFFFFFF \<and>
   cuvs_crc32_stream_end (fold (\<lambda>p s. cuvs_crc32_stream_update s p) ps cuvs_crc32_stream_begin)
     = cuvs_crc32 (concat ps)"
  unfolding crc.fold_parts
  by (simp add: cuvs_crc32_def cuvs_crc32_stream_end_def cuvs_crc32_stream_begin_def update_ref)

end
