(* ===== verification/Sidecars.thy ===== *)
theory Sidecars
  imports Crc32
begin

text \<open>
  The versioned, checksummed sidecar files \<open>.tids\<close> and \<open>.vectors\<close> of
  \<open>src/cuvs_util.c\<close>: header layout (\<open>src/cuvs_util.h\<close>), writer and reader. The
  locale \<open>sidecar\<close> is the shape every reader of a header-plus-checksummed-body file has;
  round trip, truncation and corruption are proved once inside it, and the readers interpret it.
  Allocation is the parameter \<open>mem\<close>: whether \<open>malloc\<close> of so many bytes succeeds.
  The readers return \<open>None\<close> for the C result -1.
\<close>

section \<open>The shape of a checksummed sidecar reader\<close>

locale sidecar =
  hdr: codec henc hdec hw + itm: codec ienc idec iw
  for henc :: "'h \<Rightarrow> bytes" and hdec and hw and ienc :: "'i \<Rightarrow> bytes" and idec and iw +
  fixes ok :: "'h \<Rightarrow> bool" and count :: "'h \<Rightarrow> nat" and crc_of :: "'h \<Rightarrow> u32"
    and accept :: "'h \<Rightarrow> 'i list \<Rightarrow> bool" and reader :: "bytes \<Rightarrow> ('h \<times> 'i list) option"
  assumes reader_eq: "reader f =
    (case fread hw 1 f of None \<Rightarrow> None | Some (hb, f1) \<Rightarrow>
      if \<not> ok (hdec hb) then None else
      (case fread iw (count (hdec hb)) f1 of None \<Rightarrow> None | Some (body, f2) \<Rightarrow>
        if cuvs_crc32 body \<noteq> crc_of (hdec hb) then None
        else if accept (hdec hb) (map idec (chunks iw (count (hdec hb)) body))
        then Some (hdec hb, map idec (chunks iw (count (hdec hb)) body)) else None))"
begin

lemma roundtrip:
  assumes "ok h" "count h = length xs" "crc_of h = cuvs_crc32 (concat (map ienc xs))" "accept h xs"
  shows "reader (henc h @ concat (map ienc xs) @ rest) = Some (h, xs)"
  using assms hdr.fread_enc [of h "concat (map ienc xs) @ rest"]
    itm.fread_concat_enc [of xs rest] itm.chunks_concat_enc [of xs]
  by (simp add: reader_eq hdr.dec_enc)

lemma parts:
  assumes "reader f = Some (h, xs)"
  obtains hb body rest where
    "f = hb @ body @ rest" "length hb = hw" "h = hdec hb" "ok h" "length body = iw * count h"
    "cuvs_crc32 body = crc_of h" "xs = map idec (chunks iw (count h) body)" "accept h xs"
proof -
  obtain hb f1 where 1: "fread hw 1 f = Some (hb, f1)"
    using assms by (auto simp: reader_eq split: option.splits)
  obtain body f2 where 2: "fread iw (count (hdec hb)) f1 = Some (body, f2)"
    using assms 1 by (auto simp: reader_eq split: option.splits if_splits)
  show ?thesis
    using assms 1 2 fread_SomeD [OF 1] fread_SomeD [OF 2]
    by (intro that [of hb body f2]) (auto simp: reader_eq split: if_splits)
qed

lemma length_items: "reader f = Some (h, xs) \<Longrightarrow> length xs = count h"
  by (erule parts) simp

lemma truncated:
  assumes "reader f = Some (h, xs)" "m < hw + iw * count h"
  shows "reader (take m f) = None"
proof (cases "m < hw")
  case True
  then show ?thesis
    by (simp add: reader_eq fread_def)
next
  case False
  from assms(1) obtain hb body rest where
    f: "f = hb @ body @ rest" "length hb = hw" "h = hdec hb" "length body = iw * count h"
    by (rule parts)
  then have "fread hw 1 (take m f) = Some (hb, take (m - hw) (body @ rest))"
    using False by (simp add: fread_def)
  moreover have "fread iw (count h) (take (m - hw) (body @ rest)) = None"
    using False assms(2) f by (auto simp: fread_None_iff)
  ultimately show ?thesis
    using f by (simp add: reader_eq)
qed

lemma corrupted:
  assumes "reader (hb @ xs @ u @ ys @ rest) = Some (h, is)"
    and "length hb = hw" "length (xs @ u @ ys) = iw * count h"
    and "length v = length u" "length u \<le> 4" "u \<noteq> v"
  shows "reader (hb @ xs @ v @ ys @ rest) = None"
proof -
  obtain hb' body rest' where
    f: "hb @ (xs @ u @ ys) @ rest = hb' @ body @ rest'" "length hb' = hw" "h = hdec hb'"
       "length body = iw * count h" "cuvs_crc32 body = crc_of h"
    using parts [OF assms(1)] by (metis append_assoc)
  have "hb' = hb" and "body = xs @ u @ ys"
    using f(1,2,4) assms(2,3) append_eq_append_conv [of hb hb']
      append_eq_append_conv [of "xs @ u @ ys" body] by metis+
  then have h: "h = hdec hb" and c: "cuvs_crc32 (xs @ u @ ys) = crc_of h"
    using f by simp_all
  have "cuvs_crc32 (xs @ v @ ys) \<noteq> cuvs_crc32 (xs @ u @ ys)"
    using crc.detects_burst [of v u xs ys] assms(4-6) by (auto simp: cuvs_crc32_def)
  moreover have "fread hw 1 (hb @ xs @ v @ ys @ rest) = Some (hb, xs @ v @ ys @ rest)"
    and "fread iw (count h) (xs @ v @ ys @ rest) = Some (xs @ v @ ys, rest)"
    using fread_append [of hb hw 1] fread_append [of "xs @ v @ ys" iw "count h" rest] assms(2-4)
    by simp_all
  ultimately show ?thesis
    using c h by (simp add: reader_eq)
qed

end

section \<open>The \<open>.tids\<close> sidecar\<close>

definition CUVS_TIDS_MAGIC :: u32 where "CUVS_TIDS_MAGIC = 0x53444954"
definition CUVS_TIDS_VERSION :: u32 where "CUVS_TIDS_VERSION = 1"
definition CUVS_TIDS_MAX_VECS :: int where "CUVS_TIDS_MAX_VECS = 1000000000"

record CuvsTidsHeader =
  th_magic :: u32
  th_version :: u32
  th_n_vecs :: u64
  th_dim :: u32
  th_metric :: u32
  th_body_crc32 :: u32
  th_reserved :: u32

definition tids_header_bytes :: "CuvsTidsHeader \<Rightarrow> bytes" where
  "tids_header_bytes h =
     le_bytes 4 (th_magic h) @ le_bytes 4 (th_version h) @ le_bytes 8 (th_n_vecs h)
     @ le_bytes 4 (th_dim h) @ le_bytes 4 (th_metric h) @ le_bytes 4 (th_body_crc32 h)
     @ le_bytes 4 (th_reserved h)"

definition tids_header_of :: "bytes \<Rightarrow> CuvsTidsHeader" where
  "tids_header_of bs = \<lparr>th_magic = fld 0 4 bs, th_version = fld 4 4 bs, th_n_vecs = fld 8 8 bs,
     th_dim = fld 16 4 bs, th_metric = fld 20 4 bs, th_body_crc32 = fld 24 4 bs,
     th_reserved = fld 28 4 bs\<rparr>"

definition cuvs_tids_write :: "wfile \<Rightarrow> u64 \<Rightarrow> u32 \<Rightarrow> u32 \<Rightarrow> u64 list \<Rightarrow> int \<times> wfile" where
  "cuvs_tids_write f n_vecs dim metric tids =
    (let image = concat (map (le_bytes 8) tids);
         hdr = \<lparr>th_magic = CUVS_TIDS_MAGIC, th_version = CUVS_TIDS_VERSION, th_n_vecs = n_vecs,
                th_dim = dim, th_metric = metric,
                th_body_crc32 = cuvs_crc32 (take (unat (n_vecs * 8)) image), th_reserved = 0\<rparr>;
         (ok1, f1) = fwrite (tids_header_bytes hdr) f
     in if \<not> ok1 then (-1, f1)
        else let (ok2, f2) = fwrite (take (8 * unat n_vecs) image) f1
             in if \<not> ok2 then (-1, f2) else (0, f2))"

definition cuvs_tids_read ::
  "(nat \<Rightarrow> bool) \<Rightarrow> bytes \<Rightarrow> (CuvsTidsHeader \<times> u64 list) option" where
  "cuvs_tids_read mem f =
    (case fread 32 1 f of
       None \<Rightarrow> None
     | Some (hb, f1) \<Rightarrow>
         (let hdr = tids_header_of hb in
          if th_magic hdr \<noteq> CUVS_TIDS_MAGIC then None
          else if th_version hdr \<noteq> CUVS_TIDS_VERSION then None
          else if sint (th_n_vecs hdr) \<le> 0 \<or> sint (th_n_vecs hdr) > CUVS_TIDS_MAX_VECS then None
          else if th_reserved hdr \<noteq> 0 then None
          else let body_bytes = unat (th_n_vecs hdr * 8) in
          if \<not> mem body_bytes then None
          else (case fread 8 (unat (th_n_vecs hdr)) f1 of
                  None \<Rightarrow> None
                | Some (body, f2) \<Rightarrow>
                    if cuvs_crc32 (take body_bytes body) \<noteq> th_body_crc32 hdr then None
                    else Some (hdr, map le_word (chunks 8 (unat (th_n_vecs hdr)) body)))))"

text \<open>The checks of the reader before it allocates, as one predicate.\<close>

definition tids_header_ok :: "(nat \<Rightarrow> bool) \<Rightarrow> CuvsTidsHeader \<Rightarrow> bool" where
  "tids_header_ok mem h \<longleftrightarrow>
     th_magic h = CUVS_TIDS_MAGIC \<and> th_version h = CUVS_TIDS_VERSION \<and>
     0 < sint (th_n_vecs h) \<and> sint (th_n_vecs h) \<le> CUVS_TIDS_MAX_VECS \<and>
     th_reserved h = 0 \<and> mem (8 * unat (th_n_vecs h))"

lemma vecs_no_overflow [cint]:
  assumes "0 < sint (n :: u64)" "sint n \<le> CUVS_TIDS_MAX_VECS" "c \<le> 1000000000"
  shows "unat (n * of_nat c) = unat n * c"
proof -
  have n: "unat n \<le> 1000000000"
    using assms sint_bound_unat [of n 1000000000] by (simp add: CUVS_TIDS_MAX_VECS_def)
  have c: "unat (of_nat c :: u64) = c"
    using assms(3) by (simp add: unat_of_nat)
  have "unat n * c \<le> 1000000000 * 1000000000"
    using n assms(3) by (rule mult_le_mono)
  then show ?thesis
    using c by (subst unat_mult_small) simp_all
qed

lemmas vecs_bytes = vecs_no_overflow [where c = 8, simplified]

interpretation tids_hdr: codec tids_header_bytes tids_header_of 32
  by unfold_locales
     (simp_all add: tids_header_bytes_def tids_header_of_def fld_def wire)

interpretation tids_file: sidecar tids_header_bytes tids_header_of 32
  "le_bytes 8 :: u64 \<Rightarrow> bytes" le_word 8
  "tids_header_ok mem" "\<lambda>h. unat (th_n_vecs h)" th_body_crc32 "\<lambda>_ _. True" "cuvs_tids_read mem"
  for mem
  by unfold_locales
     (auto simp: cuvs_tids_read_def tids_header_ok_def Let_def vecs_bytes not_le mult.commute
       dest!: fread_SomeD(2) split: option.split)

section \<open>The \<open>.vectors\<close> sidecar\<close>

text \<open>
  A float is carried as its 32 bits. The C struct has 36 bytes of fields and 4 bytes of tail
  padding (the 64-bit field aligns it to 8), which both writers clear with \<open>memset\<close>;
  the file header is therefore 40 bytes.
\<close>

definition CUVS_VECTORS_MAGIC :: u32 where "CUVS_VECTORS_MAGIC = 0x53434556"
definition CUVS_VECTORS_VERSION :: u32 where "CUVS_VECTORS_VERSION = 1"
definition CUVS_VECTORS_MAX_DIM :: nat where "CUVS_VECTORS_MAX_DIM = 65535"

record CuvsVectorsHeader =
  vh_magic :: u32
  vh_version :: u32
  vh_n_vecs :: u64
  vh_dim :: u32
  vh_metric :: u32
  vh_body_crc32 :: u32
  vh_base_tids_crc32 :: u32
  vh_reserved :: u32

definition vectors_header_bytes :: "CuvsVectorsHeader \<Rightarrow> bytes" where
  "vectors_header_bytes h =
     le_bytes 4 (vh_magic h) @ le_bytes 4 (vh_version h) @ le_bytes 8 (vh_n_vecs h)
     @ le_bytes 4 (vh_dim h) @ le_bytes 4 (vh_metric h) @ le_bytes 4 (vh_body_crc32 h)
     @ le_bytes 4 (vh_base_tids_crc32 h) @ le_bytes 4 (vh_reserved h) @ [0, 0, 0, 0]"

definition vectors_header_of :: "bytes \<Rightarrow> CuvsVectorsHeader" where
  "vectors_header_of bs = \<lparr>vh_magic = fld 0 4 bs, vh_version = fld 4 4 bs, vh_n_vecs = fld 8 8 bs,
     vh_dim = fld 16 4 bs, vh_metric = fld 20 4 bs, vh_body_crc32 = fld 24 4 bs,
     vh_base_tids_crc32 = fld 28 4 bs, vh_reserved = fld 32 4 bs\<rparr>"

definition cuvs_vectors_write ::
  "wfile \<Rightarrow> u64 \<Rightarrow> u32 \<Rightarrow> u32 \<Rightarrow> u32 \<Rightarrow> u32 list \<Rightarrow> int \<times> wfile" where
  "cuvs_vectors_write f n_vecs dim metric base_tids_crc32 vecs =
    (let body_n = n_vecs * ucast dim;
         image = concat (map (le_bytes 4) vecs);
         hdr = \<lparr>vh_magic = CUVS_VECTORS_MAGIC, vh_version = CUVS_VECTORS_VERSION,
                vh_n_vecs = n_vecs, vh_dim = dim, vh_metric = metric,
                vh_body_crc32 = cuvs_crc32 (take (unat (body_n * 4)) image),
                vh_base_tids_crc32 = base_tids_crc32, vh_reserved = 0\<rparr>;
         (ok1, f1) = fwrite (vectors_header_bytes hdr) f
     in if \<not> ok1 then (-1, f1)
        else let (ok2, f2) = fwrite (take (4 * unat body_n) image) f1
             in if \<not> ok2 then (-1, f2) else (0, f2))"

text \<open>
  The multi-partition writer: a first pass over the partitions accumulates the checksum and the
  total (partitions with \<open>n_each[i] <= 0\<close> are skipped), a second pass writes them.
\<close>

primrec vectors_multi_scan :: "u32 \<Rightarrow> (u64 \<times> u32 list) list \<Rightarrow> u32 \<Rightarrow> u64 \<Rightarrow> u32 \<times> u64" where
  "vectors_multi_scan dim [] crc tot = (crc, tot)"
| "vectors_multi_scan dim (p # ps) crc tot =
     (if sint (fst p) \<le> 0 then vectors_multi_scan dim ps crc tot
      else let body_n = fst p * ucast dim
           in vectors_multi_scan dim ps
                (cuvs_crc32_stream_update crc
                   (take (unat (body_n * 4)) (concat (map (le_bytes 4) (snd p)))))
                (tot + fst p))"

primrec vectors_multi_body :: "u32 \<Rightarrow> (u64 \<times> u32 list) list \<Rightarrow> wfile \<Rightarrow> int \<times> wfile" where
  "vectors_multi_body dim [] f = (0, f)"
| "vectors_multi_body dim (p # ps) f =
     (if sint (fst p) \<le> 0 then vectors_multi_body dim ps f
      else let body_n = fst p * ucast dim;
               (ok, f1) = fwrite (take (4 * unat body_n) (concat (map (le_bytes 4) (snd p)))) f
           in if \<not> ok then (-1, f1) else vectors_multi_body dim ps f1)"

definition cuvs_vectors_write_multi ::
  "wfile \<Rightarrow> (u64 \<times> u32 list) list \<Rightarrow> u32 \<Rightarrow> u32 \<Rightarrow> u32 \<Rightarrow> int \<times> wfile" where
  "cuvs_vectors_write_multi f parts dim metric base_tids_crc32 =
    (let (crc, tot) = vectors_multi_scan dim parts cuvs_crc32_stream_begin 0;
         hdr = \<lparr>vh_magic = CUVS_VECTORS_MAGIC, vh_version = CUVS_VECTORS_VERSION,
                vh_n_vecs = tot, vh_dim = dim, vh_metric = metric,
                vh_body_crc32 = cuvs_crc32_stream_end crc,
                vh_base_tids_crc32 = base_tids_crc32, vh_reserved = 0\<rparr>;
         (ok1, f1) = fwrite (vectors_header_bytes hdr) f
     in if \<not> ok1 then (-1, f1) else vectors_multi_body dim parts f1)"

definition cuvs_vectors_read ::
  "(nat \<Rightarrow> bool) \<Rightarrow> bytes \<Rightarrow> (CuvsVectorsHeader \<times> u32 list) option" where
  "cuvs_vectors_read mem f =
    (case fread 40 1 f of
       None \<Rightarrow> None
     | Some (hb, f1) \<Rightarrow>
         (let hdr = vectors_header_of hb in
          if vh_magic hdr \<noteq> CUVS_VECTORS_MAGIC then None
          else if vh_version hdr \<noteq> CUVS_VECTORS_VERSION then None
          else if sint (vh_n_vecs hdr) \<le> 0 \<or> sint (vh_n_vecs hdr) > CUVS_TIDS_MAX_VECS then None
          else if vh_dim hdr = 0 \<or> unat (vh_dim hdr) > CUVS_VECTORS_MAX_DIM then None
          else if vh_reserved hdr \<noteq> 0 then None
          else let body_n = vh_n_vecs hdr * ucast (vh_dim hdr) in
          if \<not> mem (unat (body_n * 4)) then None
          else (case fread 4 (unat body_n) f1 of
                  None \<Rightarrow> None
                | Some (body, f2) \<Rightarrow>
                    if cuvs_crc32 (take (unat (body_n * 4)) body) \<noteq> vh_body_crc32 hdr then None
                    else Some (hdr, map le_word (chunks 4 (unat body_n) body)))))"

definition vectors_header_ok :: "(nat \<Rightarrow> bool) \<Rightarrow> CuvsVectorsHeader \<Rightarrow> bool" where
  "vectors_header_ok mem h \<longleftrightarrow>
     vh_magic h = CUVS_VECTORS_MAGIC \<and> vh_version h = CUVS_VECTORS_VERSION \<and>
     0 < sint (vh_n_vecs h) \<and> sint (vh_n_vecs h) \<le> CUVS_TIDS_MAX_VECS \<and>
     vh_dim h \<noteq> 0 \<and> unat (vh_dim h) \<le> CUVS_VECTORS_MAX_DIM \<and> vh_reserved h = 0 \<and>
     mem (4 * (unat (vh_n_vecs h) * unat (vh_dim h)))"

lemma vectors_body_n [cint]:
  fixes n :: u64 and dim :: u32
  assumes "0 < sint n" "sint n \<le> CUVS_TIDS_MAX_VECS" "unat dim \<le> CUVS_VECTORS_MAX_DIM"
  shows "unat (n * ucast dim) = unat n * unat dim"
    and "unat (n * ucast dim * 4) = 4 * (unat n * unat dim)"
proof -
  have d: "ucast dim = (of_nat (unat dim) :: u64)"
    by simp
  show 1: "unat (n * ucast dim) = unat n * unat dim"
    unfolding d using assms vecs_no_overflow [of n "unat dim"]
    by (simp add: CUVS_VECTORS_MAX_DIM_def)
  have "n * ucast dim * 4 = n * of_nat (unat dim * 4)"
    by simp
  then have "unat (n * ucast dim * 4) = unat n * (unat dim * 4)"
    using assms vecs_no_overflow [of n "unat dim * 4"]
    by (simp add: CUVS_VECTORS_MAX_DIM_def mult.assoc)
  then show "unat (n * ucast dim * 4) = 4 * (unat n * unat dim)"
    by simp
qed

interpretation vectors_hdr: codec vectors_header_bytes vectors_header_of 40
  by unfold_locales
     (simp_all add: vectors_header_bytes_def vectors_header_of_def fld_def wire)

interpretation vectors_file: sidecar vectors_header_bytes vectors_header_of 40
  "le_bytes 4 :: u32 \<Rightarrow> bytes" le_word 4
  "vectors_header_ok mem" "\<lambda>h. unat (vh_n_vecs h) * unat (vh_dim h)" vh_body_crc32 "\<lambda>_ _. True"
  "cuvs_vectors_read mem"
  for mem
  by unfold_locales
     (auto simp: cuvs_vectors_read_def vectors_header_ok_def Let_def vectors_body_n not_le not_less
       dest!: fread_SomeD(2) split: option.split)

section \<open>The partitioned writer\<close>

text \<open>A partition is well formed when its array holds the rows its count announces.\<close>

definition live_parts :: "(u64 \<times> u32 list) list \<Rightarrow> (u64 \<times> u32 list) list" where
  "live_parts parts = [p \<leftarrow> parts. 0 < sint (fst p)]"

definition part_ok :: "u32 \<Rightarrow> u64 \<times> u32 list \<Rightarrow> bool" where
  "part_ok dim p \<longleftrightarrow> 0 < sint (fst p) \<and> sint (fst p) \<le> CUVS_TIDS_MAX_VECS
     \<and> length (snd p) = unat (fst p) * unat dim"

lemma length_image [wire]: "length (concat (map (le_bytes 4) vs)) = 4 * length vs"
  by (rule concat_map_const_length) simp

lemma part_image:
  assumes "part_ok dim p" "unat dim \<le> CUVS_VECTORS_MAX_DIM"
  shows "take (unat (fst p * ucast dim * 4)) (concat (map (le_bytes 4) (snd p)))
      = concat (map (le_bytes 4) (snd p))"
    and "take (4 * unat (fst p * ucast dim)) (concat (map (le_bytes 4) (snd p)))
      = concat (map (le_bytes 4) (snd p))"
  using assms by (simp_all add: part_ok_def vectors_body_n wire)

lemma vectors_multi_scan_eq:
  assumes "\<forall>p \<in> set (live_parts parts). part_ok dim p" "unat dim \<le> CUVS_VECTORS_MAX_DIM"
  shows "vectors_multi_scan dim parts crc tot =
    (cuvs_crc32_stream_update crc (concat (map (le_bytes 4) (concat (map snd (live_parts parts))))),
     tot + (\<Sum>p\<leftarrow>live_parts parts. fst p))"
  using assms
  by (induction parts arbitrary: crc tot)
     (auto simp: live_parts_def part_image update_append not_le add.assoc)

lemma vectors_multi_body_eq:
  assumes "\<forall>p \<in> set (live_parts parts). part_ok dim p" "unat dim \<le> CUVS_VECTORS_MAX_DIM"
  shows "vectors_multi_body dim parts f =
    (case fwrite (concat (map (le_bytes 4) (concat (map snd (live_parts parts))))) f of
       (ok, g) \<Rightarrow> (if ok then 0 else -1, g))"
  using assms
  by (induction parts arbitrary: f)
     (auto simp: live_parts_def part_image not_le fwrite_append split: prod.splits bool.splits)

lemma sint_of_nat_vecs [cint]:
  "T \<le> 1000000000 \<Longrightarrow> sint (of_nat T :: u64) = int T"
  by (simp add: signed_of_nat signed_take_bit_int_eq_self)

lemma unat_of_nat_vecs [cint]:
  "T \<le> 1000000000 \<Longrightarrow> unat (of_nat T :: u64) = T"
  by (simp add: unat_of_nat)

lemma sum_list_fst_of_nat:
  "(\<Sum>p\<leftarrow>ps. fst p) = (of_nat (\<Sum>p\<leftarrow>ps. unat (fst p)) :: u64)"
  by (induction ps) simp_all

lemma length_parts:
  assumes "\<forall>p \<in> set ps. part_ok dim p"
  shows "length (concat (map snd ps)) = (\<Sum>p\<leftarrow>ps. unat (fst p)) * unat dim"
  using assms by (induction ps) (auto simp: part_ok_def algebra_simps)

lemma vectors_body_n_nat [cint]:
  fixes dim :: u32
  assumes "T \<le> 1000000000" "unat dim \<le> CUVS_VECTORS_MAX_DIM"
  shows "unat (of_nat T * ucast dim :: u64) = T * unat dim"
    and "unat (of_nat T * ucast dim * 4 :: u64) = 4 * (T * unat dim)"
  using assms vectors_body_n [of "of_nat T" dim]
  by (cases "T = 0"; simp add: sint_of_nat_vecs unat_of_nat_vecs CUVS_TIDS_MAX_VECS_def)+

section \<open>Properties\<close>

lemma tids_write_read:
  assumes "length tids = unat n_vecs" "0 < sint n_vecs" "sint n_vecs \<le> CUVS_TIDS_MAX_VECS"
    and "rc = 0 \<or> 32 + 8 * length tids \<le> room f" "written f = []" "mem (8 * length tids)"
    and "cuvs_tids_write f n_vecs dim metric tids = (rc, g)"
  shows "rc = 0 \<and> (\<exists>h. cuvs_tids_read mem (written g @ rest) = Some (h, tids)
    \<and> th_n_vecs h = n_vecs \<and> th_dim h = dim \<and> th_metric h = metric
    \<and> th_body_crc32 h = cuvs_crc32 (concat (map (le_bytes 8) tids)))"
proof -
  let ?image = "concat (map (le_bytes 8) tids)"
  define h where "h = \<lparr>th_magic = CUVS_TIDS_MAGIC, th_version = CUVS_TIDS_VERSION,
    th_n_vecs = n_vecs, th_dim = dim, th_metric = metric, th_body_crc32 = cuvs_crc32 ?image,
    th_reserved = 0\<rparr>"
  have len: "length ?image = 8 * unat n_vecs" and hl: "length (tids_header_bytes h) = 32"
    using u64_codec.length_concat_enc [of tids] tids_hdr.length_enc assms(1) by simp_all
  have "rc = 0" and g: "written g = tids_header_bytes h @ ?image"
    using assms(4-7) len hl vecs_bytes [OF assms(2,3)] assms(1)
    by (auto simp: cuvs_tids_write_def Let_def h_def [symmetric] wire split: prod.splits if_splits)
       (auto simp: fwrite_def split: if_splits)
  moreover have "tids_header_ok mem h"
    using assms(1-3,6) by (simp add: tids_header_ok_def h_def)
  ultimately show ?thesis
    using tids_file.roundtrip [of mem h tids rest] assms(1) by (auto simp: h_def)
qed

text \<open>
  Writing a \<open>.tids\<close> file and reading it back returns the row count, dimension, metric and
  the very TIDs: the writer reports success whenever the device has room for the 32 header bytes
  and 8 bytes per row, and the reader accepts its output (with anything appended after it).
\<close>

theorem tids_roundtrip:
  assumes "length tids = unat n_vecs" "0 < sint n_vecs" "sint n_vecs \<le> CUVS_TIDS_MAX_VECS"
    and "32 + 8 * length tids \<le> room f" "written f = []" "mem (8 * length tids)"
    and "cuvs_tids_write f n_vecs dim metric tids = (rc, g)"
  shows "rc = 0 \<and> (\<exists>h. cuvs_tids_read mem (written g @ rest) = Some (h, tids)
    \<and> th_n_vecs h = n_vecs \<and> th_dim h = dim \<and> th_metric h = metric)"
  using tids_write_read [of tids n_vecs rc f mem dim metric g rest] assms by blast

theorem tids_roundtrip_witness:
  "\<exists>g h. cuvs_tids_write \<lparr>written = [], room = 100\<rparr> 2 8 1 [65537, 65538] = (0, g)
     \<and> cuvs_tids_read (\<lambda>_. True) (written g @ [7]) = Some (h, [65537, 65538])
     \<and> th_dim h = 8 \<and> th_metric h = 1"
proof -
  obtain rc g where w: "cuvs_tids_write \<lparr>written = [], room = 100\<rparr> 2 8 1 [65537, 65538] = (rc, g)"
    by (rule prod.exhaust)
  show ?thesis
    using tids_roundtrip [of "[65537, 65538]" 2 "\<lparr>written = [], room = 100\<rparr>" "\<lambda>_. True" 8 1 rc g "[7]"] w
    by (auto simp: CUVS_TIDS_MAX_VECS_def)
qed

text \<open>A file with one row, whose checksum is the one of its body.\<close>

definition sample_tids_header :: CuvsTidsHeader where
  "sample_tids_header = \<lparr>th_magic = CUVS_TIDS_MAGIC, th_version = CUVS_TIDS_VERSION, th_n_vecs = 1,
     th_dim = 8, th_metric = 1, th_body_crc32 = cuvs_crc32 (le_bytes 8 (65537 :: u64)),
     th_reserved = 0\<rparr>"

lemma le_bytes_65537: "le_bytes 8 (65537 :: u64) = [1, 0, 1, 0, 0, 0, 0, 0]"
  by code_simp

lemma sample_tids_read:
  "cuvs_tids_read (\<lambda>_. True) (tids_header_bytes sample_tids_header @ [1, 0, 1, 0, 0, 0, 0, 0])
     = Some (sample_tids_header, [65537])"
  using tids_file.roundtrip [of "\<lambda>_. True" sample_tids_header "[65537]" "[]"]
  by (simp add: sample_tids_header_def tids_header_ok_def CUVS_TIDS_MAX_VECS_def le_bytes_65537)

text \<open>
  C35. A \<open>.tids\<close> file damaged in its body never loads: if the reader accepts a file, then
  replacing up to four consecutive body bytes by anything else makes it return -1.
\<close>

theorem tids_corruption_rejected:
  assumes "cuvs_tids_read mem (hb @ xs @ u @ ys @ rest) = Some (h, tids)"
    and "length hb = 32" "length (xs @ u @ ys) = 8 * unat (th_n_vecs h)"
    and "length v = length u" "length u \<le> 4" "u \<noteq> v"
  shows "cuvs_tids_read mem (hb @ xs @ v @ ys @ rest) = None"
  using assms by (rule tids_file.corrupted)

theorem tids_corruption_rejected_witness:
  "cuvs_tids_read (\<lambda>_. True) (tids_header_bytes sample_tids_header @ [1, 0, 2, 0, 0, 0, 0, 0]) = None"
  using tids_corruption_rejected [of "\<lambda>_. True" "tids_header_bytes sample_tids_header" "[1, 0]" "[1]"
      "[0, 0, 0, 0, 0]" "[]" sample_tids_header "[65537]" "[2]"] sample_tids_read
    tids_hdr.length_enc [of sample_tids_header]
  by (simp add: sample_tids_header_def)

text \<open>
  A truncated \<open>.tids\<close> file never loads: every proper prefix of the accepted header and
  body is rejected.
\<close>

theorem tids_truncation_rejected:
  assumes "cuvs_tids_read mem f = Some (h, tids)" "m < 32 + 8 * unat (th_n_vecs h)"
  shows "cuvs_tids_read mem (take m f) = None"
  using assms by (rule tids_file.truncated)

theorem tids_truncation_rejected_witness:
  "cuvs_tids_read (\<lambda>_. True)
     (take 39 (tids_header_bytes sample_tids_header @ [1, 0, 1, 0, 0, 0, 0, 0])) = None"
  using tids_truncation_rejected [OF sample_tids_read, of 39] by (simp add: sample_tids_header_def)

text \<open>
  The partitioned \<open>.vectors\<close> writer produces the same return code and the same file, also
  when the device fills up on the way, as the plain writer over the concatenated corpus; partitions
  announcing no rows are skipped.
\<close>

theorem vectors_write_multi_is_write:
  assumes "\<forall>p \<in> set (live_parts parts). part_ok dim p" "unat dim \<le> CUVS_VECTORS_MAX_DIM"
    and "T = (\<Sum>p\<leftarrow>live_parts parts. unat (fst p))" "T \<le> 1000000000"
  shows "cuvs_vectors_write_multi f parts dim metric base =
    cuvs_vectors_write f (of_nat T) dim metric base (concat (map snd (live_parts parts)))"
proof -
  let ?vecs = "concat (map snd (live_parts parts))"
  have "length ?vecs = T * unat dim"
    using length_parts [OF assms(1)] assms(3) by simp
  then have "take (unat (of_nat T * ucast dim * 4 :: u64)) (concat (map (le_bytes 4) ?vecs))
      = concat (map (le_bytes 4) ?vecs)"
    and "take (4 * unat (of_nat T * ucast dim :: u64)) (concat (map (le_bytes 4) ?vecs))
      = concat (map (le_bytes 4) ?vecs)"
    using vectors_body_n_nat [OF assms(4,2)] by (simp_all add: wire)
  then show ?thesis
    by (auto simp: cuvs_vectors_write_multi_def cuvs_vectors_write_def Let_def
        vectors_multi_scan_eq [OF assms(1,2)] vectors_multi_body_eq [OF assms(1,2)]
        sum_list_fst_of_nat assms(3) cuvs_crc32_def split: prod.splits)
qed

theorem vectors_write_multi_is_write_witness:
  "cuvs_vectors_write_multi \<lparr>written = [], room = 50\<rparr> [(1, [11, 12]), (0, []), (2, [13, 14, 15, 16])] 2 0 99
     = cuvs_vectors_write \<lparr>written = [], room = 50\<rparr> 3 2 0 99 [11, 12, 13, 14, 15, 16]"
  using vectors_write_multi_is_write [of "[(1, [11, 12]), (0, []), (2, [13, 14, 15, 16])]" 2 3
      "\<lparr>written = [], room = 50\<rparr>" 0 99]
  by (simp add: live_parts_def part_ok_def CUVS_TIDS_MAX_VECS_def CUVS_VECTORS_MAX_DIM_def)

end
