(* ===== verification/Shards.thy ===== *)
theory Shards
  imports Sidecars
begin

text \<open>
  Sharding: the \<open>.shards\<close> manifest that commits a logical index split over several GPUs
  (\<open>cuvs_shards_write\<close>, \<open>cuvs_shards_read\<close>), the automatic shard count
  (\<open>cuvs_auto_shard_count\<close>) of \<open>src/cuvs_util.c\<close>, and the daemon's VRAM estimate
  (\<open>estimate_vram_bytes\<close> of \<open>src/pg_cuvs_server.c\<close>) that the count is meant to mirror.
  The reader's semantic checks are shown to make the shards a gap-free, overlap-free cover of the
  row numbers.
\<close>

section \<open>The manifest\<close>

definition CUVS_SHARDS_MAGIC :: u32 where "CUVS_SHARDS_MAGIC = 0x53524853"
definition CUVS_SHARDS_VERSION :: u32 where "CUVS_SHARDS_VERSION = 1"
definition CUVS_SHARDS_MAX :: nat where "CUVS_SHARDS_MAX = 256"

record CuvsShardsHeader =
  sh_magic :: u32
  sh_version :: u32
  sh_shard_count :: u32
  sh_base_tids_crc32 :: u32
  sh_n_vecs :: u64
  sh_dim :: u32
  sh_metric :: u32
  sh_body_crc32 :: u32
  sh_reserved :: u32

record CuvsShardRecord =
  sr_shard_id :: u32
  sr_gpu_device_id :: u32
  sr_tid_offset :: u64
  sr_n_vecs :: u64
  sr_dim :: u32
  sr_metric :: u32
  sr_artifact_crc32 :: u32
  sr_reserved :: u32

definition shards_header_bytes :: "CuvsShardsHeader \<Rightarrow> bytes" where
  "shards_header_bytes h =
     le_bytes 4 (sh_magic h) @ le_bytes 4 (sh_version h) @ le_bytes 4 (sh_shard_count h)
     @ le_bytes 4 (sh_base_tids_crc32 h) @ le_bytes 8 (sh_n_vecs h) @ le_bytes 4 (sh_dim h)
     @ le_bytes 4 (sh_metric h) @ le_bytes 4 (sh_body_crc32 h) @ le_bytes 4 (sh_reserved h)"

definition shards_header_of :: "bytes \<Rightarrow> CuvsShardsHeader" where
  "shards_header_of bs = \<lparr>sh_magic = fld 0 4 bs, sh_version = fld 4 4 bs,
     sh_shard_count = fld 8 4 bs, sh_base_tids_crc32 = fld 12 4 bs, sh_n_vecs = fld 16 8 bs,
     sh_dim = fld 24 4 bs, sh_metric = fld 28 4 bs, sh_body_crc32 = fld 32 4 bs,
     sh_reserved = fld 36 4 bs\<rparr>"

definition shard_record_bytes :: "CuvsShardRecord \<Rightarrow> bytes" where
  "shard_record_bytes r =
     le_bytes 4 (sr_shard_id r) @ le_bytes 4 (sr_gpu_device_id r) @ le_bytes 8 (sr_tid_offset r)
     @ le_bytes 8 (sr_n_vecs r) @ le_bytes 4 (sr_dim r) @ le_bytes 4 (sr_metric r)
     @ le_bytes 4 (sr_artifact_crc32 r) @ le_bytes 4 (sr_reserved r)"

definition shard_record_of :: "bytes \<Rightarrow> CuvsShardRecord" where
  "shard_record_of bs = \<lparr>sr_shard_id = fld 0 4 bs, sr_gpu_device_id = fld 4 4 bs,
     sr_tid_offset = fld 8 8 bs, sr_n_vecs = fld 16 8 bs, sr_dim = fld 24 4 bs,
     sr_metric = fld 28 4 bs, sr_artifact_crc32 = fld 32 4 bs, sr_reserved = fld 36 4 bs\<rparr>"

definition cuvs_shards_write ::
  "wfile \<Rightarrow> u32 \<Rightarrow> u64 \<Rightarrow> u32 \<Rightarrow> u32 \<Rightarrow> u32 \<Rightarrow> CuvsShardRecord list \<Rightarrow> int \<times> wfile" where
  "cuvs_shards_write f shard_count n_vecs dim metric base_tids_crc32 recs =
    (let body_bytes = unat (ucast shard_count * 40 :: u64);
         image = concat (map shard_record_bytes recs);
         hdr = \<lparr>sh_magic = CUVS_SHARDS_MAGIC, sh_version = CUVS_SHARDS_VERSION,
                sh_shard_count = shard_count, sh_base_tids_crc32 = base_tids_crc32,
                sh_n_vecs = n_vecs, sh_dim = dim, sh_metric = metric,
                sh_body_crc32 = cuvs_crc32 (take body_bytes image), sh_reserved = 0\<rparr>;
         (ok1, f1) = fwrite (shards_header_bytes hdr) f
     in if \<not> ok1 then (-1, f1)
        else let (ok2, f2) = fwrite (take (40 * unat shard_count) image) f1
             in if \<not> ok2 then (-1, f2) else (0, f2))"

text \<open>
  The loop of the semantic checks: \<open>i\<close> is the loop counter, \<open>sum_n\<close> the running total;
  \<open>None\<close> is the jump to \<open>reject\<close>.
\<close>

primrec shards_walk ::
  "CuvsShardsHeader \<Rightarrow> u32 \<Rightarrow> u64 \<Rightarrow> CuvsShardRecord list \<Rightarrow> u64 option" where
  "shards_walk hdr i sum_n [] = Some sum_n"
| "shards_walk hdr i sum_n (r # rs) =
     (if sr_reserved r \<noteq> 0 then None
      else if sr_shard_id r \<noteq> i then None
      else if sr_tid_offset r \<noteq> sum_n then None
      else if sint (sr_n_vecs r) \<le> 0 \<or> sint (sr_n_vecs r) > CUVS_TIDS_MAX_VECS then None
      else if sr_dim r \<noteq> sh_dim hdr \<or> sr_metric r \<noteq> sh_metric hdr then None
      else shards_walk hdr (i + 1) (sum_n + sr_n_vecs r) rs)"

definition cuvs_shards_read ::
  "(nat \<Rightarrow> bool) \<Rightarrow> bytes \<Rightarrow> (CuvsShardsHeader \<times> CuvsShardRecord list) option" where
  "cuvs_shards_read mem f =
    (case fread 40 1 f of
       None \<Rightarrow> None
     | Some (hb, f1) \<Rightarrow>
         (let hdr = shards_header_of hb in
          if sh_magic hdr \<noteq> CUVS_SHARDS_MAGIC then None
          else if sh_version hdr \<noteq> CUVS_SHARDS_VERSION then None
          else if sh_reserved hdr \<noteq> 0 then None
          else if sh_shard_count hdr = 0 \<or> unat (sh_shard_count hdr) > CUVS_SHARDS_MAX then None
          else if sint (sh_n_vecs hdr) \<le> 0 \<or> sint (sh_n_vecs hdr) > CUVS_TIDS_MAX_VECS then None
          else if sh_dim hdr = 0 then None
          else let body_bytes = unat (ucast (sh_shard_count hdr) * 40 :: u64) in
          if \<not> mem body_bytes then None
          else (case fread 40 (unat (sh_shard_count hdr)) f1 of
                  None \<Rightarrow> None
                | Some (body, f2) \<Rightarrow>
                    if cuvs_crc32 (take body_bytes body) \<noteq> sh_body_crc32 hdr then None
                    else let recs = map shard_record_of (chunks 40 (unat (sh_shard_count hdr)) body) in
                    (case shards_walk hdr 0 0 recs of
                       None \<Rightarrow> None
                     | Some sum_n \<Rightarrow> if sum_n \<noteq> sh_n_vecs hdr then None else Some (hdr, recs)))))"

definition shards_header_ok :: "(nat \<Rightarrow> bool) \<Rightarrow> CuvsShardsHeader \<Rightarrow> bool" where
  "shards_header_ok mem h \<longleftrightarrow>
     sh_magic h = CUVS_SHARDS_MAGIC \<and> sh_version h = CUVS_SHARDS_VERSION \<and> sh_reserved h = 0 \<and>
     sh_shard_count h \<noteq> 0 \<and> unat (sh_shard_count h) \<le> CUVS_SHARDS_MAX \<and>
     0 < sint (sh_n_vecs h) \<and> sint (sh_n_vecs h) \<le> CUVS_TIDS_MAX_VECS \<and> sh_dim h \<noteq> 0 \<and>
     mem (40 * unat (sh_shard_count h))"

definition shards_accept :: "CuvsShardsHeader \<Rightarrow> CuvsShardRecord list \<Rightarrow> bool" where
  "shards_accept h recs \<longleftrightarrow> shards_walk h 0 0 recs = Some (sh_n_vecs h)"

interpretation shards_hdr: codec shards_header_bytes shards_header_of 40
  by unfold_locales
     (simp_all add: shards_header_bytes_def shards_header_of_def fld_def wire)

interpretation shard_rec: codec shard_record_bytes shard_record_of 40
  by unfold_locales
     (simp_all add: shard_record_bytes_def shard_record_of_def fld_def wire)

lemma shards_body_bytes:
  "unat (c :: u32) \<le> CUVS_SHARDS_MAX \<Longrightarrow> unat (ucast c * 40 :: u64) = 40 * unat c"
  by (subst unat_mult_small) (simp_all add: unat_ucast_u32 CUVS_SHARDS_MAX_def)

interpretation shards_file: sidecar shards_header_bytes shards_header_of 40
  shard_record_bytes shard_record_of 40
  "shards_header_ok mem" "\<lambda>h. unat (sh_shard_count h)" sh_body_crc32 shards_accept
  "cuvs_shards_read mem"
  for mem
  by unfold_locales
     (auto simp: cuvs_shards_read_def shards_header_ok_def shards_accept_def Let_def
         shards_body_bytes not_le not_less
       dest!: fread_SomeD(2) split: option.split)

section \<open>The shards cover the rows\<close>

lemma shards_walk_sums:
  assumes "shards_walk h i s recs = Some t" "unat s + length recs * 1000000000 < 2 ^ 63"
  shows "unat t = unat s + (\<Sum>r\<leftarrow>recs. unat (sr_n_vecs r))
    \<and> unat t \<le> unat s + length recs * 1000000000
    \<and> (\<forall>j < length recs. unat (sr_tid_offset (recs ! j))
          = unat s + (\<Sum>r\<leftarrow>take j recs. unat (sr_n_vecs r)))"
  using assms
proof (induction recs arbitrary: i s)
  case Nil
  then show ?case by simp
next
  case (Cons r rs)
  then have off: "sr_tid_offset r = s" and n: "0 < sint (sr_n_vecs r)"
    "sint (sr_n_vecs r) \<le> CUVS_TIDS_MAX_VECS"
    and rest: "shards_walk h (i + 1) (s + sr_n_vecs r) rs = Some t"
    by (auto split: if_splits)
  have nb: "unat (sr_n_vecs r) \<le> 1000000000"
    using n sint_bound_unat [of "sr_n_vecs r" 1000000000] by (simp add: CUVS_TIDS_MAX_VECS_def)
  have add: "unat (s + sr_n_vecs r) = unat s + unat (sr_n_vecs r)"
    using nb Cons.prems(2) by (intro unat_add_small) simp
  have "unat (s + sr_n_vecs r) + length rs * 1000000000 < 2 ^ 63"
    using add nb Cons.prems(2) by simp
  from Cons.IH [OF rest this] show ?case
    using add off nb by (auto simp: nth_Cons take_Cons split: nat.split)
qed

text \<open>
  Whatever manifest the reader accepts describes shards whose ranges
  \<open>[tid_offset, tid_offset + n_vecs)\<close> partition the rows: every row number below the header's
  total lies in exactly one shard, and there are at most 256 shards.
\<close>

theorem shards_partition_rows:
  assumes "cuvs_shards_read mem f = Some (h, recs)" "0 \<le> g" "g < sint (sh_n_vecs h)"
  shows "length recs \<le> 256 \<and>
    (\<exists>!i. i < length recs \<and> sint (sr_tid_offset (recs ! i)) \<le> g
       \<and> g < sint (sr_tid_offset (recs ! i)) + sint (sr_n_vecs (recs ! i)))"
proof -
  let ?ns = "map (\<lambda>r. unat (sr_n_vecs r)) recs"
  from assms(1) obtain ok: "shards_header_ok mem h" and acc: "shards_accept h recs"
    by (rule shards_file.parts) blast
  have len: "length recs \<le> 256"
    using shards_file.length_items [OF assms(1)] ok
    by (simp add: shards_header_ok_def CUVS_SHARDS_MAX_def)
  have sums: "unat (sh_n_vecs h) = sum_list ?ns" "unat (sh_n_vecs h) \<le> length recs * 1000000000"
    and offs: "\<And>j. j < length recs \<Longrightarrow> unat (sr_tid_offset (recs ! j)) = sum_list (take j ?ns)"
    using shards_walk_sums [of h 0 0 recs "sh_n_vecs h"] acc len
    by (simp_all add: shards_accept_def take_map)
  have upto: "sum_list (take (Suc j) ?ns) \<le> sum_list ?ns" if "j < length recs" for j
    using sum_list_append [of "take (Suc j) ?ns" "drop (Suc j) ?ns"] by (simp only: append_take_drop_id)
  have bound: "unat (sr_tid_offset (recs ! j)) < 2 ^ 63" "unat (sr_n_vecs (recs ! j)) < 2 ^ 63"
    if "j < length recs" for j
    using upto [OF that] offs [OF that] sums len that
    by (simp_all add: take_Suc_conv_app_nth)
  have signed: "sint (sr_tid_offset (recs ! j)) = uint (sr_tid_offset (recs ! j))"
    "sint (sr_n_vecs (recs ! j)) = uint (sr_n_vecs (recs ! j))" if "j < length recs" for j
    using bound [OF that] by (simp_all only: sint_of_unat uint_nat)
  have "nat g < sum_list ?ns"
    using assms(2,3) sums len sint_of_unat [of "sh_n_vecs h"] by simp
  from prefix_sums_cover [OF this] have "\<exists>!i. i < length recs
      \<and> unat (sr_tid_offset (recs ! i)) \<le> nat g
      \<and> nat g < unat (sr_tid_offset (recs ! i)) + unat (sr_n_vecs (recs ! i))"
    by (simp add: offs cong: conj_cong)
  then have "\<exists>!i. i < length recs \<and> sint (sr_tid_offset (recs ! i)) \<le> g
      \<and> g < sint (sr_tid_offset (recs ! i)) + sint (sr_n_vecs (recs ! i))"
    using assms(2) by (simp add: signed le_nat_iff nat_less_iff cong: conj_cong)
  with len show ?thesis by simp
qed

text \<open>A two-shard manifest over five rows, as the writer of a two-GPU build lays it out.\<close>

definition sample_recs :: "CuvsShardRecord list" where
  "sample_recs =
    [\<lparr>sr_shard_id = 0, sr_gpu_device_id = 0, sr_tid_offset = 0, sr_n_vecs = 3, sr_dim = 8,
      sr_metric = 0, sr_artifact_crc32 = 77, sr_reserved = 0\<rparr>,
     \<lparr>sr_shard_id = 1, sr_gpu_device_id = 1, sr_tid_offset = 3, sr_n_vecs = 2, sr_dim = 8,
      sr_metric = 0, sr_artifact_crc32 = 78, sr_reserved = 0\<rparr>]"

definition sample_shards_header :: CuvsShardsHeader where
  "sample_shards_header =
    \<lparr>sh_magic = CUVS_SHARDS_MAGIC, sh_version = CUVS_SHARDS_VERSION, sh_shard_count = 2,
     sh_base_tids_crc32 = 5, sh_n_vecs = 5, sh_dim = 8, sh_metric = 0,
     sh_body_crc32 = cuvs_crc32 (concat (map shard_record_bytes sample_recs)), sh_reserved = 0\<rparr>"

lemma sample_shards_read:
  "cuvs_shards_read (\<lambda>_. True)
     (shards_header_bytes sample_shards_header @ concat (map shard_record_bytes sample_recs) @ [])
   = Some (sample_shards_header, sample_recs)"
  by (rule shards_file.roundtrip)
     (simp_all add: sample_shards_header_def sample_recs_def shards_header_ok_def shards_accept_def
       CUVS_SHARDS_MAX_def CUVS_TIDS_MAX_VECS_def)

theorem shards_partition_rows_witness:
  "\<exists>!i. i < length sample_recs \<and> sint (sr_tid_offset (sample_recs ! i)) \<le> 3
     \<and> 3 < sint (sr_tid_offset (sample_recs ! i)) + sint (sr_n_vecs (sample_recs ! i))"
  using shards_partition_rows [OF sample_shards_read, of 3] by (simp add: sample_shards_header_def)

text \<open>
  A manifest written for shards that pass the semantic checks is read back unchanged.
\<close>

theorem shards_roundtrip:
  assumes "cuvs_shards_write f (of_nat (length recs)) n_vecs dim metric base recs = (rc, g)"
    and "recs \<noteq> []" "length recs \<le> CUVS_SHARDS_MAX" "40 + 40 * length recs \<le> room f" "written f = []"
    and "0 < sint n_vecs" "sint n_vecs \<le> CUVS_TIDS_MAX_VECS" "dim \<noteq> 0" "mem (40 * length recs)"
    and "\<And>h. sh_dim h = dim \<Longrightarrow> sh_metric h = metric \<Longrightarrow> shards_walk h 0 0 recs = Some n_vecs"
  shows "rc = 0 \<and> (\<exists>h. cuvs_shards_read mem (written g) = Some (h, recs)
    \<and> sh_n_vecs h = n_vecs \<and> sh_base_tids_crc32 h = base)"
proof -
  let ?image = "concat (map shard_record_bytes recs)"
  let ?c = "of_nat (length recs) :: u32"
  define h where "h = \<lparr>sh_magic = CUVS_SHARDS_MAGIC, sh_version = CUVS_SHARDS_VERSION,
    sh_shard_count = ?c, sh_base_tids_crc32 = base, sh_n_vecs = n_vecs, sh_dim = dim,
    sh_metric = metric, sh_body_crc32 = cuvs_crc32 ?image, sh_reserved = 0\<rparr>"
  have c: "unat ?c = length recs"
    using assms(3) by (simp add: unat_of_nat CUVS_SHARDS_MAX_def)
  have len: "length ?image = 40 * length recs" and hl: "length (shards_header_bytes h) = 40"
    using shard_rec.length_concat_enc [of recs] shards_hdr.length_enc by simp_all
  have "rc = 0" and g: "written g = shards_header_bytes h @ ?image"
    using assms(1,3-5) len hl c shards_body_bytes [of ?c]
    by (auto simp: cuvs_shards_write_def Let_def h_def [symmetric] wire split: prod.splits if_splits)
       (auto simp: fwrite_def split: if_splits)
  moreover have "shards_header_ok mem h"
    using assms(2,3,6-9) c unat_eq_zero [of ?c] by (auto simp: shards_header_ok_def h_def)
  moreover have "shards_accept h recs"
    using assms(10) [of h] by (simp add: shards_accept_def h_def)
  ultimately show ?thesis
    using shards_file.roundtrip [of mem h recs "[]"] c by (auto simp: h_def)
qed

theorem shards_roundtrip_witness:
  "\<exists>g h. cuvs_shards_write \<lparr>written = [], room = 120\<rparr> 2 5 8 0 5 sample_recs = (0, g)
     \<and> cuvs_shards_read (\<lambda>_. True) (written g) = Some (h, sample_recs)"
proof -
  obtain rc g where w: "cuvs_shards_write \<lparr>written = [], room = 120\<rparr> 2 5 8 0 5 sample_recs = (rc, g)"
    by (rule prod.exhaust)
  show ?thesis
    using shards_roundtrip [of "\<lparr>written = [], room = 120\<rparr>" sample_recs 5 8 0 5 rc g "\<lambda>_. True"] w
    by (auto simp: sample_recs_def CUVS_TIDS_MAX_VECS_def CUVS_SHARDS_MAX_def)
qed

section \<open>How many shards\<close>

text \<open>
  C integers that are only compared and converted are mathematical ones; a conversion to
  \<open>size_t\<close> is \<open>of_int\<close>, one to \<open>int\<close> is the signed reading of the low 32
  bits.
\<close>

definition to_c_int :: "u64 \<Rightarrow> int" where
  "to_c_int w = sint (ucast w :: u32)"

definition cuvs_auto_shard_count :: "int \<Rightarrow> int \<Rightarrow> u64 \<Rightarrow> int \<Rightarrow> int \<Rightarrow> int" where
  "cuvs_auto_shard_count n_vecs dim per_gpu_budget_bytes n_gpus max_shards =
    (if n_vecs \<le> 0 \<or> dim \<le> 0 \<or> n_gpus \<le> 0 then 1
     else if per_gpu_budget_bytes = 0 then 1
     else let needed = of_int n_vecs * (of_int dim * 4 + 16 * 4) in
       if needed \<le> per_gpu_budget_bytes then 1
       else let cap = n_gpus;
                cap = (if max_shards > 0 \<and> cap > max_shards then max_shards else cap);
                cap = (if cap > n_vecs div 2 then to_c_int (of_int (n_vecs div 2)) else cap)
            in if cap < 2 then 0
            else let want = to_c_int ((needed + per_gpu_budget_bytes - 1) div per_gpu_budget_bytes);
                     want = (if want < 2 then 2 else want)
                 in if want > cap then 0 else want)"

text \<open>The daemon's estimate for one CAGRA index (\<open>graph_degree <= 0\<close> means the default 64).\<close>

definition estimate_vram_bytes :: "int \<Rightarrow> int \<Rightarrow> int \<Rightarrow> u64" where
  "estimate_vram_bytes n_vecs dim graph_degree =
    (let gd = (if graph_degree > 0 then graph_degree else 64)
     in of_int n_vecs * (of_int dim * 4 + of_int gd * 4))"

lemma to_c_int_small:
  assumes "unat w < 2 ^ 31"
  shows "to_c_int w = int (unat w)"
proof -
  have "uint w < 2 ^ 31"
    using assms by (simp add: unat_eq_nat_uint nat_less_iff del: nat_uint_eq)
  moreover have "- (2 ^ 31) \<le> uint w"
    by (rule order_trans [OF _ uint_ge_0]) simp
  ultimately show ?thesis
    by (simp add: to_c_int_def signed_ucast_eq signed_take_bit_int_eq_self)
qed

text \<open>
  The facts that make \<open>(needed + budget - 1) / budget\<close> the ceiling of the quotient.
\<close>

lemma ceil_div_bounds:
  fixes n b :: nat
  assumes "0 < b" "0 < n"
  shows "n \<le> (n + b - 1) div b * b" and "((n + b - 1) div b - 1) * b < n"
proof -
  define m where "m = n + b - 1"
  have "m = m div b * b + m mod b" and "m mod b < b"
    using assms(1) by simp_all
  then have "n \<le> m div b * b" and "m div b * b - b < n"
    using assms unfolding m_def by linarith+
  then show "n \<le> (n + b - 1) div b * b" and "((n + b - 1) div b - 1) * b < n"
    by (simp_all only: m_def diff_mult_distrib mult_1)
qed

lemma ceil_div_least:
  fixes n b s :: nat
  assumes "0 < b" "n \<le> s * b"
  shows "(n + b - 1) div b \<le> s"
proof -
  have "(n + b - 1) div b < s + 1"
    using assms by (intro div_less_iff_less_mult [THEN iffD2]) (simp_all add: algebra_simps)
  then show ?thesis by simp
qed

text \<open>
  Where the byte arithmetic fits its types, the automatic count is right in all three
  outcomes: 1 exactly when one GPU's budget holds the index; a larger answer is the least number of
  shards whose budgets together hold it, within the GPUs and with at least two rows each; and 0
  means that no admissible number of shards would have been enough.
\<close>

theorem auto_shard_count_correct:
  assumes "0 < n_vecs" "n_vecs < 2 ^ 63" "0 < dim" "0 < n_gpus" "n_gpus < 2 ^ 31" "b \<noteq> 0"
    and N: "N = nat n_vecs * (nat dim * 4 + 64)" "N + unat b < 2 ^ 64" "N < unat b * (2 ^ 31 - 1)"
    and r: "r = cuvs_auto_shard_count n_vecs dim b n_gpus max_shards"
    and adm: "admissible = (\<lambda>s. 2 \<le> s \<and> int s \<le> n_gpus \<and> (0 < max_shards \<longrightarrow> int s \<le> max_shards)
        \<and> int s \<le> n_vecs div 2)"
  shows "(r = 1 \<longleftrightarrow> N \<le> unat b)
    \<and> (2 \<le> r \<longrightarrow> admissible (nat r) \<and> N \<le> nat r * unat b \<and> (nat r - 1) * unat b < N)
    \<and> (r = 0 \<longrightarrow> (\<forall>s. admissible s \<longrightarrow> s * unat b < N)) \<and> (r = 0 \<or> r = 1 \<or> 2 \<le> r)"
proof -
  let ?needed = "of_int n_vecs * (of_int dim * 4 + 16 * 4) :: u64"
  have b: "0 < unat b"
    using assms(6) by (simp add: unat_gt_0)
  have "?needed = of_nat N"
    using assms(1,3) N(1) by (simp add: of_nat_nat)
  then have needed: "unat ?needed = N"
    using N(2) by (simp add: unat_of_nat)
  have Npos: "0 < N"
    using assms(1,3) N(1) by simp
  define w where "w = (N + unat b - 1) div unat b"
  have "unat (?needed + b - 1) = N + unat b - 1"
    using needed N(2) Npos by (simp add: unat_add_small unat_sub_if')
  then have quot: "unat ((?needed + b - 1) div b) = w"
    by (simp add: w_def unat_div)
  have w: "N \<le> w * unat b" "(w - 1) * unat b < N"
    using ceil_div_bounds [OF b Npos] by (simp_all add: w_def)
  have "w \<le> 2 ^ 31 - 1"
    unfolding w_def by (rule ceil_div_least [OF b]) (use N(3) in \<open>simp add: mult.commute\<close>)
  then have want: "to_c_int ((?needed + b - 1) div b) = int w"
    using quot by (subst to_c_int_small) simp_all
  define cap where "cap = min n_gpus (min (if 0 < max_shards then max_shards else n_gpus) (n_vecs div 2))"
  have adm_cap: "admissible s \<longleftrightarrow> 2 \<le> s \<and> int s \<le> cap" for s
    using adm by (auto simp: cap_def)
  have half: "to_c_int (of_int (n_vecs div 2)) = n_vecs div 2" if "n_vecs div 2 < 2 ^ 31"
  proof -
    have "of_int (n_vecs div 2) = (of_nat (nat (n_vecs div 2)) :: u64)"
      using assms(1) by (simp add: of_nat_nat)
    then have "unat (of_int (n_vecs div 2) :: u64) = nat (n_vecs div 2)"
      using that by (simp add: unat_of_nat nat_less_iff)
    then show ?thesis
      using that assms(1) by (subst to_c_int_small) simp_all
  qed
  have r': "r = (if N \<le> unat b then 1 else if cap < 2 then 0
      else if max 2 (int w) > cap then 0 else max 2 (int w))"
    using r assms(1-6) needed want half by (auto simp: cuvs_auto_shard_count_def Let_def cap_def word_le_nat_alt max_def min_def)
  have large: "(nat (max 2 (int w)) - 1) * unat b < N" "N \<le> nat (max 2 (int w)) * unat b" if "\<not> N \<le> unat b"
  proof -
    have "2 \<le> w"
      using that w(1) by (cases "w \<le> 1") (auto dest: order_trans [OF _ mult_le_mono1])
    then show "(nat (max 2 (int w)) - 1) * unat b < N" "N \<le> nat (max 2 (int w)) * unat b"
      using w by (simp_all add: max_def)
  qed
  have none: "s * unat b < N" if "cap < max 2 (int w)" "2 \<le> s" "int s \<le> cap" for s
  proof -
    have "s \<le> w - 1"
      using that by auto
    then have "s * unat b \<le> (w - 1) * unat b"
      by (rule mult_le_mono1)
    with w(2) show ?thesis by linarith
  qed
  show ?thesis
    using r' large none by (auto simp: adm_cap)
qed

theorem auto_shard_count_correct_witness:
  "cuvs_auto_shard_count 1000000 96 200000000 4 0 = 3
   \<and> (448000000::nat) \<le> 3 * 200000000 \<and> (2::nat) * 200000000 < 448000000"
proof -
  have r: "cuvs_auto_shard_count 1000000 96 200000000 4 0 = 3"
    by (simp add: cuvs_auto_shard_count_def to_c_int_def)
  show ?thesis
    using auto_shard_count_correct [of 1000000 96 4 200000000 448000000 3 0, OF _ _ _ _ _ _ _ _ _ r [symmetric] refl]
    by (simp add: r)
qed

text \<open>
  The shard count does not mirror the VRAM estimate it is commented to mirror: it charges 64
  bytes of graph per row where \<open>estimate_vram_bytes\<close> charges 256 for the default degree, so
  for every budget between the two the count answers that one GPU is enough while the daemon's
  estimate for the unsharded index exceeds that GPU's budget.
\<close>

theorem auto_shard_count_undercounts:
  assumes "0 < n_vecs" "0 < dim" "nat n_vecs * (nat dim * 4 + 256) < 2 ^ 64"
    and "nat n_vecs * (nat dim * 4 + 64) \<le> unat b" "unat b < nat n_vecs * (nat dim * 4 + 256)"
  shows "cuvs_auto_shard_count n_vecs dim b n_gpus max_shards = 1
    \<and> b < estimate_vram_bytes n_vecs dim 0"
proof -
  let ?needed = "of_int n_vecs * (of_int dim * 4 + 16 * 4) :: u64"
  have "?needed = of_nat (nat n_vecs * (nat dim * 4 + 64))"
    and est: "estimate_vram_bytes n_vecs dim 0 = of_nat (nat n_vecs * (nat dim * 4 + 256))"
    using assms(1,2) by (simp_all add: estimate_vram_bytes_def of_nat_nat)
  then have "unat ?needed = nat n_vecs * (nat dim * 4 + 64)"
    using assms(4) unat_bound [of b] by (simp only: unat_of_nat take_bit_nat_eq_self_iff) simp
  then have "?needed \<le> b"
    using assms(4) by (simp only: word_le_nat_alt)
  then have "cuvs_auto_shard_count n_vecs dim b n_gpus max_shards = 1"
    by (simp only: cuvs_auto_shard_count_def Let_def if_True if_cancel)
  moreover have "b < estimate_vram_bytes n_vecs dim 0"
    unfolding est word_less_nat_alt unat_of_nat
    using assms(3,5) by (simp only: take_bit_nat_eq_self len_num0 len_num1 len_bit0) simp
  ultimately show ?thesis ..
qed

theorem auto_shard_count_undercounts_witness:
  "cuvs_auto_shard_count 1000000 96 500000000 2 0 = 1
   \<and> 500000000 < estimate_vram_bytes 1000000 96 0"
  using auto_shard_count_undercounts [of 1000000 96 500000000 2 0] by simp

end
