(* ===== verification/Append_Log.thy ===== *)
theory Append_Log
  imports Sidecars "HOL-Library.Sublist"
begin

text \<open>
  How the pending-change sidecars are written. A file is its list of bytes. An append is a sequence
  of positioned writes (\<open>cuvs_pwrite_all\<close> of \<open>src/pg_cuvs.c\<close>), a truncation and
  a sync, any of which may fail after writing part of its bytes, which is also how a crash looks to
  the next opener. The locale \<open>append_log\<close> states what an appender of fixed-width records
  behind a counting header is; inside it every acknowledged record is shown to survive every later
  failure. The appenders of \<open>Pending_Files\<close> interpret it.
\<close>

section \<open>Positioned file operations\<close>

datatype file_op = Pwrite nat bytes | Ftruncate nat | Fsync

definition pwrite :: "nat \<Rightarrow> bytes \<Rightarrow> bytes \<Rightarrow> bytes" where
  "pwrite off bs f =
     (if bs = [] then f
      else take off f @ replicate (off - length f) 0 @ bs @ drop (off + length bs) f)"

definition pread :: "nat \<Rightarrow> nat \<Rightarrow> bytes \<Rightarrow> bytes option" where
  "pread off len f = (if off + len \<le> length f then Some (take len (drop off f)) else None)"

primrec exec_op :: "file_op \<Rightarrow> bytes \<Rightarrow> bytes" where
  "exec_op (Pwrite off bs) f = pwrite off bs f"
| "exec_op (Ftruncate n) f = take n f @ replicate (n - length f) 0"
| "exec_op Fsync f = f"

primrec exec_partial :: "nat \<Rightarrow> file_op \<Rightarrow> bytes \<Rightarrow> bytes" where
  "exec_partial k (Pwrite off bs) f = pwrite off (take k bs) f"
| "exec_partial k (Ftruncate n) f = f"
| "exec_partial k Fsync f = f"

text \<open>
  A fault \<open>Some (i, k)\<close> stops the run at operation \<open>i\<close> after \<open>k\<close> bytes of it
  reached the file.
\<close>

type_synonym fault = "(nat \<times> nat) option"

fun run_ops :: "fault \<Rightarrow> file_op list \<Rightarrow> bytes \<Rightarrow> bool \<times> bytes" where
  "run_ops flt [] f = (True, f)"
| "run_ops None (x # xs) f = run_ops None xs (exec_op x f)"
| "run_ops (Some (0, k)) (x # xs) f = (False, exec_partial k x f)"
| "run_ops (Some (Suc i, k)) (x # xs) f = run_ops (Some (i, k)) xs (exec_op x f)"

text \<open>A record handed to the kernel in consecutive pieces.\<close>

primrec split_writes :: "nat \<Rightarrow> bytes list \<Rightarrow> file_op list" where
  "split_writes off [] = []"
| "split_writes off (p # ps) = Pwrite off p # split_writes (off + length p) ps"

lemma length_split_writes [simp]: "length (split_writes off ps) = length ps"
  by (induction ps arbitrary: off) auto

lemma pwrite_at_end_of:
  "length pre = off \<Longrightarrow> pwrite off bs (pre @ t) = pre @ bs @ drop (length bs) t"
  by (simp add: pwrite_def)

lemma pread_prefix: "length xs = n \<Longrightarrow> pread 0 n (xs @ ys) = Some xs"
  by (simp add: pread_def)

text \<open>The writes of a record touch nothing below its offset, wherever they stop.\<close>

lemma run_split_torn:
  assumes "length pre = off" "i < length ps"
  shows "\<exists>t'. run_ops (Some (i, k)) (split_writes off ps @ xs) (pre @ t) = (False, pre @ t')"
  using assms
proof (induction ps arbitrary: off pre t i)
  case Nil
  then show ?case by simp
next
  case (Cons p ps)
  show ?case
  proof (cases i)
    case 0
    with Cons.prems show ?thesis by (simp add: pwrite_at_end_of)
  next
    case (Suc j)
    with Cons.prems Cons.IH [of "pre @ p" "off + length p" j "drop (length p) t"]
    obtain t' where "run_ops (Some (j, k)) (split_writes (off + length p) ps @ xs)
        ((pre @ p) @ drop (length p) t) = (False, (pre @ p) @ t')"
      by auto
    with Suc Cons.prems show ?thesis
      by (intro exI [of _ "p @ t'"]) (simp add: pwrite_at_end_of)
  qed
qed

lemma run_split_past:
  assumes "length pre = off"
  shows "run_ops (Some (length ps + i, k)) (split_writes off ps @ xs) (pre @ t)
    = run_ops (Some (i, k)) xs (pre @ concat ps @ drop (length (concat ps)) t)"
    and "run_ops None (split_writes off ps @ xs) (pre @ t)
    = run_ops None xs (pre @ concat ps @ drop (length (concat ps)) t)"
proof -
  have "run_ops (Some (length ps + i, k)) (split_writes off ps @ xs) (pre @ t)
      = run_ops (Some (i, k)) xs (pre @ concat ps @ drop (length (concat ps)) t)
    \<and> run_ops None (split_writes off ps @ xs) (pre @ t)
      = run_ops None xs (pre @ concat ps @ drop (length (concat ps)) t)"
    using assms
  proof (induction ps arbitrary: off pre t)
    case Nil
    then show ?case by simp
  next
    case (Cons p ps)
    with Cons.IH [of "pre @ p" "off + length p" "drop (length p) t"]
    show ?case by (simp add: pwrite_at_end_of add.commute)
  qed
  then show "run_ops (Some (length ps + i, k)) (split_writes off ps @ xs) (pre @ t)
      = run_ops (Some (i, k)) xs (pre @ concat ps @ drop (length (concat ps)) t)"
    and "run_ops None (split_writes off ps @ xs) (pre @ t)
      = run_ops None xs (pre @ concat ps @ drop (length (concat ps)) t)"
    by blast+
qed

section \<open>The appender as an interface\<close>

text \<open>
  \<open>log_image hdr parts rs t\<close> is a file whose header counts the records \<open>rs\<close>,
  followed by them and by a tail \<open>t\<close> that no header counts (what a torn append leaves
  behind). A fault is \<open>header_atomic\<close> when the 32-byte header rewrite is not torn in the
  middle; the header lies in one disk sector. \<open>log_attempts\<close> runs append attempts in
  sequence and returns the acknowledged records with the final file.
\<close>

definition log_rows :: "('r \<Rightarrow> bytes list) \<Rightarrow> 'r list \<Rightarrow> bytes" where
  "log_rows parts rs = concat (map (\<lambda>r. concat (parts r)) rs)"

definition log_image :: "(nat \<Rightarrow> bytes) \<Rightarrow> ('r \<Rightarrow> bytes list) \<Rightarrow> 'r list \<Rightarrow> bytes \<Rightarrow> bytes" where
  "log_image hdr parts rs t = hdr (length rs) @ log_rows parts rs @ t"

definition header_atomic :: "('r \<Rightarrow> bytes list) \<Rightarrow> 'r \<Rightarrow> fault \<Rightarrow> bool" where
  "header_atomic parts r flt \<longleftrightarrow>
     (case flt of None \<Rightarrow> True | Some (i, k) \<Rightarrow> i = length (parts r) \<longrightarrow> k = 0 \<or> 32 \<le> k)"

primrec log_attempts ::
  "(fault \<Rightarrow> bytes \<Rightarrow> 'r \<Rightarrow> bool \<times> bytes) \<Rightarrow> (fault \<times> 'r) list \<Rightarrow> bytes \<Rightarrow> 'r list \<times> bytes" where
  "log_attempts attempt [] f = ([], f)"
| "log_attempts attempt (a # as) f =
     (let (b, f1) = attempt (fst a) f (snd a); (acks, f2) = log_attempts attempt as f1
      in (if b then snd a # acks else acks, f2))"

locale append_log =
  fixes hdr :: "nat \<Rightarrow> bytes" and parts :: "'r \<Rightarrow> bytes list" and rw :: nat and good :: "'r \<Rightarrow> bool"
    and cap :: nat and attempt :: "fault \<Rightarrow> bytes \<Rightarrow> 'r \<Rightarrow> bool \<times> bytes"
  assumes len_hdr: "length (hdr n) = 32"
    and len_row: "good r \<Longrightarrow> length (concat (parts r)) = rw"
    and cap_small: "cap \<le> 2 ^ 62"
    and attempt_full: "cap \<le> length rs \<Longrightarrow> length rs \<le> 2 ^ 62 \<Longrightarrow>
      attempt flt (log_image hdr parts rs t) r = (False, log_image hdr parts rs t)"
    and attempt_run: "\<forall>r \<in> set rs. good r \<Longrightarrow> length rs < cap \<Longrightarrow> good r \<Longrightarrow>
      attempt flt (log_image hdr parts rs t) r
        = run_ops flt (split_writes (32 + rw * length rs) (parts r)
            @ [Pwrite 0 (hdr (Suc (length rs))), Ftruncate (32 + rw * Suc (length rs)), Fsync])
          (log_image hdr parts rs t)"
begin

abbreviation "rows \<equiv> log_rows parts"
abbreviation "contents \<equiv> log_image hdr parts"

lemmas contents_def = log_image_def [of hdr parts]
lemmas rows_def = log_rows_def [of parts]

lemma length_rows: "\<forall>r \<in> set rs. good r \<Longrightarrow> length (rows rs) = rw * length rs"
  unfolding rows_def by (rule concat_map_const_length) (simp add: len_row)

text \<open>The three operations after the record is in place.\<close>

lemma run_commit:
  assumes "\<forall>r \<in> set rs. good r" "good r" "\<forall>k. flt = Some (0, k) \<longrightarrow> k = 0 \<or> 32 \<le> k"
  shows "\<exists>b rs' t'. run_ops flt
      [Pwrite 0 (hdr (Suc (length rs))), Ftruncate (32 + rw * Suc (length rs)), Fsync]
      (contents rs (concat (parts r) @ t)) = (b, contents rs' t')
    \<and> (rs' = rs \<or> rs' = rs @ [r]) \<and> (b \<longrightarrow> rs' = rs @ [r] \<and> t' = [])"
proof -
  let ?n = "length rs"
  have all: "\<forall>x \<in> set (rs @ [r]). good x"
    using assms(1,2) by auto
  have w: "pwrite 0 (hdr (Suc ?n)) (contents rs (concat (parts r) @ t)) = contents (rs @ [r]) t"
    using len_hdr [of "Suc ?n"] len_hdr [of ?n]
    by (auto simp: pwrite_def contents_def rows_def)
  have tr: "exec_op (Ftruncate (32 + rw * Suc ?n)) (contents (rs @ [r]) t) = contents (rs @ [r]) []"
    using length_rows [OF all] len_hdr by (simp add: contents_def)
  consider "flt = None" | k where "flt = Some (0, k)" | k where "flt = Some (1, k)"
    | k where "flt = Some (2, k)" | i k where "flt = Some (Suc (Suc (Suc i)), k)"
    by (cases flt) (auto, metis One_nat_def Suc_1 not0_implies_Suc)
  then show ?thesis
  proof cases
    case 1
    then show ?thesis using w tr by auto
  next
    case (2 k)
    then consider "k = 0" | "32 \<le> k"
      using assms(3) by blast
    then show ?thesis
    proof cases
      case 1
      with \<open>flt = Some (0, k)\<close> show ?thesis
        by (intro exI [of _ False] exI [of _ rs] exI [of _ "concat (parts r) @ t"])
          (simp add: pwrite_def)
    next
      case 2
      then have "take k (hdr (Suc ?n)) = hdr (Suc ?n)"
        using len_hdr by simp
      with \<open>flt = Some (0, k)\<close> w show ?thesis by auto
    qed
  next
    case (3 k)
    then show ?thesis using w by auto
  next
    case (4 k)
    then show ?thesis using w tr by (auto simp: numeral_2_eq_2)
  next
    case (5 i k)
    then show ?thesis using w tr by auto
  qed
qed

text \<open>
  One attempt, whatever happens to it, leaves the counted records as they were or with the new one
  appended; it reports success only when the new one is counted and the tail is gone.
\<close>

lemma attempt_step:
  assumes "\<forall>r \<in> set rs. good r" "good r" "header_atomic parts r flt" "length rs \<le> 2 ^ 62"
  obtains b rs' t' where "attempt flt (contents rs t) r = (b, contents rs' t')"
    "rs' = rs \<or> rs' = rs @ [r]" "b \<Longrightarrow> rs' = rs @ [r] \<and> t' = []" "length rs' \<le> 2 ^ 62"
proof (cases "length rs < cap")
  case False
  then have "attempt flt (contents rs t) r = (False, contents rs t)"
    using attempt_full assms(4) by simp
  then show ?thesis by (rule that) (use assms(4) in simp_all)
next
  case True
  let ?fin = "[Pwrite 0 (hdr (Suc (length rs))), Ftruncate (32 + rw * Suc (length rs)), Fsync]"
  let ?pre = "hdr (length rs) @ rows rs" and ?off = "32 + rw * length rs"
  have run: "attempt flt (contents rs t) r = run_ops flt (split_writes ?off (parts r) @ ?fin) (?pre @ t)"
    using attempt_run [OF assms(1) True assms(2)] by (simp add: contents_def)
  have sz: "rs' = rs \<or> rs' = rs @ [r] \<Longrightarrow> length rs' \<le> 2 ^ 62" for rs'
    using True cap_small by auto
  have pre: "length ?pre = ?off"
    using len_hdr length_rows [OF assms(1)] by simp
  let ?t = "drop (length (concat (parts r))) t"
  have img: "?pre @ concat (parts r) @ ?t = contents rs (concat (parts r) @ ?t)"
    by (simp add: contents_def)
  consider "flt = None" | i k where "flt = Some (i, k)" "i < length (parts r)"
    | j k where "flt = Some (length (parts r) + j, k)"
    by (cases flt) (auto, metis le_add_diff_inverse linorder_not_le)
  then have "\<exists>b rs' t'. attempt flt (contents rs t) r = (b, contents rs' t')
    \<and> (rs' = rs \<or> rs' = rs @ [r]) \<and> (b \<longrightarrow> rs' = rs @ [r] \<and> t' = [])"
  proof cases
    case 1
    then have "attempt flt (contents rs t) r
        = run_ops None ?fin (contents rs (concat (parts r) @ ?t))"
      using run_split_past(2) [OF pre] run img by simp
    with run_commit [OF assms(1,2), of None ?t] show ?thesis
      by simp
  next
    case (2 i k)
    then obtain t' where "attempt flt (contents rs t) r = (False, contents rs t')"
      using run_split_torn [OF pre] run unfolding contents_def by fastforce
    then show ?thesis by blast
  next
    case (3 j k)
    then have "\<forall>k'. Some (j, k) = Some (0, k') \<longrightarrow> k' = 0 \<or> 32 \<le> k'"
      using assms(3) by (auto simp: header_atomic_def)
    moreover have "attempt flt (contents rs t) r
        = run_ops (Some (j, k)) ?fin (contents rs (concat (parts r) @ ?t))"
      using 3 run_split_past(1) [OF pre] run img by simp
    ultimately show ?thesis
      using run_commit [OF assms(1,2), of "Some (j, k)" ?t] by simp
  qed
  then show ?thesis
    using that sz by blast
qed

theorem attempts_durable:
  assumes "\<forall>r \<in> set rs. good r" "\<forall>(flt, r) \<in> set as. good r \<and> header_atomic parts r flt"
    and "length rs \<le> 2 ^ 62" "log_attempts attempt as (contents rs t) = (acks, f)"
  shows "\<exists>new t'. f = contents (rs @ new) t' \<and> subseq acks new \<and> subseq new (map snd as)"
  using assms
proof (induction as arbitrary: rs t acks f)
  case Nil
  then show ?case by (intro exI [of _ "[]"] exI [of _ t]) simp
next
  case (Cons a as)
  obtain flt r where a: "a = (flt, r)" by (cases a)
  then have r: "good r" "header_atomic parts r flt"
    using Cons.prems(2) by auto
  obtain b rs1 t1 where st: "attempt flt (contents rs t) r = (b, contents rs1 t1)"
    "rs1 = rs \<or> rs1 = rs @ [r]" "b \<Longrightarrow> rs1 = rs @ [r] \<and> t1 = []" "length rs1 \<le> 2 ^ 62"
    using attempt_step [OF Cons.prems(1) r Cons.prems(3)] by metis
  obtain acks1 where at: "log_attempts attempt as (contents rs1 t1) = (acks1, f)" "acks = (if b then r # acks1 else acks1)"
    using Cons.prems(4) st(1) a by (auto simp: Let_def split: prod.splits)
  have "\<forall>r \<in> set rs1. good r" "\<forall>(flt, r) \<in> set as. good r \<and> header_atomic parts r flt"
    using Cons.prems(1,2) st(2) r by auto
  from Cons.IH [OF this st(4) at(1)] obtain new t'
    where n: "f = contents (rs1 @ new) t'" "subseq acks1 new" "subseq new (map snd as)"
    by blast
  show ?case
  proof (cases "rs1 = rs")
    case True
    then have "\<not> b" using st(3) by auto
    with True n at(2) a show ?thesis by (auto intro: exI [of _ new])
  next
    case False
    then have "rs1 = rs @ [r]" using st(2) by blast
    with n at(2) a show ?thesis by (auto intro!: exI [of _ "r # new"] exI [of _ t'])
  qed
qed

end

end
