(* ===== verification/Pending_Files.thy ===== *)
theory Pending_Files
  imports Append_Log
begin

text \<open>
  The pending-change sidecars: \<open>.delta\<close> (inserted vectors) and \<open>.tombstone\<close> (dead
  TIDs). Headers and validators are those of \<open>src/cuvs_util.c\<close>; the appenders
  \<open>cuvs_delta_append\<close> and \<open>cuvs_tombstone_append\<close> are those of
  \<open>src/pg_cuvs.c\<close>, run under the file lock, so each is one step of a sequence. What the
  operating system answers (open, lock, the base \<open>.tids\<close> file, the GUC) is the record
  \<open>append_env\<close>.
\<close>

section \<open>Headers\<close>

definition CUVS_DELTA_MAGIC :: u32 where "CUVS_DELTA_MAGIC = 0x544c4544"
definition CUVS_DELTA_VERSION :: u32 where "CUVS_DELTA_VERSION = 1"
definition CUVS_TOMBSTONE_MAGIC :: u32 where "CUVS_TOMBSTONE_MAGIC = 0x424D4F54"
definition CUVS_TOMBSTONE_VERSION :: u32 where "CUVS_TOMBSTONE_VERSION = 1"

record CuvsDeltaHeader =
  dh_magic :: u32
  dh_version :: u32
  dh_n_rows :: u64
  dh_dim :: u32
  dh_metric :: u32
  dh_base_tids_crc32 :: u32
  dh_reserved :: u32

record CuvsTombstoneHeader =
  bh_magic :: u32
  bh_version :: u32
  bh_n_entries :: u64
  bh_base_tids_crc32 :: u32
  bh_reserved :: u32
  bh_pad0 :: u64

record CuvsTombstoneRecord =
  tr_tid :: u64
  tr_delete_xid :: u64

definition delta_header_bytes :: "CuvsDeltaHeader \<Rightarrow> bytes" where
  "delta_header_bytes h =
     le_bytes 4 (dh_magic h) @ le_bytes 4 (dh_version h) @ le_bytes 8 (dh_n_rows h)
     @ le_bytes 4 (dh_dim h) @ le_bytes 4 (dh_metric h) @ le_bytes 4 (dh_base_tids_crc32 h)
     @ le_bytes 4 (dh_reserved h)"

definition delta_header_of :: "bytes \<Rightarrow> CuvsDeltaHeader" where
  "delta_header_of bs = \<lparr>dh_magic = fld 0 4 bs, dh_version = fld 4 4 bs, dh_n_rows = fld 8 8 bs,
     dh_dim = fld 16 4 bs, dh_metric = fld 20 4 bs, dh_base_tids_crc32 = fld 24 4 bs,
     dh_reserved = fld 28 4 bs\<rparr>"

definition tombstone_header_bytes :: "CuvsTombstoneHeader \<Rightarrow> bytes" where
  "tombstone_header_bytes h =
     le_bytes 4 (bh_magic h) @ le_bytes 4 (bh_version h) @ le_bytes 8 (bh_n_entries h)
     @ le_bytes 4 (bh_base_tids_crc32 h) @ le_bytes 4 (bh_reserved h) @ le_bytes 8 (bh_pad0 h)"

definition tombstone_header_of :: "bytes \<Rightarrow> CuvsTombstoneHeader" where
  "tombstone_header_of bs = \<lparr>bh_magic = fld 0 4 bs, bh_version = fld 4 4 bs,
     bh_n_entries = fld 8 8 bs, bh_base_tids_crc32 = fld 16 4 bs, bh_reserved = fld 20 4 bs,
     bh_pad0 = fld 24 8 bs\<rparr>"

definition tombstone_record_bytes :: "CuvsTombstoneRecord \<Rightarrow> bytes" where
  "tombstone_record_bytes r = le_bytes 8 (tr_tid r) @ le_bytes 8 (tr_delete_xid r)"

definition tombstone_record_of :: "bytes \<Rightarrow> CuvsTombstoneRecord" where
  "tombstone_record_of bs = \<lparr>tr_tid = fld 0 8 bs, tr_delete_xid = fld 8 8 bs\<rparr>"

interpretation delta_hdr: codec delta_header_bytes delta_header_of 32
  by unfold_locales
     (simp_all add: delta_header_bytes_def delta_header_of_def fld_def wire)

interpretation tombstone_hdr: codec tombstone_header_bytes tombstone_header_of 32
  by unfold_locales
     (simp_all add: tombstone_header_bytes_def tombstone_header_of_def fld_def wire)

interpretation tombstone_rec: codec tombstone_record_bytes tombstone_record_of 16
  by unfold_locales
     (simp_all add: tombstone_record_bytes_def tombstone_record_of_def fld_def wire)

text \<open>Bytes per delta record: a TID and \<open>dim\<close> floats.\<close>

definition cuvs_delta_record_bytes :: "u32 \<Rightarrow> nat" where
  "cuvs_delta_record_bytes dim = 8 + unat dim * 4"

definition cuvs_delta_header_init :: "u32 \<Rightarrow> u32 \<Rightarrow> u32 \<Rightarrow> CuvsDeltaHeader" where
  "cuvs_delta_header_init dim metric base_tids_crc32 =
     \<lparr>dh_magic = CUVS_DELTA_MAGIC, dh_version = CUVS_DELTA_VERSION, dh_n_rows = 0, dh_dim = dim,
      dh_metric = metric, dh_base_tids_crc32 = base_tids_crc32, dh_reserved = 0\<rparr>"

definition cuvs_delta_validate :: "CuvsDeltaHeader \<Rightarrow> int \<Rightarrow> int" where
  "cuvs_delta_validate h body_bytes =
    (if dh_magic h \<noteq> CUVS_DELTA_MAGIC then -1
     else if dh_version h \<noteq> CUVS_DELTA_VERSION then -1
     else if dh_reserved h \<noteq> 0 then -1
     else if dh_dim h = 0 then -1
     else if sint (dh_n_rows h) < 0 \<or> sint (dh_n_rows h) > CUVS_TIDS_MAX_VECS then -1
     else if body_bytes < 0 then -1
     else if (of_int body_bytes :: u64)
       \<noteq> dh_n_rows h * of_nat (cuvs_delta_record_bytes (dh_dim h)) then -1
     else 0)"

definition cuvs_delta_read_header :: "bytes \<Rightarrow> CuvsDeltaHeader option" where
  "cuvs_delta_read_header f =
    (case fread 32 1 f of
       None \<Rightarrow> None
     | Some (hb, _) \<Rightarrow>
         (let h = delta_header_of hb in
          if dh_magic h \<noteq> CUVS_DELTA_MAGIC then None
          else if dh_version h \<noteq> CUVS_DELTA_VERSION then None
          else if dh_reserved h \<noteq> 0 then None
          else Some h))"

definition cuvs_tombstone_header_init :: "u32 \<Rightarrow> CuvsTombstoneHeader" where
  "cuvs_tombstone_header_init base_tids_crc32 =
     \<lparr>bh_magic = CUVS_TOMBSTONE_MAGIC, bh_version = CUVS_TOMBSTONE_VERSION, bh_n_entries = 0,
      bh_base_tids_crc32 = base_tids_crc32, bh_reserved = 0, bh_pad0 = 0\<rparr>"

definition cuvs_tombstone_validate :: "CuvsTombstoneHeader \<Rightarrow> int \<Rightarrow> int" where
  "cuvs_tombstone_validate h body_bytes =
    (if bh_magic h \<noteq> CUVS_TOMBSTONE_MAGIC then -1
     else if bh_version h \<noteq> CUVS_TOMBSTONE_VERSION then -1
     else if bh_reserved h \<noteq> 0 then -1
     else if sint (bh_n_entries h) < 0 \<or> sint (bh_n_entries h) > CUVS_TIDS_MAX_VECS then -1
     else if body_bytes < 0 then -1
     else if (of_int body_bytes :: u64) \<noteq> bh_n_entries h * 16 then -1
     else 0)"

definition cuvs_tombstone_read_header :: "bytes \<Rightarrow> CuvsTombstoneHeader option" where
  "cuvs_tombstone_read_header f =
    (case fread 32 1 f of
       None \<Rightarrow> None
     | Some (hb, _) \<Rightarrow>
         (let h = tombstone_header_of hb in
          if bh_magic h \<noteq> CUVS_TOMBSTONE_MAGIC then None
          else if bh_version h \<noteq> CUVS_TOMBSTONE_VERSION then None
          else if bh_reserved h \<noteq> 0 then None
          else Some h))"

text \<open>
  Both validators accept exactly the bodies that hold the counted records: the comparison in 64-bit
  arithmetic cannot wrap below the record limit.
\<close>

lemma of_int_u64_eq:
  assumes "0 \<le> b" "b < 2 ^ 63"
  shows "(of_int b :: u64) = w \<longleftrightarrow> nat b = unat w"
proof -
  have "unat (of_int b :: u64) = nat b"
    using assms by (simp add: unsigned_of_int take_bit_int_eq_self)
  then show ?thesis
    by (metis unsigned_word_eqI)
qed

lemma delta_body_no_overflow:
  assumes "0 \<le> sint n" "sint n \<le> CUVS_TIDS_MAX_VECS"
  shows "unat (n * of_nat (cuvs_delta_record_bytes dim) :: u64)
    = unat n * cuvs_delta_record_bytes dim"
proof -
  have n: "unat n \<le> 1000000000"
    using assms sint_bound_unat [of n 1000000000] by (simp add: CUVS_TIDS_MAX_VECS_def)
  have r: "cuvs_delta_record_bytes dim < 17179869200"
    using unat_bound [of dim] by (simp add: cuvs_delta_record_bytes_def)
  have "unat n * cuvs_delta_record_bytes dim \<le> 1000000000 * 17179869200"
    using n r by (intro mult_le_mono) simp_all
  then show ?thesis
    using r by (subst unat_mult_small) (simp_all add: unat_of_nat)
qed

lemma cuvs_delta_validate_iff:
  assumes "b < 2 ^ 63"
  shows "cuvs_delta_validate h b = 0 \<longleftrightarrow>
    dh_magic h = CUVS_DELTA_MAGIC \<and> dh_version h = CUVS_DELTA_VERSION \<and> dh_reserved h = 0 \<and>
    dh_dim h \<noteq> 0 \<and> 0 \<le> sint (dh_n_rows h) \<and> sint (dh_n_rows h) \<le> CUVS_TIDS_MAX_VECS \<and>
    0 \<le> b \<and> nat b = unat (dh_n_rows h) * cuvs_delta_record_bytes (dh_dim h)"
  using assms delta_body_no_overflow [of "dh_n_rows h" "dh_dim h"]
    of_int_u64_eq [of b "dh_n_rows h * of_nat (cuvs_delta_record_bytes (dh_dim h))"]
  by (auto simp: cuvs_delta_validate_def)

lemma tombstone_body_no_overflow:
  assumes "0 \<le> sint (n :: u64)" "sint n \<le> CUVS_TIDS_MAX_VECS"
  shows "unat (n * 16) = unat n * 16"
proof -
  have "unat n \<le> 1000000000"
    using assms sint_bound_unat [of n 1000000000] by (simp add: CUVS_TIDS_MAX_VECS_def)
  then show ?thesis
    by (subst unat_mult_small) simp_all
qed

lemma cuvs_tombstone_validate_iff:
  assumes "b < 2 ^ 63"
  shows "cuvs_tombstone_validate h b = 0 \<longleftrightarrow>
    bh_magic h = CUVS_TOMBSTONE_MAGIC \<and> bh_version h = CUVS_TOMBSTONE_VERSION \<and>
    bh_reserved h = 0 \<and> 0 \<le> sint (bh_n_entries h) \<and>
    sint (bh_n_entries h) \<le> CUVS_TIDS_MAX_VECS \<and> 0 \<le> b \<and>
    nat b = unat (bh_n_entries h) * 16"
  using assms tombstone_body_no_overflow [of "bh_n_entries h"]
    of_int_u64_eq [of b "bh_n_entries h * 16"]
  by (auto simp: cuvs_tombstone_validate_def)

section \<open>The appenders\<close>

text \<open>
  \<open>cuvs_read_tids_crc\<close> reads the generation token of the current base build; \<open>None\<close>
  for the file is an absent \<open>.tids\<close>.
\<close>

definition cuvs_read_tids_crc :: "bytes option \<Rightarrow> u32 option" where
  "cuvs_read_tids_crc tids =
    (case tids of
       None \<Rightarrow> None
     | Some f \<Rightarrow>
         if length f < 32 then None
         else let hdr = tids_header_of (take 32 f) in
              if th_magic hdr \<noteq> CUVS_TIDS_MAGIC \<or> th_version hdr \<noteq> CUVS_TIDS_VERSION then None
              else Some (th_body_crc32 hdr))"

record append_env =
  ae_open :: bool
  ae_lock :: bool
  ae_tids :: "bytes option"
  ae_max_rows :: u32

text \<open>
  \<open>cuvs_delta_append\<close>: the file (\<open>[]\<close> when \<open>O_CREAT\<close> just made it), the
  record, and where the run is cut short, if it is. A negative file offset makes \<open>pwrite\<close>
  fail.
\<close>

definition cuvs_delta_append ::
  "append_env \<Rightarrow> fault \<Rightarrow> bytes \<Rightarrow> u64 \<Rightarrow> u32 list \<Rightarrow> u32 \<Rightarrow> u32 \<Rightarrow> bool \<times> bytes" where
  "cuvs_delta_append env flt f tid vec dim metric =
    (let rec_bytes = cuvs_delta_record_bytes dim;
         go = (\<lambda>hdr.
           if sint (dh_n_rows hdr) \<ge> sint (ae_max_rows env) then (False, f)
           else let rec_off = 32 + sint (dh_n_rows hdr) * int rec_bytes;
                    hdr' = hdr\<lparr>dh_n_rows := dh_n_rows hdr + 1\<rparr>
                in if rec_off < 0 then (False, f)
                   else run_ops flt
                     [Pwrite (nat rec_off) (le_bytes 8 tid),
                      Pwrite (nat rec_off + 8) (take (4 * unat dim) (concat (map (le_bytes 4) vec))),
                      Pwrite 0 (delta_header_bytes hdr'),
                      Ftruncate (nat (32 + sint (dh_n_rows hdr') * int rec_bytes)),
                      Fsync] f)
     in if \<not> ae_open env then (False, f)
        else if \<not> ae_lock env then (False, f)
        else if length f = 0 then
          (case cuvs_read_tids_crc (ae_tids env) of
             None \<Rightarrow> (False, f)
           | Some base_crc \<Rightarrow> go (cuvs_delta_header_init dim metric base_crc))
        else if length f < 32 then (False, f)
        else case pread 0 32 f of
            None \<Rightarrow> (False, f)
          | Some hb \<Rightarrow>
              (let hdr = delta_header_of hb in
               if dh_magic hdr \<noteq> CUVS_DELTA_MAGIC \<or> dh_version hdr \<noteq> CUVS_DELTA_VERSION
                 \<or> dh_dim hdr \<noteq> dim then (False, f)
               else go hdr))"

definition cuvs_tombstone_append ::
  "append_env \<Rightarrow> fault \<Rightarrow> bytes \<Rightarrow> u64 \<Rightarrow> u64 \<Rightarrow> bool \<times> bytes" where
  "cuvs_tombstone_append env flt f tid delete_xid =
    (let go = (\<lambda>hdr.
           if sint (bh_n_entries hdr) \<ge> sint (ae_max_rows env) then (False, f)
           else let rec = \<lparr>tr_tid = tid, tr_delete_xid = delete_xid\<rparr>;
                    rec_off = 32 + sint (bh_n_entries hdr) * 16;
                    hdr' = hdr\<lparr>bh_n_entries := bh_n_entries hdr + 1\<rparr>
                in if rec_off < 0 then (False, f)
                   else run_ops flt
                     [Pwrite (nat rec_off) (tombstone_record_bytes rec),
                      Pwrite 0 (tombstone_header_bytes hdr'),
                      Ftruncate (nat (32 + sint (bh_n_entries hdr') * 16)),
                      Fsync] f)
     in if \<not> ae_open env then (False, f)
        else if \<not> ae_lock env then (False, f)
        else if length f = 0 then
          (case cuvs_read_tids_crc (ae_tids env) of
             None \<Rightarrow> (False, f)
           | Some base_crc \<Rightarrow> go (cuvs_tombstone_header_init base_crc))
        else if length f < 32 then (False, f)
        else case pread 0 32 f of
            None \<Rightarrow> (False, f)
          | Some hb \<Rightarrow>
              (let hdr = tombstone_header_of hb in
               if bh_magic hdr \<noteq> CUVS_TOMBSTONE_MAGIC \<or> bh_version hdr \<noteq> CUVS_TOMBSTONE_VERSION
                 then (False, f)
               else go hdr))"

text \<open>The header that counts \<open>n\<close> records, and a record as the two writes that place it.\<close>

definition delta_count_header :: "u32 \<Rightarrow> u32 \<Rightarrow> u32 \<Rightarrow> nat \<Rightarrow> bytes" where
  "delta_count_header dim metric base n =
     delta_header_bytes ((cuvs_delta_header_init dim metric base)\<lparr>dh_n_rows := of_nat n\<rparr>)"

definition delta_parts :: "u64 \<times> u32 list \<Rightarrow> bytes list" where
  "delta_parts r = [le_bytes 8 (fst r), concat (map (le_bytes 4) (snd r))]"

definition delta_image :: "u32 \<Rightarrow> u32 \<Rightarrow> u32 \<Rightarrow> (u64 \<times> u32 list) list \<Rightarrow> bytes \<Rightarrow> bytes" where
  "delta_image dim metric base = log_image (delta_count_header dim metric base) delta_parts"

definition tombstone_count_header :: "u32 \<Rightarrow> nat \<Rightarrow> bytes" where
  "tombstone_count_header base n =
     tombstone_header_bytes ((cuvs_tombstone_header_init base)\<lparr>bh_n_entries := of_nat n\<rparr>)"

definition tombstone_parts :: "CuvsTombstoneRecord \<Rightarrow> bytes list" where
  "tombstone_parts r = [tombstone_record_bytes r]"

definition tombstone_image :: "u32 \<Rightarrow> CuvsTombstoneRecord list \<Rightarrow> bytes \<Rightarrow> bytes" where
  "tombstone_image base = log_image (tombstone_count_header base) tombstone_parts"

lemma sint_of_nat_u64 [cint]: "n < 2 ^ 63 \<Longrightarrow> sint (of_nat n :: u64) = int n"
  by (subst sint_of_unat) (simp_all add: unat_of_nat)

lemma pread_delta_image:
  "pread 0 32 (delta_image dim metric base rs t)
     = Some (delta_count_header dim metric base (length rs))"
  unfolding delta_image_def log_image_def
  by (rule pread_prefix) (simp add: delta_count_header_def delta_hdr.length_enc)

lemma length_delta_image: "32 \<le> length (delta_image dim metric base rs t)"
  by (simp add: delta_image_def log_image_def delta_count_header_def delta_hdr.length_enc)


lemma delta_image_not_Nil [simp]: "delta_image dim metric base rs t \<noteq> []"
  using length_delta_image [of dim metric base rs t] by auto

text \<open>A record of the right width, and the environment of an appender that gets the file.\<close>

definition delta_good :: "u32 \<Rightarrow> u64 \<times> u32 list \<Rightarrow> bool" where
  "delta_good dim r \<longleftrightarrow> length (snd r) = unat dim"

definition live_env :: "bytes option \<Rightarrow> u32 \<Rightarrow> append_env" where
  "live_env tids max_rows =
     \<lparr>ae_open = True, ae_lock = True, ae_tids = tids, ae_max_rows = max_rows\<rparr>"

definition delta_attempt ::
  "append_env \<Rightarrow> u32 \<Rightarrow> u32 \<Rightarrow> fault \<Rightarrow> bytes \<Rightarrow> u64 \<times> u32 list \<Rightarrow> bool \<times> bytes" where
  "delta_attempt env dim metric flt f r = cuvs_delta_append env flt f (fst r) (snd r) dim metric"

definition tombstone_attempt ::
  "append_env \<Rightarrow> fault \<Rightarrow> bytes \<Rightarrow> CuvsTombstoneRecord \<Rightarrow> bool \<times> bytes" where
  "tombstone_attempt env flt f r = cuvs_tombstone_append env flt f (tr_tid r) (tr_delete_xid r)"

lemma delta_header_of_count [simp]:
  "delta_header_of (delta_count_header dim metric base n)
     = (cuvs_delta_header_init dim metric base)\<lparr>dh_n_rows := of_nat n\<rparr>"
  by (simp add: delta_count_header_def delta_hdr.dec_enc)

lemma tombstone_header_of_count [simp]:
  "tombstone_header_of (tombstone_count_header base n)
     = (cuvs_tombstone_header_init base)\<lparr>bh_n_entries := of_nat n\<rparr>"
  by (simp add: tombstone_count_header_def tombstone_hdr.dec_enc)

lemma delta_count_header_Suc:
  "delta_count_header dim metric base (Suc n)
     = delta_header_bytes ((cuvs_delta_header_init dim metric base)\<lparr>dh_n_rows := of_nat n + 1\<rparr>)"
  by (simp add: delta_count_header_def add.commute)

lemma tombstone_count_header_Suc:
  "tombstone_count_header base (Suc n)
     = tombstone_header_bytes ((cuvs_tombstone_header_init base)\<lparr>bh_n_entries := of_nat n + 1\<rparr>)"
  by (simp add: tombstone_count_header_def add.commute)

lemma pread_tombstone_image:
  "pread 0 32 (tombstone_image base rs t) = Some (tombstone_count_header base (length rs))"
  unfolding tombstone_image_def log_image_def
  by (rule pread_prefix) (simp add: tombstone_count_header_def tombstone_hdr.length_enc)

lemma length_tombstone_image: "32 \<le> length (tombstone_image base rs t)"
  by (simp add: tombstone_image_def log_image_def tombstone_count_header_def tombstone_hdr.length_enc)

lemma tombstone_image_not_Nil [simp]: "tombstone_image base rs t \<noteq> []"
  using length_tombstone_image [of base rs t] by auto

lemma length_concat_words: "length (concat (map (le_bytes 4) (xs :: u32 list))) = 4 * length xs"
  by (rule u32_codec.length_concat_enc)

text \<open>On a file with a valid header, the appender either hits the cap or runs its five operations.\<close>

lemma max_rows_bound: "sint (m :: u32) < 2147483648"
  using sint_lt [of m] by simp

lemma delta_append_full:
  assumes "nat (sint max_rows) \<le> length rs" "length rs \<le> 2 ^ 62"
  shows "delta_attempt (live_env tids max_rows) dim metric flt (delta_image dim base_metric base rs t) r
    = (False, delta_image dim base_metric base rs t)"
  using assms length_delta_image [of dim base_metric base rs t]
  by (auto simp: delta_attempt_def cuvs_delta_append_def live_env_def pread_delta_image
      cuvs_delta_header_init_def sint_of_nat_u64 Let_def)

lemma delta_append_run:
  assumes "length rs < nat (sint max_rows)" "delta_good dim r"
  shows "delta_attempt (live_env tids max_rows) dim metric flt (delta_image dim base_metric base rs t) r
    = run_ops flt (split_writes (32 + cuvs_delta_record_bytes dim * length rs) (delta_parts r)
        @ [Pwrite 0 (delta_count_header dim base_metric base (Suc (length rs))),
           Ftruncate (32 + cuvs_delta_record_bytes dim * Suc (length rs)), Fsync])
      (delta_image dim base_metric base rs t)"
proof -
  let ?n = "length rs" and ?w = "cuvs_delta_record_bytes dim"
  have n: "?n < 2147483648"
    using assms(1) max_rows_bound [of max_rows] by linarith
  have c: "\<not> sint max_rows \<le> int ?n"
    using assms(1) by linarith
  have s: "sint (of_nat ?n :: u64) = int ?n" "sint (of_nat ?n + 1 :: u64) = int (Suc ?n)"
    using n sint_of_nat_u64 [of ?n] sint_of_nat_u64 [of "Suc ?n"] by (simp_all add: add.commute)
  have o: "nat (32 + int ?n * int ?w) = 32 + ?w * ?n"
    "nat (32 + int (Suc ?n) * int ?w) = 32 + ?w * Suc ?n" "\<not> 32 + int ?n * int ?w < 0"
    by (simp_all add: nat_add_distrib nat_mult_distrib mult.commute flip: of_nat_mult of_nat_Suc)
  have v: "take (4 * unat dim) (concat (map (le_bytes 4) (snd r))) = concat (map (le_bytes 4) (snd r))"
    using assms(2) by (simp add: delta_good_def length_concat_words)
  show ?thesis
    using c n s o v length_delta_image [of dim base_metric base rs t]
    by (simp add: delta_attempt_def cuvs_delta_append_def live_env_def pread_delta_image Let_def
      cuvs_delta_header_init_def delta_count_header_Suc delta_parts_def)
qed


interpretation delta_log: append_log "delta_count_header dim base_metric base" delta_parts
  "cuvs_delta_record_bytes dim" "delta_good dim" "nat (sint max_rows)"
  "delta_attempt (live_env tids max_rows) dim metric"
  for dim base_metric base max_rows tids metric
proof unfold_locales
  show "length (delta_count_header dim base_metric base n) = 32" for n
    by (simp add: delta_count_header_def delta_hdr.length_enc)
  show "delta_good dim r \<Longrightarrow> length (concat (delta_parts r)) = cuvs_delta_record_bytes dim" for r
    by (simp add: delta_good_def delta_parts_def length_concat_words cuvs_delta_record_bytes_def wire)
  show "nat (sint max_rows) \<le> 2 ^ 62"
    using max_rows_bound [of max_rows] by simp
qed (use delta_append_full delta_append_run in \<open>auto simp: delta_image_def\<close>)

lemma tombstone_append_full:
  assumes "nat (sint max_rows) \<le> length rs" "length rs \<le> 2 ^ 62"
  shows "tombstone_attempt (live_env tids max_rows) flt (tombstone_image base rs t) r
    = (False, tombstone_image base rs t)"
  using assms length_tombstone_image [of base rs t]
  by (auto simp: tombstone_attempt_def cuvs_tombstone_append_def live_env_def pread_tombstone_image
      cuvs_tombstone_header_init_def sint_of_nat_u64 Let_def)

lemma tombstone_append_run:
  assumes "length rs < nat (sint max_rows)"
  shows "tombstone_attempt (live_env tids max_rows) flt (tombstone_image base rs t) r
    = run_ops flt (split_writes (32 + 16 * length rs) (tombstone_parts r)
        @ [Pwrite 0 (tombstone_count_header base (Suc (length rs))),
           Ftruncate (32 + 16 * Suc (length rs)), Fsync])
      (tombstone_image base rs t)"
proof -
  let ?n = "length rs"
  have n: "?n < 2147483648"
    using assms(1) max_rows_bound [of max_rows] by linarith
  have c: "\<not> sint max_rows \<le> int ?n"
    using assms(1) by linarith
  have s: "sint (of_nat ?n :: u64) = int ?n" "sint (of_nat ?n + 1 :: u64) = int (Suc ?n)"
    using n sint_of_nat_u64 [of ?n] sint_of_nat_u64 [of "Suc ?n"] by (simp_all add: add.commute)
  have o: "nat (32 + int ?n * 16) = 32 + 16 * ?n"
    "nat (32 + int (Suc ?n) * 16) = 32 + 16 * Suc ?n" "\<not> 32 + int ?n * 16 < 0"
    by simp_all
  show ?thesis
    using c n s o length_tombstone_image [of base rs t]
    by (cases r) (simp add: tombstone_attempt_def cuvs_tombstone_append_def live_env_def pread_tombstone_image
      cuvs_tombstone_header_init_def tombstone_count_header_Suc tombstone_parts_def Let_def)
qed

interpretation tombstone_log: append_log "tombstone_count_header base" tombstone_parts
  16 "\<lambda>_. True" "nat (sint max_rows)" "tombstone_attempt (live_env tids max_rows)"
  for base max_rows tids
proof unfold_locales
  show "length (tombstone_count_header base n) = 32" for n
    by (simp add: tombstone_count_header_def tombstone_hdr.length_enc)
  show "length (concat (tombstone_parts r)) = 16" for r
    by (simp add: tombstone_parts_def tombstone_rec.length_enc)
  show "nat (sint max_rows) \<le> 2 ^ 62"
    using max_rows_bound [of max_rows] by simp
qed (use tombstone_append_full tombstone_append_run in \<open>auto simp: tombstone_image_def\<close>)

text \<open>
  A first append: the file is empty, the header comes from the base build. A crash before the header
  write leaves 32 zero bytes at the front, which no later append accepts.
\<close>

lemma delta_first_append:
  assumes "cuvs_read_tids_crc tids = Some base" "0 < sint max_rows" "delta_good dim r"
  shows "delta_attempt (live_env tids max_rows) dim metric flt [] r
    = run_ops flt (split_writes 32 (delta_parts r)
        @ [Pwrite 0 (delta_count_header dim metric base 1),
           Ftruncate (32 + cuvs_delta_record_bytes dim), Fsync]) []"
  using assms
  by (simp add: delta_attempt_def cuvs_delta_append_def live_env_def Let_def delta_good_def
      length_concat_words cuvs_delta_header_init_def delta_count_header_def delta_parts_def nat_add_distrib)

lemma delta_zero_header_rejected:
  assumes "f = replicate 32 0 @ x"
  shows "delta_attempt env dim metric flt f r = (False, f)"
proof -
  have "fld 0 4 (replicate 32 (0::u8)) = (0::u32)"
    by (simp add: fld_def numeral_eq_Suc)
  then show ?thesis
    using assms pread_prefix [of "replicate 32 0" 32 x]
    by (simp add: delta_attempt_def cuvs_delta_append_def delta_header_of_def CUVS_DELTA_MAGIC_def
      Let_def split: option.split)
qed


section \<open>Properties\<close>

text \<open>
  C9. Acknowledged delta appends are durable. Start from a delta file whose header counts the rows
  \<open>rs\<close>, with any torn tail behind them, and run any sequence of append attempts, each of
  which may be cut short at any byte of any of its writes (the 32-byte header rewrite being whole
  or absent). Afterwards the header counts the old rows followed by new ones, in order, among them
  every acknowledged row, and nothing that was not offered.
\<close>

theorem delta_append_durable:
  assumes "\<forall>r \<in> set rs. delta_good dim r" "length rs \<le> 2 ^ 62"
    and "\<forall>(flt, r) \<in> set as. delta_good dim r \<and> header_atomic delta_parts r flt"
    and "log_attempts (delta_attempt (live_env tids max_rows) dim metric) as
      (delta_image dim base_metric base rs t) = (acks, f)"
  shows "\<exists>new t'. f = delta_image dim base_metric base (rs @ new) t' \<and>
    subseq acks new \<and> subseq new (map snd as)"
  using delta_log.attempts_durable [OF assms(1,3,2)] assms(4)
  unfolding delta_image_def by blast

theorem delta_append_durable_witness:
  "\<exists>new t'. snd (log_attempts (delta_attempt (live_env None 10) 1 0)
      [(Some (1, 2), (7, [1])), (None, (8, [2])), (Some (2, 0), (9, [3]))]
      (delta_image 1 0 5 [] [])) = delta_image 1 0 5 ([] @ new) t' \<and>
    subseq (fst (log_attempts (delta_attempt (live_env None 10) 1 0)
      [(Some (1, 2), (7, [1])), (None, (8, [2])), (Some (2, 0), (9, [3]))]
      (delta_image 1 0 5 [] []))) new \<and> subseq new [(7, [1]), (8, [2]), (9, [3])]"
  using delta_append_durable [of "[]" 1
      "[(Some (1, 2), (7, [1])), (None, (8, [2])), (Some (2, 0), (9, [3]))]" None 10 0 0 5 "[]"
      "fst (log_attempts (delta_attempt (live_env None 10) 1 0)
        [(Some (1, 2), (7, [1])), (None, (8, [2])), (Some (2, 0), (9, [3]))]
        (delta_image 1 0 5 [] []))"
      "snd (log_attempts (delta_attempt (live_env None 10) 1 0)
        [(Some (1, 2), (7, [1])), (None, (8, [2])), (Some (2, 0), (9, [3]))]
        (delta_image 1 0 5 [] []))"]
  by (simp add: delta_good_def header_atomic_def delta_parts_def del: log_attempts.simps)

text \<open>
  The same for tombstones: an acknowledged dead TID stays recorded whatever happens to later
  appends.
\<close>

theorem tombstone_append_durable:
  assumes "length rs \<le> 2 ^ 62"
    and "\<forall>(flt, r) \<in> set as. header_atomic tombstone_parts r flt"
    and "log_attempts (tombstone_attempt (live_env tids max_rows)) as (tombstone_image base rs t)
      = (acks, f)"
  shows "\<exists>new t'. f = tombstone_image base (rs @ new) t' \<and>
    subseq acks new \<and> subseq new (map snd as)"
  using tombstone_log.attempts_durable [where rs = rs and as = as and max_rows = max_rows
      and tids = tids and base = base and t = t and acks = acks and f = f] assms
  unfolding tombstone_image_def by simp

theorem tombstone_append_durable_witness:
  "\<exists>new t'. snd (log_attempts (tombstone_attempt (live_env None 10))
      [(Some (0, 3), \<lparr>tr_tid = 7, tr_delete_xid = 1\<rparr>), (None, \<lparr>tr_tid = 8, tr_delete_xid = 1\<rparr>)]
      (tombstone_image 5 [] [])) = tombstone_image 5 ([] @ new) t' \<and>
    subseq (fst (log_attempts (tombstone_attempt (live_env None 10))
      [(Some (0, 3), \<lparr>tr_tid = 7, tr_delete_xid = 1\<rparr>), (None, \<lparr>tr_tid = 8, tr_delete_xid = 1\<rparr>)]
      (tombstone_image 5 [] []))) new \<and>
    subseq new [\<lparr>tr_tid = 7, tr_delete_xid = 1\<rparr>, \<lparr>tr_tid = 8, tr_delete_xid = 1\<rparr>]"
  using tombstone_append_durable [of "[]"
      "[(Some (0, 3), \<lparr>tr_tid = 7, tr_delete_xid = 1\<rparr>), (None, \<lparr>tr_tid = 8, tr_delete_xid = 1\<rparr>)]"
      None 10 5 "[]"
      "fst (log_attempts (tombstone_attempt (live_env None 10))
        [(Some (0, 3), \<lparr>tr_tid = 7, tr_delete_xid = 1\<rparr>), (None, \<lparr>tr_tid = 8, tr_delete_xid = 1\<rparr>)]
        (tombstone_image 5 [] []))"
      "snd (log_attempts (tombstone_attempt (live_env None 10))
        [(Some (0, 3), \<lparr>tr_tid = 7, tr_delete_xid = 1\<rparr>), (None, \<lparr>tr_tid = 8, tr_delete_xid = 1\<rparr>)]
        (tombstone_image 5 [] []))"]
  by (simp add: header_atomic_def tombstone_parts_def del: log_attempts.simps)

text \<open>
  A crash inside the record writes of the very first append leaves a file that no later append
  accepts: the header is still zero, and its magic is checked. Torn tails heal only from the second
  append on; here every later insert is refused (and its index marked stale by the caller).
\<close>

theorem delta_first_append_torn:
  assumes "cuvs_read_tids_crc tids = Some base" "0 < sint max_rows" "delta_good dim r"
    and "flt = Some (1, k)"
  shows "\<exists>f. delta_attempt (live_env tids max_rows) dim metric flt [] r = (False, f) \<and>
    (\<forall>env dim' metric' flt' r'. delta_attempt env dim' metric' flt' f r' = (False, f))"
proof -
  let ?f = "pwrite 40 (take k (concat (map (le_bytes 4) (snd r)))) (pwrite 32 (le_bytes 8 (fst r)) [])"
  have "le_bytes 8 (fst r) \<noteq> []"
    by (simp add: numeral_eq_Suc)
  then have "\<exists>x. ?f = replicate 32 0 @ x"
    by (auto simp: pwrite_def)
  then have "delta_attempt env dim' metric' flt' ?f r' = (False, ?f)" for env dim' metric' flt' r'
    using delta_zero_header_rejected by blast
  moreover have "delta_attempt (live_env tids max_rows) dim metric flt [] r = (False, ?f)"
    using delta_first_append [OF assms(1-3)] assms(4) by (simp add: delta_parts_def)
  ultimately show ?thesis by blast
qed

theorem delta_first_append_torn_witness:
  "\<exists>f. delta_attempt (live_env (Some (tids_header_bytes \<lparr>th_magic = CUVS_TIDS_MAGIC,
      th_version = CUVS_TIDS_VERSION, th_n_vecs = 1, th_dim = 1, th_metric = 0,
      th_body_crc32 = 99, th_reserved = 0\<rparr>)) 10) 1 0 (Some (1, 2)) [] (7, [3]) = (False, f) \<and>
    (\<forall>env dim' metric' flt' r'. delta_attempt env dim' metric' flt' f r' = (False, f))"
  by (rule delta_first_append_torn [where base = 99 and k = 2])
     (simp_all add: cuvs_read_tids_crc_def tids_hdr.length_enc tids_hdr.dec_enc delta_good_def Let_def)

end
