(* ===== verification/Float_Order.thy ===== *)
theory Float_Order
  imports Prelude "HOL-Library.Multiset"
begin

text \<open>
  Ordering search results. A C \<open>float\<close> is its 32 bits; \<open>f32_lt\<close> and \<open>f32_le\<close>
  are the C operators \<open><\<close> and \<open><=\<close> on them (false when an operand is a NaN, equal on
  the two zeros). On these rest the result comparators of \<open>src/pg_cuvs.c\<close> and
  \<open>src/pg_cuvs_server.c\<close>, the C library's \<open>qsort\<close>, and the running top-k
  \<open>topk_insert\<close> of the daemon. Floating-point arithmetic itself (the distances) is a
  parameter of the components that use it.
\<close>

section \<open>Comparing floats by their bits\<close>

definition f32_mag :: "u32 \<Rightarrow> nat" where
  "f32_mag w = unat (w AND 0x7FFFFFFF)"

definition f32_nan :: "u32 \<Rightarrow> bool" where
  "f32_nan w \<longleftrightarrow> 0x7F800000 < f32_mag w"

definition f32_key :: "u32 \<Rightarrow> int" where
  "f32_key w = (if bit w 31 then - int (f32_mag w) else int (f32_mag w))"

definition f32_lt :: "u32 \<Rightarrow> u32 \<Rightarrow> bool" where
  "f32_lt a b \<longleftrightarrow> \<not> f32_nan a \<and> \<not> f32_nan b \<and> f32_key a < f32_key b"

definition f32_le :: "u32 \<Rightarrow> u32 \<Rightarrow> bool" where
  "f32_le a b \<longleftrightarrow> \<not> f32_nan a \<and> \<not> f32_nan b \<and> f32_key a \<le> f32_key b"

section \<open>Results and their comparators\<close>

record CuvsResult =
  r_tid :: u64
  r_distance :: u32

type_synonym CuvsCand = CuvsResult

definition CUVS_METRIC_L2 :: u32 where "CUVS_METRIC_L2 = 0"
definition CUVS_METRIC_COSINE :: u32 where "CUVS_METRIC_COSINE = 1"
definition CUVS_METRIC_IP :: u32 where "CUVS_METRIC_IP = 2"

definition cuvs_cand_cmp :: "u32 \<Rightarrow> CuvsCand \<Rightarrow> CuvsCand \<Rightarrow> int" where
  "cuvs_cand_cmp metric x y =
    (if metric = CUVS_METRIC_IP then
       (if f32_lt (r_distance y) (r_distance x) then -1
        else if f32_lt (r_distance x) (r_distance y) then 1 else 0)
     else if f32_lt (r_distance x) (r_distance y) then -1
     else if f32_lt (r_distance y) (r_distance x) then 1 else 0)"

text \<open>The daemon's comparator reads the metric from \<open>g_merge_metric\<close>, set just before.\<close>

definition delta_cand_cmp :: "u32 \<Rightarrow> CuvsResult \<Rightarrow> CuvsResult \<Rightarrow> int" where
  "delta_cand_cmp g_merge_metric x y =
    (if g_merge_metric = CUVS_METRIC_IP then
       (if f32_lt (r_distance y) (r_distance x) then -1
        else if f32_lt (r_distance x) (r_distance y) then 1 else 0)
     else if f32_lt (r_distance x) (r_distance y) then -1
     else if f32_lt (r_distance y) (r_distance x) then 1 else 0)"

lemma delta_cand_cmp_eq: "delta_cand_cmp = cuvs_cand_cmp"
  by (intro ext) (simp add: delta_cand_cmp_def cuvs_cand_cmp_def)

text \<open>How near a result is under a metric: smaller is nearer.\<close>

definition near_key :: "u32 \<Rightarrow> CuvsResult \<Rightarrow> int" where
  "near_key metric r =
     (if metric = CUVS_METRIC_IP then - f32_key (r_distance r) else f32_key (r_distance r))"

definition proper :: "CuvsResult \<Rightarrow> bool" where
  "proper r \<longleftrightarrow> \<not> f32_nan (r_distance r)"

section \<open>The C library's sort\<close>

text \<open>
  \<open>qsort\<close> is modelled as insertion sort by the comparator. The C standard leaves the order of
  elements that compare equal open; no theorem here depends on it.
\<close>

primrec c_insert :: "('a \<Rightarrow> 'a \<Rightarrow> int) \<Rightarrow> 'a \<Rightarrow> 'a list \<Rightarrow> 'a list" where
  "c_insert cmp x [] = [x]"
| "c_insert cmp x (y # ys) = (if cmp x y \<le> 0 then x # y # ys else y # c_insert cmp x ys)"

primrec qsort :: "('a \<Rightarrow> 'a \<Rightarrow> int) \<Rightarrow> 'a list \<Rightarrow> 'a list" where
  "qsort cmp [] = []"
| "qsort cmp (x # xs) = c_insert cmp x (qsort cmp xs)"

lemma mset_c_insert [simp]: "mset (c_insert cmp x xs) = add_mset x (mset xs)"
  by (induction xs) auto

lemma mset_qsort [simp]: "mset (qsort cmp xs) = mset xs"
  by (induction xs) auto

lemma set_qsort [simp]: "set (qsort cmp xs) = set xs"
  by (metis mset_qsort set_mset_mset)

lemma length_qsort [simp]: "length (qsort cmp xs) = length xs"
  by (metis mset_qsort size_mset)

lemma mset_take_qsort: "mset (take k (qsort cmp xs)) \<subseteq># mset xs"
proof -
  have "mset (take k (qsort cmp xs)) + mset (drop k (qsort cmp xs)) = mset xs"
    by (simp flip: mset_append)
  then show ?thesis
    by (metis mset_subset_eq_add_left)
qed

text \<open>
  A comparator is lawful on a set when it compares by a key there. Then the sort sorts, and a prefix
  of it holds nearest elements.
\<close>

locale key_comparator =
  fixes cmp :: "'a \<Rightarrow> 'a \<Rightarrow> int" and good :: "'a \<Rightarrow> bool" and key :: "'a \<Rightarrow> int"
  assumes cmp_key: "good x \<Longrightarrow> good y \<Longrightarrow> cmp x y \<le> 0 \<longleftrightarrow> key x \<le> key y"
begin

lemma sorted_c_insert:
  "good x \<Longrightarrow> \<forall>y \<in> set ys. good y \<Longrightarrow> sorted (map key ys)
    \<Longrightarrow> sorted (map key (c_insert cmp x ys))"
proof (induction ys)
  case Nil
  then show ?case by simp
next
  case (Cons y ys)
  have "set (c_insert cmp x ys) = insert x (set ys)"
    by (metis mset_c_insert set_mset_mset set_mset_add_mset_insert)
  with Cons show ?case
    by (auto simp: cmp_key)
qed

lemma sorted_qsort: "\<forall>y \<in> set xs. good y \<Longrightarrow> sorted (map key (qsort cmp xs))"
  by (induction xs) (auto intro: sorted_c_insert)

lemma keys_qsort:
  assumes "\<forall>y \<in> set xs. good y"
  shows "map key (qsort cmp xs) = sort (map key xs)"
proof -
  have "mset (map key xs) = mset (map key (qsort cmp xs))"
    by simp
  then show ?thesis
    using sorted_qsort [OF assms] properties_for_sort by metis
qed

lemma keys_take_qsort:
  "\<forall>y \<in> set xs. good y \<Longrightarrow> map key (take k (qsort cmp xs)) = take k (sort (map key xs))"
  by (simp add: keys_qsort flip: take_map)

lemma prefix_nearest:
  assumes "\<forall>y \<in> set xs. good y" "x \<in> set (take k (qsort cmp xs))" "y \<in> set (drop k (qsort cmp xs))"
  shows "key x \<le> key y"
proof -
  have "sorted (map key (take k (qsort cmp xs)) @ map key (drop k (qsort cmp xs)))"
    using sorted_qsort [OF assms(1)] by (simp flip: map_append)
  with assms(2,3) show ?thesis
    by (auto simp: sorted_append)
qed

end

interpretation cand_order: key_comparator "cuvs_cand_cmp metric" proper "near_key metric"
  for metric
  by unfold_locales (auto simp: cuvs_cand_cmp_def near_key_def proper_def f32_lt_def)

section \<open>The k smallest keys\<close>

lemma take_insort_above:
  fixes d :: "'a::linorder"
  shows "sorted xs \<Longrightarrow> k \<le> length xs \<Longrightarrow> \<forall>x \<in> set (take k xs). x \<le> d
    \<Longrightarrow> take k (insort d xs) = take k xs"
proof (induction xs arbitrary: k)
  case Nil
  then show ?case by simp
next
  case (Cons x xs)
  show ?case
  proof (cases k)
    case 0
    then show ?thesis by simp
  next
    case (Suc j)
    with Cons have "x \<le> d" and t: "take j (insort d xs) = take j xs" by auto
    show ?thesis
    proof (cases "d = x")
      case True
      then have "insort d xs = d # xs"
        using Cons.prems by (simp add: insort_is_Cons)
      with True t Suc show ?thesis by simp
    next
      case False
      with \<open>x \<le> d\<close> t Suc show ?thesis by auto
    qed
  qed
qed

lemma take_sort_drop_above:
  fixes A D :: "'a::linorder list"
  assumes "k \<le> length A" "\<forall>d \<in> set D. \<forall>x \<in> set (take k (sort A)). x \<le> d"
  shows "take k (sort (D @ A)) = take k (sort A)"
  using assms(2)
proof (induction D)
  case Nil
  then show ?case by simp
next
  case (Cons d D)
  then have "take k (sort (D @ A)) = take k (sort A)" by simp
  with Cons.prems assms(1) show ?case
    using take_insort_above [of "sort (D @ A)" k d] by simp
qed

text \<open>The k smallest of a union are those of the k smallest of one part and the other part.\<close>

lemma take_sort_append:
  fixes xs ys :: "'a::linorder list"
  shows "take k (sort (xs @ ys)) = take k (sort (take k (sort xs) @ ys))"
proof (cases "length xs \<le> k")
  case True
  then have "sort (xs @ ys) = sort (sort xs @ ys)"
    by (intro properties_for_sort) simp_all
  with True show ?thesis by simp
next
  case False
  let ?t = "take k (sort xs)" and ?d = "drop k (sort xs)"
  have s: "sort (xs @ ys) = sort (?d @ ?t @ ys)"
  proof (rule properties_for_sort)
    have "mset ?d + mset ?t = mset xs"
      by (metis append_take_drop_id mset_sort mset_append add.commute)
    then show "mset (sort (?d @ ?t @ ys)) = mset (xs @ ys)"
      by (simp add: add.assoc [symmetric])
  qed simp
  have ub: "x \<le> y" if "x \<in> set ?t" "y \<in> set ?d" for x y
    using that sorted_append [of ?t ?d] by simp
  have len: "length ?t = k" using False by simp
  have "x \<le> d" if d: "d \<in> set ?d" and x: "x \<in> set (take k (sort (?t @ ys)))" for d x
  proof (rule ccontr)
    assume "\<not> x \<le> d"
    then have lt: "\<forall>z \<in> set ?t. z < x"
      using ub d by fastforce
    let ?S = "sort (?t @ ys)"
    obtain i where i: "i < k" "i < length ?S" "?S ! i = x"
      using x by (auto simp: in_set_conv_nth)
    have "{j. j < length ?S \<and> ?S ! j < x} \<subseteq> {j. j < i}"
    proof
      fix j
      assume "j \<in> {j. j < length ?S \<and> ?S ! j < x}"
      then show "j \<in> {j. j < i}"
        using sorted_nth_mono [OF sorted_sort, of i j "?t @ ys"] i by (force simp: not_less)
    qed
    then have "card {j. j < length ?S \<and> ?S ! j < x} \<le> i"
      using card_mono [of "{j. j < i}"] by fastforce
    then have "length (filter (\<lambda>z. z < x) ?S) \<le> i"
      by (simp add: length_filter_conv_card)
    moreover have "length (filter (\<lambda>z. z < x) ?S) = length (filter (\<lambda>z. z < x) (?t @ ys))"
      by (metis mset_filter mset_sort size_mset)
    moreover have "length (filter (\<lambda>z. z < x) ?t) = k"
      using lt len by simp
    ultimately show False
      using i by simp
  qed
  then show ?thesis
    using take_sort_drop_above [of k "?t @ ys" ?d] len s by simp
qed

lemma take_sort_append2:
  fixes xs ys :: "'a::linorder list"
  shows "take k (sort (xs @ ys)) = take k (sort (xs @ take k (sort ys)))"
proof -
  have c: "sort (us @ vs) = sort (vs @ us)" for us vs :: "'a list"
    by (intro properties_for_sort) (simp_all add: add.commute)
  show ?thesis
    using take_sort_append [of k ys xs] c by metis
qed

section \<open>The running top-k of the daemon\<close>

text \<open>
  \<open>topk_insert\<close> keeps the array \<open>top[0 .. *pn)\<close>, here a list. The loop moves larger
  elements one slot up from the right end until the new one fits.
\<close>

primrec topk_shift :: "CuvsResult \<Rightarrow> CuvsResult list \<Rightarrow> CuvsResult list" where
  "topk_shift x [] = [x]"
| "topk_shift x (y # ys) =
     (if f32_lt (r_distance x) (r_distance y) then y # topk_shift x ys else x # y # ys)"

definition topk_insert :: "nat \<Rightarrow> CuvsResult \<Rightarrow> CuvsResult list \<Rightarrow> CuvsResult list" where
  "topk_insert k x best =
    (if k \<le> length best \<and> f32_le (r_distance (best ! (k - 1))) (r_distance x) then best
     else rev (topk_shift x (rev (if length best < k then best else butlast best))))"

abbreviation res_key :: "CuvsResult \<Rightarrow> int" where
  "res_key r \<equiv> f32_key (r_distance r)"

lemma mset_topk_shift [simp]: "mset (topk_shift x ys) = add_mset x (mset ys)"
  by (induction ys) auto

lemma set_topk_shift [simp]: "set (topk_shift x ys) = insert x (set ys)"
  by (metis mset_topk_shift set_mset_mset set_mset_add_mset_insert)

lemma topk_shift_keys:
  assumes "proper x" "\<forall>y \<in> set ys. proper y" "sorted (map res_key (rev ys))"
  shows "map res_key (rev (topk_shift x ys)) = insort (res_key x) (map res_key (rev ys))"
proof -
  have "sorted (map res_key (rev (topk_shift x ys)))"
    using assms
  proof (induction ys)
    case Nil
    then show ?case by simp
  next
    case (Cons y ys)
    then have ih: "sorted (map res_key (rev (topk_shift x ys)))"
      and le: "\<forall>z \<in> set ys. res_key z \<le> res_key y"
      by (auto simp: sorted_append)
    show ?case
    proof (cases "f32_lt (r_distance x) (r_distance y)")
      case True
      with ih le show ?thesis
        by (auto simp: sorted_append f32_lt_def)
    next
      case False
      then have "res_key y \<le> res_key x"
        using Cons.prems by (auto simp: f32_lt_def proper_def)
      with False Cons.prems le show ?thesis
        by (auto simp: sorted_append)
    qed
  qed
  moreover have "mset (map res_key (rev (topk_shift x ys))) = add_mset (res_key x) (mset (map res_key (rev ys)))"
    by simp
  ultimately have "sort (res_key x # map res_key (rev ys)) = map res_key (rev (topk_shift x ys))"
    by (intro properties_for_sort) simp_all
  then show ?thesis
    using assms(3) sorted_sort_id by (metis sort_key_simps(2) list.map_ident)
qed


text \<open>Inserting keeps the k smallest of what was there and the new result.\<close>

lemma topk_insert_keys:
  assumes "proper x" "\<forall>y \<in> set best. proper y" "sorted (map res_key best)" "length best \<le> k" "0 < k"
  shows "map res_key (topk_insert k x best) = take k (insort (res_key x) (map res_key best))"
proof -
  let ?m = "map res_key best"
  show ?thesis
  proof (cases "length best < k")
    case True
    then show ?thesis
      using topk_shift_keys [of x "rev best"] assms by (simp add: topk_insert_def)
  next
    case False
    then have len: "length best = k" using assms(4) by simp
    with assms(5) obtain ys y where b: "best = ys @ [y]"
      by (metis append_butlast_last_id length_greater_0_conv)
    have last: "best ! (k - 1) = y"
      using b len by (auto simp: nth_append)
    have le: "\<forall>z \<in> set ys. res_key z \<le> res_key y"
      using assms(3) b by (auto simp: sorted_append)
    show ?thesis
    proof (cases "f32_le (r_distance y) (r_distance x)")
      case True
      then have "take k (insort (res_key x) ?m) = take k ?m"
        using assms(3) le len b by (intro take_insort_above) (auto simp: f32_le_def intro: order_trans)
      with True last len show ?thesis
        by (simp add: topk_insert_def)
    next
      case False
      then have lt: "res_key x < res_key y"
        using assms(1,2) b by (auto simp: f32_le_def proper_def)
      have "insort (res_key x) (map res_key ys @ [res_key y])
          = insort (res_key x) (map res_key ys) @ [res_key y]"
        using lt by (induction ys) auto
      moreover have "length (insort (res_key x) (map res_key ys)) = k"
        using len b by simp
      ultimately have "take k (insort (res_key x) ?m) = insort (res_key x) (map res_key ys)"
        using b by simp
      then show ?thesis
        using False last len b assms topk_shift_keys [of x "rev ys"]
        by (simp add: topk_insert_def sorted_append)
    qed
  qed
qed

lemma set_topk_insert: "set (topk_insert k x best) \<subseteq> insert x (set best)"
  by (auto simp: topk_insert_def dest: in_set_butlastD split: if_splits)

lemma length_topk_insert:
  "length best \<le> k \<Longrightarrow> 0 < k \<Longrightarrow> length (topk_insert k x best) = min k (Suc (length best))"
proof -
  assume a: "length best \<le> k" "0 < k"
  have "length (topk_shift x ys) = Suc (length ys)" for ys
    by (metis mset_topk_shift size_mset size_add_mset)
  with a show ?thesis
    by (auto simp: topk_insert_def f32_le_def)
qed

definition topk_all :: "nat \<Rightarrow> CuvsResult list \<Rightarrow> CuvsResult list \<Rightarrow> CuvsResult list" where
  "topk_all k xs best = fold (topk_insert k) xs best"

lemma set_topk_all: "set (topk_all k xs best) \<subseteq> set xs \<union> set best"
  unfolding topk_all_def
  by (induction xs arbitrary: best) (use set_topk_insert in fastforce)+

lemma topk_all_keys:
  assumes "0 < k" "\<forall>x \<in> set xs \<union> set best. proper x" "sorted (map res_key best)" "length best \<le> k"
  shows "map res_key (topk_all k xs best) = take k (sort (map res_key (xs @ best)))"
  using assms(2-4) unfolding topk_all_def
proof (induction xs arbitrary: best)
  case Nil
  then show ?case by (simp add: sorted_sort_id)
next
  case (Cons x xs)
  let ?b = "topk_insert k x best" and ?i = "insort (res_key x) (map res_key best)"
  have b: "map res_key ?b = take k ?i"
    using Cons.prems assms(1) by (intro topk_insert_keys) auto
  have "sorted ?i"
    using Cons.prems by (simp add: sorted_insort)
  then have s: "sorted (map res_key ?b)"
    using b by (simp add: sorted_wrt_take)
  have "map res_key (fold (topk_insert k) xs ?b) = take k (sort (map res_key (xs @ ?b)))"
    using Cons.prems s set_topk_insert [of k x best] length_topk_insert [of best k x] assms(1)
    by (intro Cons.IH) auto
  also have "\<dots> = take k (sort (map res_key xs @ take k (sort (res_key x # map res_key best))))"
    using b Cons.prems by (simp add: sorted_sort_id)
  also have "\<dots> = take k (sort (map res_key xs @ (res_key x # map res_key best)))"
    using take_sort_append2 by metis
  also have "sort (map res_key xs @ (res_key x # map res_key best)) = sort (map res_key ((x # xs) @ best))"
    by (intro properties_for_sort) (simp, rule sorted_sort)
  finally show ?case by simp
qed

end
