(* ===== verification/Util.thy ===== *)
theory Util
  imports Float_Order
begin

text \<open>
  The small pure helpers of \<open>src/cuvs_util.c\<close> and \<open>src/cuvs_util.h\<close>: heap TID
  packing, the filter-frame gate, file-name parsing, status names, opclass metrics, sorted-array
  search, the latency histogram and the CAGRA buffer size. Binary search also serves the reverse TID
  map of the daemon and the backend's own filter lookup.
\<close>

section \<open>Heap TIDs\<close>

definition cuvs_tid_encode :: "u32 \<Rightarrow> u16 \<Rightarrow> u64" where
  "cuvs_tid_encode block offs = push_bit 16 (ucast block) OR ucast offs"

definition cuvs_tid_decode :: "u64 \<Rightarrow> u32 \<times> u16" where
  "cuvs_tid_decode tid = (ucast (drop_bit 16 tid), ucast (tid AND 0xFFFF))"

text \<open>
  Packing a heap TID into 64 bits and unpacking it are inverse: nothing of the block or the
  offset is lost, and every packed value below \<open>2 ^ 48\<close> comes from its own parts.
\<close>

theorem tid_roundtrip:
  "cuvs_tid_decode (cuvs_tid_encode block offs) = (block, offs) \<and>
   (unat tid < 2 ^ 48 \<longrightarrow> (case cuvs_tid_decode tid of (b, w) \<Rightarrow> cuvs_tid_encode b w = tid))"
proof (intro conjI impI)
  have m: "(0xFFFF :: u64) = mask 16"
    by (simp add: mask_eq_decr_exp)
  have hi: "\<not> bit (w :: u16) (16 + n)" for w n
    by (auto dest: bit_imp_le_length)
  show "cuvs_tid_decode (cuvs_tid_encode block offs) = (block, offs)"
    unfolding cuvs_tid_encode_def cuvs_tid_decode_def m
    by (auto intro!: bit_word_eqI
        simp: hi bit_ucast_iff bit_or_iff bit_push_bit_iff bit_drop_bit_eq bit_and_iff bit_mask_iff)
  assume "unat tid < 2 ^ 48"
  then have z: "\<not> bit tid n" if "48 \<le> n" for n
  proof -
    have "take_bit 48 (unat tid) = unat tid"
      using \<open>unat tid < 2 ^ 48\<close> by (simp add: take_bit_nat_eq_self)
    then have "bit (unat tid) n \<Longrightarrow> n < 48"
      by (metis bit_take_bit_iff)
    with that show ?thesis
      by (auto simp: bit_unsigned_iff dest: bit_imp_le_length)
  qed
  show "case cuvs_tid_decode tid of (b, w) \<Rightarrow> cuvs_tid_encode b w = tid"
  proof -
    have "n - 16 < 32" if "bit tid n" for n
      using z [of n] that by (cases "48 \<le> n") auto
    then show ?thesis
      unfolding cuvs_tid_encode_def cuvs_tid_decode_def m
      by (auto intro!: bit_word_eqI
          simp: bit_ucast_iff bit_or_iff bit_push_bit_iff bit_drop_bit_eq bit_and_iff bit_mask_iff
            not_less)
  qed
qed

theorem tid_roundtrip_witness:
  "cuvs_tid_decode (cuvs_tid_encode 3 7) = (3, 7) \<and>
   (unat (196615 :: u64) < 2 ^ 48 \<and> (case cuvs_tid_decode 196615 of (b, w) \<Rightarrow> cuvs_tid_encode b w = 196615))"
  using tid_roundtrip [of 3 7 196615] by simp

section \<open>The filter-frame gate\<close>

definition cuvs_filter_frame_refuses :: "u32 \<Rightarrow> bool \<Rightarrow> bool" where
  "cuvs_filter_frame_refuses n_filter_tids filter_available \<longleftrightarrow>
     0 < n_filter_tids \<and> \<not> filter_available"

section \<open>Sorted arrays\<close>

definition compare_u64 :: "u64 \<Rightarrow> u64 \<Rightarrow> int" where
  "compare_u64 a b = (if a > b then 1 else 0) - (if a < b then 1 else 0)"

definition cuvs_u64_sort :: "u64 list \<Rightarrow> u64 list" where
  "cuvs_u64_sort values = (if 1 < length values then qsort compare_u64 values else values)"

interpretation u64_order: key_comparator compare_u64 "\<lambda>_. True" uint
  by unfold_locales (auto simp: compare_u64_def word_less_def word_le_def)

lemma set_cuvs_u64_sort [simp]: "set (cuvs_u64_sort xs) = set xs"
  by (simp add: cuvs_u64_sort_def)

lemma sorted_cuvs_u64_sort: "sorted (cuvs_u64_sort xs)"
proof -
  have "sorted (map uint (cuvs_u64_sort xs))"
    using u64_order.sorted_qsort [of xs]
    by (cases xs rule: remdups_adj.cases) (auto simp: cuvs_u64_sort_def)
  then show ?thesis
    by (simp add: sorted_map word_le_def [abs_def])
qed

text \<open>
  The two loop shapes of the source: over a half-open range \<open>[lo, hi)\<close>
  (\<open>cuvs_u64_contains\<close>, \<open>cuvs_tid_in_filter\<close>) and over a closed one, in signed
  arithmetic (the reverse TID map). Each step reads \<open>mid = lo + (hi - lo) / 2\<close>.
\<close>

function bs_half :: "'a::linorder list \<Rightarrow> 'a \<Rightarrow> nat \<Rightarrow> nat \<Rightarrow> bool" where
  "bs_half arr x lo hi =
    (if lo < hi then
       (let mid = lo + (hi - lo) div 2 in
        if arr ! mid = x then True
        else if arr ! mid < x then bs_half arr x (mid + 1) hi
        else bs_half arr x lo mid)
     else False)"
  by pat_completeness auto
termination
  by (relation "measure (\<lambda>(arr, x, lo, hi). hi - lo)") (auto simp: Let_def)

function bs_closed :: "'a::linorder list \<Rightarrow> 'a \<Rightarrow> int \<Rightarrow> int \<Rightarrow> nat option" where
  "bs_closed arr x lo hi =
    (if lo \<le> hi then
       (let mid = lo + (hi - lo) div 2 in
        if arr ! nat mid = x then Some (nat mid)
        else if arr ! nat mid < x then bs_closed arr x (mid + 1) hi
        else bs_closed arr x lo (mid - 1))
     else None)"
  by pat_completeness auto
termination
  by (relation "measure (\<lambda>(arr, x, lo, hi). nat (hi - lo + 1))") (auto simp: Let_def)

declare bs_half.simps [simp del] bs_closed.simps [simp del]

lemma bs_half_correct:
  assumes "sorted arr" "hi \<le> length arr"
  shows "bs_half arr x lo hi \<longleftrightarrow> (\<exists>i. lo \<le> i \<and> i < hi \<and> arr ! i = x)"
  using assms
proof (induction arr x lo hi rule: bs_half.induct)
  case (1 arr x lo hi)
  show ?case
  proof (cases "lo < hi")
    case False
    then show ?thesis by (auto simp: bs_half.simps [of arr x lo hi])
  next
    case True
    define mid where "mid = lo + (hi - lo) div 2"
    have mid: "lo \<le> mid" "mid < hi" using True by (auto simp: mid_def)
    have mono: "i \<le> j \<Longrightarrow> j < hi \<Longrightarrow> arr ! i \<le> arr ! j" for i j
      using 1(3,4) by (auto intro: sorted_nth_mono)
    consider "arr ! mid = x" | "arr ! mid < x" | "x < arr ! mid" by force
    then show ?thesis
    proof cases
      case 1
      then show ?thesis
        using mid True by (auto simp: bs_half.simps [of arr x lo hi] Let_def mid_def [symmetric])
    next
      case 2
      with "1.IH"(1) [OF True mid_def] "1.prems" mid
      have "bs_half arr x lo hi \<longleftrightarrow> (\<exists>i\<ge>mid + 1. i < hi \<and> arr ! i = x)"
        using True 2 less_imp_neq [OF 2] bs_half.simps [of arr x lo hi] by (simp add: mid_def [symmetric] Let_def)
      moreover have "mid + 1 \<le> i \<and> i < hi \<and> arr ! i = x \<longleftrightarrow> lo \<le> i \<and> i < hi \<and> arr ! i = x" for i
        using 2 mono [of i mid] mid by (cases "i \<le> mid") auto
      ultimately show ?thesis by simp
    next
      case 3
      with "1.IH"(2) [OF True mid_def] "1.prems" mid
      have "bs_half arr x lo hi \<longleftrightarrow> (\<exists>i\<ge>lo. i < mid \<and> arr ! i = x)"
        using True 3 less_imp_neq [OF 3] less_not_sym [OF 3] bs_half.simps [of arr x lo hi] by (simp add: mid_def [symmetric] Let_def)
      moreover have "lo \<le> i \<and> i < mid \<and> arr ! i = x \<longleftrightarrow> lo \<le> i \<and> i < hi \<and> arr ! i = x" for i
        using 3 mono [of mid i] mid by (cases "mid \<le> i") auto
      ultimately show ?thesis by simp
    qed
  qed
qed

lemma bs_closed_Some:
  "bs_closed arr x lo hi = Some i \<Longrightarrow> 0 \<le> lo \<Longrightarrow> lo \<le> int i \<and> int i \<le> hi \<and> arr ! i = x"
proof (induction arr x lo hi rule: bs_closed.induct)
  case (1 arr x lo hi)
  define mid where "mid = lo + (hi - lo) div 2"
  have le: "lo \<le> hi" using "1.prems"(1) by (auto simp: bs_closed.simps [of arr x lo hi] split: if_splits)
  then have mid: "lo \<le> mid" "mid \<le> hi" by (auto simp: mid_def)
  show ?case
  proof (cases "arr ! nat mid = x")
    case True
    then show ?thesis
      using "1.prems" le mid by (auto simp: bs_closed.simps [of arr x lo hi] mid_def Let_def)
  next
    case False
    then show ?thesis
      using "1.prems" "1.IH" [OF le mid_def False] le mid
      by (cases "arr ! nat mid < x")
        (auto simp: bs_closed.simps [of arr x lo hi] mid_def [symmetric] Let_def)
  qed
qed

lemma bs_closed_complete:
  assumes "sorted arr" "0 \<le> lo" "hi < int (length arr)" "lo \<le> int j" "int j \<le> hi" "arr ! j = x"
  shows "\<exists>i. bs_closed arr x lo hi = Some i"
  using assms
proof (induction arr x lo hi rule: bs_closed.induct)
  case (1 arr x lo hi)
  define mid where "mid = lo + (hi - lo) div 2"
  have le: "lo \<le> hi" using "1.prems" by linarith
  then have mid: "lo \<le> mid" "mid \<le> hi" by (auto simp: mid_def)
  show ?case
  proof (cases "arr ! nat mid = x")
    case True
    then show ?thesis
      using le by (auto simp: bs_closed.simps [of arr x lo hi] mid_def Let_def)
  next
    case False
    note ih = "1.IH" [OF le mid_def False]
    show ?thesis
    proof (cases "arr ! nat mid < x")
      case True
      then have "\<not> j \<le> nat mid"
        using "1.prems" mid sorted_nth_mono [of arr j "nat mid"] by force
      then show ?thesis
        using True False le ih(1) "1.prems" mid
        by (simp add: bs_closed.simps [of arr x lo hi] mid_def [symmetric] Let_def)
    next
      case F2: False
      then have "\<not> nat mid \<le> j"
        using False "1.prems" mid sorted_nth_mono [of arr "nat mid" j] by force
      then show ?thesis
        using F2 False le ih(2) "1.prems" mid
        by (simp add: bs_closed.simps [of arr x lo hi] mid_def [symmetric] Let_def)
    qed
  qed
qed

definition cuvs_u64_contains :: "u64 list \<Rightarrow> u64 \<Rightarrow> bool" where
  "cuvs_u64_contains sorted_values target = bs_half sorted_values target 0 (length sorted_values)"

lemma cuvs_u64_contains_iff: "sorted xs \<Longrightarrow> cuvs_u64_contains xs t \<longleftrightarrow> t \<in> set xs"
  by (auto simp: cuvs_u64_contains_def bs_half_correct in_set_conv_nth)

text \<open>
  Sorting the filter and searching it decides membership: the whitelist test the daemon applies
  to every candidate accepts exactly the caller's TIDs.
\<close>

theorem filter_lookup_correct: "cuvs_u64_contains (cuvs_u64_sort xs) t \<longleftrightarrow> t \<in> set xs"
  by (simp add: cuvs_u64_contains_iff sorted_cuvs_u64_sort)


section \<open>File names, status codes, metrics\<close>

text \<open>
  \<open>sscanf\<close>'s \<open>%u\<close>: white space, an optional sign, decimal digits. The value goes
  through \<open>strtoul\<close> (64 bits, saturating) into 32 bits, negated under a minus sign; it
  returns the value and the rest of the input, or \<open>None\<close> when no digit follows.
\<close>

definition c_isspace :: "char \<Rightarrow> bool" where
  "c_isspace c \<longleftrightarrow> c \<in> {CHR '' '', CHR 0x09, CHR 0x0A, CHR 0x0B, CHR 0x0C, CHR 0x0D}"

definition c_isdigit :: "char \<Rightarrow> bool" where
  "c_isdigit c \<longleftrightarrow> 48 \<le> (of_char c :: nat) \<and> (of_char c :: nat) \<le> 57"

definition digits_value :: "string \<Rightarrow> nat" where
  "digits_value ds = foldl (\<lambda>acc c. acc * 10 + (of_char c - 48)) 0 ds"

definition scan_u :: "string \<Rightarrow> (u32 \<times> string) option" where
  "scan_u s =
    (let s1 = dropWhile c_isspace s;
         neg = (s1 \<noteq> [] \<and> hd s1 = CHR ''-'');
         s2 = (if s1 \<noteq> [] \<and> (hd s1 = CHR ''-'' \<or> hd s1 = CHR ''+'') then tl s1 else s1);
         ds = takeWhile c_isdigit s2;
         v = of_nat (min (digits_value ds) (2 ^ 64 - 1)) :: u64
     in if ds = [] then None
        else Some (ucast (if neg \<and> digits_value ds < 2 ^ 64 then - v else v), drop (length ds) s2))"

text \<open>
  \<open>sscanf(name, "%u_%u.cagra%n") == 2\<close> and the whole name consumed. When the literal does
  not match, the two numbers are still assigned but \<open>consumed\<close> stays 0, which no name that
  reached it has as its length.
\<close>

definition cuvs_parse_index_filename :: "string option \<Rightarrow> (u32 \<times> u32) option" where
  "cuvs_parse_index_filename name =
    (case name of
       None \<Rightarrow> None
     | Some s \<Rightarrow>
        (case scan_u s of
           None \<Rightarrow> None
         | Some (db_oid, r1) \<Rightarrow>
            (case r1 of
               [] \<Rightarrow> None
             | c # r2 \<Rightarrow>
                if c \<noteq> CHR ''_'' then None
                else (case scan_u r2 of
                        None \<Rightarrow> None
                      | Some (index_oid, r3) \<Rightarrow>
                          if take 6 r3 = ''.cagra'' then
                            (let consumed = length s - length (drop 6 r3)
                             in if consumed = length s then Some (db_oid, index_oid) else None)
                          else None))))"

text \<open>\<open>printf("%u")\<close>, as the file-path builders of the daemon use it.\<close>

fun dec_digits :: "nat \<Rightarrow> string" where
  "dec_digits n = (if n < 10 then [char_of (48 + n)] else dec_digits (n div 10) @ [char_of (48 + n mod 10)])"

declare dec_digits.simps [simp del]

definition index_file_name :: "u32 \<Rightarrow> u32 \<Rightarrow> string" where
  "index_file_name db_oid index_oid =
     dec_digits (unat db_oid) @ ''_'' @ dec_digits (unat index_oid) @ ''.cagra''"

lemma c_isdigit_digit [simp]: "n < 10 \<Longrightarrow> c_isdigit (char_of (48 + n :: nat))"
  by (simp add: c_isdigit_def of_char_of take_bit_nat_eq_self)

lemma dec_digits_isdigit: "\<forall>c \<in> set (dec_digits n). c_isdigit c"
proof (induction n rule: dec_digits.induct)
  case (1 n)
  then show ?case by (subst dec_digits.simps) auto
qed

lemma dec_digits_ne: "dec_digits n \<noteq> []"
  by (subst dec_digits.simps) auto

lemma digits_value_dec: "digits_value (dec_digits n) = n"
proof (induction n rule: dec_digits.induct)
  case (1 n)
  show ?case
  proof (cases "n < 10")
    case True
    then show ?thesis
      by (simp add: dec_digits.simps [of n] digits_value_def of_char_of take_bit_nat_eq_self)
  next
    case False
    with 1 show ?thesis
      by (simp add: dec_digits.simps [of n] digits_value_def of_char_of take_bit_nat_eq_self)
  qed
qed

lemma digit_not_special:
  "c_isdigit c \<Longrightarrow> \<not> c_isspace c \<and> c \<noteq> CHR ''-'' \<and> c \<noteq> CHR ''+''"
  by (auto simp: c_isdigit_def c_isspace_def)

lemma scan_u_dec:
  assumes "r = [] \<or> \<not> c_isdigit (hd r)"
  shows "scan_u (dec_digits (unat w) @ r) = Some (w, r)"
proof -
  obtain c cs where d: "dec_digits (unat w) = c # cs"
    using dec_digits_ne by (cases "dec_digits (unat w)") auto
  have dig: "\<forall>x \<in> set (c # cs). c_isdigit x"
    using dec_digits_isdigit d by metis
  have tw: "takeWhile c_isdigit ((c # cs) @ r) = c # cs"
    using dig assms by (subst takeWhile_append2) (cases r; auto)+
  have v: "digits_value (c # cs) = unat w"
    using digits_value_dec d by metis
  have "unat w < 2 ^ 32" using unat_bound [of w] by simp
  then have "ucast (of_nat (unat w) :: u64) = w" "min (unat w) (2 ^ 64 - 1) = unat w"
    by (auto intro: bit_word_eqI simp: bit_ucast_iff dest: bit_imp_le_length)
  then show ?thesis
    using tw v digit_not_special [of c] dig by (simp add: scan_u_def d Let_def)
qed

text \<open>
  The startup scan reads back exactly the names the daemon writes: parsing
  \<open>"<db>_<index>.cagra"\<close> gives the two OIDs, and appending anything to such a name (a
  backup suffix) makes the parser refuse it, as does a shard artifact.
\<close>

theorem index_filename_roundtrip:
  "cuvs_parse_index_filename (Some (index_file_name db idx)) = Some (db, idx) \<and>
   (sfx \<noteq> [] \<longrightarrow> cuvs_parse_index_filename (Some (index_file_name db idx @ sfx)) = None) \<and>
   cuvs_parse_index_filename
     (Some (dec_digits (unat db) @ ''_'' @ dec_digits (unat idx) @ ''.s000.cagra'')) = None"
proof -
  have nd: "\<not> c_isdigit (CHR ''_'')" "\<not> c_isdigit (CHR ''.'')"
    by (simp_all add: c_isdigit_def)
  have p: "cuvs_parse_index_filename
      (Some (dec_digits (unat db) @ ''_'' @ dec_digits (unat idx) @ ''.'' @ r))
    = (if take 5 r = ''cagra'' \<and> drop 5 r = [] then Some (db, idx) else None)" for r
  proof -
    have "scan_u (dec_digits (unat db) @ CHR ''_'' # dec_digits (unat idx) @ CHR ''.'' # r)
        = Some (db, CHR ''_'' # dec_digits (unat idx) @ CHR ''.'' # r)"
      using nd by (intro scan_u_dec) simp
    moreover have "scan_u (dec_digits (unat idx) @ CHR ''.'' # r) = Some (idx, CHR ''.'' # r)"
      using nd by (intro scan_u_dec) simp
    ultimately show ?thesis
      by (auto simp: cuvs_parse_index_filename_def Let_def)
  qed
  show ?thesis
    using p [of "''cagra''"] p [of "''cagra'' @ sfx"] p [of "''s000.cagra''"]
    by (auto simp: index_file_name_def)
qed

theorem index_filename_roundtrip_witness:
  "cuvs_parse_index_filename (Some (index_file_name 5 16384)) = Some (5, 16384) \<and>
   cuvs_parse_index_filename (Some (index_file_name 5 16384 @ ''.tmp'')) = None \<and>
   cuvs_parse_index_filename
     (Some (dec_digits (unat (5 :: u32)) @ ''_'' @ dec_digits (unat (16384 :: u32)) @ ''.s000.cagra'')) = None"
  using index_filename_roundtrip [of 5 16384 "''.tmp''"] by blast

definition cuvs_metric_from_opclass_name :: "string option \<Rightarrow> int" where
  "cuvs_metric_from_opclass_name name =
    (case name of
       None \<Rightarrow> -1
     | Some s \<Rightarrow>
         if s = ''vector_l2_ops'' then uint CUVS_METRIC_L2
         else if s = ''vector_cosine_ops'' then uint CUVS_METRIC_COSINE
         else if s = ''vector_ip_ops'' then uint CUVS_METRIC_IP
         else -1)"

definition cuvs_status_str :: "int \<Rightarrow> string" where
  "cuvs_status_str status =
    (if status = 0 then ''ok'' else if status = 1 then ''error''
     else if status = 2 then ''oom_fallback'' else if status = 3 then ''not_found''
     else if status = 4 then ''unavailable'' else if status = 5 then ''build_failed''
     else if status = 6 then ''persist_failed'' else if status = 7 then ''dim_mismatch''
     else if status = 8 then ''metric_mismatch'' else if status = 9 then ''stale''
     else if status = 12 then ''proto_mismatch'' else ''unknown'')"

section \<open>The CAGRA buffer size\<close>

definition cuvs_cagra_itopk_size :: "u32 \<Rightarrow> u32 \<Rightarrow> u32" where
  "cuvs_cagra_itopk_size configured k =
    (let n0 = (if configured \<noteq> 0 then configured else 64);
         n = (if n0 < k then k else n0)
     in ((n + 31) div 32) * 32)"

text \<open>
  Within the bounds of the settings (at most \<open>2 ^ 31 - 32\<close>) the buffer covers the
  requested \<open>k\<close> and the configured floor, is a multiple of 32, and exceeds what is needed by
  less than one granule.
\<close>

theorem itopk_covers:
  assumes "unat configured \<le> 2 ^ 31 - 32" "unat k \<le> 2 ^ 31 - 32"
  shows "unat k \<le> unat (cuvs_cagra_itopk_size configured k) \<and>
    unat configured \<le> unat (cuvs_cagra_itopk_size configured k) \<and>
    32 dvd unat (cuvs_cagra_itopk_size configured k) \<and>
    unat (cuvs_cagra_itopk_size configured k)
      < max (if configured = 0 then 64 else unat configured) (unat k) + 32"
proof -
  define n0 :: u32 where "n0 = (if configured \<noteq> 0 then configured else 64)"
  define n where "n = (if n0 < k then k else n0)"
  have n0: "unat n0 = (if configured = 0 then 64 else unat configured)" "unat n0 \<le> 2 ^ 31 - 32"
    using assms(1) by (auto simp: n0_def)
  have n: "unat n = max (unat n0) (unat k)"
    by (auto simp: n_def word_less_nat_alt max_def)
  then have le: "unat n \<le> 2 ^ 31 - 32"
    using n0 assms(2) by simp
  then have "unat (n + 31) = unat n + 31"
    by (subst unat_add_small) simp_all
  then have q: "unat ((n + 31) div 32) = (unat n + 31) div 32"
    by (simp add: unat_div)
  have "unat ((n + 31) div 32 * 32) = (unat n + 31) div 32 * 32"
    using q le by (subst unat_mult_small) (simp_all, linarith?)
  then have "unat (cuvs_cagra_itopk_size configured k) = (unat n + 31) div 32 * 32"
    by (simp only: cuvs_cagra_itopk_size_def n_def [symmetric] n0_def [symmetric] Let_def)
  moreover have "unat n \<le> (unat n + 31) div 32 * 32" "(unat n + 31) div 32 * 32 < unat n + 32"
    by linarith+
  ultimately show ?thesis
    using n n0 by (auto simp: max_def split: if_splits)
qed

theorem itopk_covers_witness:
  "unat (100 :: u32) \<le> unat (cuvs_cagra_itopk_size 64 100) \<and>
    unat (64 :: u32) \<le> unat (cuvs_cagra_itopk_size 64 100) \<and>
    32 dvd unat (cuvs_cagra_itopk_size 64 100) \<and>
    unat (cuvs_cagra_itopk_size 64 100)
      < max (if (64 :: u32) = 0 then 64 else unat (64 :: u32)) (unat (100 :: u32)) + 32"
  by (rule itopk_covers) simp_all


section \<open>The latency histogram\<close>

definition CUVS_LAT_BUCKETS :: nat where "CUVS_LAT_BUCKETS = 32"

function lat_bucket_loop :: "u32 \<Rightarrow> nat \<Rightarrow> nat" where
  "lat_bucket_loop us idx =
     (if 0 < us \<and> idx < CUVS_LAT_BUCKETS - 1 then lat_bucket_loop (drop_bit 1 us) (idx + 1) else idx)"
  by pat_completeness auto
termination
  by (relation "measure (\<lambda>(us, idx). CUVS_LAT_BUCKETS - idx)") auto

declare lat_bucket_loop.simps [simp del]

definition cuvs_lat_bucket_index :: "u32 \<Rightarrow> nat" where
  "cuvs_lat_bucket_index us = lat_bucket_loop us 0"

definition lat_bucket_upper_us :: "int \<Rightarrow> u32" where
  "lat_bucket_upper_us idx =
     (if idx \<le> 0 then 0 else if 31 \<le> idx then 0x80000000 else push_bit (nat idx) 1)"

text \<open>
  \<open>cuvs_lat_percentile\<close>: the product \<open>q * total\<close>, computed in \<open>double\<close> and
  truncated, is the parameter \<open>rank\<close>.
\<close>

primrec lat_scan :: "u64 \<Rightarrow> u64 \<Rightarrow> int \<Rightarrow> u32 list \<Rightarrow> int option" where
  "lat_scan target cum i [] = None"
| "lat_scan target cum i (b # bs) =
     (if cum + ucast b \<ge> target then Some i else lat_scan target (cum + ucast b) (i + 1) bs)"

definition cuvs_lat_percentile :: "(u64 \<Rightarrow> u64) \<Rightarrow> u32 list \<Rightarrow> u32" where
  "cuvs_lat_percentile rank buckets =
    (let total = foldl (\<lambda>t b. t + ucast b) 0 buckets in
     if total = 0 then 0
     else let target = (if rank total = 0 then 1 else rank total) in
       case lat_scan target 0 0 buckets of
         Some i \<Rightarrow> lat_bucket_upper_us i
       | None \<Rightarrow> lat_bucket_upper_us (int (length buckets) - 1))"

lemma lat_bucket_loop_bounds:
  assumes "idx \<le> 31" "unat us < 2 ^ (31 - idx)"
  shows "idx \<le> lat_bucket_loop us idx \<and> lat_bucket_loop us idx \<le> 31 \<and>
    unat us < 2 ^ (lat_bucket_loop us idx - idx) \<and>
    (us \<noteq> 0 \<longrightarrow> idx < lat_bucket_loop us idx \<and> 2 ^ (lat_bucket_loop us idx - idx - 1) \<le> unat us)"
  using assms
proof (induction us idx rule: lat_bucket_loop.induct)
  case (1 us idx)
  show ?case
  proof (cases "0 < us \<and> idx < CUVS_LAT_BUCKETS - 1")
    case False
    then have "us = 0"
      using "1.prems" by (cases "idx = 31") (auto simp: CUVS_LAT_BUCKETS_def word_greater_zero_iff unat_eq_zero)
    then show ?thesis
      using "1.prems" by (simp add: lat_bucket_loop.simps [of 0 idx])
  next
    case True
    let ?u = "drop_bit 1 us" and ?r = "lat_bucket_loop us idx"
    have r: "?r = lat_bucket_loop ?u (idx + 1)"
      using True by (simp add: lat_bucket_loop.simps [of us idx])
    have u: "unat ?u = unat us div 2"
      by (simp add: drop_bit_eq_div unat_div)
    have le: "idx + 1 \<le> 31" using True by (simp add: CUVS_LAT_BUCKETS_def)
    have "(2 :: nat) ^ (31 - idx) = 2 * 2 ^ (31 - (idx + 1))"
      using le by (simp flip: power_Suc add: Suc_diff_Suc)
    then have "unat ?u < 2 ^ (31 - (idx + 1))"
      using "1.prems"(2) u by simp
    note ih = "1.IH" [OF True le this, folded r]
    have pw: "(2 :: nat) ^ (?r - idx) = 2 * 2 ^ (?r - (idx + 1))"
      using ih by (simp flip: power_Suc add: Suc_diff_Suc)
    have lt: "unat us < 2 ^ (?r - idx)"
      using ih u pw by auto
    have ge: "2 ^ (?r - idx - 1) \<le> unat us"
    proof (cases "?u = 0")
      case True
      then have "unat us div 2 = 0"
        using u by simp
      then have "?r = idx + 1"
        using True by (simp add: r lat_bucket_loop.simps [of 0])
      then show ?thesis
        using \<open>0 < us \<and> _\<close> by (simp add: word_less_nat_alt)
    next
      case False
      then have "idx + 1 < ?r" "2 ^ (?r - (idx + 1) - 1) \<le> unat us div 2"
        using ih u by auto
      moreover have "(2 :: nat) ^ (?r - idx - 1) = 2 * 2 ^ (?r - (idx + 1) - 1)"
        using \<open>idx + 1 < ?r\<close> by (simp flip: power_Suc add: Suc_diff_Suc)
      ultimately show ?thesis by linarith
    qed
    show ?thesis
      using ih lt ge by auto
  qed
qed

text \<open>
  The histogram bucket of a latency: bucket 0 holds exactly the zero latency, and bucket
  \<open>k\<close> holds the latencies from \<open>2 ^ (k - 1)\<close> to below \<open>2 ^ k\<close>
  microseconds, for every latency below \<open>2 ^ 31\<close>; the index never leaves the array, and
  the bucket's upper edge bounds the latency.
\<close>

theorem lat_bucket_correct:
  assumes "unat us < 2 ^ 31"
  shows "cuvs_lat_bucket_index us < CUVS_LAT_BUCKETS \<and>
    (cuvs_lat_bucket_index us = 0 \<longleftrightarrow> us = 0) \<and>
    unat us \<le> unat (lat_bucket_upper_us (int (cuvs_lat_bucket_index us))) \<and>
    unat (lat_bucket_upper_us (int (cuvs_lat_bucket_index us))) \<le> 2 * unat us"
proof -
  let ?k = "cuvs_lat_bucket_index us"
  have b: "?k \<le> 31" "unat us < 2 ^ ?k" "us \<noteq> 0 \<Longrightarrow> 0 < ?k \<and> 2 ^ (?k - 1) \<le> unat us"
    using lat_bucket_loop_bounds [of 0 us] assms by (simp_all add: cuvs_lat_bucket_index_def)
  have z: "?k = 0 \<longleftrightarrow> us = 0"
    using b by (cases "us = 0") (auto simp: cuvs_lat_bucket_index_def lat_bucket_loop.simps [of 0 0])
  have up: "unat (lat_bucket_upper_us (int ?k)) = (if ?k = 0 then 0 else 2 ^ ?k)"
  proof (cases "?k = 31")
    case True
    then show ?thesis by (simp add: lat_bucket_upper_us_def)
  next
    case False
    then have "(2 :: nat) ^ ?k < 2 ^ 32" using b(1) by (intro power_strict_increasing) simp_all
    moreover have "(2 :: u32) ^ ?k = of_nat (2 ^ ?k)" by simp
    ultimately have "unat ((2 :: u32) ^ ?k) = 2 ^ ?k"
      by (simp only: unat_of_nat) (simp add: take_bit_nat_eq_self)
    then show ?thesis
      using False b(1) by (simp add: lat_bucket_upper_us_def push_bit_eq_mult)
  qed
  show ?thesis
  proof (cases "us = 0")
    case True
    then show ?thesis using z up by (simp add: CUVS_LAT_BUCKETS_def)
  next
    case False
    then have "0 < ?k" "2 ^ (?k - 1) \<le> unat us" using b(3) by auto
    moreover have "(2 :: nat) ^ ?k = 2 * 2 ^ (?k - 1)"
      using \<open>0 < ?k\<close> by (simp flip: power_Suc)
    ultimately show ?thesis
      using b z up False by (simp add: CUVS_LAT_BUCKETS_def)
  qed
qed

theorem lat_bucket_correct_witness:
  "cuvs_lat_bucket_index 1000 < CUVS_LAT_BUCKETS \<and>
    (cuvs_lat_bucket_index 1000 = 0 \<longleftrightarrow> (1000 :: u32) = 0) \<and>
    unat (1000 :: u32) \<le> unat (lat_bucket_upper_us (int (cuvs_lat_bucket_index 1000))) \<and>
    unat (lat_bucket_upper_us (int (cuvs_lat_bucket_index 1000))) \<le> 2 * unat (1000 :: u32)"
  by (rule lat_bucket_correct) simp

end
