(* ===== verification/Pending_Merge.thy ===== *)
theory Pending_Merge
  imports Pending_Files Util
begin

text \<open>
  How a query of the backend (\<open>src/pg_cuvs.c\<close>) reads the pending-change sidecars: the
  plan-time gates, the tombstone filter and the delta merge, each with its variant for a filtered
  search. Files are \<open>bytes option\<close> (\<open>None\<close>: no such file). The distance function
  (floating-point arithmetic) and PostgreSQL's transaction status and snapshot tests are parameters.
\<close>

section \<open>Plan-time gates\<close>

definition cuvs_index_delta_unusable :: "u32 \<Rightarrow> bytes option \<Rightarrow> bytes option \<Rightarrow> bool" where
  "cuvs_index_delta_unusable max_rows tids delta =
    (case delta of
       None \<Rightarrow> False
     | Some f \<Rightarrow>
        (case cuvs_delta_read_header f of
           None \<Rightarrow> True
         | Some hdr \<Rightarrow>
             if int (length f) < 32 then True
             else if cuvs_delta_validate hdr (int (length f) - 32) \<noteq> 0 then True
             else if sint (dh_n_rows hdr) > sint max_rows then True
             else (case cuvs_read_tids_crc tids of
                     None \<Rightarrow> True
                   | Some base_crc \<Rightarrow> base_crc \<noteq> dh_base_tids_crc32 hdr)))"

definition cuvs_index_tombstone_unusable :: "u32 \<Rightarrow> bytes option \<Rightarrow> bytes option \<Rightarrow> bool" where
  "cuvs_index_tombstone_unusable max_rows tids tomb =
    (case tomb of
       None \<Rightarrow> False
     | Some f \<Rightarrow>
        (case cuvs_tombstone_read_header f of
           None \<Rightarrow> True
         | Some hdr \<Rightarrow>
             if int (length f) < 32 then True
             else if cuvs_tombstone_validate hdr (int (length f) - 32) \<noteq> 0 then True
             else if sint (bh_n_entries hdr) > sint max_rows then True
             else (case cuvs_read_tids_crc tids of
                     None \<Rightarrow> True
                   | Some base_crc \<Rightarrow> base_crc \<noteq> bh_base_tids_crc32 hdr)))"

definition cuvs_tombstone_count :: "bytes option \<Rightarrow> bytes option \<Rightarrow> int" where
  "cuvs_tombstone_count tids tomb =
    (case tomb of
       None \<Rightarrow> 0
     | Some f \<Rightarrow>
        (case cuvs_tombstone_read_header f of
           None \<Rightarrow> 0
         | Some hdr \<Rightarrow>
             if int (length f) < 32 then 0
             else if cuvs_tombstone_validate hdr (int (length f) - 32) \<noteq> 0 then 0
             else (case cuvs_read_tids_crc tids of
                     None \<Rightarrow> 0
                   | Some base_crc \<Rightarrow>
                       if base_crc \<noteq> bh_base_tids_crc32 hdr then 0 else sint (bh_n_entries hdr))))"

datatype scan_error = Delta_unusable | Delta_read_failed | Slack_exceeds_limit

definition cuvs_k_with_tombstone_slack ::
  "u32 \<Rightarrow> bytes option \<Rightarrow> bytes option \<Rightarrow> int \<Rightarrow> scan_error + int" where
  "cuvs_k_with_tombstone_slack max_rows tids tomb k =
    (if sint max_rows \<le> 0 then Inr k
     else let n_tombstones = cuvs_tombstone_count tids tomb in
       if n_tombstones \<le> 0 then Inr k
       else if n_tombstones > 2147483647 - k then Inl Slack_exceeds_limit
       else Inr (k + n_tombstones))"

section \<open>The tombstone filter\<close>

text \<open>The inner loop: some record of the TID whose deletion is committed and visible.\<close>

definition tombstone_dead ::
  "(u32 \<Rightarrow> bool) \<Rightarrow> (u32 \<Rightarrow> bool) \<Rightarrow> CuvsTombstoneRecord list \<Rightarrow> u64 \<Rightarrow> bool" where
  "tombstone_dead did_commit in_snapshot recs tid \<longleftrightarrow>
     list_ex (\<lambda>r. tr_tid r = tid \<and> did_commit (ucast (tr_delete_xid r))
       \<and> \<not> in_snapshot (ucast (tr_delete_xid r))) recs"

text \<open>Opening the file and reading its records; \<open>None\<close> where the source returns early.\<close>

definition tombstone_records :: "bytes option \<Rightarrow> bytes option \<Rightarrow> CuvsTombstoneRecord list option" where
  "tombstone_records tids tomb =
    (case tomb of
       None \<Rightarrow> None
     | Some f \<Rightarrow>
         if length f < 32 then None
         else (case pread 0 32 f of
           None \<Rightarrow> None
         | Some hb \<Rightarrow>
            (let hdr = tombstone_header_of hb in
             if bh_magic hdr \<noteq> CUVS_TOMBSTONE_MAGIC then None
             else if bh_version hdr \<noteq> CUVS_TOMBSTONE_VERSION then None
             else if cuvs_tombstone_validate hdr (int (length f) - 32) \<noteq> 0 then None
             else (case cuvs_read_tids_crc tids of
                None \<Rightarrow> None
              | Some base_crc \<Rightarrow>
                  if base_crc \<noteq> bh_base_tids_crc32 hdr then None
                  else if bh_n_entries hdr = 0 then None
                  else (case pread 32 (16 * unat (bh_n_entries hdr)) f of
                     None \<Rightarrow> None
                   | Some body \<Rightarrow>
                       Some (map tombstone_record_of (chunks 16 (unat (bh_n_entries hdr)) body)))))))"

definition cuvs_apply_tombstones ::
  "(u32 \<Rightarrow> bool) \<Rightarrow> (u32 \<Rightarrow> bool) \<Rightarrow> bytes option \<Rightarrow> bytes option
    \<Rightarrow> CuvsResult list \<Rightarrow> CuvsResult list" where
  "cuvs_apply_tombstones did_commit in_snapshot tids tomb rs =
    (case tombstone_records tids tomb of
       None \<Rightarrow> rs
     | Some recs \<Rightarrow> filter (\<lambda>r. \<not> tombstone_dead did_commit in_snapshot recs (r_tid r)) rs)"

text \<open>The copy for a filtered search works on the caller's arrays, line for line the same.\<close>

definition cuvs_apply_tombstones_filtered ::
  "(u32 \<Rightarrow> bool) \<Rightarrow> (u32 \<Rightarrow> bool) \<Rightarrow> bytes option \<Rightarrow> bytes option
    \<Rightarrow> CuvsResult list \<Rightarrow> CuvsResult list" where
  "cuvs_apply_tombstones_filtered did_commit in_snapshot tids tomb rs =
    (case tombstone_records tids tomb of
       None \<Rightarrow> rs
     | Some recs \<Rightarrow> filter (\<lambda>r. \<not> tombstone_dead did_commit in_snapshot recs (r_tid r)) rs)"

section \<open>The delta merge\<close>

text \<open>The reading loop: record \<open>i\<close> at its canonical offset, for \<open>n\<close> records.\<close>

primrec delta_read_rows :: "u32 \<Rightarrow> bytes \<Rightarrow> nat \<Rightarrow> nat \<Rightarrow> (u64 \<times> u32 list) list option" where
  "delta_read_rows dim f i 0 = Some []"
| "delta_read_rows dim f i (Suc n) =
    (case pread (32 + i * cuvs_delta_record_bytes dim) (cuvs_delta_record_bytes dim) f of
       None \<Rightarrow> None
     | Some recbuf \<Rightarrow>
        (case delta_read_rows dim f (Suc i) n of
           None \<Rightarrow> None
         | Some rows \<Rightarrow>
             Some ((le_word (take 8 recbuf), map le_word (chunks 4 (unat dim) (drop 8 recbuf))) # rows)))"

text \<open>The checks on the header read at scan time; \<open>None\<close> is the reported error.\<close>

definition delta_scan_header ::
  "u32 \<Rightarrow> bytes option \<Rightarrow> u32 \<Rightarrow> bytes \<Rightarrow> CuvsDeltaHeader option" where
  "delta_scan_header max_rows tids dim f =
    (case pread 0 32 f of
       None \<Rightarrow> None
     | Some hb \<Rightarrow>
        (let hdr = delta_header_of hb in
         if dh_magic hdr \<noteq> CUVS_DELTA_MAGIC then None
         else if dh_version hdr \<noteq> CUVS_DELTA_VERSION then None
         else if dh_dim hdr \<noteq> dim then None
         else if cuvs_delta_validate hdr (int (length f) - 32) \<noteq> 0 then None
         else if sint (dh_n_rows hdr) > sint max_rows then None
         else (case cuvs_read_tids_crc tids of
                 None \<Rightarrow> None
               | Some base_crc \<Rightarrow> if base_crc \<noteq> dh_base_tids_crc32 hdr then None else Some hdr)))"

definition cuvs_merge_delta ::
  "(u32 \<Rightarrow> u32 list \<Rightarrow> u32 list \<Rightarrow> u32) \<Rightarrow> u32 \<Rightarrow> bytes option \<Rightarrow> bytes option \<Rightarrow> u32 list \<Rightarrow> u32
    \<Rightarrow> nat \<Rightarrow> u32 \<Rightarrow> CuvsResult list \<Rightarrow> scan_error + CuvsResult list" where
  "cuvs_merge_delta dist max_rows tids delta query dim k metric base =
    (case delta of
       None \<Rightarrow> Inr base
     | Some f \<Rightarrow>
        (case delta_scan_header max_rows tids dim f of
           None \<Rightarrow> Inl Delta_unusable
         | Some hdr \<Rightarrow>
             if dh_n_rows hdr = 0 then Inr base
             else (case delta_read_rows dim f 0 (unat (dh_n_rows hdr)) of
                None \<Rightarrow> Inl Delta_read_failed
              | Some rows \<Rightarrow>
                 (let cands = base @ map (\<lambda>(tid, vec).
                        \<lparr>r_tid = tid, r_distance = dist metric query vec\<rparr>) rows
                  in Inr (take k (qsort (cuvs_cand_cmp metric) cands))))))"

definition cuvs_tid_in_filter :: "u64 \<Rightarrow> u64 list \<Rightarrow> bool" where
  "cuvs_tid_in_filter enc_tid filter_arr = bs_half filter_arr enc_tid 0 (length filter_arr)"

definition cuvs_merge_delta_filtered ::
  "(u32 \<Rightarrow> u32 list \<Rightarrow> u32 list \<Rightarrow> u32) \<Rightarrow> u32 \<Rightarrow> bytes option \<Rightarrow> bytes option \<Rightarrow> u32 list \<Rightarrow> u32
    \<Rightarrow> nat \<Rightarrow> u32 \<Rightarrow> u64 list \<Rightarrow> CuvsResult list \<Rightarrow> scan_error + CuvsResult list" where
  "cuvs_merge_delta_filtered dist max_rows tids delta query dim k metric filter_arr base =
    (case delta of
       None \<Rightarrow> Inr base
     | Some f \<Rightarrow>
        (case delta_scan_header max_rows tids dim f of
           None \<Rightarrow> Inl Delta_unusable
         | Some hdr \<Rightarrow>
             if dh_n_rows hdr = 0 then Inr base
             else (case delta_read_rows dim f 0 (unat (dh_n_rows hdr)) of
                None \<Rightarrow> Inl Delta_read_failed
              | Some rows \<Rightarrow>
                 (let cands = base @ map (\<lambda>(tid, vec).
                        \<lparr>r_tid = tid, r_distance = dist metric query vec\<rparr>)
                        (filter (\<lambda>(tid, vec). \<not> (0 < length filter_arr
                           \<and> \<not> cuvs_tid_in_filter tid filter_arr)) rows)
                  in Inr (take k (qsort (cuvs_cand_cmp metric) cands))))))"

section \<open>Reading back what the appender wrote\<close>

lemma delta_read_rows_image:
  assumes "\<forall>r \<in> set rs. delta_good dim r" "length pre = 32 + i * cuvs_delta_record_bytes dim"
  shows "delta_read_rows dim (pre @ log_rows delta_parts rs @ t) i (length rs) = Some rs"
  using assms
proof (induction rs arbitrary: pre i)
  case Nil
  then show ?case by simp
next
  case (Cons r rs)
  let ?w = "cuvs_delta_record_bytes dim" and ?b = "concat (delta_parts r)"
  have w: "length ?b = ?w"
    using Cons.prems(1) delta_log.len_row [of dim r] by simp
  have l: "pre @ log_rows delta_parts (r # rs) @ t = (pre @ ?b) @ log_rows delta_parts rs @ t"
    by (simp add: log_rows_def)
  have ih: "delta_read_rows dim ((pre @ ?b) @ log_rows delta_parts rs @ t) (Suc i) (length rs) = Some rs"
    using Cons.prems w by (intro Cons.IH) simp_all
  have p: "pread (32 + i * ?w) ?w ((pre @ ?b) @ log_rows delta_parts rs @ t) = Some ?b"
    using Cons.prems(2) w by (simp add: pread_def)
  have d: "take 8 ?b = le_bytes 8 (fst r)" "drop 8 ?b = concat (map (le_bytes 4) (snd r))"
    by (simp_all add: delta_parts_def)
  have "length (snd r) = unat dim"
    using Cons.prems(1) by (simp add: delta_good_def)
  then have v: "map le_word (chunks 4 (unat dim) (drop 8 ?b)) = snd r"
    using u32_codec.chunks_concat_enc [of "snd r"] d(2) by simp
  have "(le_word (take 8 ?b), map le_word (chunks 4 (unat dim) (drop 8 ?b))) = r"
    using v d(1) u64_codec.dec_enc [of "fst r"] by simp
  with ih p show ?case
    by (simp add: l del: append_assoc)
qed


lemma delta_image_read:
  assumes "\<forall>r \<in> set rs. delta_good dim r"
  shows "delta_read_rows dim (delta_image dim m base rs t) 0 (length rs) = Some rs"
  using assms delta_read_rows_image [of rs dim "delta_count_header dim m base (length rs)" 0 t]
  by (simp add: delta_image_def log_image_def delta_count_header_def delta_hdr.length_enc)

lemma of_nat_eq_0_u64:
  assumes "n \<le> 2 ^ 62"
  shows "(of_nat n :: u64) = 0 \<longleftrightarrow> n = 0"
proof -
  have u: "unat (of_nat n :: u64) = n"
    using assms by (simp add: unat_of_nat)
  have "n = 0" if z: "(of_nat n :: u64) = 0"
    using u by (simp only: z unsigned_0)
  then show ?thesis by auto
qed

abbreviation scored ::
  "(u32 \<Rightarrow> u32 list \<Rightarrow> u32 list \<Rightarrow> u32) \<Rightarrow> u32 \<Rightarrow> u32 list \<Rightarrow> u64 \<times> u32 list \<Rightarrow> CuvsResult" where
  "scored dist metric query \<equiv> \<lambda>(tid, vec). \<lparr>r_tid = tid, r_distance = dist metric query vec\<rparr>"

lemma merge_delta_image:
  assumes "\<forall>r \<in> set rs. delta_good dim r" "length rs \<le> 2 ^ 62"
    and "cuvs_merge_delta dist max_rows tids (Some (delta_image dim m crc rs t)) query dim k metric base
      = Inr out"
  shows "if rs = [] then out = base
    else out = take k (qsort (cuvs_cand_cmp metric) (base @ map (scored dist metric query) rs))"
proof -
  let ?f = "delta_image dim m crc rs t"
  from assms(3) obtain hdr where h: "delta_scan_header max_rows tids dim ?f = Some hdr"
    by (auto simp: cuvs_merge_delta_def split: option.splits)
  then have n: "dh_n_rows hdr = of_nat (length rs)"
    by (auto simp: delta_scan_header_def pread_delta_image Let_def split: option.splits if_splits)
  have z: "dh_n_rows hdr = 0 \<longleftrightarrow> rs = []"
    using n of_nat_eq_0_u64 [OF assms(2)] by simp
  have u: "unat (dh_n_rows hdr) = length rs"
    using n assms(2) by (simp add: unat_of_nat)
  show ?thesis
    using assms(3) h z u delta_image_read [OF assms(1), of m crc t]
    by (auto simp: cuvs_merge_delta_def Let_def split: if_splits)
qed

text \<open>A header the plan gate accepts describes a file of exactly the counted records.\<close>

lemma delta_read_rows_fits:
  "32 + (i + n) * cuvs_delta_record_bytes dim \<le> length f \<Longrightarrow> \<exists>rows. delta_read_rows dim f i n = Some rows"
proof (induction n arbitrary: i)
  case 0
  then show ?case by simp
next
  case (Suc n)
  then obtain rows where "delta_read_rows dim f (Suc i) n = Some rows"
    by fastforce
  moreover have "32 + i * cuvs_delta_record_bytes dim + cuvs_delta_record_bytes dim \<le> length f"
    using Suc.prems by (simp add: add_mult_distrib)
  ultimately show ?case
    by (simp add: pread_def)
qed

lemma fread_pread: "fread 32 (Suc 0) f = (case pread 0 32 f of None \<Rightarrow> None | Some b \<Rightarrow> Some (b, drop 32 f))"
  by (auto simp: fread_def pread_def)

text \<open>Tombstone files.\<close>

lemma tombstone_image_length:
  "length (tombstone_image crc rs t) = 32 + 16 * length rs + length t"
  using tombstone_log.length_rows [of rs]
  by (simp add: tombstone_image_def log_image_def tombstone_count_header_def tombstone_hdr.length_enc)

lemma tombstone_records_image:
  assumes "length rs \<le> 2 ^ 62" "length (tombstone_image crc rs t) < 2 ^ 63"
    and "\<not> cuvs_index_tombstone_unusable max_rows tids (Some (tombstone_image crc rs t))"
  shows "tombstone_records tids (Some (tombstone_image crc rs t)) = (if rs = [] then None else Some rs)"
proof -
  let ?f = "tombstone_image crc rs t"
  let ?h = "(cuvs_tombstone_header_init crc)\<lparr>bh_n_entries := of_nat (length rs)\<rparr>"
  have u: "unat (of_nat (length rs) :: u64) = length rs"
    using assms(1) by (simp add: unat_of_nat)
  have z: "(of_nat (length rs) :: u64) = 0 \<longleftrightarrow> rs = []"
    using of_nat_eq_0_u64 [OF assms(1)] by simp
  have ok: "cuvs_tombstone_validate ?h (int (length ?f) - 32) = 0"
    "cuvs_read_tids_crc tids = Some crc"
    using assms(3)
    by (auto simp: cuvs_index_tombstone_unusable_def cuvs_tombstone_read_header_def fread_pread
        pread_tombstone_image Let_def cuvs_tombstone_header_init_def split: if_splits option.splits)
  have "drop 32 ?f = concat (map tombstone_record_bytes rs) @ t"
    by (simp add: tombstone_image_def log_image_def log_rows_def tombstone_parts_def
        tombstone_count_header_def tombstone_hdr.length_enc)
  then have body: "pread 32 (16 * length rs) ?f = Some (concat (map tombstone_record_bytes rs))"
    using tombstone_image_length [of crc rs t] tombstone_rec.length_concat_enc [of rs]
    by (simp add: pread_def)
  show ?thesis
    using ok z u body length_tombstone_image [of crc rs t] tombstone_rec.chunks_concat_enc [of rs]
    by (simp add: tombstone_records_def pread_tombstone_image Let_def cuvs_tombstone_header_init_def)
qed

lemma tombstone_records_count:
  assumes "tombstone_records tids (Some f) = Some recs"
  shows "cuvs_tombstone_count tids (Some f) = int (length recs)"
proof -
  obtain hb where hb: "pread 0 32 f = Some hb" "\<not> length f < 32"
    using assms by (auto simp: tombstone_records_def split: option.splits if_splits)
  let ?h = "tombstone_header_of hb"
  have ok: "bh_magic ?h = CUVS_TOMBSTONE_MAGIC" "bh_version ?h = CUVS_TOMBSTONE_VERSION"
    "cuvs_tombstone_validate ?h (int (length f) - 32) = 0"
    "cuvs_read_tids_crc tids = Some (bh_base_tids_crc32 ?h)"
    "length recs = unat (bh_n_entries ?h)"
    using assms hb by (auto simp: tombstone_records_def Let_def split: option.splits if_splits)
  have "0 \<le> sint (bh_n_entries ?h)" "bh_reserved ?h = 0"
    using ok(3) by (auto simp: cuvs_tombstone_validate_def split: if_splits)
  then show ?thesis
    using ok hb by (simp add: cuvs_tombstone_count_def cuvs_tombstone_read_header_def fread_pread
        Let_def sint_eq_uint_nonneg)
qed

lemma length_filter_not_in:
  assumes "distinct (map g xs)" "finite A"
  shows "length xs \<le> length (filter (\<lambda>x. g x \<notin> A) xs) + card A"
proof -
  have "distinct (map g (filter (\<lambda>x. g x \<in> A) xs))"
    using assms(1) by (induction xs) auto
  then have "length (filter (\<lambda>x. g x \<in> A) xs) = card (set (map g (filter (\<lambda>x. g x \<in> A) xs)))"
    by (metis distinct_card length_map)
  also have "\<dots> \<le> card A"
    using assms(2) by (intro card_mono) auto
  finally show ?thesis
    using sum_length_filter_compl [of "\<lambda>x. g x \<in> A" xs] by simp
qed


lemma subseq_set_subset: "subseq xs ys \<Longrightarrow> set xs \<subseteq> set ys"
  by (auto elim: list_emb_set)

section \<open>Properties\<close>

text \<open>
  C1. No acknowledged insert is missing from a query. Take a delta file with counted rows
  \<open>rs\<close>, run any sequence of appends with failures, then a query that merges the file: if the
  merge does not report an error, the returned distances are the k best of the base results and of
  all rows, old ones and new ones, and the new ones include every acknowledged row (each in order,
  and nothing that was never offered).
\<close>

theorem acknowledged_rows_merged:
  assumes "\<forall>r \<in> set rs. delta_good dim r" "length rs + length as \<le> 2 ^ 62"
    and "\<forall>(flt, r) \<in> set as. delta_good dim r \<and> header_atomic delta_parts r flt"
    and "log_attempts (delta_attempt (live_env tids max_rows) dim metric0) as
      (delta_image dim m crc rs t) = (acks, f)"
    and "cuvs_merge_delta dist max_rows' tids' (Some f) query dim k metric base = Inr out"
    and "\<forall>r \<in> set base. proper r" "\<forall>v. \<not> f32_nan (dist metric query v)"
  shows "\<exists>new. subseq acks new \<and> subseq new (map snd as) \<and>
    (if rs @ new = [] then out = base
     else map (near_key metric) out
       = take k (sort (map (near_key metric) (base @ map (scored dist metric query) (rs @ new))))
      \<and> mset out \<subseteq># mset (base @ map (scored dist metric query) (rs @ new)))"
proof -
  obtain new t' where n: "f = delta_image dim m crc (rs @ new) t'" "subseq acks new"
    "subseq new (map snd as)"
    using delta_log.attempts_durable [OF assms(1,3) _ assms(4) [unfolded delta_image_def]] assms(2)
    by (auto simp: delta_image_def)
  have good: "\<forall>r \<in> set (rs @ new). delta_good dim r"
    using assms(1,3) subseq_set_subset [OF n(3)] by fastforce
  have len: "length (rs @ new) \<le> 2 ^ 62"
    using assms(2) list_emb_length [OF n(3)] by simp
  let ?c = "base @ map (scored dist metric query) (rs @ new)"
  have pr: "\<forall>r \<in> set ?c. proper r"
    using assms(6,7) by (auto simp: proper_def)
  note m = merge_delta_image [OF good len, of dist max_rows' tids' m crc t' query k metric base out]
  show ?thesis
  proof (intro exI [of _ new] conjI n(2,3))
    show "if rs @ new = [] then out = base
     else map (near_key metric) out = take k (sort (map (near_key metric) ?c)) \<and> mset out \<subseteq># mset ?c"
    proof (cases "rs @ new = []")
      case True
      with m assms(5) n(1) show ?thesis by simp
    next
      case False
      with m assms(5) n(1) have out: "out = take k (qsort (cuvs_cand_cmp metric) ?c)" by simp
      have "map (near_key metric) out = take k (sort (map (near_key metric) ?c))"
        unfolding out using pr by (rule cand_order.keys_take_qsort)
      moreover have "mset out \<subseteq># mset ?c"
        unfolding out by (rule mset_take_qsort)
      ultimately show ?thesis
        unfolding if_not_P [OF False] by (rule conjI)
    qed
  qed
qed

text \<open>
  The plan-time gate and the scan agree: a delta the planner found usable is merged without an
  error, provided its dimension is the query's (the scan reads the file the planner read).
\<close>

theorem usable_delta_merges:
  assumes "\<not> cuvs_index_delta_unusable max_rows tids delta"
    and "\<forall>f. delta = Some f \<longrightarrow> length f < 2 ^ 63 \<and> dh_dim (delta_header_of (take 32 f)) = dim"
  shows "\<exists>out. cuvs_merge_delta dist max_rows tids delta query dim k metric base = Inr out"
proof (cases delta)
  case None
  then show ?thesis by (simp add: cuvs_merge_delta_def)
next
  case (Some f)
  then obtain hb where hb: "pread 0 32 f = Some hb"
    using assms(1) by (auto simp: cuvs_index_delta_unusable_def cuvs_delta_read_header_def fread_pread
        split: option.splits)
  let ?h = "delta_header_of hb"
  have g: "dh_magic ?h = CUVS_DELTA_MAGIC" "dh_version ?h = CUVS_DELTA_VERSION"
    "cuvs_delta_validate ?h (int (length f) - 32) = 0" "\<not> sint max_rows < sint (dh_n_rows ?h)"
    "cuvs_read_tids_crc tids = Some (dh_base_tids_crc32 ?h)"
    using assms(1) Some hb by (auto simp: cuvs_index_delta_unusable_def cuvs_delta_read_header_def
        fread_pread Let_def split: option.splits if_splits)
  have "hb = take 32 f" "32 \<le> length f"
    using hb by (auto simp: pread_def split: if_splits)
  have e: "nat (int (length f) - 32) = length f - 32"
    by arith
  have d: "dh_dim ?h = dim" and sz: "int (length f) - 32 < 2 ^ 63"
    using assms(2) Some \<open>hb = take 32 f\<close> by auto
  then have "nat (int (length f) - 32) = unat (dh_n_rows ?h) * cuvs_delta_record_bytes dim"
    using g(3) cuvs_delta_validate_iff [OF sz, of ?h] by simp
  then have "32 + (0 + unat (dh_n_rows ?h)) * cuvs_delta_record_bytes dim \<le> length f"
    using \<open>32 \<le> length f\<close> e by simp
  then obtain rows where "delta_read_rows dim f 0 (unat (dh_n_rows ?h)) = Some rows"
    using delta_read_rows_fits by blast
  with Some hb g d show ?thesis
    by (auto simp: cuvs_merge_delta_def delta_scan_header_def Let_def)
qed

definition visible_delete :: "(u32 \<Rightarrow> bool) \<Rightarrow> (u32 \<Rightarrow> bool) \<Rightarrow> CuvsTombstoneRecord \<Rightarrow> bool" where
  "visible_delete did_commit in_snapshot t \<longleftrightarrow>
    did_commit (ucast (tr_delete_xid t)) \<and> \<not> in_snapshot (ucast (tr_delete_xid t))"

text \<open>
  C2. No acknowledged delete leaks back, and no other row is lost. After any sequence of tombstone
  appends with failures, if the gate accepts the file then no result carries a TID with an
  acknowledged tombstone whose deletion is committed and visible; and every result without a
  tombstone of that kind, acknowledged or not, survives, in order: a tombstone whose deletion has not
  committed, or that the snapshot still sees as running, removes nothing.
\<close>

theorem acknowledged_tombstones_filter:
  assumes "length as \<le> 2 ^ 62" "\<forall>(flt, r) \<in> set as. header_atomic tombstone_parts r flt"
    and "log_attempts (tombstone_attempt (live_env tids max_rows)) as (tombstone_image crc [] t)
      = (acks, f)"
    and "length f < 2 ^ 63" "\<not> cuvs_index_tombstone_unusable max_rows' tids' (Some f)"
  shows "let res = cuvs_apply_tombstones did_commit in_snapshot tids' (Some f) rs;
      untouched = (\<lambda>r. \<forall>t \<in> snd ` set as. visible_delete did_commit in_snapshot t \<longrightarrow> tr_tid t \<noteq> r_tid r)
    in (\<forall>t \<in> set acks. visible_delete did_commit in_snapshot t \<longrightarrow> tr_tid t \<notin> r_tid ` set res) \<and>
       filter untouched res = filter untouched rs"
proof -
  obtain new t' where n: "f = tombstone_image crc new t'" "subseq acks new" "subseq new (map snd as)"
    using tombstone_log.attempts_durable [where rs = "[]" and as = as and max_rows = max_rows
        and tids = tids and base = crc and t = t and acks = acks and f = f] assms(2,3)
    by (auto simp: tombstone_image_def)
  have len: "length new \<le> 2 ^ 62"
    using assms(1) list_emb_length [OF n(3)] by simp
  have sub: "set acks \<subseteq> set new" "set new \<subseteq> snd ` set as"
    using subseq_set_subset [OF n(2)] subseq_set_subset [OF n(3)] by simp_all
  have "tombstone_records tids' (Some f) = (if new = [] then None else Some new)"
    using tombstone_records_image [OF len] assms(4,5) n(1) by simp
  then have res: "cuvs_apply_tombstones did_commit in_snapshot tids' (Some f) rs = filter (\<lambda>r. \<not> (\<exists>t \<in> set new. visible_delete did_commit in_snapshot t \<and> tr_tid t = r_tid r)) rs"
    by (auto simp: cuvs_apply_tombstones_def tombstone_dead_def visible_delete_def list_ex_iff intro!: filter_cong)
  show ?thesis
    unfolding res Let_def using sub by (auto intro!: filter_cong)
qed

text \<open>
  C36. Over-fetching by the tombstone count cannot starve the answer: if the base search returned as
  many distinct TIDs as the slack asks for, at least \<open>k\<close> results survive the tombstone filter.
\<close>

theorem tombstone_slack_suffices:
  assumes "cuvs_k_with_tombstone_slack max_rows tids tomb (int k) = Inr k'" "0 < sint max_rows"
    and "k' \<le> int (length rs)" "distinct (map r_tid rs)"
  shows "k \<le> length (cuvs_apply_tombstones did_commit in_snapshot tids tomb rs)"
proof (cases "tombstone_records tids tomb")
  case None
  then show ?thesis
    using assms by (auto simp: cuvs_apply_tombstones_def cuvs_k_with_tombstone_slack_def Let_def
        split: if_splits)
next
  case (Some recs)
  then obtain f where f: "tomb = Some f"
    by (cases tomb) (auto simp: tombstone_records_def)
  let ?A = "{tid \<in> tr_tid ` set recs. tombstone_dead did_commit in_snapshot recs tid}"
  have "cuvs_apply_tombstones did_commit in_snapshot tids tomb rs
      = filter (\<lambda>r. \<not> tombstone_dead did_commit in_snapshot recs (r_tid r)) rs"
    by (simp add: cuvs_apply_tombstones_def Some)
  also have "\<dots> = filter (\<lambda>r. r_tid r \<notin> ?A) rs"
    by (rule filter_cong [OF refl]) (auto simp: tombstone_dead_def list_ex_iff image_iff)
  finally have dead: "cuvs_apply_tombstones did_commit in_snapshot tids tomb rs
      = filter (\<lambda>r. r_tid r \<notin> ?A) rs" .
  have "card ?A \<le> card (tr_tid ` set recs)"
    by (intro card_mono) auto
  also have "\<dots> \<le> length recs"
    by (rule order_trans [OF card_image_le card_length]) simp
  finally have "card ?A \<le> length recs" .
  moreover have "int k + int (length recs) \<le> k'"
    using assms(1,2) tombstone_records_count [OF Some [unfolded f]] f
    by (auto simp: cuvs_k_with_tombstone_slack_def Let_def split: if_splits)
  moreover have "length rs \<le> length (filter (\<lambda>r. r_tid r \<notin> ?A) rs) + card ?A"
    by (rule length_filter_not_in [OF assms(4)]) simp
  ultimately show ?thesis
    unfolding dead using assms(3) by linarith
qed

section \<open>Concrete runs\<close>


lemma delta_scan_header_image:
  assumes "cuvs_read_tids_crc tids = Some crc" "dim \<noteq> 0" "\<forall>r \<in> set rs. delta_good dim r"
    and "int (length rs) \<le> sint max_rows" "length rs \<le> 1000000000"
  shows "delta_scan_header max_rows tids dim (delta_image dim m crc rs [])
    = Some ((cuvs_delta_header_init dim m crc)\<lparr>dh_n_rows := of_nat (length rs)\<rparr>)"
proof -
  let ?h = "(cuvs_delta_header_init dim m crc)\<lparr>dh_n_rows := of_nat (length rs)\<rparr>"
  have len: "length (delta_image dim m crc rs []) = 32 + cuvs_delta_record_bytes dim * length rs"
    using delta_log.length_rows [OF assms(3)]
    by (simp add: delta_image_def log_image_def delta_count_header_def delta_hdr.length_enc)
  have "(of_int (int (cuvs_delta_record_bytes dim * length rs)) :: u64)
      = of_nat (length rs) * of_nat (cuvs_delta_record_bytes dim)"
    by (metis of_int_of_nat_eq of_nat_mult mult.commute)
  then have "cuvs_delta_validate ?h (int (length (delta_image dim m crc rs [])) - 32) = 0"
    using assms(2,5)
    by (simp add: len cuvs_delta_validate_def cuvs_delta_header_init_def sint_of_nat_u64
        CUVS_TIDS_MAX_VECS_def not_less)
  with assms show ?thesis
    by (simp add: delta_scan_header_def pread_delta_image Let_def cuvs_delta_header_init_def
        sint_of_nat_u64)
qed

lemma merge_delta_image_ok:
  assumes "cuvs_read_tids_crc tids = Some crc" "dim \<noteq> 0" "\<forall>r \<in> set rs. delta_good dim r"
    and "int (length rs) \<le> sint max_rows" "length rs \<le> 1000000000" "rs \<noteq> []"
  shows "cuvs_merge_delta dist max_rows tids (Some (delta_image dim m crc rs [])) query dim k metric base
    = Inr (take k (qsort (cuvs_cand_cmp metric) (base @ map (scored dist metric query) rs)))"
proof -
  have "unat (of_nat (length rs) :: u64) = length rs" "(of_nat (length rs) :: u64) \<noteq> 0"
    using assms(5,6) of_nat_eq_0_u64 [of "length rs"] by (simp_all add: unat_of_nat)
  then show ?thesis
    using delta_scan_header_image [OF assms(1-5)] delta_image_read [OF assms(3)]
    by (simp add: cuvs_merge_delta_def cuvs_delta_header_init_def)
qed

definition sample_tids :: "u32 \<Rightarrow> bytes option" where
  "sample_tids crc = Some (tids_header_bytes \<lparr>th_magic = CUVS_TIDS_MAGIC,
      th_version = CUVS_TIDS_VERSION, th_n_vecs = 1, th_dim = 1, th_metric = 0,
      th_body_crc32 = crc, th_reserved = 0\<rparr>)"

lemma sample_tids_crc: "cuvs_read_tids_crc (sample_tids crc) = Some crc"
  by (simp add: sample_tids_def cuvs_read_tids_crc_def tids_hdr.length_enc tids_hdr.dec_enc Let_def)

theorem acknowledged_rows_merged_witness:
  "\<exists>new. subseq [(8, [2])] new \<and> subseq new [(7, [1]), (8, [2])] \<and>
    (if [] @ new = [] then [\<lparr>r_tid = 8, r_distance = 2\<rparr>] = ([] :: CuvsResult list)
     else map (near_key 0) [\<lparr>r_tid = 8, r_distance = 2\<rparr>]
       = take 5 (sort (map (near_key 0) ([] @ map (scored (\<lambda>_ _ v. 2) 0 [0]) ([] @ new))))
      \<and> mset [\<lparr>r_tid = 8, r_distance = 2\<rparr>] \<subseteq># mset ([] @ map (scored (\<lambda>_ _ v. 2) 0 [0]) ([] @ new)))"
proof -
  have run: "log_attempts (delta_attempt (live_env None 10) 1 0)
      [(Some (1, 2), (7, [1])), (None, (8, [2]))] (delta_image 1 0 5 [] [])
     = ([(8, [2])], delta_image 1 0 5 [(8, [2])] [])"
    by code_simp
  have merge: "cuvs_merge_delta (\<lambda>_ _ v. 2) 10 (sample_tids 5) (Some (delta_image 1 0 5 [(8, [2])] []))
      [0] 1 5 0 [] = Inr [\<lparr>r_tid = 8, r_distance = 2\<rparr>]"
    by (subst merge_delta_image_ok) (simp_all add: sample_tids_crc delta_good_def)
  show ?thesis
    using acknowledged_rows_merged [OF _ _ _ run merge]
    by (simp add: delta_good_def header_atomic_def delta_parts_def f32_nan_def f32_mag_def)
qed

theorem usable_delta_merges_witness:
  "\<exists>out. cuvs_merge_delta (\<lambda>_ _ v. 2) 10 (sample_tids 5) (Some (delta_image 1 0 5 [] [])) [0] 1 5 0 []
     = Inr out"
proof (rule usable_delta_merges)
  show "\<not> cuvs_index_delta_unusable 10 (sample_tids 5) (Some (delta_image 1 0 5 [] []))"
    by code_simp
  show "\<forall>f. Some (delta_image 1 0 5 [] []) = Some f \<longrightarrow>
    length f < 2 ^ 63 \<and> dh_dim (delta_header_of (take 32 f)) = 1"
    by (simp add: delta_image_def log_image_def log_rows_def delta_count_header_def
        delta_hdr.length_enc delta_hdr.dec_enc cuvs_delta_header_init_def)
qed

theorem acknowledged_tombstones_filter_witness:
  "let res = cuvs_apply_tombstones (\<lambda>x. x = 1) (\<lambda>_. False) (sample_tids 5)
       (Some (tombstone_image 5 [\<lparr>tr_tid = 8, tr_delete_xid = 1\<rparr>, \<lparr>tr_tid = 9, tr_delete_xid = 2\<rparr>] []))
       [\<lparr>r_tid = 8, r_distance = 2\<rparr>, \<lparr>r_tid = 9, r_distance = 3\<rparr>]
   in 8 \<notin> r_tid ` set res \<and> filter (\<lambda>r. r_tid r \<noteq> 8) res = [\<lparr>r_tid = 9, r_distance = 3\<rparr>]"
proof -
  let ?recs = "[\<lparr>tr_tid = 8, tr_delete_xid = 1\<rparr>, \<lparr>tr_tid = 9, tr_delete_xid = 2\<rparr>]"
  have run: "log_attempts (tombstone_attempt (live_env None 10)) (map (Pair None) ?recs) (tombstone_image 5 [] [])
     = (?recs, tombstone_image 5 ?recs [])"
    by code_simp
  have usable: "\<not> cuvs_index_tombstone_unusable 10 (sample_tids 5) (Some (tombstone_image 5 ?recs []))"
    by code_simp
  show ?thesis
    using acknowledged_tombstones_filter [where did_commit = "\<lambda>x. x = 1" and in_snapshot = "\<lambda>_. False"
        and rs = "[\<lparr>r_tid = 8, r_distance = 2\<rparr>, \<lparr>r_tid = 9, r_distance = 3\<rparr>]", OF _ _ run _ usable]
    by (simp add: header_atomic_def tombstone_parts_def tombstone_image_length visible_delete_def Let_def)
qed

theorem tombstone_slack_suffices_witness:
  "1 \<le> length (cuvs_apply_tombstones (\<lambda>_. True) (\<lambda>_. False) (sample_tids 5)
        (Some (tombstone_image 5 [\<lparr>tr_tid = 8, tr_delete_xid = 1\<rparr>] []))
        [\<lparr>r_tid = 8, r_distance = 2\<rparr>, \<lparr>r_tid = 9, r_distance = 3\<rparr>])"
proof (rule tombstone_slack_suffices)
  show "cuvs_k_with_tombstone_slack 10 (sample_tids 5)
      (Some (tombstone_image 5 [\<lparr>tr_tid = 8, tr_delete_xid = 1\<rparr>] [])) (int 1) = Inr 2"
    by code_simp
qed simp_all

end
