(* ===== verification/Circuit.thy ===== *)
theory Circuit
  imports Prelude
begin

text \<open>
  The per-index circuit breaker of \<open>src/cuvs_util.c\<close>: a process-local table of at most 64
  breakers searched by index OID. The array with its count is the list of its first
  \<open>cuvs_n_circuit_breakers\<close> elements. The abstract breaker counts consecutive failures and
  latches open; the table is shown to implement one such breaker per index.
\<close>

definition CUVS_MAX_TRACKED_INDEXES :: nat where "CUVS_MAX_TRACKED_INDEXES = 64"

record CuvsCircuitBreaker =
  cb_index_oid :: u32
  cb_consecutive_errors :: int
  cb_open :: int

type_synonym breakers = "CuvsCircuitBreaker list"

section \<open>The code\<close>

text \<open>
  \<open>find_or_create_breaker\<close> returns the table, extended if need be, and the slot, or
  \<open>None\<close> for the C result \<open>NULL\<close>.
\<close>

primrec find_breaker :: "u32 \<Rightarrow> breakers \<Rightarrow> nat option" where
  "find_breaker index_oid [] = None"
| "find_breaker index_oid (b # bs) =
     (if cb_index_oid b = index_oid then Some 0 else map_option Suc (find_breaker index_oid bs))"

definition find_or_create_breaker :: "u32 \<Rightarrow> breakers \<Rightarrow> breakers \<times> nat option" where
  "find_or_create_breaker index_oid tab =
    (case find_breaker index_oid tab of
       Some i \<Rightarrow> (tab, Some i)
     | None \<Rightarrow>
         if length tab < CUVS_MAX_TRACKED_INDEXES
         then (tab @ [\<lparr>cb_index_oid = index_oid, cb_consecutive_errors = 0, cb_open = 0\<rparr>],
               Some (length tab))
         else (tab, None))"

definition cuvs_circuit_record_error :: "u32 \<Rightarrow> int \<Rightarrow> breakers \<Rightarrow> breakers" where
  "cuvs_circuit_record_error index_oid threshold tab =
    (case find_or_create_breaker index_oid tab of
       (tab', None) \<Rightarrow> tab'
     | (tab', Some i) \<Rightarrow>
         (let b = (tab' ! i)\<lparr>cb_consecutive_errors := cb_consecutive_errors (tab' ! i) + 1\<rparr>
          in tab'[i := (if cb_consecutive_errors b \<ge> threshold then b\<lparr>cb_open := 1\<rparr> else b)]))"

definition circuit_ignored :: "int \<Rightarrow> bool" where
  "circuit_ignored status \<longleftrightarrow> status \<in> {0, 11, 7, 8, 9, 10}"

definition cuvs_circuit_record_status :: "u32 \<Rightarrow> int \<Rightarrow> int \<Rightarrow> breakers \<Rightarrow> breakers" where
  "cuvs_circuit_record_status index_oid threshold status tab =
     (if circuit_ignored status then tab else cuvs_circuit_record_error index_oid threshold tab)"

definition cuvs_circuit_record_success :: "u32 \<Rightarrow> breakers \<Rightarrow> breakers" where
  "cuvs_circuit_record_success index_oid tab =
    (case find_breaker index_oid tab of
       None \<Rightarrow> tab
     | Some i \<Rightarrow> tab[i := (tab ! i)\<lparr>cb_consecutive_errors := 0\<rparr>])"

definition cuvs_circuit_reset :: "u32 \<Rightarrow> breakers \<Rightarrow> breakers" where
  "cuvs_circuit_reset index_oid tab =
    (case find_breaker index_oid tab of
       None \<Rightarrow> tab
     | Some i \<Rightarrow> tab[i := (tab ! i)\<lparr>cb_consecutive_errors := 0, cb_open := 0\<rparr>])"

definition cuvs_circuit_is_open :: "u32 \<Rightarrow> breakers \<Rightarrow> int" where
  "cuvs_circuit_is_open index_oid tab =
    (case find_breaker index_oid tab of None \<Rightarrow> 0 | Some i \<Rightarrow> cb_open (tab ! i))"

definition cuvs_circuit_reset_all :: "breakers \<Rightarrow> breakers" where
  "cuvs_circuit_reset_all tab = []"

section \<open>One breaker per index\<close>

text \<open>The abstract breaker: a failure count and a latch.\<close>

datatype breaker_event = Status int | Success | Reset

type_synonym breaker = "int \<times> bool"

fun breaker_step :: "int \<Rightarrow> breaker_event \<Rightarrow> breaker \<Rightarrow> breaker" where
  "breaker_step threshold (Status s) (n, opn) =
     (if circuit_ignored s then (n, opn) else (n + 1, opn \<or> n + 1 \<ge> threshold))"
| "breaker_step threshold Success (n, opn) = (0, opn)"
| "breaker_step threshold Reset (n, opn) = (0, False)"

text \<open>What the table says of an index; an index without a slot has a fresh breaker.\<close>

definition breaker_view :: "breakers \<Rightarrow> u32 \<Rightarrow> breaker" where
  "breaker_view tab x =
    (case find_breaker x tab of
       None \<Rightarrow> (0, False)
     | Some i \<Rightarrow> (cb_consecutive_errors (tab ! i), cb_open (tab ! i) \<noteq> 0))"

definition circuit_step :: "int \<Rightarrow> u32 \<times> breaker_event \<Rightarrow> breakers \<Rightarrow> breakers" where
  "circuit_step threshold ev tab =
    (case snd ev of
       Status s \<Rightarrow> cuvs_circuit_record_status (fst ev) threshold s tab
     | Success \<Rightarrow> cuvs_circuit_record_success (fst ev) tab
     | Reset \<Rightarrow> cuvs_circuit_reset (fst ev) tab)"

definition breakers_ok :: "breakers \<Rightarrow> bool" where
  "breakers_ok tab \<longleftrightarrow> distinct (map cb_index_oid tab) \<and> length tab \<le> CUVS_MAX_TRACKED_INDEXES
     \<and> (\<forall>b \<in> set tab. cb_open b \<in> {0, 1})"

lemma find_breaker_Some:
  "find_breaker x tab = Some i \<Longrightarrow> i < length tab \<and> cb_index_oid (tab ! i) = x"
  by (induction tab arbitrary: i) (auto split: if_splits)

lemma find_breaker_None: "find_breaker x tab = None \<longleftrightarrow> x \<notin> cb_index_oid ` set tab"
  by (induction tab) auto

lemma find_breaker_append:
  "find_breaker x (tab @ ys) =
    (case find_breaker x tab of Some i \<Rightarrow> Some i | None \<Rightarrow> map_option ((+) (length tab)) (find_breaker x ys))"
proof (induction tab)
  case Nil
  then show ?case by (cases "find_breaker x ys") simp_all
next
  case (Cons b tab)
  then show ?case by (cases "find_breaker x ys") (auto split: option.splits)
qed

lemma find_breaker_update:
  "i < length tab \<Longrightarrow> cb_index_oid b = cb_index_oid (tab ! i)
    \<Longrightarrow> find_breaker x (tab[i := b]) = find_breaker x tab"
  by (induction tab arbitrary: i) (auto split: nat.splits)

lemma breakers_ok_update:
  assumes "breakers_ok tab" "i < length tab" "cb_index_oid b = cb_index_oid (tab ! i)" "cb_open b \<in> {0, 1}"
  shows "breakers_ok (tab[i := b])"
proof -
  have "map cb_index_oid (tab[i := b]) = map cb_index_oid tab"
    using assms(2,3) by (simp add: map_update) (metis list_update_id nth_map)
  with assms show ?thesis
    by (auto simp: breakers_ok_def dest: set_update_subset_insert [THEN subsetD])
qed

lemma view_update:
  assumes "find_breaker x tab = Some i" "cb_index_oid b = x"
  shows "breaker_view (tab[i := b]) y
    = (if y = x then (cb_consecutive_errors b, cb_open b \<noteq> 0) else breaker_view tab y)"
proof -
  note f = find_breaker_Some [OF assms(1)]
  have u: "find_breaker y (tab[i := b]) = find_breaker y tab"
    using f assms(2) by (intro find_breaker_update) simp_all
  show ?thesis
  proof (cases "y = x")
    case True
    then show ?thesis using u assms(1) f by (simp add: breaker_view_def)
  next
    case False
    then have "find_breaker y tab = Some j \<Longrightarrow> j \<noteq> i" for j
      using f find_breaker_Some [of y tab j] by blast
    then show ?thesis
      using u False by (cases "find_breaker y tab") (simp_all add: breaker_view_def)
  qed
qed

text \<open>What an event does to the slot it lands on.\<close>

fun slot_event :: "int \<Rightarrow> breaker_event \<Rightarrow> CuvsCircuitBreaker \<Rightarrow> CuvsCircuitBreaker" where
  "slot_event threshold (Status s) b =
     (if circuit_ignored s then b
      else b\<lparr>cb_consecutive_errors := cb_consecutive_errors b + 1,
             cb_open := (if cb_consecutive_errors b + 1 \<ge> threshold then 1 else cb_open b)\<rparr>)"
| "slot_event threshold Success b = b\<lparr>cb_consecutive_errors := 0\<rparr>"
| "slot_event threshold Reset b = b\<lparr>cb_consecutive_errors := 0, cb_open := 0\<rparr>"

lemma slot_event_props [simp]:
  "cb_index_oid (slot_event threshold ev b) = cb_index_oid b"
  "(cb_consecutive_errors (slot_event threshold ev b), cb_open (slot_event threshold ev b) \<noteq> 0)
    = breaker_step threshold ev (cb_consecutive_errors b, cb_open b \<noteq> 0)"
  by (cases ev; simp)+

lemma slot_event_open: "cb_open b \<in> {0, 1} \<Longrightarrow> cb_open (slot_event threshold ev b) \<in> {0, 1}"
  by (cases ev) auto

abbreviation fresh :: "u32 \<Rightarrow> CuvsCircuitBreaker" where
  "fresh x \<equiv> \<lparr>cb_index_oid = x, cb_consecutive_errors = 0, cb_open = 0\<rparr>"

lemma circuit_step_found:
  "find_breaker (fst ev) tab = Some i
    \<Longrightarrow> circuit_step threshold ev tab = tab[i := slot_event threshold (snd ev) (tab ! i)]"
  by (cases "snd ev") (simp_all add: circuit_step_def cuvs_circuit_record_status_def
    cuvs_circuit_record_error_def find_or_create_breaker_def cuvs_circuit_record_success_def
    cuvs_circuit_reset_def Let_def)

lemma circuit_step_new:
  assumes "find_breaker (fst ev) tab = None" "length tab < CUVS_MAX_TRACKED_INDEXES"
  shows "circuit_step threshold ev tab =
    (case snd ev of
       Status s \<Rightarrow> if circuit_ignored s then tab else tab @ [slot_event threshold (snd ev) (fresh (fst ev))]
     | _ \<Rightarrow> tab)"
  using assms
  by (cases "snd ev") (simp_all add: circuit_step_def cuvs_circuit_record_status_def
    cuvs_circuit_record_error_def find_or_create_breaker_def cuvs_circuit_record_success_def
    cuvs_circuit_reset_def Let_def)

lemma circuit_step_full:
  assumes "find_breaker (fst ev) tab = None" "\<not> length tab < CUVS_MAX_TRACKED_INDEXES"
  shows "circuit_step threshold ev tab = tab"
  using assms
  by (cases "snd ev") (simp_all add: circuit_step_def cuvs_circuit_record_status_def
    cuvs_circuit_record_error_def find_or_create_breaker_def cuvs_circuit_record_success_def
    cuvs_circuit_reset_def Let_def)

lemma view_append:
  assumes "find_breaker (cb_index_oid b) tab = None"
  shows "breaker_view (tab @ [b]) y
    = (if y = cb_index_oid b then (cb_consecutive_errors b, cb_open b \<noteq> 0) else breaker_view tab y)"
proof (cases "find_breaker y tab")
  case None
  then show ?thesis by (simp add: breaker_view_def find_breaker_append)
next
  case (Some j)
  with assms have "y \<noteq> cb_index_oid b" by auto
  then show ?thesis
    using Some find_breaker_Some [OF Some] by (simp add: breaker_view_def find_breaker_append nth_append)
qed

text \<open>A step that finds or gets a slot acts on the view of its index only, as the abstract breaker.\<close>

lemma circuit_step_view:
  assumes "fst ev \<in> cb_index_oid ` set tab \<or> length tab < CUVS_MAX_TRACKED_INDEXES"
  shows "breaker_view (circuit_step threshold ev tab) x
    = (if x = fst ev then breaker_step threshold (snd ev) (breaker_view tab x) else breaker_view tab x)"
proof (cases "find_breaker (fst ev) tab")
  case (Some i)
  then have "breaker_view tab (fst ev) = (cb_consecutive_errors (tab ! i), cb_open (tab ! i) \<noteq> 0)"
    by (simp add: breaker_view_def)
  then show ?thesis
    using view_update [OF Some, of "slot_event threshold (snd ev) (tab ! i)" x] find_breaker_Some [OF Some]
    by (simp add: circuit_step_found [OF Some])
next
  case None
  then have room: "length tab < CUVS_MAX_TRACKED_INDEXES"
    using assms find_breaker_None by metis
  have v: "breaker_view tab (fst ev) = (0, False)"
    using None by (simp add: breaker_view_def)
  show ?thesis
    using v None view_append [of "slot_event threshold (snd ev) (fresh (fst ev))" tab x]
    by (cases "snd ev") (auto simp: circuit_step_new [OF None room])
qed

lemma oids_update:
  "i < length tab \<Longrightarrow> cb_index_oid b = cb_index_oid (tab ! i)
    \<Longrightarrow> map cb_index_oid (tab[i := b]) = map cb_index_oid tab"
  by (simp add: map_update) (metis list_update_id nth_map)

lemma circuit_step_ok:
  assumes "breakers_ok tab"
  shows "breakers_ok (circuit_step threshold ev tab)"
proof (cases "find_breaker (fst ev) tab")
  case (Some i)
  note f = find_breaker_Some [OF Some]
  then have "cb_open (tab ! i) \<in> {0, 1}"
    using assms nth_mem [of i tab] by (auto simp: breakers_ok_def)
  then show ?thesis
    unfolding circuit_step_found [OF Some]
    using assms f slot_event_open by (intro breakers_ok_update) simp_all
next
  case None
  show ?thesis
  proof (cases "length tab < CUVS_MAX_TRACKED_INDEXES")
    case True
    have "breakers_ok (tab @ [slot_event threshold (Status s) (fresh (fst ev))])" for s
      using assms None True slot_event_open [of "fresh (fst ev)" threshold "Status s"]
      by (auto simp: breakers_ok_def find_breaker_None)
    then show ?thesis
      using assms
      by (cases "snd ev") (simp_all add: circuit_step_new [OF None True] del: slot_event.simps)
  next
    case False
    then show ?thesis using assms None by (simp add: circuit_step_full)
  qed
qed

lemma circuit_step_oids:
  "set (map cb_index_oid (circuit_step threshold ev tab)) \<subseteq> insert (fst ev) (set (map cb_index_oid tab))"
proof (cases "find_breaker (fst ev) tab")
  case (Some i)
  then show ?thesis
    using find_breaker_Some [OF Some]
    by (simp only: circuit_step_found [OF Some] oids_update slot_event_props) blast
next
  case None
  then show ?thesis
    by (cases "length tab < CUVS_MAX_TRACKED_INDEXES"; cases "snd ev")
      (auto simp: circuit_step_new circuit_step_full)
qed

section \<open>Properties\<close>

text \<open>
  C17. Up to its capacity of 64 indexes the table implements one breaker per index: over any sequence of
  status reports, successes and resets that concerns at most 64 indexes, what the table says of an index
  is what a breaker of its own would say after that index's events alone. In particular it opens exactly
  when the consecutive failures of that index reach the threshold, and stays open until a reset. A 65th
  index has no breaker: \<open>circuit_full_untracked\<close>.
\<close>

theorem circuit_refines:
  assumes "card (fst ` set evs) \<le> 64"
  shows "breaker_view (fold (circuit_step threshold) evs []) x
      = fold (breaker_step threshold) (map snd (filter (\<lambda>ev. fst ev = x) evs)) (0, False) \<and>
    (cuvs_circuit_is_open x (fold (circuit_step threshold) evs []) \<noteq> 0
      \<longleftrightarrow> snd (fold (breaker_step threshold) (map snd (filter (\<lambda>ev. fst ev = x) evs)) (0, False)))"
proof -
  have run: "breakers_ok (fold (circuit_step threshold) evs []) \<and>
      set (map cb_index_oid (fold (circuit_step threshold) evs [])) \<subseteq> fst ` set evs \<and>
      breaker_view (fold (circuit_step threshold) evs []) x
        = fold (breaker_step threshold) (map snd (filter (\<lambda>ev. fst ev = x) evs)) (0, False)"
    using assms
  proof (induction evs rule: rev_induct)
    case Nil
    then show ?case by (simp add: breakers_ok_def breaker_view_def)
  next
    case (snoc ev evs)
    let ?t = "fold (circuit_step threshold) evs []"
    have "card (fst ` set evs) \<le> 64"
      using snoc.prems card_mono [of "fst ` set (evs @ [ev])" "fst ` set evs"] by fastforce
    note ih = snoc.IH [OF this]
    have "fst ev \<in> cb_index_oid ` set ?t \<or> length ?t < CUVS_MAX_TRACKED_INDEXES"
    proof (rule disjCI)
      assume full: "\<not> length ?t < CUVS_MAX_TRACKED_INDEXES"
      have "card (set (map cb_index_oid ?t)) = length ?t"
        using ih distinct_card [of "map cb_index_oid ?t"] by (simp add: breakers_ok_def)
      with full have "64 \<le> card (set (map cb_index_oid ?t))"
        by (simp add: CUVS_MAX_TRACKED_INDEXES_def)
      moreover have "set (map cb_index_oid ?t) \<subseteq> fst ` set (evs @ [ev])"
        using ih by auto
      ultimately have "set (map cb_index_oid ?t) = fst ` set (evs @ [ev])"
        using snoc.prems by (intro card_seteq) simp_all
      then show "fst ev \<in> cb_index_oid ` set ?t" by auto
    qed
    note step = circuit_step_view [OF this, of threshold x]
    have "set (map cb_index_oid (circuit_step threshold ev ?t)) \<subseteq> fst ` set (evs @ [ev])"
      using circuit_step_oids [of threshold ev ?t] ih by auto
    then show ?case
      using ih step circuit_step_ok by auto
  qed
  moreover have "cuvs_circuit_is_open x tab \<noteq> 0 \<longleftrightarrow> snd (breaker_view tab x)" for tab
    by (simp add: cuvs_circuit_is_open_def breaker_view_def split: option.split)
  ultimately show ?thesis by simp
qed

theorem circuit_refines_witness:
  "breaker_view (fold (circuit_step 2) [(7, Status 1), (8, Status 1), (7, Status 9), (7, Status 2)] []) 7
      = (2, True) \<and>
    (cuvs_circuit_is_open 7 (fold (circuit_step 2)
        [(7, Status 1), (8, Status 1), (7, Status 9), (7, Status 2)] []) \<noteq> 0 \<longleftrightarrow> True)"
proof -
  have "card (fst ` set [(7 :: u32, Status 1), (8, Status 1), (7, Status 9), (7, Status 2)]) \<le> 64"
    by (simp add: card_insert_if)
  from circuit_refines [OF this, of 2 7] show ?thesis
    by (simp add: circuit_ignored_def)
qed

text \<open>
  The table is bounded, and an index that finds it full is never tracked: its failures are
  dropped and its breaker stays closed.
\<close>

theorem circuit_full_untracked:
  assumes "breakers_ok tab" "length tab = 64" "x \<notin> cb_index_oid ` set tab"
  shows "cuvs_circuit_is_open x (((cuvs_circuit_record_error x threshold) ^^ n) tab) = 0 \<and>
    ((cuvs_circuit_record_error x threshold) ^^ n) tab = tab"
proof -
  have "find_breaker x tab = None"
    using assms(3) find_breaker_None by metis
  then have e: "cuvs_circuit_record_error x threshold tab = tab" "cuvs_circuit_is_open x tab = 0"
    using assms(2) by (simp_all add: cuvs_circuit_record_error_def find_or_create_breaker_def
        CUVS_MAX_TRACKED_INDEXES_def cuvs_circuit_is_open_def)
  then have "((cuvs_circuit_record_error x threshold) ^^ n) tab = tab"
    by (induction n) simp_all
  with e show ?thesis by simp
qed

theorem circuit_full_untracked_witness:
  "cuvs_circuit_is_open 99 (((cuvs_circuit_record_error 99 3) ^^ 5)
      (map (\<lambda>i. fresh (of_nat i)) [0..<64])) = 0 \<and>
    ((cuvs_circuit_record_error 99 3) ^^ 5) (map (\<lambda>i. fresh (of_nat i)) [0..<64])
      = map (\<lambda>i. fresh (of_nat i)) [0..<64]"
proof (rule circuit_full_untracked)
  have "inj_on (\<lambda>i. of_nat i :: u32) {0..<64}"
    by (rule inj_onI) (simp add: word_of_nat_eq_iff take_bit_nat_eq_self)
  then show "breakers_ok (map (\<lambda>i. fresh (of_nat i)) [0..<64])"
    by (simp add: breakers_ok_def CUVS_MAX_TRACKED_INDEXES_def distinct_map o_def)
  show "99 \<notin> cb_index_oid ` set (map (\<lambda>i. fresh (of_nat i)) [0..<64])"
    by (auto simp: word_unat_eq_iff unat_of_nat)
qed simp

end
