(* ===== verification/Batch_Group.thy ===== *)
theory Batch_Group
  imports Prelude
begin

text \<open>
  Grouping of concurrent single-query searches into batched dispatches:
  \<open>cuvs_batch_group\<close> of \<open>src/cuvs_util.c\<close>. The group ids of the requests already
  seen are carried along with their keys, as the inner loop reads them back from
  \<open>group_id_out\<close>.
\<close>

record CuvsBatchKey =
  bk_db_oid :: u32
  bk_index_oid :: u32
  bk_precision :: u32
  bk_dim :: u32
  bk_mode :: u32
  bk_itopk_size :: u32
  bk_search_width :: u32

text \<open>The condition of the inner loop, for an earlier key \<open>kj\<close> and the current \<open>ki\<close>.\<close>

definition batch_same :: "CuvsBatchKey \<Rightarrow> CuvsBatchKey \<Rightarrow> bool" where
  "batch_same kj ki \<longleftrightarrow>
     bk_db_oid kj = bk_db_oid ki \<and> bk_index_oid kj = bk_index_oid ki \<and>
     bk_precision kj = bk_precision ki \<and> bk_dim kj = bk_dim ki \<and> bk_mode kj = bk_mode ki \<and>
     (bk_mode ki \<noteq> 0 \<or>
      (bk_itopk_size kj = bk_itopk_size ki \<and> bk_search_width kj = bk_search_width ki))"

primrec batch_group_loop ::
  "(CuvsBatchKey \<times> nat) list \<Rightarrow> nat \<Rightarrow> CuvsBatchKey list \<Rightarrow> nat list \<times> nat" where
  "batch_group_loop seen ng [] = ([], ng)"
| "batch_group_loop seen ng (k # ks) =
    (case find (\<lambda>s. batch_same (fst s) k) seen of
       Some s \<Rightarrow>
         (let (gs, n) = batch_group_loop (seen @ [(k, snd s)]) ng ks in (snd s # gs, n))
     | None \<Rightarrow>
         (let (gs, n) = batch_group_loop (seen @ [(k, ng)]) (Suc ng) ks in (ng # gs, n)))"

definition cuvs_batch_group :: "CuvsBatchKey list \<Rightarrow> nat list \<times> nat" where
  "cuvs_batch_group keys = batch_group_loop [] 0 keys"

section \<open>Correctness\<close>

lemma batch_same_refl [simp]: "batch_same k k"
  by (auto simp: batch_same_def)

lemma batch_same_sym: "batch_same j k \<longleftrightarrow> batch_same k j"
  by (auto simp: batch_same_def)

lemma batch_same_trans: "batch_same i j \<Longrightarrow> batch_same j k \<Longrightarrow> batch_same i k"
  by (auto simp: batch_same_def)

text \<open>
  The grouping of the requests seen so far: ids agree exactly for requests that may share a
  dispatch, they are dense, and a new id is the count of the ids before it (first-seen order).
\<close>

definition grouped :: "(CuvsBatchKey \<times> nat) list \<Rightarrow> nat \<Rightarrow> bool" where
  "grouped seen ng \<longleftrightarrow>
     (\<forall>s \<in> set seen. \<forall>t \<in> set seen. snd s = snd t \<longleftrightarrow> batch_same (fst s) (fst t)) \<and>
     snd ` set seen = {..<ng} \<and>
     (\<forall>i < length seen. snd (seen ! i) \<le> card (snd ` set (take i seen)))"

lemma grouped_join:
  assumes "grouped seen ng" "s \<in> set seen" "batch_same (fst s) k"
  shows "grouped (seen @ [(k, snd s)]) ng"
  unfolding grouped_def
proof (intro conjI allI impI)
  have e: "snd t = snd s \<longleftrightarrow> batch_same (fst t) k" if "t \<in> set seen" for t
  proof -
    have "snd t = snd s \<longleftrightarrow> batch_same (fst t) (fst s)"
      using assms(1,2) that unfolding grouped_def by blast
    also have "\<dots> \<longleftrightarrow> batch_same (fst t) k"
      using assms(3) batch_same_trans batch_same_sym by blast
    finally show ?thesis .
  qed
  show "\<forall>a \<in> set (seen @ [(k, snd s)]). \<forall>b \<in> set (seen @ [(k, snd s)]).
      snd a = snd b \<longleftrightarrow> batch_same (fst a) (fst b)"
  proof (intro ballI)
    fix a b
    assume "a \<in> set (seen @ [(k, snd s)])" "b \<in> set (seen @ [(k, snd s)])"
    then consider "a \<in> set seen" "b \<in> set seen" | "a \<in> set seen" "b = (k, snd s)"
      | "a = (k, snd s)" "b \<in> set seen" | "a = (k, snd s)" "b = (k, snd s)" by auto
    then show "snd a = snd b \<longleftrightarrow> batch_same (fst a) (fst b)"
    proof cases
      case 1
      then show ?thesis using assms(1) by (auto simp: grouped_def)
    next
      case 2
      then show ?thesis using e [of a] by simp
    next
      case 3
      then show ?thesis using e [of b] batch_same_sym [of k "fst b"] by auto
    qed simp
  qed
  show "snd ` set (seen @ [(k, snd s)]) = {..<ng}"
    using assms by (auto simp: grouped_def)
  have "snd s < ng"
    using assms by (auto simp: grouped_def)
  then have "snd s \<le> card (snd ` set seen)"
    using assms(1) by (simp add: grouped_def)
  then show "snd ((seen @ [(k, snd s)]) ! i) \<le> card (snd ` set (take i (seen @ [(k, snd s)])))"
    if "i < length (seen @ [(k, snd s)])" for i
    using that assms(1) by (cases "i < length seen") (auto simp: grouped_def nth_append)
qed

lemma grouped_new:
  assumes "grouped seen ng" "\<forall>s \<in> set seen. \<not> batch_same (fst s) k"
  shows "grouped (seen @ [(k, ng)]) (Suc ng)"
  unfolding grouped_def
proof (intro conjI allI impI)
  have lt: "snd t \<noteq> ng" if "t \<in> set seen" for t
    using assms(1) that by (auto simp: grouped_def)
  show "\<forall>a \<in> set (seen @ [(k, ng)]). \<forall>b \<in> set (seen @ [(k, ng)]).
      snd a = snd b \<longleftrightarrow> batch_same (fst a) (fst b)"
  proof (intro ballI)
    fix a b
    assume "a \<in> set (seen @ [(k, ng)])" "b \<in> set (seen @ [(k, ng)])"
    then consider "a \<in> set seen" "b \<in> set seen" | "a \<in> set seen" "b = (k, ng)"
      | "a = (k, ng)" "b \<in> set seen" | "a = (k, ng)" "b = (k, ng)" by auto
    then show "snd a = snd b \<longleftrightarrow> batch_same (fst a) (fst b)"
      by cases (use assms lt batch_same_sym in \<open>fastforce simp: grouped_def\<close>)+
  qed
  show "snd ` set (seen @ [(k, ng)]) = {..<Suc ng}"
    using assms(1) by (auto simp: grouped_def)
  show "snd ((seen @ [(k, ng)]) ! i) \<le> card (snd ` set (take i (seen @ [(k, ng)])))"
    if "i < length (seen @ [(k, ng)])" for i
    using that assms(1) by (cases "i < length seen") (auto simp: grouped_def nth_append)
qed

lemma batch_group_loop_grouped:
  assumes "grouped seen ng" "batch_group_loop seen ng ks = (gs, n)"
  shows "length gs = length ks \<and> grouped (seen @ zip ks gs) n"
  using assms
proof (induction ks arbitrary: seen ng gs n)
  case Nil
  then show ?case by simp
next
  case (Cons k ks)
  obtain g ng' gs' where step: "grouped (seen @ [(k, g)]) ng'"
    "batch_group_loop (seen @ [(k, g)]) ng' ks = (gs', n)" "gs = g # gs'"
  proof (cases "find (\<lambda>s. batch_same (fst s) k) seen")
    case None
    then have "grouped (seen @ [(k, ng)]) (Suc ng)"
      by (intro grouped_new [OF Cons.prems(1)]) (auto simp: find_None_iff)
    then show ?thesis
      using that [of ng "Suc ng"] Cons.prems(2) None by (auto split: prod.splits)
  next
    case (Some s)
    then have "s \<in> set seen" "batch_same (fst s) k"
      by (auto simp: find_Some_iff)
    then have "grouped (seen @ [(k, snd s)]) ng"
      using grouped_join [OF Cons.prems(1)] by blast
    then show ?thesis
      using that [of "snd s" ng] Cons.prems(2) Some by (auto split: prod.splits)
  qed
  with Cons.IH [OF step(1,2)] show ?case by simp
qed

text \<open>
  Requests share a dispatch exactly when their keys allow it: two requests get the same group
  id if and only if they agree on index, precision, dimension and mode and, for CAGRA, on its
  tuning. The ids are dense and numbered in order of first appearance, so the worker's loop over
  \<open>0 .. n_groups - 1\<close> serves every request once.
\<close>

theorem batch_group_correct:
  "length (fst (cuvs_batch_group keys)) = length keys \<and>
   (\<forall>i j. i < length keys \<and> j < length keys \<longrightarrow>
     (fst (cuvs_batch_group keys) ! i = fst (cuvs_batch_group keys) ! j
       \<longleftrightarrow> batch_same (keys ! i) (keys ! j))) \<and>
   set (fst (cuvs_batch_group keys)) = {..<snd (cuvs_batch_group keys)} \<and>
   (\<forall>i < length keys. fst (cuvs_batch_group keys) ! i
     \<le> card (set (take i (fst (cuvs_batch_group keys)))))"
proof -
  obtain gs n where r: "cuvs_batch_group keys = (gs, n)" by fastforce
  have "grouped [] 0" by (simp add: grouped_def)
  then have g: "length gs = length keys" "grouped (zip keys gs) n"
    using batch_group_loop_grouped [of "[]" 0 keys gs n] r by (simp_all add: cuvs_batch_group_def)
  have s: "snd ` set (take i (zip keys gs)) = set (take i gs)" for i
    using g(1) by (metis length_take list.set_map map_snd_zip take_zip)
  have nth: "zip keys gs ! i = (keys ! i, gs ! i)" "zip keys gs ! i \<in> set (zip keys gs)"
    if "i < length keys" for i
    using that g(1) nth_mem [of i "zip keys gs"] by simp_all
  have "\<forall>i j. i < length keys \<and> j < length keys \<longrightarrow> (gs ! i = gs ! j \<longleftrightarrow> batch_same (keys ! i) (keys ! j))"
    using g(2) nth unfolding grouped_def by (metis fst_conv snd_conv)
  moreover have "set gs = {..<n}"
    using g s [of "length keys"] by (simp add: grouped_def)
  moreover have "\<forall>i < length keys. gs ! i \<le> card (set (take i gs))"
    using g nth(1) s unfolding grouped_def by (metis length_zip min.idem snd_conv)
  ultimately show ?thesis
    using r g(1) by simp
qed

theorem batch_group_correct_witness:
  "let k = \<lparr>bk_db_oid = 1, bk_index_oid = 2, bk_precision = 0, bk_dim = 3, bk_mode = 0,
        bk_itopk_size = 64, bk_search_width = 0\<rparr>;
      keys = [k, k\<lparr>bk_itopk_size := 128\<rparr>, k]
   in fst (cuvs_batch_group keys) ! 0 = fst (cuvs_batch_group keys) ! 2 \<and>
      fst (cuvs_batch_group keys) ! 0 \<noteq> fst (cuvs_batch_group keys) ! 1"
  unfolding Let_def
  using batch_group_correct [of "[\<lparr>bk_db_oid = 1, bk_index_oid = 2, bk_precision = 0, bk_dim = 3,
      bk_mode = 0, bk_itopk_size = 64, bk_search_width = 0\<rparr>,
      \<lparr>bk_db_oid = 1, bk_index_oid = 2, bk_precision = 0, bk_dim = 3,
      bk_mode = 0, bk_itopk_size = 64, bk_search_width = 0\<rparr>\<lparr>bk_itopk_size := 128\<rparr>,
      \<lparr>bk_db_oid = 1, bk_index_oid = 2, bk_precision = 0, bk_dim = 3,
      bk_mode = 0, bk_itopk_size = 64, bk_search_width = 0\<rparr>]"]
  by (auto simp: batch_same_def dest: spec [where x = 0])

end
