(* ===== verification/Registry.thy ===== *)
theory Registry
  imports Util Shards "HOL-Library.Multiset"
begin

text \<open>
  The resident-index registry of the daemon (\<open>src/pg_cuvs_server.c\<close>): the entries and
  their GPU handles, VRAM accounting, device choice, LRU eviction and making room. The registry is an
  array of \<open>g_max_indexes\<close> slots of which the first \<open>g_n_indexes\<close> are in use;
  compaction shifts entries down and leaves the old contents behind the end, as the code does.

  GPU objects are opaque handles. The state records which are allocated, so that leaks and double
  frees are visible. What the GPU library and the operating system answer is the record
  \<open>outside\<close>: free VRAM, what a serialized graph is, whether a file can be loaded, and how
  far the writes and renames of \<open>save_index\<close> get.
\<close>

section \<open>State\<close>

datatype warmup_state =
  WARMUP_HOT | WARMUP_COLD | WARMUP_QUEUED | WARMUP_DOWNLOADING | WARMUP_LOADING | WARMUP_FAILED

type_synonym handle = nat

record ShardEntry =
  se_shard_id :: u32
  se_handle :: "handle option"
  se_tid_offset :: int
  se_n_vecs :: int
  se_gpu_device_id :: u32
  se_vram_bytes :: u64
  se_search_count :: u64
  se_error_count :: u64
  se_last_status :: u32
  se_valid :: bool
  se_bf_idx :: "handle option"
  se_bf_vram_bytes :: u64

record IndexEntry =
  e_db_oid :: u32
  e_index_oid :: u32
  e_dim :: u32
  e_metric :: u32
  e_n_vecs :: int
  e_graph_degree :: int
  e_handle :: "handle option"
  e_tids :: "u64 list option"
  e_shard_count :: int
  e_shards :: "ShardEntry list option"
  e_inflight :: int
  e_vram_bytes :: u64
  e_last_search :: int
  e_valid :: bool
  e_stale :: bool
  e_stale_since :: int
  e_is_flat :: bool
  e_delta_idx :: "handle option"
  e_delta_tids :: "u64 list option"
  e_n_delta :: int
  e_delta_generation :: u32
  e_delta_mtime :: int
  e_delta_vram_bytes :: u64
  e_delta_vecs_host :: "u32 list option"
  e_delta_n_cached :: int
  e_main_bf_idx :: "handle option"
  e_main_bf_n :: int
  e_main_bf_vram_bytes :: u64
  e_main_bf_mtime :: int
  e_main_bf_generation :: u32
  e_bf_precision :: u32
  e_rev_tids :: "u64 list option"
  e_rev_item_ids :: "u32 list option"
  e_search_count :: u64
  e_error_count :: u64
  e_total_latency_us :: u64
  e_lat_buckets :: "u32 list"
  e_last_status :: u32
  e_last_requested_k :: u32
  e_last_returned_k :: u32
  e_delta_merged_count :: u64
  e_bf_batch_count :: u64
  e_cagra_batch_count :: u64
  e_prefilter_fallback_count :: u64
  e_last_error :: string
  e_warmup_state :: warmup_state
  e_last_warmup_at :: int
  e_warmup_duration_ms :: u32
  e_download_count :: u64
  e_cache_miss_count :: u64
  e_gpu_device_id :: u32
  e_hnsw_idx :: "handle option"
  e_last_search_mode :: u32
  e_ivfpq_handle :: "handle option"
  e_ivfpq_n_vecs :: int
  e_ivfpq_vram_bytes :: u64
  e_n_extended :: int
  e_compact_count :: u64
  e_last_compact_at :: int

record ColdIndexEntry =
  c_db_oid :: u32
  c_index_oid :: u32
  c_relfilenode :: u32
  c_table_oid :: u32
  c_warmup_state :: warmup_state
  c_last_warmup_at :: int
  c_warmup_duration_ms :: u32
  c_download_count :: u64
  c_cache_miss_count :: u64
  c_gpu_device_id :: u32
  c_valid :: bool

text \<open>The files of an index directory, by the index and the suffix.\<close>

datatype suffix =
  F_cagra | F_tids | F_shards | F_shard nat | F_delta | F_vectors | F_stale | F_relfilenode
  | F_tombstone | F_ivfpq | F_hnsw | F_cagra_tmp | F_tids_tmp | F_vectors_tmp | F_shards_tmp
  | F_shard_tmp nat | F_ivfpq_tmp

type_synonym fkey = "u32 \<times> u32 \<times> suffix"

record daemon =
  g_indexes :: "IndexEntry list"
  g_n_indexes :: nat
  g_pending_build_vram :: "u64 list"
  g_max_vram_per_gpu :: "u64 list"
  g_allowed_gpus :: "int list"
  g_n_gpus :: nat
  g_cache_hits :: "u64 list"
  g_cache_misses :: "u64 list"
  g_cache_reloads :: "u64 list"
  g_cache_evictions :: "u64 list"
  g_cache_persist_fail :: "u64 list"
  g_cold_indexes :: "ColdIndexEntry list"
  d_files :: "fkey \<rightharpoonup> bytes"
  d_mtime :: "fkey \<Rightarrow> int"
  d_now :: int
  d_live :: "handle list"
  d_next :: handle
  d_bad_free :: "handle list"

text \<open>What is outside the program.\<close>

record outside =
  o_vram_free :: "handle list \<Rightarrow> int \<Rightarrow> u64"
  o_serialize :: "handle \<Rightarrow> bytes option"
  o_cagra_ok :: "bytes \<Rightarrow> u32 \<Rightarrow> int \<Rightarrow> bool"
  o_ivfpq_ok :: "bytes \<Rightarrow> int \<Rightarrow> bool"
  o_tids_room :: "fkey \<Rightarrow> nat option"
  o_sync_ok :: "fkey \<Rightarrow> bool"
  o_rename_ok :: "fkey \<Rightarrow> bool"
  o_mem :: "nat \<Rightarrow> bool"

definition CUVS_MAX_GPUS :: nat where "CUVS_MAX_GPUS = 16"

text \<open>The entries in use.\<close>

definition live_entries :: "daemon \<Rightarrow> IndexEntry list" where
  "live_entries st = take (g_n_indexes st) (g_indexes st)"

definition set_slot :: "nat \<Rightarrow> IndexEntry \<Rightarrow> daemon \<Rightarrow> daemon" where
  "set_slot i e st = st\<lparr>g_indexes := (g_indexes st)[i := e]\<rparr>"

text \<open>Shifting the entries behind slot \<open>i\<close> down by one; the last slot in use keeps its contents.\<close>

definition compact_slots :: "nat \<Rightarrow> daemon \<Rightarrow> daemon" where
  "compact_slots i st =
    (let n = g_n_indexes st; xs = g_indexes st
     in st\<lparr>g_indexes := take i xs @ drop (Suc i) (take n xs) @ drop (n - 1) xs,
           g_n_indexes := n - 1\<rparr>)"

definition gpu_free :: "handle option \<Rightarrow> daemon \<Rightarrow> daemon" where
  "gpu_free ho st =
    (case ho of
       None \<Rightarrow> st
     | Some h \<Rightarrow> if h \<in> set (d_live st) then st\<lparr>d_live := remove1 h (d_live st)\<rparr>
                 else st\<lparr>d_bad_free := h # d_bad_free st\<rparr>)"

definition bump :: "nat \<Rightarrow> u64 list \<Rightarrow> u64 list" where
  "bump i ctr = ctr[i := ctr ! i + 1]"

section \<open>Statistics\<close>

definition reset_entry_stats :: "IndexEntry \<Rightarrow> IndexEntry" where
  "reset_entry_stats e = e\<lparr>e_search_count := 0, e_error_count := 0, e_total_latency_us := 0,
     e_lat_buckets := replicate CUVS_LAT_BUCKETS 0, e_last_status := 0, e_last_requested_k := 0,
     e_last_returned_k := 0, e_delta_merged_count := 0, e_bf_batch_count := 0,
     e_cagra_batch_count := 0, e_prefilter_fallback_count := 0, e_last_error := '''',
     e_last_warmup_at := 0, e_warmup_duration_ms := 0, e_download_count := 0,
     e_cache_miss_count := 0, e_is_flat := False, e_graph_degree := 0\<rparr>"

definition record_search_stat :: "int \<Rightarrow> u32 \<Rightarrow> u32 \<Rightarrow> string option \<Rightarrow> IndexEntry \<Rightarrow> IndexEntry" where
  "record_search_stat now status latency_us err e =
    (let e1 = e\<lparr>e_last_status := status, e_last_search := now\<rparr> in
     if status = 0 then
       e1\<lparr>e_search_count := e_search_count e1 + 1,
          e_total_latency_us := e_total_latency_us e1 + ucast latency_us,
          e_lat_buckets := (e_lat_buckets e1)[cuvs_lat_bucket_index latency_us :=
            e_lat_buckets e1 ! cuvs_lat_bucket_index latency_us + 1]\<rparr>
     else (let e2 = e1\<lparr>e_error_count := e_error_count e1 + 1\<rparr> in
       case err of None \<Rightarrow> e2 | Some m \<Rightarrow> e2\<lparr>e_last_error := take 127 m\<rparr>))"

section \<open>VRAM accounting and device choice\<close>

definition is_sharded :: "IndexEntry \<Rightarrow> bool" where
  "is_sharded e \<longleftrightarrow> 2 \<le> e_shard_count e"

definition shard_list :: "IndexEntry \<Rightarrow> ShardEntry list" where
  "shard_list e = take (nat (e_shard_count e)) (case e_shards e of None \<Rightarrow> [] | Some ss \<Rightarrow> ss)"

abbreviation dev_word :: "int \<Rightarrow> u32" where "dev_word d \<equiv> of_int d"

definition entry_vram_on :: "int \<Rightarrow> IndexEntry \<Rightarrow> u64" where
  "entry_vram_on device_id e =
    (if \<not> e_valid e then 0
     else if is_sharded e then
       foldl (\<lambda>t s. if se_valid s \<and> se_gpu_device_id s = dev_word device_id
                    then t + (se_vram_bytes s + se_bf_vram_bytes s) else t) 0 (shard_list e)
     else if e_gpu_device_id e = dev_word device_id
     then e_vram_bytes e + e_delta_vram_bytes e + e_main_bf_vram_bytes e
     else 0)"

definition total_vram_used :: "int \<Rightarrow> daemon \<Rightarrow> u64" where
  "total_vram_used device_id st =
    (let total = foldl (\<lambda>t e. t + entry_vram_on device_id e) 0 (live_entries st)
     in if 0 \<le> device_id \<and> device_id < int CUVS_MAX_GPUS
        then total + g_pending_build_vram st ! nat device_id else total)"

definition gpu_free_vram_bytes :: "outside \<Rightarrow> int \<Rightarrow> daemon \<Rightarrow> u64" where
  "gpu_free_vram_bytes out device_id st = o_vram_free out (d_live st) device_id"

definition is_gpu_allowed :: "int \<Rightarrow> daemon \<Rightarrow> bool" where
  "is_gpu_allowed device_id st \<longleftrightarrow> g_allowed_gpus st = [] \<or> device_id \<in> set (g_allowed_gpus st)"

definition n_usable_gpus :: "daemon \<Rightarrow> nat" where
  "n_usable_gpus st = (if 0 < length (g_allowed_gpus st) then length (g_allowed_gpus st) else g_n_gpus st)"

definition usable_gpu :: "nat \<Rightarrow> daemon \<Rightarrow> int" where
  "usable_gpu i st = (if 0 < length (g_allowed_gpus st) then g_allowed_gpus st ! i else int i)"

definition pick_gpu_step :: "outside \<Rightarrow> u64 \<Rightarrow> daemon \<Rightarrow> int \<Rightarrow> int \<times> u64 \<Rightarrow> int \<times> u64" where
  "pick_gpu_step out needed st dev acc =
    (let budget = g_max_vram_per_gpu st ! nat dev in
     if 0 < budget \<and> needed > budget then acc
     else let used = total_vram_used dev st;
              headroom = (if 0 < budget then budget - used else gpu_free_vram_bytes out dev st)
          in if fst acc < 0 \<or> headroom > snd acc then (dev, headroom) else acc)"

definition pick_gpu_for_index :: "outside \<Rightarrow> u64 \<Rightarrow> daemon \<Rightarrow> int" where
  "pick_gpu_for_index out needed st =
     fst (fold (\<lambda>i. pick_gpu_step out needed st (usable_gpu i st)) [0..<n_usable_gpus st] (-1, 0))"

section \<open>Releasing what an entry holds\<close>

definition delta_gpu_of :: "IndexEntry \<Rightarrow> u32" where
  "delta_gpu_of e =
    (case e_shards e of
       Some ss \<Rightarrow> if is_sharded e then se_gpu_device_id (ss ! 0) else e_gpu_device_id e
     | None \<Rightarrow> e_gpu_device_id e)"

definition free_delta_cache :: "IndexEntry \<Rightarrow> daemon \<Rightarrow> IndexEntry \<times> daemon" where
  "free_delta_cache e st =
    (e\<lparr>e_delta_idx := None, e_delta_tids := None, e_delta_vecs_host := None, e_n_delta := 0,
       e_delta_n_cached := 0, e_delta_generation := 0, e_delta_mtime := 0, e_delta_vram_bytes := 0\<rparr>,
     gpu_free (e_delta_idx e) st)"

definition free_main_bf_cache :: "IndexEntry \<Rightarrow> daemon \<Rightarrow> IndexEntry \<times> daemon" where
  "free_main_bf_cache e st =
    (e\<lparr>e_main_bf_idx := None, e_main_bf_n := 0, e_main_bf_vram_bytes := 0, e_main_bf_mtime := 0,
       e_main_bf_generation := 0\<rparr>,
     gpu_free (e_main_bf_idx e) st)"

definition free_shard_bf_caches :: "IndexEntry \<Rightarrow> daemon \<Rightarrow> IndexEntry \<times> daemon" where
  "free_shard_bf_caches e st =
    (case e_shards e of
       None \<Rightarrow> (e, st)
     | Some ss \<Rightarrow>
         (let n = nat (e_shard_count e);
              clear = (\<lambda>s. if se_bf_idx s = None then s else s\<lparr>se_bf_idx := None, se_bf_vram_bytes := 0\<rparr>)
          in (e\<lparr>e_shards := Some (map clear (take n ss) @ drop n ss)\<rparr>,
              fold (\<lambda>s. gpu_free (se_bf_idx s)) (take n ss) st)))"

definition free_index_shards :: "IndexEntry \<Rightarrow> daemon \<Rightarrow> IndexEntry \<times> daemon" where
  "free_index_shards e st =
    (case e_shards e of
       None \<Rightarrow> (e\<lparr>e_shard_count := 0\<rparr>, st)
     | Some ss \<Rightarrow>
         (e\<lparr>e_shards := None, e_shard_count := 0\<rparr>,
          fold (\<lambda>s d. gpu_free (se_bf_idx s)
              (if se_valid s then gpu_free (se_handle s) d else d)) (shard_list e) st))"

end
