(* ===== verification/Evict.thy ===== *)
theory Evict
  imports Registry
begin

text \<open>
  Persisting, evicting and dropping resident indexes: \<open>save_index\<close>,
  \<open>find_lru_index\<close>, \<open>evict_lru\<close>, \<open>ensure_vram\<close>,
  \<open>find_index\<close>, \<open>handle_mark_stale\<close> and \<open>handle_drop\<close> of
  \<open>src/pg_cuvs_server.c\<close>. Every function runs under the registry mutex, so each is one
  step. The invariant \<open>owned\<close> says that the allocated GPU and host handles are exactly those
  the entries in use hold, each once, and that nothing was freed twice.
\<close>

section \<open>Saving an index\<close>

text \<open>
  \<open>write_tids_atomic\<close>: \<open>o_tids_room\<close> is \<open>None\<close> when the temporary file
  cannot be created, otherwise the bytes that fit.
\<close>

definition write_tids_atomic ::
  "outside \<Rightarrow> fkey \<Rightarrow> int \<Rightarrow> u32 \<Rightarrow> u32 \<Rightarrow> u64 list \<Rightarrow> daemon \<Rightarrow> int \<times> daemon" where
  "write_tids_atomic out tmp n_vecs dim metric tids st =
    (case o_tids_room out tmp of
       None \<Rightarrow> (-1, st)
     | Some r \<Rightarrow>
         (let (rc, f) = cuvs_tids_write \<lparr>written = [], room = r\<rparr> (of_int n_vecs) dim metric tids
          in if rc = 0 \<and> o_sync_ok out tmp
             then (0, st\<lparr>d_files := (d_files st)(tmp \<mapsto> written f)\<rparr>)
             else (-1, st\<lparr>d_files := (d_files st)(tmp := None)\<rparr>)))"

definition save_index :: "outside \<Rightarrow> IndexEntry \<Rightarrow> daemon \<Rightarrow> int \<times> daemon" where
  "save_index out e st =
    (case e_handle e of
       None \<Rightarrow> (-1, st)
     | Some h \<Rightarrow>
        (let idx_final = (e_db_oid e, e_index_oid e, F_cagra);
             tids_final = (e_db_oid e, e_index_oid e, F_tids);
             idx_tmp = (e_db_oid e, e_index_oid e, F_cagra_tmp);
             tids_tmp = (e_db_oid e, e_index_oid e, F_tids_tmp);
             (rc, st1) = write_tids_atomic out tids_tmp (e_n_vecs e) (e_dim e) (e_metric e)
               (case e_tids e of None \<Rightarrow> [] | Some ts \<Rightarrow> ts) st
         in if rc \<noteq> 0 then (-1, st1)
            else case o_serialize out h of
              None \<Rightarrow> (-1, st1\<lparr>d_files := (d_files st1)(tids_tmp := None)\<rparr>)
            | Some img \<Rightarrow>
               (let fs2 = (d_files st1)(idx_tmp \<mapsto> img) in
                if \<not> o_rename_ok out tids_final
                then (-1, st1\<lparr>d_files := fs2(tids_tmp := None, idx_tmp := None)\<rparr>)
                else let fs3 = fs2(tids_final := fs2 tids_tmp, tids_tmp := None) in
                  if \<not> o_rename_ok out idx_final
                  then (-1, st1\<lparr>d_files := fs3(tids_final := None, idx_tmp := None)\<rparr>)
                  else (0, st1\<lparr>d_files := fs3(idx_final := fs3 idx_tmp, idx_tmp := None)\<rparr>))))"

section \<open>Choosing the victim\<close>

definition entry_on_device :: "IndexEntry \<Rightarrow> int \<Rightarrow> bool" where
  "entry_on_device e device_id =
    (if is_sharded e
     then list_ex (\<lambda>s. se_valid s \<and> se_gpu_device_id s = dev_word device_id) (shard_list e)
     else e_gpu_device_id e = dev_word device_id)"

definition evictable :: "int \<Rightarrow> IndexEntry \<Rightarrow> bool" where
  "evictable device_id e \<longleftrightarrow>
     e_valid e \<and> \<not> (is_sharded e \<and> 0 < e_inflight e) \<and> entry_on_device e device_id"

primrec lru_scan :: "int \<Rightarrow> nat \<Rightarrow> (nat \<times> IndexEntry) option \<Rightarrow> IndexEntry list \<Rightarrow> (nat \<times> IndexEntry) option" where
  "lru_scan device_id i lru [] = lru"
| "lru_scan device_id i lru (e # es) =
    lru_scan device_id (Suc i)
      (if \<not> e_valid e then lru
       else if is_sharded e \<and> 0 < e_inflight e then lru
       else if \<not> entry_on_device e device_id then lru
       else (case lru of
               None \<Rightarrow> Some (i, e)
             | Some (j, l) \<Rightarrow> if e_last_search e < e_last_search l then Some (i, e) else lru)) es"

definition find_lru_index :: "int \<Rightarrow> daemon \<Rightarrow> nat option" where
  "find_lru_index device_id st = map_option fst (lru_scan device_id 0 None (live_entries st))"

section \<open>Eviction\<close>

text \<open>The shared tail: free the CPU HNSW and IVF-PQ handles, compact, count.\<close>

definition evict_finish :: "int \<Rightarrow> nat \<Rightarrow> IndexEntry \<Rightarrow> daemon \<Rightarrow> daemon" where
  "evict_finish device_id i e st =
    (let st1 = gpu_free (e_hnsw_idx e) st;
         st2 = gpu_free (e_ivfpq_handle e) st1;
         e' = e\<lparr>e_hnsw_idx := None, e_ivfpq_handle := None\<rparr>;
         st3 = compact_slots i (set_slot i e' st2)
     in st3\<lparr>g_cache_evictions := bump (nat device_id) (g_cache_evictions st3)\<rparr>)"

definition evict_lru :: "outside \<Rightarrow> int \<Rightarrow> daemon \<Rightarrow> u64 \<times> daemon" where
  "evict_lru out device_id st =
    (case find_lru_index device_id st of
       None \<Rightarrow> (0, st)
     | Some i \<Rightarrow>
        (let e = g_indexes st ! i in
         if is_sharded e then
           (let freed = foldl (\<lambda>t s. if se_valid s \<and> se_gpu_device_id s = dev_word device_id
                  then t + se_vram_bytes s else t) 0 (shard_list e);
                (e1, st1) = free_delta_cache e st;
                (e2, st2) = free_main_bf_cache e1 st1;
                (e3, st3) = free_index_shards e2 st2
            in (freed, evict_finish device_id i (e3\<lparr>e_rev_tids := None, e_rev_item_ids := None\<rparr>) st3))
         else if e_ivfpq_handle e \<noteq> None then
           (let (e1, st1) = free_delta_cache e st;
                (e2, st2) = free_main_bf_cache e1 st1
            in (e_vram_bytes e2,
                evict_finish device_id i (e2\<lparr>e_rev_tids := None, e_rev_item_ids := None\<rparr>) st2))
         else if e_is_flat e then
           (let freed = e_main_bf_vram_bytes e;
                (e1, st1) = free_delta_cache e st;
                (e2, st2) = free_main_bf_cache e1 st1
            in (freed, evict_finish device_id i (e2\<lparr>e_rev_tids := None, e_rev_item_ids := None\<rparr>) st2))
         else
           (let (rc, st0) = save_index out e st in
            if rc \<noteq> 0
            then (0, st0\<lparr>g_cache_persist_fail := bump (nat device_id) (g_cache_persist_fail st0)\<rparr>)
            else
              (let (e1, st1) = free_delta_cache e st0;
                   (e2, st2) = free_main_bf_cache e1 st1;
                   st3 = gpu_free (e_handle e2) st2
               in (e_vram_bytes e2,
                   evict_finish device_id i (e2\<lparr>e_rev_tids := None, e_rev_item_ids := None\<rparr>) st3)))))"

lemmas evict_parts = free_delta_cache_def free_main_bf_cache_def free_index_shards_def

lemma gpu_free_n [simp]: "g_n_indexes (gpu_free h st) = g_n_indexes st"
  and gpu_free_slots [simp]: "g_indexes (gpu_free h st) = g_indexes st"
  by (simp_all add: gpu_free_def split: option.split)

lemma fold_keeps:
  "(\<And>x s. F (f x s) = F s) \<Longrightarrow> F (fold f xs st) = F st"
  by (induction xs arbitrary: st) simp_all

lemma free_shards_n [simp]:
  "g_n_indexes (snd (free_index_shards e st)) = g_n_indexes st"
  "g_indexes (snd (free_index_shards e st)) = g_indexes st"
  by (simp_all add: free_index_shards_def fold_keeps split: option.split)

lemma save_index_keeps [simp]:
  "g_n_indexes (snd (save_index out e st)) = g_n_indexes st"
  "g_indexes (snd (save_index out e st)) = g_indexes st"
  "d_live (snd (save_index out e st)) = d_live st"
  "d_bad_free (snd (save_index out e st)) = d_bad_free st"
  by (auto simp: save_index_def write_tids_atomic_def Let_def split: option.splits prod.splits)

lemma evict_finish_n [simp]:
  "g_n_indexes (evict_finish dev i e st) = g_n_indexes st - 1"
  by (simp add: evict_finish_def Let_def compact_slots_def set_slot_def)

lemma lru_scan_Some:
  assumes "lru_scan dev k None es = Some (i, e)"
  shows "k \<le> i \<and> i - k < length es \<and> e = es ! (i - k) \<and> evictable dev e \<and>
    (\<forall>x \<in> set es. evictable dev x \<longrightarrow> e_last_search e \<le> e_last_search x)"
proof -
  have gen: "lru_scan dev k lru es = Some (i, e) \<Longrightarrow>
      (lru = Some (i, e) \<or> (k \<le> i \<and> i - k < length es \<and> e = es ! (i - k) \<and> evictable dev e)) \<and>
      (\<forall>x \<in> set es. evictable dev x \<longrightarrow> e_last_search e \<le> e_last_search x) \<and>
      (\<forall>j l. lru = Some (j, l) \<longrightarrow> e_last_search e \<le> e_last_search l)" for lru
  proof (induction es arbitrary: k lru)
    case Nil
    then show ?case by simp
  next
    case (Cons x es)
    define lru' where "lru' = (if \<not> evictable dev x then lru
      else (case lru of None \<Rightarrow> Some (k, x)
            | Some (j, l) \<Rightarrow> if e_last_search x < e_last_search l then Some (k, x) else lru))"
    have "lru_scan dev (Suc k) lru' es = Some (i, e)"
      using Cons.prems by (auto simp: lru'_def evictable_def split: if_splits)
    from Cons.IH [OF this]
    have ih: "lru' = Some (i, e) \<or> (Suc k \<le> i \<and> i - Suc k < length es \<and> e = es ! (i - Suc k) \<and> evictable dev e)"
      "\<forall>x \<in> set es. evictable dev x \<longrightarrow> e_last_search e \<le> e_last_search x"
      "\<forall>j l. lru' = Some (j, l) \<longrightarrow> e_last_search e \<le> e_last_search l"
      by blast+
    have a: "lru = Some (i, e) \<or> (k \<le> i \<and> i - k < length (x # es) \<and> e = (x # es) ! (i - k) \<and> evictable dev e)"
      using ih(1)
    proof
      assume "lru' = Some (i, e)"
      then show ?thesis by (auto simp: lru'_def split: if_splits option.splits)
    next
      assume "Suc k \<le> i \<and> i - Suc k < length es \<and> e = es ! (i - Suc k) \<and> evictable dev e"
      then have "(x # es) ! (i - k) = es ! (i - Suc k)"
        by (metis Suc_diff_le Suc_le_eq diff_Suc_Suc nth_Cons_Suc)
      then show ?thesis
        using \<open>Suc k \<le> i \<and> _\<close> by auto
    qed
    have b: "evictable dev x \<longrightarrow> e_last_search e \<le> e_last_search x"
      using ih(3) by (auto simp: lru'_def split: if_splits option.splits)
    have c: "\<forall>j l. lru = Some (j, l) \<longrightarrow> e_last_search e \<le> e_last_search l"
      using ih(3) by (fastforce simp: lru'_def split: if_splits)
    show ?case using a b c ih(2) by simp
  qed
  from gen [OF assms] show ?thesis by auto
qed

lemma find_lru_Some:
  assumes "find_lru_index dev st = Some i" "g_n_indexes st \<le> length (g_indexes st)"
  shows "i < g_n_indexes st \<and> g_indexes st ! i = live_entries st ! i \<and> evictable dev (live_entries st ! i) \<and>
    (\<forall>x \<in> set (live_entries st). evictable dev x \<longrightarrow>
      e_last_search (live_entries st ! i) \<le> e_last_search x)"
proof -
  obtain e where "lru_scan dev 0 None (live_entries st) = Some (i, e)"
    using assms(1) by (auto simp: find_lru_index_def)
  from lru_scan_Some [OF this] assms(2) show ?thesis
    by (auto simp: live_entries_def)
qed

text \<open>
  The four eviction paths share one shape: an optional save, releasing what the entry holds, and the
  common tail.
\<close>

definition plain_cagra :: "IndexEntry \<Rightarrow> bool" where
  "plain_cagra e \<longleftrightarrow> \<not> is_sharded e \<and> e_ivfpq_handle e = None \<and> \<not> e_is_flat e"

definition release_entry :: "IndexEntry \<Rightarrow> daemon \<Rightarrow> IndexEntry \<times> daemon" where
  "release_entry e st =
    (let e1 = fst (free_delta_cache e st); st1 = snd (free_delta_cache e st);
         e2 = fst (free_main_bf_cache e1 st1); st2 = snd (free_main_bf_cache e1 st1);
         r = (if is_sharded e then free_index_shards e2 st2
              else if plain_cagra e then (e2, gpu_free (e_handle e) st2) else (e2, st2))
     in ((fst r)\<lparr>e_rev_tids := None, e_rev_item_ids := None\<rparr>, snd r))"

definition evict_freed :: "int \<Rightarrow> IndexEntry \<Rightarrow> u64" where
  "evict_freed dev e =
    (if is_sharded e
     then foldl (\<lambda>t s. if se_valid s \<and> se_gpu_device_id s = dev_word dev
            then t + se_vram_bytes s else t) 0 (shard_list e)
     else if e_ivfpq_handle e \<noteq> None then e_vram_bytes e
     else if e_is_flat e then e_main_bf_vram_bytes e else e_vram_bytes e)"

lemma evict_lru_eq:
  "evict_lru out dev st =
    (case find_lru_index dev st of
       None \<Rightarrow> (0, st)
     | Some i \<Rightarrow>
        (let e = g_indexes st ! i; st0 = (if plain_cagra e then snd (save_index out e st) else st) in
         if plain_cagra e \<and> fst (save_index out e st) \<noteq> 0
         then (0, st0\<lparr>g_cache_persist_fail := bump (nat dev) (g_cache_persist_fail st0)\<rparr>)
         else (evict_freed dev e, evict_finish dev i (fst (release_entry e st0)) (snd (release_entry e st0)))))"
proof (cases "find_lru_index dev st")
  case None
  then show ?thesis by (simp add: evict_lru_def)
next
  case (Some i)
  let ?e = "g_indexes st ! i"
  show ?thesis
    by (cases "is_sharded ?e"; cases "e_ivfpq_handle ?e"; cases "e_is_flat ?e")
      (simp_all add: Some evict_lru_def evict_freed_def release_entry_def plain_cagra_def
        free_delta_cache_def free_main_bf_cache_def Let_def case_prod_beta)
qed

lemma release_entry_n [simp]:
  "g_n_indexes (snd (release_entry e st)) = g_n_indexes st"
  "g_indexes (snd (release_entry e st)) = g_indexes st"
  by (simp_all add: release_entry_def free_delta_cache_def free_main_bf_cache_def Let_def)

lemma evict_lru_shrinks:
  "fst (evict_lru out dev st) \<noteq> 0
    \<Longrightarrow> g_n_indexes (snd (evict_lru out dev st)) = g_n_indexes st - 1"
  by (auto simp: evict_lru_eq Let_def split: option.splits if_splits)

section \<open>Making room\<close>

text \<open>
  The two loops of \<open>ensure_vram\<close>. Both stop as soon as an eviction reports 0 bytes, so each
  round either ends the loop or shrinks the registry.
\<close>

function evict_to_budget :: "outside \<Rightarrow> u64 \<Rightarrow> u64 \<Rightarrow> int \<Rightarrow> daemon \<Rightarrow> daemon" where
  "evict_to_budget out needed budget device_id st =
    (if 0 < g_n_indexes st \<and> total_vram_used device_id st + needed > budget
     then let (freed, st') = evict_lru out device_id st in
       if freed = 0 then st' else evict_to_budget out needed budget device_id st'
     else st)"
  by pat_completeness auto
termination
  by (relation "measure (\<lambda>(out, needed, budget, device_id, st). g_n_indexes st)")
    (auto, metis diff_less evict_lru_shrinks fst_conv snd_conv zero_less_one)

function evict_to_free :: "outside \<Rightarrow> u64 \<Rightarrow> int \<Rightarrow> u64 \<Rightarrow> daemon \<Rightarrow> u64 \<times> daemon" where
  "evict_to_free out needed device_id free_vram st =
    (if 0 < g_n_indexes st \<and> needed > free_vram
     then let (freed, st') = evict_lru out device_id st in
       if freed = 0 then (free_vram, st')
       else evict_to_free out needed device_id (gpu_free_vram_bytes out device_id st') st'
     else (free_vram, st))"
  by pat_completeness auto
termination
  by (relation "measure (\<lambda>(out, needed, device_id, free_vram, st). g_n_indexes st)")
    (auto, metis diff_less evict_lru_shrinks fst_conv snd_conv zero_less_one)

declare evict_to_budget.simps [simp del] evict_to_free.simps [simp del]

definition ensure_vram :: "outside \<Rightarrow> u64 \<Rightarrow> int \<Rightarrow> daemon \<Rightarrow> int \<times> daemon" where
  "ensure_vram out needed device_id st =
    (let budget = g_max_vram_per_gpu st ! nat device_id;
         over = (0 < budget \<and> total_vram_used device_id st + needed > budget);
         st1 = (if over then evict_to_budget out needed budget device_id st else st)
     in if over \<and> total_vram_used device_id st1 + needed > budget then (-1, st1)
        else let free_vram = gpu_free_vram_bytes out device_id st1;
                 (free', st2) = evict_to_free out needed device_id free_vram st1
             in (if needed \<le> free' then 0 else -1, st2))"

section \<open>Lookup and counters\<close>

definition entry_is :: "u32 \<Rightarrow> u32 \<Rightarrow> IndexEntry \<Rightarrow> bool" where
  "entry_is db_oid index_oid e \<longleftrightarrow> e_valid e \<and> e_db_oid e = db_oid \<and> e_index_oid e = index_oid"

primrec slot_of :: "('a \<Rightarrow> bool) \<Rightarrow> 'a list \<Rightarrow> nat option" where
  "slot_of P [] = None"
| "slot_of P (x # xs) = (if P x then Some 0 else map_option Suc (slot_of P xs))"

definition find_index :: "u32 \<Rightarrow> u32 \<Rightarrow> daemon \<Rightarrow> nat option" where
  "find_index db_oid index_oid st = slot_of (entry_is db_oid index_oid) (live_entries st)"

definition cache_counter_bump :: "u64 list \<Rightarrow> IndexEntry \<Rightarrow> u64 list" where
  "cache_counter_bump counters e =
    (if is_sharded e
     then foldl (\<lambda>c s. if unat (se_gpu_device_id s) < CUVS_MAX_GPUS
                       then bump (unat (se_gpu_device_id s)) c else c) counters (shard_list e)
     else if unat (e_gpu_device_id e) < CUVS_MAX_GPUS
     then bump (unat (e_gpu_device_id e)) counters else counters)"

section \<open>Staleness and dropping\<close>

text \<open>
  \<open>handle_mark_stale\<close>: the flag in memory and the marker file, which \<open>open\<close> creates
  empty or leaves as it is; \<open>can_open\<close> is whether that succeeds.
\<close>

definition handle_mark_stale :: "bool \<Rightarrow> u32 \<Rightarrow> u32 \<Rightarrow> daemon \<Rightarrow> u32 \<times> daemon" where
  "handle_mark_stale can_open db_oid index_oid st =
    (let st1 = (case find_index db_oid index_oid st of
           None \<Rightarrow> st
         | Some i \<Rightarrow>
             (let e = g_indexes st ! i in
              if e_stale e then st
              else set_slot i (e\<lparr>e_stale := True, e_stale_since := d_now st\<rparr>) st));
         key = (db_oid, index_oid, F_stale);
         st2 = (if can_open \<and> d_files st1 key = None
           then st1\<lparr>d_files := (d_files st1)(key \<mapsto> []), d_mtime := (d_mtime st1)(key := d_now st1)\<rparr>
           else st1)
     in (0, st2))"

text \<open>Unlinking shard artifacts stops at the first id that has none.\<close>

primrec unlink_shards :: "u32 \<Rightarrow> u32 \<Rightarrow> nat \<Rightarrow> nat \<Rightarrow> (fkey \<rightharpoonup> bytes) \<Rightarrow> (fkey \<rightharpoonup> bytes)" where
  "unlink_shards db idx s 0 fs = fs"
| "unlink_shards db idx s (Suc n) fs =
     (if fs (db, idx, F_shard s) = None then fs
      else unlink_shards db idx (Suc s) n (fs((db, idx, F_shard s) := None)))"

definition drop_entry :: "nat \<Rightarrow> daemon \<Rightarrow> daemon" where
  "drop_entry i st =
    (let e = g_indexes st ! i;
         (e1, st1) = free_delta_cache e st;
         (e2, st2) = free_main_bf_cache e1 st1;
         (e3, st3) = (if is_sharded e2 then free_index_shards e2 st2 else (e2, gpu_free (e_handle e2) st2));
         e4 = e3\<lparr>e_rev_tids := None, e_rev_item_ids := None\<rparr>
     in compact_slots i (set_slot i e4 st3))"

definition drop_resident :: "u32 \<Rightarrow> u32 \<Rightarrow> daemon \<Rightarrow> daemon" where
  "drop_resident db idx st = (case find_index db idx st of None \<Rightarrow> st | Some i \<Rightarrow> drop_entry i st)"

definition handle_drop :: "u32 \<Rightarrow> u32 \<Rightarrow> daemon \<Rightarrow> u32 \<times> daemon" where
  "handle_drop db idx st =
    (let st1 = drop_resident db idx st;
         cold = g_cold_indexes st1;
         st2 = (case slot_of (\<lambda>c. c_valid c \<and> c_db_oid c = db \<and> c_index_oid c = idx) cold of
             None \<Rightarrow> st1
           | Some i \<Rightarrow> st1\<lparr>g_cold_indexes := take i cold @ drop (Suc i) cold\<rparr>);
         fs = (d_files st2)((db, idx, F_cagra) := None, (db, idx, F_tids) := None,
           (db, idx, F_shards) := None, (db, idx, F_delta) := None, (db, idx, F_vectors) := None,
           (db, idx, F_stale) := None, (db, idx, F_relfilenode) := None,
           (db, idx, F_tombstone) := None)
     in (0, st2\<lparr>d_files := unlink_shards db idx 0 CUVS_SHARDS_MAX fs\<rparr>))"

end
