(* ===== verification/Registry_Inv.thy ===== *)
theory Registry_Inv
  imports Evict
begin

text \<open>
  The registry invariant and what eviction, making room and dropping do to it. \<open>owned\<close>:
  the allocated handles are exactly those held by the entries in use, each held once; nothing was
  freed that was not allocated.
\<close>

section \<open>Handles\<close>

definition opt_list :: "'a option \<Rightarrow> 'a list" where
  "opt_list x = (case x of None \<Rightarrow> [] | Some y \<Rightarrow> [y])"

lemma opt_list_simps [simp]: "opt_list None = []" "opt_list (Some y) = [y]"
  by (simp_all add: opt_list_def)

definition shard_handles :: "ShardEntry \<Rightarrow> handle list" where
  "shard_handles s = (if se_valid s then opt_list (se_handle s) else []) @ opt_list (se_bf_idx s)"

definition entry_handles :: "IndexEntry \<Rightarrow> handle list" where
  "entry_handles e =
     opt_list (e_handle e) @ opt_list (e_ivfpq_handle e) @ opt_list (e_delta_idx e)
     @ opt_list (e_main_bf_idx e) @ opt_list (e_hnsw_idx e)
     @ (if is_sharded e then concat (map shard_handles (shard_list e)) else [])"

definition wf_entry :: "IndexEntry \<Rightarrow> bool" where
  "wf_entry e \<longleftrightarrow> (\<not> plain_cagra e \<longrightarrow> e_handle e = None) \<and> (is_sharded e \<longrightarrow> e_shards e \<noteq> None)"

text \<open>The handles \<open>hs\<close> are held by an operation in progress, not by an entry.\<close>

definition owns :: "handle list \<Rightarrow> daemon \<Rightarrow> bool" where
  "owns hs st \<longleftrightarrow>
     distinct (d_live st) \<and> d_bad_free st = [] \<and> g_n_indexes st \<le> length (g_indexes st) \<and>
     (\<forall>e \<in> set (live_entries st). wf_entry e) \<and>
     mset (concat (map entry_handles (live_entries st))) + mset hs = mset (d_live st)"

abbreviation owned :: "daemon \<Rightarrow> bool" where
  "owned \<equiv> owns []"

definition frees :: "handle list \<Rightarrow> daemon \<Rightarrow> daemon" where
  "frees hs st = fold (\<lambda>h. gpu_free (Some h)) hs st"

lemma gpu_free_frees: "gpu_free ho st = frees (opt_list ho) st"
  by (cases ho) (simp_all add: frees_def gpu_free_def)

lemma frees_append: "frees ys (frees xs st) = frees (xs @ ys) st"
  by (simp add: frees_def)

lemma fold_frees: "fold (\<lambda>x. frees (g x)) xs st = frees (concat (map g xs)) st"
  by (induction xs arbitrary: st) (simp_all add: frees_def)

lemma frees_keeps [simp]:
  "g_n_indexes (frees hs st) = g_n_indexes st" "g_indexes (frees hs st) = g_indexes st"
  by (simp_all add: frees_def fold_keeps)

lemma frees_ok:
  assumes "mset hs \<subseteq># mset (d_live st)" "distinct (d_live st)"
  shows "mset (d_live (frees hs st)) = mset (d_live st) - mset hs \<and>
    distinct (d_live (frees hs st)) \<and> d_bad_free (frees hs st) = d_bad_free st"
  using assms
proof (induction hs arbitrary: st)
  case Nil
  then show ?case by (simp add: frees_def)
next
  case (Cons h hs)
  let ?st = "gpu_free (Some h) st"
  have "h \<in># mset (d_live st)"
    using Cons.prems(1) by (metis mset_subset_eqD list.set_intros(1) set_mset_mset)
  then have l: "d_live ?st = remove1 h (d_live st)" "d_bad_free ?st = d_bad_free st"
    by (simp_all add: gpu_free_def)
  have "mset hs \<subseteq># mset (d_live ?st)"
    using Cons.prems(1) l(1) by (simp add: insert_subset_eq_iff)
  from Cons.IH [OF this] l Cons.prems(2) show ?case
    by (simp add: frees_def)
qed

section \<open>Removing an entry\<close>

lemma live_compact:
  assumes "i < g_n_indexes st" "g_n_indexes st \<le> length (g_indexes st)"
  shows "live_entries (compact_slots i (set_slot i e st)) = take i (live_entries st) @ drop (Suc i) (live_entries st)"
proof -
  let ?n = "g_n_indexes st" and ?xs = "(g_indexes st)[i := e]"
  have "length (take i ?xs @ drop (Suc i) (take ?n ?xs)) = ?n - 1"
    using assms by simp
  then have "take (?n - 1) (take i ?xs @ drop (Suc i) (take ?n ?xs) @ drop (?n - 1) ?xs)
      = take i ?xs @ drop (Suc i) (take ?n ?xs)"
    by (metis append_assoc append_eq_conv_conj)
  moreover have "take i ?xs = take i (g_indexes st)" "drop (Suc i) (take ?n ?xs) = drop (Suc i) (take ?n (g_indexes st))"
    by (simp_all add: take_update_swap list_update_beyond drop_update_cancel)
  moreover have "take i (g_indexes st) = take i (take ?n (g_indexes st))"
    using assms(1) by (simp add: min_def)
  ultimately show ?thesis
    by (simp add: live_entries_def compact_slots_def set_slot_def Let_def)
qed

lemma shards_fold:
  "fold (\<lambda>s d. gpu_free (se_bf_idx s) (if se_valid s then gpu_free (se_handle s) d else d)) ss st
    = frees (concat (map shard_handles ss)) st"
proof -
  have "(\<lambda>s d. gpu_free (se_bf_idx s) (if se_valid s then gpu_free (se_handle s) d else d))
      = (\<lambda>s. frees (shard_handles s))"
    by (intro ext) (simp add: gpu_free_frees frees_append shard_handles_def)
  then show ?thesis by (simp add: fold_frees)
qed

definition released :: "IndexEntry \<Rightarrow> handle list" where
  "released e = opt_list (e_delta_idx e) @ opt_list (e_main_bf_idx e) @
     (if is_sharded e then concat (map shard_handles (shard_list e)) else opt_list (e_handle e))"

lemma free_index_shards_frees:
  "e_shards e \<noteq> None
    \<Longrightarrow> snd (free_index_shards e st) = frees (concat (map shard_handles (shard_list e))) st"
  by (auto simp: free_index_shards_def shards_fold)

lemma free_index_shards_entry [simp]:
  "e_hnsw_idx (fst (free_index_shards e st)) = e_hnsw_idx e"
  "e_ivfpq_handle (fst (free_index_shards e st)) = e_ivfpq_handle e"
  by (simp_all add: free_index_shards_def split: option.split)

lemma release_entry_frees:
  assumes "wf_entry e"
  shows "snd (release_entry e st) = frees (released e) st"
    and "e_hnsw_idx (fst (release_entry e st)) = e_hnsw_idx e"
    and "e_ivfpq_handle (fst (release_entry e st)) = e_ivfpq_handle e"
proof -
  define e2 where "e2 = fst (free_main_bf_cache (fst (free_delta_cache e st)) (snd (free_delta_cache e st)))"
  define st2 where "st2 = snd (free_main_bf_cache (fst (free_delta_cache e st)) (snd (free_delta_cache e st)))"
  have e2: "shard_list e2 = shard_list e" "e_shards e2 = e_shards e" "e_hnsw_idx e2 = e_hnsw_idx e"
    "e_ivfpq_handle e2 = e_ivfpq_handle e"
    by (simp_all add: e2_def free_delta_cache_def free_main_bf_cache_def shard_list_def)
  have st2: "st2 = frees (opt_list (e_delta_idx e) @ opt_list (e_main_bf_idx e)) st"
    by (simp add: st2_def free_delta_cache_def free_main_bf_cache_def gpu_free_frees frees_append)
  let ?r = "if is_sharded e then free_index_shards e2 st2
    else if plain_cagra e then (e2, gpu_free (e_handle e) st2) else (e2, st2)"
  have rel: "release_entry e st = ((fst ?r)\<lparr>e_rev_tids := None, e_rev_item_ids := None\<rparr>, snd ?r)"
    by (simp add: release_entry_def e2_def st2_def Let_def)
  have np: "\<not> is_sharded e \<Longrightarrow> \<not> plain_cagra e \<Longrightarrow> opt_list (e_handle e) = []"
    using assms by (simp add: wf_entry_def)
  have "snd ?r = frees (if is_sharded e then concat (map shard_handles (shard_list e))
      else opt_list (e_handle e)) st2"
    using assms np e2(1,2) free_index_shards_frees [of e2 st2]
    by (auto simp: wf_entry_def gpu_free_frees frees_def)
  then show "snd (release_entry e st) = frees (released e) st"
    unfolding rel st2 by (simp add: frees_append released_def)
  show "e_hnsw_idx (fst (release_entry e st)) = e_hnsw_idx e"
    "e_ivfpq_handle (fst (release_entry e st)) = e_ivfpq_handle e"
    unfolding rel using e2(3,4) by simp_all
qed

lemma evict_finish_frees:
  "d_live (evict_finish dev i e st) = d_live (frees (opt_list (e_hnsw_idx e) @ opt_list (e_ivfpq_handle e)) st)"
  "d_bad_free (evict_finish dev i e st)
    = d_bad_free (frees (opt_list (e_hnsw_idx e) @ opt_list (e_ivfpq_handle e)) st)"
  by (simp_all add: evict_finish_def Let_def compact_slots_def set_slot_def gpu_free_frees frees_append)

lemma live_evict_finish:
  assumes "i < g_n_indexes st" "g_n_indexes st \<le> length (g_indexes st)"
  shows "live_entries (evict_finish dev i e st) = take i (live_entries st) @ drop (Suc i) (live_entries st)"
proof -
  let ?s = "gpu_free (e_ivfpq_handle e) (gpu_free (e_hnsw_idx e) st)"
  have "live_entries (st\<lparr>g_cache_evictions := c\<rparr>) = live_entries st" for st :: daemon and c
    by (simp add: live_entries_def)
  moreover have "live_entries ?s = live_entries st"
    by (simp add: live_entries_def)
  ultimately show ?thesis
    using live_compact [of i ?s] assms by (simp add: evict_finish_def Let_def)
qed

lemma owned_remove:
  assumes "owns extra st" "i < g_n_indexes st"
    and "live_entries st' = take i (live_entries st) @ drop (Suc i) (live_entries st)"
    and "g_n_indexes st' \<le> length (g_indexes st')"
    and "d_live st' = d_live (frees hs st)" "d_bad_free st' = d_bad_free (frees hs st)"
    and "mset hs = mset (entry_handles (live_entries st ! i))"
  shows "owns extra st'"
proof -
  let ?L = "live_entries st"
  have len: "i < length ?L"
    using assms(1,2) by (simp add: live_entries_def owns_def)
  have split: "?L = take i ?L @ ?L ! i # drop (Suc i) ?L"
    using len by (simp add: id_take_nth_drop)
  have all: "mset (concat (map entry_handles ?L)) + mset extra = mset (d_live st)"
    using assms(1) by (simp add: owns_def)
  have "mset (concat (map entry_handles ?L))
      = mset (concat (map entry_handles (take i ?L))) + (mset (entry_handles (?L ! i))
        + mset (concat (map entry_handles (drop (Suc i) ?L))))"
    by (subst split) simp
  then have eq: "mset (d_live st) = mset hs + (mset (concat (map entry_handles (live_entries st'))) + mset extra)"
    using all assms(3,7) by (simp add: ac_simps)
  then have "mset hs \<subseteq># mset (d_live st)" by simp
  from frees_ok [OF this] assms(1,5,6) eq
  have "distinct (d_live st')" "d_bad_free st' = []"
    "mset (d_live st') = mset (concat (map entry_handles (live_entries st'))) + mset extra"
    by (auto simp: owns_def)
  moreover have "\<forall>e \<in> set (live_entries st'). wf_entry e"
    using assms(1,3) by (auto simp: owns_def dest: in_set_takeD in_set_dropD)
  ultimately show ?thesis
    using assms(4) by (simp add: owns_def)
qed


section \<open>Eviction\<close>

lemma length_compact_slots:
  "i < g_n_indexes st \<Longrightarrow> g_n_indexes st \<le> length (g_indexes st)
    \<Longrightarrow> length (g_indexes (compact_slots i st)) = length (g_indexes st)"
  by (simp add: compact_slots_def Let_def)

lemma length_evict_finish:
  "i < g_n_indexes st \<Longrightarrow> g_n_indexes st \<le> length (g_indexes st)
    \<Longrightarrow> length (g_indexes (evict_finish dev i e st)) = length (g_indexes st)"
  using length_compact_slots [of i "set_slot i x (gpu_free a (gpu_free b st))" for x a b]
  by (simp add: evict_finish_def Let_def set_slot_def)

lemma evict_entry_handles:
  assumes "wf_entry e"
  shows "mset (released e @ opt_list (e_hnsw_idx e) @ opt_list (e_ivfpq_handle e)) = mset (entry_handles e)"
  using assms by (auto simp: released_def entry_handles_def wf_entry_def plain_cagra_def)

text \<open>What one eviction may do to the entries in use.\<close>

definition evicts :: "int \<Rightarrow> IndexEntry list \<Rightarrow> IndexEntry list \<Rightarrow> bool" where
  "evicts dev L L' \<longleftrightarrow> (\<exists>i < length L. L' = take i L @ drop (Suc i) L \<and> evictable dev (L ! i) \<and>
     (\<forall>x \<in> set L. evictable dev x \<longrightarrow> e_last_search (L ! i) \<le> e_last_search x))"

lemma save_index_live [simp]: "live_entries (snd (save_index out e st)) = live_entries st"
  by (simp add: live_entries_def)

lemma owned_cong:
  "owns extra st \<Longrightarrow> d_live st' = d_live st \<Longrightarrow> d_bad_free st' = d_bad_free st
    \<Longrightarrow> g_n_indexes st' = g_n_indexes st \<Longrightarrow> g_indexes st' = g_indexes st \<Longrightarrow> owns extra st'"
  by (simp add: owns_def live_entries_def)

lemma evict_lru_owned:
  assumes "owns extra st"
  shows "owns extra (snd (evict_lru out dev st)) \<and>
    length (g_indexes (snd (evict_lru out dev st))) = length (g_indexes st) \<and>
    (live_entries (snd (evict_lru out dev st)) = live_entries st \<and> fst (evict_lru out dev st) = 0 \<or>
     evicts dev (live_entries st) (live_entries (snd (evict_lru out dev st))))"
proof (cases "find_lru_index dev st")
  case None
  then show ?thesis using assms by (simp add: evict_lru_eq)
next
  case (Some i)
  let ?e = "live_entries st ! i"
  define st0 where "st0 = (if plain_cagra ?e then snd (save_index out ?e st) else st)"
  have ok: "g_n_indexes st \<le> length (g_indexes st)"
    using assms by (simp add: owns_def)
  note f = find_lru_Some [OF Some ok]
  have li: "i < length (live_entries st)"
    using f ok by (simp add: live_entries_def)
  then have wf: "wf_entry ?e"
    using assms nth_mem by (auto simp: owns_def)
  have st0: "g_n_indexes st0 = g_n_indexes st" "g_indexes st0 = g_indexes st" "d_live st0 = d_live st"
    "d_bad_free st0 = d_bad_free st"
    by (simp_all add: st0_def)
  have live0: "live_entries st0 = live_entries st"
    using st0 by (simp add: live_entries_def)
  show ?thesis
  proof (cases "plain_cagra ?e \<and> fst (save_index out ?e st) \<noteq> 0")
    case True
    then have "evict_lru out dev st
        = (0, st0\<lparr>g_cache_persist_fail := bump (nat dev) (g_cache_persist_fail st0)\<rparr>)"
      using Some f by (simp add: evict_lru_eq st0_def Let_def)
    then show ?thesis
      using st0 owned_cong [OF assms] by (simp add: live_entries_def)
  next
    case False
    let ?r = "fst (release_entry ?e st0)" and ?s = "snd (release_entry ?e st0)"
    have ev: "evict_lru out dev st = (evict_freed dev ?e, evict_finish dev i ?r ?s)"
      using Some f False by (auto simp: evict_lru_eq st0_def Let_def)
    let ?st' = "evict_finish dev i ?r ?s"
    have n: "g_n_indexes ?s = g_n_indexes st" "g_indexes ?s = g_indexes st"
      using st0 by simp_all
    have len: "length (g_indexes ?st') = length (g_indexes st)"
      using length_evict_finish [of i ?s dev ?r] n f ok by simp
    have live: "live_entries ?st' = take i (live_entries st) @ drop (Suc i) (live_entries st)"
    proof -
      have "live_entries ?s = live_entries st"
        unfolding live_entries_def [of ?s] n by (rule live_entries_def [symmetric])
      moreover have "i < g_n_indexes ?s" "g_n_indexes ?s \<le> length (g_indexes ?s)"
        using n f ok by simp_all
      ultimately show ?thesis
        using live_evict_finish [of i ?s dev ?r] by simp
    qed
    have fr: "?s = frees (released ?e) st0" "e_hnsw_idx ?r = e_hnsw_idx ?e"
      "e_ivfpq_handle ?r = e_ivfpq_handle ?e"
      using release_entry_frees [OF wf] by simp_all
    let ?hs = "released ?e @ opt_list (e_hnsw_idx ?e) @ opt_list (e_ivfpq_handle ?e)"
    have "owns extra st0"
      using owned_cong [OF assms] st0 by simp
    then have "owns extra ?st'"
    proof (rule owned_remove)
      show "i < g_n_indexes st0" using f st0 by simp
      show "live_entries ?st' = take i (live_entries st0) @ drop (Suc i) (live_entries st0)"
        using live live0 by simp
      show "g_n_indexes ?st' \<le> length (g_indexes ?st')"
        using len n ok by simp
      show "d_live ?st' = d_live (frees ?hs st0)" "d_bad_free ?st' = d_bad_free (frees ?hs st0)"
        using fr by (simp_all add: evict_finish_frees frees_append)
      show "mset ?hs = mset (entry_handles (live_entries st0 ! i))"
        using evict_entry_handles [OF wf] live0 by simp
    qed
    moreover have "evicts dev (live_entries st) (live_entries ?st')"
      unfolding evicts_def using f by (intro exI [of _ i] conjI li live) simp_all
    ultimately show ?thesis
      using ev len by simp
  qed
qed

lemma evict_lru_config [simp]:
  "g_max_vram_per_gpu (snd (evict_lru out dev st)) = g_max_vram_per_gpu st"
  "g_pending_build_vram (snd (evict_lru out dev st)) = g_pending_build_vram st"
  "g_allowed_gpus (snd (evict_lru out dev st)) = g_allowed_gpus st"
  "g_n_gpus (snd (evict_lru out dev st)) = g_n_gpus st"
proof -
  have gf: "g_max_vram_per_gpu (gpu_free h s) = g_max_vram_per_gpu s"
    "g_pending_build_vram (gpu_free h s) = g_pending_build_vram s"
    "g_allowed_gpus (gpu_free h s) = g_allowed_gpus s" "g_n_gpus (gpu_free h s) = g_n_gpus s" for h s
    by (simp_all add: gpu_free_def split: option.split)
  have fs: "g_max_vram_per_gpu (snd (free_index_shards e s)) = g_max_vram_per_gpu s"
    "g_pending_build_vram (snd (free_index_shards e s)) = g_pending_build_vram s"
    "g_allowed_gpus (snd (free_index_shards e s)) = g_allowed_gpus s"
    "g_n_gpus (snd (free_index_shards e s)) = g_n_gpus s" for e s
    by (simp_all add: free_index_shards_def fold_keeps gf split: option.split)
  have sv: "g_max_vram_per_gpu (snd (save_index out e s)) = g_max_vram_per_gpu s"
    "g_pending_build_vram (snd (save_index out e s)) = g_pending_build_vram s"
    "g_allowed_gpus (snd (save_index out e s)) = g_allowed_gpus s"
    "g_n_gpus (snd (save_index out e s)) = g_n_gpus s" for e s
    by (auto simp: save_index_def write_tids_atomic_def Let_def split: option.splits prod.splits)
  have rl: "g_max_vram_per_gpu (snd (release_entry e s)) = g_max_vram_per_gpu s"
    "g_pending_build_vram (snd (release_entry e s)) = g_pending_build_vram s"
    "g_allowed_gpus (snd (release_entry e s)) = g_allowed_gpus s"
    "g_n_gpus (snd (release_entry e s)) = g_n_gpus s" for e s
    by (simp_all add: release_entry_def free_delta_cache_def free_main_bf_cache_def Let_def gf fs)
  show "g_max_vram_per_gpu (snd (evict_lru out dev st)) = g_max_vram_per_gpu st"
    "g_pending_build_vram (snd (evict_lru out dev st)) = g_pending_build_vram st"
    "g_allowed_gpus (snd (evict_lru out dev st)) = g_allowed_gpus st"
    "g_n_gpus (snd (evict_lru out dev st)) = g_n_gpus st"
    by (simp_all add: evict_lru_eq evict_finish_def compact_slots_def set_slot_def Let_def gf sv rl
        split: option.split)
qed

end
