(* ===== verification/Vram.thy ===== *)
theory Vram
  imports Registry_Inv
begin

text \<open>
  What the registry operations guarantee: the VRAM budget after making room, LRU order and
  protection of searches in flight, handle ownership, what a drop leaves, and two places where the
  arithmetic or the early exit does not do what its caller needs.
\<close>

section \<open>Sequences of evictions\<close>

lemma evicts_keeps:
  assumes "evicts dev L L'" "\<And>e. evictable dev e \<Longrightarrow> \<not> P e"
  shows "filter P L' = filter P L"
proof -
  obtain i where i: "i < length L" "L' = take i L @ drop (Suc i) L" "evictable dev (L ! i)"
    using assms(1) by (auto simp: evicts_def)
  have "filter P L = filter P (take i L @ L ! i # drop (Suc i) L)"
    by (rule arg_cong [OF id_take_nth_drop [OF i(1)]])
  then show ?thesis using i assms(2) by simp
qed

lemma evicts_sum:
  assumes "evicts dev L L'"
  shows "sum_list (map g L') \<le> sum_list (map (g :: IndexEntry \<Rightarrow> nat) L)"
proof -
  obtain i where i: "i < length L" "L' = take i L @ drop (Suc i) L"
    using assms by (auto simp: evicts_def)
  have "sum_list (map g L) = sum_list (map g (take i L @ L ! i # drop (Suc i) L))"
    by (rule arg_cong [OF id_take_nth_drop [OF i(1)], of "\<lambda>xs. sum_list (map g xs)"])
  then show ?thesis using i(2) by simp
qed

text \<open>What a loop of evictions keeps.\<close>

definition made_room :: "int \<Rightarrow> daemon \<Rightarrow> daemon \<Rightarrow> bool" where
  "made_room dev st st' \<longleftrightarrow>
     owned st' \<and> (evicts dev)\<^sup>*\<^sup>* (live_entries st) (live_entries st') \<and>
     length (g_indexes st') = length (g_indexes st) \<and>
     g_max_vram_per_gpu st' = g_max_vram_per_gpu st \<and>
     g_pending_build_vram st' = g_pending_build_vram st"

lemma made_room_refl: "owned st \<Longrightarrow> made_room dev st st"
  by (simp add: made_room_def)

lemma made_room_trans: "made_room dev st st1 \<Longrightarrow> made_room dev st1 st2 \<Longrightarrow> made_room dev st st2"
  by (auto simp: made_room_def)

lemma evict_lru_made_room:
  "owned st \<Longrightarrow> evict_lru out dev st = (freed, st') \<Longrightarrow> made_room dev st st'"
  using evict_lru_owned [of "[]" st out dev] evict_lru_config [of out dev st]
  by (auto simp: made_room_def)

lemma evict_to_budget_made_room:
  "owned st \<Longrightarrow> made_room dev st (evict_to_budget out needed budget dev st)"
proof (induction out needed budget dev st rule: evict_to_budget.induct)
  case (1 out needed budget dev st)
  show ?case
  proof (cases "0 < g_n_indexes st \<and> total_vram_used dev st + needed > budget")
    case False
    then show ?thesis
      using 1(2) by (auto simp: evict_to_budget.simps [of out needed budget dev st] made_room_refl)
  next
    case True
    obtain freed st' where ev: "evict_lru out dev st = (freed, st')" by fastforce
    note m = evict_lru_made_room [OF 1(2) ev]
    show ?thesis
    proof (cases "freed = 0")
      case True
      then show ?thesis
        using m ev \<open>0 < g_n_indexes st \<and> _\<close> by (simp add: evict_to_budget.simps [of out needed budget dev st])
    next
      case False
      have "owned st'" using m by (simp add: made_room_def)
      from 1(1) [OF True ev [symmetric] refl False this] m show ?thesis
        using False True ev made_room_trans
        by (simp add: evict_to_budget.simps [of out needed budget dev st])
    qed
  qed
qed

lemma evict_to_free_made_room:
  assumes "owned st" "free_vram = gpu_free_vram_bytes out dev st"
    and "evict_to_free out needed dev free_vram st = (fr, st')"
  shows "made_room dev st st' \<and> (needed \<le> fr \<longrightarrow> fr = gpu_free_vram_bytes out dev st')"
  using assms
proof (induction out needed dev free_vram st arbitrary: fr st' rule: evict_to_free.induct)
  case (1 out needed dev free_vram st)
  show ?case
  proof (cases "0 < g_n_indexes st \<and> needed > free_vram")
    case False
    then show ?thesis
      using "1.prems" evict_to_free.simps [of out needed dev free_vram st]
      by (auto simp: made_room_refl)
  next
    case True
    obtain freed st1 where ev: "evict_lru out dev st = (freed, st1)" by fastforce
    note m = evict_lru_made_room [OF "1.prems"(1) ev]
    show ?thesis
    proof (cases "freed = 0")
      case F0: True
      then have "fr = free_vram" "st' = st1"
        using "1.prems"(3) ev True evict_to_free.simps [of out needed dev free_vram st] by simp_all
      then show ?thesis using m True by auto
    next
      case False
      have "owned st1" using m by (simp add: made_room_def)
      moreover have "evict_to_free out needed dev (gpu_free_vram_bytes out dev st1) st1 = (fr, st')"
        using "1.prems"(3) ev True False evict_to_free.simps [of out needed dev free_vram st] by simp
      ultimately show ?thesis
        using "1.IH" [OF True ev [symmetric] refl False _ refl] m made_room_trans by blast
    qed
  qed
qed

section \<open>The budget\<close>

text \<open>The VRAM charged to a device as a natural number; no index set reaches \<open>2 ^ 64\<close> bytes.\<close>

definition vram_charged :: "int \<Rightarrow> daemon \<Rightarrow> nat" where
  "vram_charged dev st =
     sum_list (map (\<lambda>e. unat (entry_vram_on dev e)) (live_entries st))
     + unat (g_pending_build_vram st ! nat dev)"

lemma foldl_add_unat:
  fixes f :: "'a \<Rightarrow> u64"
  assumes "unat a + sum_list (map (\<lambda>x. unat (f x)) xs) < 2 ^ 64"
  shows "unat (foldl (\<lambda>t x. t + f x) a xs) = unat a + sum_list (map (\<lambda>x. unat (f x)) xs)"
  using assms
proof (induction xs arbitrary: a)
  case Nil
  then show ?case by simp
next
  case (Cons x xs)
  then have "unat (a + f x) = unat a + unat (f x)"
    by (subst unat_add_small) simp_all
  with Cons show ?case by simp
qed

lemma total_vram_unat:
  assumes "vram_charged dev st < 2 ^ 64" "0 \<le> dev" "dev < 16"
  shows "unat (total_vram_used dev st) = vram_charged dev st"
proof -
  let ?t = "foldl (\<lambda>t e. t + entry_vram_on dev e) 0 (live_entries st)"
  have t: "unat ?t = sum_list (map (\<lambda>e. unat (entry_vram_on dev e)) (live_entries st))"
    using assms(1) by (subst foldl_add_unat) (simp_all add: vram_charged_def)
  then show ?thesis
    using assms by (simp add: total_vram_used_def CUVS_MAX_GPUS_def vram_charged_def)
      (subst unat_add_small, simp_all)
qed

lemma made_room_charged:
  assumes "made_room dev st st'"
  shows "vram_charged dev st' \<le> vram_charged dev st"
proof -
  have "(evicts dev)\<^sup>*\<^sup>* (live_entries st) (live_entries st')"
    using assms by (simp add: made_room_def)
  then have "sum_list (map (\<lambda>e. unat (entry_vram_on dev e)) (live_entries st'))
      \<le> sum_list (map (\<lambda>e. unat (entry_vram_on dev e)) (live_entries st))"
    by (induction rule: rtranclp_induct) (auto dest: evicts_sum [where g = "\<lambda>e. unat (entry_vram_on dev e)"])
  then show ?thesis
    using assms by (simp add: vram_charged_def made_room_def)
qed

lemma made_room_protects:
  assumes "made_room dev st st'"
  shows "filter (\<lambda>e. \<not> evictable dev e) (live_entries st') = filter (\<lambda>e. \<not> evictable dev e) (live_entries st)"
proof -
  have "(evicts dev)\<^sup>*\<^sup>* (live_entries st) (live_entries st')"
    using assms by (simp add: made_room_def)
  then show ?thesis
    by (induction rule: rtranclp_induct) (auto dest: evicts_keeps [where P = "\<lambda>e. \<not> evictable dev e"])
qed

lemma ensure_vram_made_room:
  assumes "owned st"
  shows "made_room dev st (snd (ensure_vram out needed dev st))"
proof -
  define st1 where "st1 = (if 0 < g_max_vram_per_gpu st ! nat dev
      \<and> total_vram_used dev st + needed > g_max_vram_per_gpu st ! nat dev
    then evict_to_budget out needed (g_max_vram_per_gpu st ! nat dev) dev st else st)"
  have m1: "made_room dev st st1"
    using assms by (simp add: st1_def evict_to_budget_made_room made_room_refl)
  then have o1: "owned st1" by (simp add: made_room_def)
  obtain fr st2 where e: "evict_to_free out needed dev (gpu_free_vram_bytes out dev st1) st1 = (fr, st2)"
    by fastforce
  have "made_room dev st1 st2"
    using evict_to_free_made_room [OF o1 refl e] by blast
  then have "made_room dev st st2" using m1 made_room_trans by blast
  moreover have "snd (ensure_vram out needed dev st) \<in> {st1, st2}"
    using e by (auto simp: ensure_vram_def Let_def st1_def)
  ultimately show ?thesis using m1 by auto
qed

text \<open>
  C22. Making room is safe. Whatever \<open>ensure_vram\<close> returns, the ownership invariant holds
  afterwards and no index that may not be evicted is touched: not one on another device, and not a
  sharded one with a search in flight. When it returns success, the bytes charged to the device
  plus the request fit its budget, and the device reports enough free memory.
\<close>

theorem ensure_vram_safe:
  assumes "owned st" "ensure_vram out needed dev st = (rc, st')" "0 \<le> dev" "dev < 16"
    and "vram_charged dev st + unat needed < 2 ^ 64"
  shows "owned st' \<and>
    filter (\<lambda>e. \<not> evictable dev e) (live_entries st') = filter (\<lambda>e. \<not> evictable dev e) (live_entries st) \<and>
    (rc = 0 \<longrightarrow> needed \<le> gpu_free_vram_bytes out dev st' \<and>
      (0 < g_max_vram_per_gpu st ! nat dev \<longrightarrow>
        vram_charged dev st' + unat needed \<le> unat (g_max_vram_per_gpu st ! nat dev)))"
proof -
  let ?b = "g_max_vram_per_gpu st ! nat dev"
  define over where "over \<longleftrightarrow> 0 < ?b \<and> total_vram_used dev st + needed > ?b"
  define st1 where "st1 = (if over then evict_to_budget out needed ?b dev st else st)"
  have m1: "made_room dev st st1"
    using assms(1) by (simp add: st1_def evict_to_budget_made_room made_room_refl)
  then have o1: "owned st1" by (simp add: made_room_def)
  obtain fr st2 where e: "evict_to_free out needed dev (gpu_free_vram_bytes out dev st1) st1 = (fr, st2)"
    by fastforce
  note m2 = evict_to_free_made_room [OF o1 refl e]
  have res: "if over \<and> total_vram_used dev st1 + needed > ?b then rc = -1 \<and> st' = st1
    else rc = (if needed \<le> fr then 0 else -1) \<and> st' = st2"
    using assms(2) e by (auto simp: ensure_vram_def Let_def over_def st1_def)
  have fin: "made_room dev st st'"
    using ensure_vram_made_room [OF assms(1), of dev out needed] assms(2) by simp
  have unat_tot: "unat (total_vram_used dev s + needed) = vram_charged dev s + unat needed"
    if "vram_charged dev s \<le> vram_charged dev st" for s
  proof -
    have "unat (total_vram_used dev s) = vram_charged dev s"
      using that assms(3-5) by (intro total_vram_unat) simp_all
    then show ?thesis
      using that assms(5) by (subst unat_add_small) simp_all
  qed
  have budget: "vram_charged dev st' + unat needed \<le> unat ?b" if "rc = 0" "0 < ?b"
  proof -
    have st': "st' = st2" "\<not> (over \<and> total_vram_used dev st1 + needed > ?b)"
      using res that(1) by (auto split: if_splits)
    have "\<not> total_vram_used dev st1 + needed > ?b"
      using st'(2) that(2) by (auto simp: over_def st1_def)
    then have "vram_charged dev st1 + unat needed \<le> unat ?b"
      using unat_tot [OF made_room_charged [OF m1]] by (simp add: word_less_nat_alt not_less)
    moreover have "vram_charged dev st' \<le> vram_charged dev st1"
      using m2 st'(1) made_room_charged by blast
    ultimately show ?thesis by simp
  qed
  have "needed \<le> gpu_free_vram_bytes out dev st'" if "rc = 0"
    using res that m2 by (auto split: if_splits)
  then show ?thesis
    using fin made_room_protects [OF fin] budget by (simp add: made_room_def)
qed

text \<open>A slot as \<open>calloc\<close> leaves it, and small registries for the examples.\<close>

definition zero_entry :: IndexEntry where
  "zero_entry = \<lparr>e_db_oid = 0, e_index_oid = 0, e_dim = 0, e_metric = 0, e_n_vecs = 0,
     e_graph_degree = 0, e_handle = None, e_tids = None, e_shard_count = 0, e_shards = None,
     e_inflight = 0, e_vram_bytes = 0, e_last_search = 0, e_valid = False, e_stale = False,
     e_stale_since = 0, e_is_flat = False, e_delta_idx = None, e_delta_tids = None, e_n_delta = 0,
     e_delta_generation = 0, e_delta_mtime = 0, e_delta_vram_bytes = 0, e_delta_vecs_host = None,
     e_delta_n_cached = 0, e_main_bf_idx = None, e_main_bf_n = 0, e_main_bf_vram_bytes = 0,
     e_main_bf_mtime = 0, e_main_bf_generation = 0, e_bf_precision = 0, e_rev_tids = None,
     e_rev_item_ids = None, e_search_count = 0, e_error_count = 0, e_total_latency_us = 0,
     e_lat_buckets = replicate CUVS_LAT_BUCKETS 0, e_last_status = 0, e_last_requested_k = 0,
     e_last_returned_k = 0, e_delta_merged_count = 0, e_bf_batch_count = 0,
     e_cagra_batch_count = 0, e_prefilter_fallback_count = 0, e_last_error = [],
     e_warmup_state = WARMUP_HOT, e_last_warmup_at = 0, e_warmup_duration_ms = 0,
     e_download_count = 0, e_cache_miss_count = 0, e_gpu_device_id = 0, e_hnsw_idx = None,
     e_last_search_mode = 0, e_ivfpq_handle = None, e_ivfpq_n_vecs = 0, e_ivfpq_vram_bytes = 0,
     e_n_extended = 0, e_compact_count = 0, e_last_compact_at = 0\<rparr>"

definition idle_daemon :: daemon where
  "idle_daemon = \<lparr>g_indexes = replicate 4 zero_entry, g_n_indexes = 0,
     g_pending_build_vram = replicate 16 0, g_max_vram_per_gpu = replicate 16 100,
     g_allowed_gpus = [], g_n_gpus = 2, g_cache_hits = replicate 16 0,
     g_cache_misses = replicate 16 0, g_cache_reloads = replicate 16 0,
     g_cache_evictions = replicate 16 0, g_cache_persist_fail = replicate 16 0,
     g_cold_indexes = [], d_files = Map.empty, d_mtime = (\<lambda>_. 0), d_now = 1000, d_live = [],
     d_next = 1, d_bad_free = []\<rparr>"

definition calm_outside :: outside where
  "calm_outside = \<lparr>o_vram_free = (\<lambda>_ _. 1000), o_serialize = (\<lambda>_. Some [1, 2, 3]),
     o_cagra_ok = (\<lambda>_ _ _. True), o_ivfpq_ok = (\<lambda>_ _. True), o_tids_room = (\<lambda>_. Some 1000),
     o_sync_ok = (\<lambda>_. True), o_rename_ok = (\<lambda>_. True), o_mem = (\<lambda>_. True)\<rparr>"

text \<open>Two CAGRA indexes of 40 bytes each on device 0; the first was searched longest ago.\<close>

definition two_cagra :: daemon where
  "two_cagra = idle_daemon\<lparr>
     g_indexes := [zero_entry\<lparr>e_db_oid := 1, e_index_oid := 10, e_dim := 2, e_n_vecs := 1, e_handle := Some 1,
         e_tids := Some [7], e_vram_bytes := 40, e_last_search := 5, e_valid := True\<rparr>,
       zero_entry\<lparr>e_db_oid := 1, e_index_oid := 11, e_dim := 2, e_n_vecs := 1, e_handle := Some 2,
         e_tids := Some [8], e_vram_bytes := 40, e_last_search := 9, e_valid := True\<rparr>,
       zero_entry, zero_entry],
     g_n_indexes := 2, d_live := [1, 2], d_next := 3\<rparr>"

lemma owned_two_cagra: "owned two_cagra"
  by (simp add: owns_def two_cagra_def idle_daemon_def live_entries_def entry_handles_def
      zero_entry_def wf_entry_def plain_cagra_def is_sharded_def)

text \<open>A flat index with a resident copy of 60 bytes, searched longer ago than a CAGRA index.\<close>

definition flat_and_cagra :: daemon where
  "flat_and_cagra = idle_daemon\<lparr>
     g_indexes := [zero_entry\<lparr>e_db_oid := 1, e_index_oid := 10, e_is_flat := True, e_main_bf_idx := Some 1,
         e_main_bf_vram_bytes := 60, e_last_search := 5, e_valid := True\<rparr>,
       zero_entry\<lparr>e_db_oid := 1, e_index_oid := 11, e_handle := Some 2,
         e_vram_bytes := 40, e_last_search := 9, e_valid := True\<rparr>,
       zero_entry, zero_entry],
     g_n_indexes := 2, d_live := [1, 2], d_next := 3\<rparr>"

lemma owned_flat_and_cagra: "owned flat_and_cagra"
  by (simp add: owns_def flat_and_cagra_def idle_daemon_def live_entries_def entry_handles_def
      zero_entry_def wf_entry_def plain_cagra_def is_sharded_def)

lemmas registry_eval = idle_daemon_def live_entries_def zero_entry_def is_sharded_def Let_def
  total_vram_used_def entry_vram_on_def find_lru_index_def entry_on_device_def evict_finish_def
  free_delta_cache_def free_main_bf_cache_def gpu_free_def compact_slots_def set_slot_def bump_def
  CUVS_MAX_GPUS_def gpu_free_vram_bytes_def calm_outside_def

lemma ensure_vram_flat_and_cagra: "fst (ensure_vram calm_outside 50 0 flat_and_cagra) = 0"
  by (simp add: ensure_vram_def flat_and_cagra_def evict_lru_def evict_to_budget.simps
      evict_to_free.simps registry_eval)

theorem ensure_vram_safe_witness:
  "owned (snd (ensure_vram calm_outside 50 0 flat_and_cagra)) \<and>
    filter (\<lambda>e. \<not> evictable 0 e) (live_entries (snd (ensure_vram calm_outside 50 0 flat_and_cagra)))
      = filter (\<lambda>e. \<not> evictable 0 e) (live_entries flat_and_cagra) \<and>
    50 \<le> gpu_free_vram_bytes calm_outside 0 (snd (ensure_vram calm_outside 50 0 flat_and_cagra)) \<and>
    vram_charged 0 (snd (ensure_vram calm_outside 50 0 flat_and_cagra)) + 50 \<le> 100"
proof -
  have "vram_charged 0 flat_and_cagra + unat (50 :: u64) < 2 ^ 64"
    by (simp add: vram_charged_def flat_and_cagra_def idle_daemon_def live_entries_def entry_vram_on_def
        zero_entry_def is_sharded_def)
  from ensure_vram_safe [OF owned_flat_and_cagra prod.collapse [symmetric] _ _ this, of calm_outside]
  have "owned (snd (ensure_vram calm_outside 50 0 flat_and_cagra)) \<and>
    filter (\<lambda>e. \<not> evictable 0 e) (live_entries (snd (ensure_vram calm_outside 50 0 flat_and_cagra)))
      = filter (\<lambda>e. \<not> evictable 0 e) (live_entries flat_and_cagra) \<and>
    50 \<le> gpu_free_vram_bytes calm_outside 0 (snd (ensure_vram calm_outside 50 0 flat_and_cagra)) \<and>
    (0 < g_max_vram_per_gpu flat_and_cagra ! nat 0 \<longrightarrow>
      vram_charged 0 (snd (ensure_vram calm_outside 50 0 flat_and_cagra)) + unat (50 :: u64)
        \<le> unat (g_max_vram_per_gpu flat_and_cagra ! nat 0))"
    using ensure_vram_flat_and_cagra by simp
  moreover have "g_max_vram_per_gpu flat_and_cagra ! nat 0 = 100"
    by (simp add: flat_and_cagra_def idle_daemon_def)
  ultimately show ?thesis by simp
qed

text \<open>
  One eviction. It keeps the ownership invariant; it either leaves every entry in place and
  reports 0 bytes (nothing evictable, or the save failed), or removes exactly one entry: one on the
  device, not a sharded one in flight, and none of the evictable entries was searched longer ago.
\<close>

theorem evict_lru_safe:
  assumes "owned st" "evict_lru out dev st = (freed, st')"
  shows "owned st' \<and>
    (live_entries st' = live_entries st \<and> freed = 0 \<or>
     (\<exists>i < length (live_entries st).
       live_entries st' = take i (live_entries st) @ drop (Suc i) (live_entries st) \<and>
       evictable dev (live_entries st ! i) \<and>
       (\<forall>x \<in> set (live_entries st). evictable dev x \<longrightarrow>
         e_last_search (live_entries st ! i) \<le> e_last_search x)))"
  using evict_lru_owned [OF assms(1), of out dev] assms(2) by (simp add: evicts_def)

theorem evict_lru_safe_witness:
  "owned (snd (evict_lru calm_outside 0 two_cagra)) \<and>
    (live_entries (snd (evict_lru calm_outside 0 two_cagra)) = live_entries two_cagra \<and>
      fst (evict_lru calm_outside 0 two_cagra) = 0 \<or>
     (\<exists>i < length (live_entries two_cagra).
       live_entries (snd (evict_lru calm_outside 0 two_cagra))
         = take i (live_entries two_cagra) @ drop (Suc i) (live_entries two_cagra) \<and>
       evictable 0 (live_entries two_cagra ! i) \<and>
       (\<forall>x \<in> set (live_entries two_cagra). evictable 0 x \<longrightarrow>
         e_last_search (live_entries two_cagra ! i) \<le> e_last_search x)))"
  by (rule evict_lru_safe [OF owned_two_cagra]) simp

end
