(* ===== verification/Drop.thy ===== *)
theory Drop
  imports Vram
begin

text \<open>
  Dropping an index (\<open>handle_drop\<close>) and marking it stale (\<open>handle_mark_stale\<close>):
  what is left of it in the registry, on the GPU and on disk.
\<close>

section \<open>Dropping an index\<close>

lemma drop_entry_eq:
  fixes st :: daemon and i :: nat
  defines "e \<equiv> g_indexes st ! i"
  defines "e2 \<equiv> fst (free_main_bf_cache (fst (free_delta_cache e st)) (snd (free_delta_cache e st)))"
    and "st2 \<equiv> snd (free_main_bf_cache (fst (free_delta_cache e st)) (snd (free_delta_cache e st)))"
  defines "r \<equiv> (if is_sharded e2 then free_index_shards e2 st2 else (e2, gpu_free (e_handle e2) st2))"
  shows "drop_entry i st = compact_slots i (set_slot i ((fst r)\<lparr>e_rev_tids := None, e_rev_item_ids := None\<rparr>) (snd r))"
    and "g_n_indexes (snd r) = g_n_indexes st" "g_indexes (snd r) = g_indexes st"
    and "d_files (snd r) = d_files st"
    and "wf_entry e \<Longrightarrow> snd r = frees (released e) st"
proof -
  show "drop_entry i st = compact_slots i (set_slot i ((fst r)\<lparr>e_rev_tids := None, e_rev_item_ids := None\<rparr>) (snd r))"
    by (simp add: drop_entry_def e_def e2_def st2_def r_def Let_def case_prod_beta)
  have gf: "d_files (gpu_free h s) = d_files s" for h s
    by (simp add: gpu_free_def split: option.split)
  have fs: "d_files (snd (free_index_shards e s)) = d_files s" for e s
    by (simp add: free_index_shards_def fold_keeps gf split: option.split)
  have st2: "st2 = frees (opt_list (e_delta_idx e) @ opt_list (e_main_bf_idx e)) st"
    by (simp add: st2_def free_delta_cache_def free_main_bf_cache_def gpu_free_frees frees_append)
  have d2: "d_files st2 = d_files st"
    by (simp add: st2_def free_delta_cache_def free_main_bf_cache_def gf)
  show "g_n_indexes (snd r) = g_n_indexes st" "g_indexes (snd r) = g_indexes st"
    by (simp_all add: r_def st2)
  show "d_files (snd r) = d_files st"
    by (simp add: r_def d2 gf fs)
  have e2: "shard_list e2 = shard_list e" "e_shards e2 = e_shards e" "is_sharded e2 = is_sharded e"
    "e_handle e2 = e_handle e"
    by (simp_all add: e2_def free_delta_cache_def free_main_bf_cache_def shard_list_def is_sharded_def)
  show "snd r = frees (released e) st" if "wf_entry e"
    using that e2 free_index_shards_frees [of e2 st2]
    by (auto simp: r_def st2 frees_append released_def wf_entry_def gpu_free_frees)
qed

lemma drop_entry_frees:
  assumes "wf_entry (g_indexes st ! i)"
  shows "d_live (drop_entry i st) = d_live (frees (released (g_indexes st ! i)) st)"
    and "d_bad_free (drop_entry i st) = d_bad_free (frees (released (g_indexes st ! i)) st)"
  unfolding drop_entry_eq(1) drop_entry_eq(5) [OF assms]
  by (simp_all add: compact_slots_def set_slot_def Let_def)

lemma drop_entry_files: "d_files (drop_entry i st) = d_files st"
  unfolding drop_entry_eq(1) drop_entry_eq(4) [symmetric, of st i]
  by (simp only: compact_slots_def set_slot_def Let_def) simp

lemma drop_entry_live:
  assumes "i < g_n_indexes st" "g_n_indexes st \<le> length (g_indexes st)"
  shows "live_entries (drop_entry i st) = take i (live_entries st) @ drop (Suc i) (live_entries st)"
    and "length (g_indexes (drop_entry i st)) = length (g_indexes st)"
    and "g_n_indexes (drop_entry i st) = g_n_indexes st - 1"
proof -
  obtain e' st3 where d: "drop_entry i st = compact_slots i (set_slot i e' st3)"
    "g_n_indexes st3 = g_n_indexes st" "g_indexes st3 = g_indexes st"
    using drop_entry_eq(1-3) by blast
  then have "live_entries st3 = live_entries st" by (simp add: live_entries_def)
  then show "live_entries (drop_entry i st) = take i (live_entries st) @ drop (Suc i) (live_entries st)"
    using live_compact [of i st3 e'] d assms by simp
  show "length (g_indexes (drop_entry i st)) = length (g_indexes st)"
    "g_n_indexes (drop_entry i st) = g_n_indexes st - 1"
    using d assms length_compact_slots [of i "set_slot i e' st3"]
    by (simp_all add: set_slot_def compact_slots_def Let_def)
qed

lemma slot_of_Some:
  "slot_of P xs = Some i \<Longrightarrow> i < length xs \<and> P (xs ! i) \<and> (\<forall>j < i. \<not> P (xs ! j))"
proof (induction xs arbitrary: i)
  case Nil
  then show ?case by simp
next
  case (Cons x xs)
  then show ?case by (cases i) (auto split: if_splits simp: less_Suc_eq_0_disj)
qed

lemma slot_of_None: "slot_of P xs = None \<longleftrightarrow> (\<forall>x \<in> set xs. \<not> P x)"
  by (induction xs) auto

text \<open>At most one resident entry per index.\<close>

definition one_entry_per_index :: "daemon \<Rightarrow> bool" where
  "one_entry_per_index st \<longleftrightarrow>
     distinct (map (\<lambda>e. (e_db_oid e, e_index_oid e)) (filter e_valid (live_entries st)))"

lemma remove_only_split:
  assumes "distinct (map (\<lambda>e. (e_db_oid e, e_index_oid e)) (filter e_valid (A @ e # B)))" "entry_is db idx e"
  shows "A @ B = filter (\<lambda>e. \<not> entry_is db idx e) (A @ e # B)"
proof -
  have "\<not> entry_is db idx x" if "x \<in> set A \<union> set B" for x
  proof
    assume "entry_is db idx x"
    then have "(e_db_oid x, e_index_oid x) = (e_db_oid e, e_index_oid e)" "e_valid x" "e_valid e"
      using assms(2) by (simp_all add: entry_is_def)
    then have "x \<in> set (filter e_valid A) \<union> set (filter e_valid B)"
      using that by auto
    then have "(e_db_oid x, e_index_oid x)
        \<in> (\<lambda>e. (e_db_oid e, e_index_oid e)) ` (set (filter e_valid A) \<union> set (filter e_valid B))"
      by (rule imageI)
    then have "(e_db_oid e, e_index_oid e)
        \<in> (\<lambda>e. (e_db_oid e, e_index_oid e)) ` (set (filter e_valid A) \<union> set (filter e_valid B))"
      unfolding \<open>(e_db_oid x, e_index_oid x) = (e_db_oid e, e_index_oid e)\<close> .
    then show False
      using assms(1) \<open>e_valid e\<close> by auto
  qed
  then show ?thesis
    using assms(2) by (simp add: filter_True)
qed

lemma remove_only:
  assumes "slot_of (entry_is db idx) L = Some i"
    and "distinct (map (\<lambda>e. (e_db_oid e, e_index_oid e)) (filter e_valid L))"
  shows "take i L @ drop (Suc i) L = filter (\<lambda>e. \<not> entry_is db idx e) L"
proof -
  note i = slot_of_Some [OF assms(1)]
  have split: "take i L @ L ! i # drop (Suc i) L = L"
    using i id_take_nth_drop [of i L] by simp
  from remove_only_split [of "take i L" "L ! i" "drop (Suc i) L" db idx] show ?thesis
    unfolding split using assms(2) i by simp
qed

lemma unlink_shards_other: "k \<noteq> (db, idx) \<Longrightarrow> unlink_shards db idx s n fs (fst k, snd k, x) = fs (fst k, snd k, x)"
  by (induction n arbitrary: s fs) (auto simp: prod_eq_iff)

lemma unlink_shards_nonshard:
  "(\<forall>m. x \<noteq> F_shard m) \<Longrightarrow> unlink_shards db idx s n fs (d, i, x) = fs (d, i, x)"
  by (induction n arbitrary: s fs) auto

definition drop_unlinks :: "u32 \<Rightarrow> u32 \<Rightarrow> (fkey \<rightharpoonup> bytes) \<Rightarrow> (fkey \<rightharpoonup> bytes)" where
  "drop_unlinks db idx fs = unlink_shards db idx 0 CUVS_SHARDS_MAX
    (fs((db, idx, F_cagra) := None, (db, idx, F_tids) := None,
     (db, idx, F_shards) := None, (db, idx, F_delta) := None, (db, idx, F_vectors) := None,
     (db, idx, F_stale) := None, (db, idx, F_relfilenode) := None, (db, idx, F_tombstone) := None))"

lemma handle_drop_shape:
  "\<exists>c. snd (handle_drop db idx st)
     = (drop_resident db idx st)\<lparr>g_cold_indexes := c, d_files := drop_unlinks db idx (d_files (drop_resident db idx st))\<rparr>"
proof -
  define s where "s = drop_resident db idx st"
  define c where "c = (case slot_of (\<lambda>c. c_valid c \<and> c_db_oid c = db \<and> c_index_oid c = idx) (g_cold_indexes s) of
      None \<Rightarrow> g_cold_indexes s | Some i \<Rightarrow> take i (g_cold_indexes s) @ drop (Suc i) (g_cold_indexes s))"
  have c: "(case slot_of (\<lambda>c. c_valid c \<and> c_db_oid c = db \<and> c_index_oid c = idx) (g_cold_indexes s) of
      None \<Rightarrow> s | Some i \<Rightarrow> s\<lparr>g_cold_indexes := take i (g_cold_indexes s) @ drop (Suc i) (g_cold_indexes s)\<rparr>)
    = s\<lparr>g_cold_indexes := c\<rparr>"
    by (simp add: c_def split: option.split)
  have "snd (handle_drop db idx st) = s\<lparr>g_cold_indexes := c\<rparr>
      \<lparr>d_files := drop_unlinks db idx (d_files (s\<lparr>g_cold_indexes := c\<rparr>))\<rparr>"
    unfolding handle_drop_def Let_def snd_conv s_def [symmetric] c drop_unlinks_def [symmetric] ..
  then have "snd (handle_drop db idx st) = s\<lparr>g_cold_indexes := c, d_files := drop_unlinks db idx (d_files s)\<rparr>"
    by simp
  then show ?thesis unfolding s_def by blast
qed

lemma handle_drop_state:
  "g_n_indexes (snd (handle_drop db idx st)) = g_n_indexes (drop_resident db idx st)"
  "g_indexes (snd (handle_drop db idx st)) = g_indexes (drop_resident db idx st)"
  "d_live (snd (handle_drop db idx st)) = d_live (drop_resident db idx st)"
  "d_bad_free (snd (handle_drop db idx st)) = d_bad_free (drop_resident db idx st)"
  "d_files (snd (handle_drop db idx st)) = drop_unlinks db idx (d_files (drop_resident db idx st))"
proof -
  obtain c where "snd (handle_drop db idx st) = (drop_resident db idx st)
      \<lparr>g_cold_indexes := c, d_files := drop_unlinks db idx (d_files (drop_resident db idx st))\<rparr>"
    using handle_drop_shape by blast
  then show "g_n_indexes (snd (handle_drop db idx st)) = g_n_indexes (drop_resident db idx st)"
    "g_indexes (snd (handle_drop db idx st)) = g_indexes (drop_resident db idx st)"
    "d_live (snd (handle_drop db idx st)) = d_live (drop_resident db idx st)"
    "d_bad_free (snd (handle_drop db idx st)) = d_bad_free (drop_resident db idx st)"
    "d_files (snd (handle_drop db idx st)) = drop_unlinks db idx (d_files (drop_resident db idx st))"
    by simp_all
qed

lemma drop_unlinks_other: "(d, i) \<noteq> (db, idx) \<Longrightarrow> drop_unlinks db idx fs (d, i, x) = fs (d, i, x)"
  unfolding drop_unlinks_def using unlink_shards_other [of "(d, i)" db idx] by auto

lemma drop_unlinks_gone:
  "x \<in> {F_cagra, F_tids, F_shards, F_delta, F_vectors, F_stale, F_relfilenode, F_tombstone}
    \<Longrightarrow> drop_unlinks db idx fs (db, idx, x) = None"
  unfolding drop_unlinks_def by (subst unlink_shards_nonshard) auto

lemma drop_resident_files: "d_files (drop_resident db idx st) = d_files st"
  by (simp add: drop_resident_def drop_entry_files split: option.split)

lemma handle_drop_live:
  assumes "owned st" "one_entry_per_index st"
  shows "live_entries (snd (handle_drop db idx st)) = filter (\<lambda>e. \<not> entry_is db idx e) (live_entries st)"
proof -
  have "live_entries (snd (handle_drop db idx st)) = live_entries (drop_resident db idx st)"
    by (simp only: live_entries_def handle_drop_state)
  also have "\<dots> = filter (\<lambda>e. \<not> entry_is db idx e) (live_entries st)"
  proof (cases "find_index db idx st")
    case None
    then have "\<forall>e \<in> set (live_entries st). \<not> entry_is db idx e"
      by (simp add: find_index_def slot_of_None)
    then show ?thesis using None by (simp add: drop_resident_def filter_True)
  next
    case (Some i)
    then have s: "slot_of (entry_is db idx) (live_entries st) = Some i"
      by (simp add: find_index_def)
    have "i < g_n_indexes st" "g_n_indexes st \<le> length (g_indexes st)"
      using slot_of_Some [OF s] assms(1) by (simp_all add: live_entries_def owns_def)
    then show ?thesis
      using drop_entry_live(1) [of i st] remove_only [OF s] assms(2) Some
      by (simp add: drop_resident_def one_entry_per_index_def)
  qed
  finally show ?thesis .
qed

lemma drop_resident_owned:
  assumes "owned st"
    and clean: "\<forall>e \<in> set (live_entries st). entry_is db idx e \<longrightarrow> e_ivfpq_handle e = None \<and> e_hnsw_idx e = None"
  shows "owned (drop_resident db idx st)"
proof (cases "find_index db idx st")
  case None
  then show ?thesis using assms(1) by (simp add: drop_resident_def)
next
  case (Some i)
  then have s: "slot_of (entry_is db idx) (live_entries st) = Some i"
    by (simp add: find_index_def)
  note f = slot_of_Some [OF s]
  have n: "i < g_n_indexes st" "g_n_indexes st \<le> length (g_indexes st)"
    using f assms(1) by (simp_all add: live_entries_def owns_def)
  let ?e = "live_entries st ! i"
  have e: "g_indexes st ! i = ?e" using n by (simp add: live_entries_def)
  have mem: "?e \<in> set (live_entries st)" using f by simp
  then have wf: "wf_entry ?e" using assms(1) by (simp add: owns_def)
  have "owned (drop_entry i st)"
  proof (rule owned_remove [OF assms(1) n(1)])
    show "live_entries (drop_entry i st) = take i (live_entries st) @ drop (Suc i) (live_entries st)"
      by (rule drop_entry_live(1) [OF n])
    show "g_n_indexes (drop_entry i st) \<le> length (g_indexes (drop_entry i st))"
      using drop_entry_live(2,3) [OF n] n by simp
    show "d_live (drop_entry i st) = d_live (frees (released ?e) st)"
      "d_bad_free (drop_entry i st) = d_bad_free (frees (released ?e) st)"
      using drop_entry_frees [of st i] wf e by simp_all
    show "mset (released ?e) = mset (entry_handles ?e)"
      using evict_entry_handles [OF wf] clean mem f by simp
  qed
  then show ?thesis using Some by (simp add: drop_resident_def)
qed



section \<open>The IVF-PQ handle of a dropped index\<close>

text \<open>
  Dropping an index that has an IVF-PQ handle leaks it: the handle stays allocated and no entry
  that is left holds it. A comment in \<open>handle_drop\<close> records the leak as known; eviction
  releases the handle.
\<close>

theorem handle_drop_leaks_ivfpq:
  assumes "owned st" "find_index db idx st = Some i" "e_ivfpq_handle (live_entries st ! i) = Some h"
  shows "h \<in> set (d_live (snd (handle_drop db idx st))) \<and>
    (\<forall>e \<in> set (live_entries (snd (handle_drop db idx st))). h \<notin> set (entry_handles e))"
proof -
  let ?L = "live_entries st" and ?e = "live_entries st ! i"
  have f: "i < length ?L"
    using assms(2) slot_of_Some [of "entry_is db idx" ?L i] by (simp add: find_index_def)
  have n: "i < g_n_indexes st" "g_n_indexes st \<le> length (g_indexes st)"
    using f assms(1) by (simp_all add: live_entries_def owns_def)
  have e: "g_indexes st ! i = ?e" using n by (simp add: live_entries_def)
  have wf: "wf_entry ?e" using assms(1) f by (simp add: owns_def)
  have res: "drop_resident db idx st = drop_entry i st" using assms(2) by (simp add: drop_resident_def)
  have split: "?L = take i ?L @ ?e # drop (Suc i) ?L"
    using f by (simp add: id_take_nth_drop)
  let ?rest = "concat (map entry_handles (take i ?L @ drop (Suc i) ?L))"
  have all: "mset (d_live st) = mset (entry_handles ?e) + mset ?rest"
  proof -
    have "mset (d_live st) = mset (concat (map entry_handles (take i ?L @ ?e # drop (Suc i) ?L)))"
      using assms(1) split by (simp add: owns_def)
    then show ?thesis by simp
  qed
  have d: "distinct (d_live st)" using assms(1) by (simp add: owns_def)
  have parts: "mset (entry_handles ?e)
      = mset (released ?e) + mset (opt_list (e_hnsw_idx ?e)) + {#h#}"
    using evict_entry_handles [OF wf] assms(3) by simp
  have one: "count (mset (d_live st)) h \<le> 1"
    using d by (simp add: distinct_count_atmost_1)
  have cnt: "count (mset (d_live st)) h
      = count (mset (released ?e)) h + count (mset (opt_list (e_hnsw_idx ?e))) h + 1 + count (mset ?rest) h"
    unfolding all parts by simp
  have rel: "mset (released ?e) \<subseteq># mset (d_live st)"
    unfolding all parts by (simp add: subset_eq_diff_conv)
  have "mset (d_live (snd (handle_drop db idx st))) = mset (d_live st) - mset (released ?e)"
    unfolding handle_drop_state res using drop_entry_frees(1) [of st i] wf e frees_ok [OF rel d] by simp
  then have "count (mset (d_live (snd (handle_drop db idx st)))) h > 0"
    using cnt one by simp
  moreover have "h \<notin> set ?rest"
  proof -
    have "count (mset ?rest) h = 0" using cnt one by linarith
    then show ?thesis by (simp only: count_mset_0_iff not_False_eq_True)
  qed
  moreover have "live_entries (snd (handle_drop db idx st)) = take i ?L @ drop (Suc i) ?L"
    using drop_entry_live(1) [OF n] res by (simp only: live_entries_def [of "snd _"] handle_drop_state)
      (simp only: live_entries_def)
  ultimately show ?thesis by (auto simp: count_greater_zero_iff)
qed

text \<open>One IVF-PQ index with handle 1.\<close>

definition one_ivfpq :: daemon where
  "one_ivfpq = idle_daemon\<lparr>
     g_indexes := [zero_entry\<lparr>e_db_oid := 1, e_index_oid := 10, e_valid := True, e_ivfpq_handle := Some 1\<rparr>,
       zero_entry, zero_entry, zero_entry],
     g_n_indexes := 1, d_live := [1], d_next := 2\<rparr>"

theorem handle_drop_leaks_ivfpq_witness:
  "1 \<in> set (d_live (snd (handle_drop 1 10 one_ivfpq))) \<and>
    1 \<notin> (\<Union>e \<in> set (live_entries (snd (handle_drop 1 10 one_ivfpq))). set (entry_handles e))"
proof -
  have 1: "owned one_ivfpq"
    by (simp add: owns_def one_ivfpq_def idle_daemon_def live_entries_def entry_handles_def
        zero_entry_def wf_entry_def plain_cagra_def is_sharded_def)
  have 2: "find_index 1 10 one_ivfpq = Some 0"
    by (simp add: find_index_def entry_is_def one_ivfpq_def idle_daemon_def live_entries_def zero_entry_def)
  have 3: "e_ivfpq_handle (live_entries one_ivfpq ! 0) = Some 1"
    by (simp add: one_ivfpq_def idle_daemon_def live_entries_def)
  show ?thesis using handle_drop_leaks_ivfpq [OF 1 2 3] by blast
qed

end
