(* ===== verification/Load.thy ===== *)
theory Load
  imports Drop
begin

text \<open>
  Loading an index from disk into the registry: \<open>build_rev_tid_map\<close>,
  \<open>load_index_sharded\<close>, \<open>load_index\<close> and \<open>crc32_file\<close> of \<open>src/pg_cuvs_server.c\<close>. Deserialization allocates a fresh handle
  when \<open>o_cagra_ok\<close> or \<open>o_ivfpq_ok\<close> says the GPU library accepts the file. The slot a
  load fills is the one behind the entries in use, with the contents an earlier eviction left there;
  the loader assigns field by field, as the code does.
\<close>

section \<open>Reading artifacts\<close>

text \<open>The checksum of a whole file, 64 KiB at a time.\<close>

function crc32_loop :: "u32 \<Rightarrow> bytes \<Rightarrow> u32" where
  "crc32_loop crc f =
    (if f = [] then crc
     else crc32_loop (cuvs_crc32_stream_update crc (take 65536 f)) (drop 65536 f))"
  by pat_completeness auto
termination
  by (relation "measure (\<lambda>(crc, f). length f)") auto

declare crc32_loop.simps [simp del]

definition crc32_file :: "bytes option \<Rightarrow> u32 option" where
  "crc32_file f =
    (case f of None \<Rightarrow> None
     | Some bs \<Rightarrow> Some (cuvs_crc32_stream_end (crc32_loop cuvs_crc32_stream_begin bs)))"

lemma stream_update_append:
  "cuvs_crc32_stream_update crc (xs @ ys) = cuvs_crc32_stream_update (cuvs_crc32_stream_update crc xs) ys"
  by (induction xs arbitrary: crc) simp_all

lemma crc32_loop_eq: "crc32_loop crc f = cuvs_crc32_stream_update crc f"
proof (induction crc f rule: crc32_loop.induct)
  case (1 crc f)
  show ?case
  proof (cases "f = []")
    case True
    then show ?thesis by (simp add: crc32_loop.simps)
  next
    case False
    then show ?thesis
      using 1 stream_update_append [of crc "take 65536 f" "drop 65536 f"]
      by (simp add: crc32_loop.simps [of crc f])
  qed
qed

lemma crc32_file_eq: "crc32_file f = map_option cuvs_crc32 f"
  by (cases f) (simp_all add: crc32_file_def crc32_loop_eq cuvs_crc32_def)

definition gpu_alloc :: "daemon \<Rightarrow> handle \<times> daemon" where
  "gpu_alloc st = (d_next st, st\<lparr>d_live := d_next st # d_live st, d_next := Suc (d_next st)\<rparr>)"

definition cuvs_cagra_deserialize :: "outside \<Rightarrow> fkey \<Rightarrow> u32 \<Rightarrow> int \<Rightarrow> daemon \<Rightarrow> handle option \<times> daemon" where
  "cuvs_cagra_deserialize out path dim device_id st =
    (case d_files st path of
       None \<Rightarrow> (None, st)
     | Some img \<Rightarrow> if o_cagra_ok out img dim device_id
                   then map_prod Some id (gpu_alloc st) else (None, st))"

definition cuvs_ivfpq_deserialize :: "outside \<Rightarrow> fkey \<Rightarrow> int \<Rightarrow> daemon \<Rightarrow> handle option \<times> daemon" where
  "cuvs_ivfpq_deserialize out path device_id st =
    (case d_files st path of
       None \<Rightarrow> (None, st)
     | Some img \<Rightarrow> if o_ivfpq_ok out img device_id
                   then map_prod Some id (gpu_alloc st) else (None, st))"

section \<open>The reverse map from TIDs to item ids\<close>

definition cmp_rev_tid :: "u64 \<times> u32 \<Rightarrow> u64 \<times> u32 \<Rightarrow> int" where
  "cmp_rev_tid a b = (if fst a > fst b then 1 else 0) - (if fst a < fst b then 1 else 0)"

definition build_rev_tid_map :: "outside \<Rightarrow> IndexEntry \<Rightarrow> IndexEntry" where
  "build_rev_tid_map out e =
    (case e_tids e of
       None \<Rightarrow> e
     | Some tids \<Rightarrow>
        (if e_n_vecs e \<le> 0 then e
         else let n = nat (e_n_vecs e) in
           if \<not> (o_mem out (n * 16) \<and> o_mem out (n * 8) \<and> o_mem out (n * 4))
           then e\<lparr>e_rev_tids := None, e_rev_item_ids := None\<rparr>
           else let pairs = qsort cmp_rev_tid (map (\<lambda>i. (tids ! i, of_nat i)) [0..<n])
             in e\<lparr>e_rev_tids := Some (map fst pairs), e_rev_item_ids := Some (map snd pairs)\<rparr>))"

section \<open>Loading a sharded index\<close>

definition load_stale :: "fkey \<Rightarrow> daemon \<Rightarrow> IndexEntry \<Rightarrow> IndexEntry" where
  "load_stale path st e =
    (if d_files st path \<noteq> None then e\<lparr>e_stale := True, e_stale_since := d_mtime st path\<rparr>
     else e\<lparr>e_stale := False, e_stale_since := 0\<rparr>)"

definition zero_shard :: ShardEntry where
  "zero_shard = \<lparr>se_shard_id = 0, se_handle = None, se_tid_offset = 0, se_n_vecs = 0,
     se_gpu_device_id = 0, se_vram_bytes = 0, se_search_count = 0, se_error_count = 0,
     se_last_status = 0, se_valid = False, se_bf_idx = None, se_bf_vram_bytes = 0\<rparr>"

text \<open>Room for one shard: round-robin placement, then any other GPU.\<close>

definition place_shard :: "outside \<Rightarrow> nat \<Rightarrow> u64 \<Rightarrow> daemon \<Rightarrow> int option \<times> daemon" where
  "place_shard out i needed st =
    (let dev = usable_gpu (i mod n_usable_gpus st) st;
         (rc, st1) = ensure_vram out needed dev st
     in if rc = 0 then (Some dev, st1)
        else let alt = pick_gpu_for_index out needed st1 in
          if alt < 0 then (None, st1)
          else let (rc2, st2) = ensure_vram out needed alt st1
            in (if rc2 \<noteq> 0 then None else Some alt, st2))"

text \<open>The loop over the manifest's records; \<open>acc\<close> holds the shards loaded so far.\<close>

primrec load_shards ::
  "outside \<Rightarrow> u32 \<Rightarrow> u32 \<Rightarrow> nat \<Rightarrow> CuvsShardRecord list \<Rightarrow> ShardEntry list \<Rightarrow> daemon
    \<Rightarrow> int \<times> ShardEntry list \<times> daemon" where
  "load_shards out db idx i [] acc st = (0, acc, st)"
| "load_shards out db idx i (r # rs) acc st =
    (let needed = estimate_vram_bytes (sint (sr_n_vecs r)) (sint (sr_dim r)) 64;
         (place, st1) = place_shard out i needed st
     in case place of
       None \<Rightarrow> (-2, acc, st1)
     | Some dev \<Rightarrow>
        (let sp = (db, idx, F_shard (unat (sr_shard_id r))) in
         if crc32_file (d_files st1 sp) \<noteq> Some (sr_artifact_crc32 r) then (-1, acc, st1)
         else let (h, st2) = cuvs_cagra_deserialize out sp (sr_dim r) dev st1 in
           if h = None then (-1, acc, st2)
           else load_shards out db idx (Suc i) rs
             (acc @ [zero_shard\<lparr>se_shard_id := sr_shard_id r, se_handle := h,
                se_tid_offset := sint (sr_tid_offset r), se_n_vecs := sint (sr_n_vecs r),
                se_gpu_device_id := dev_word dev, se_vram_bytes := needed, se_valid := True\<rparr>]) st2))"

text \<open>Appending the new entry at slot \<open>g_n_indexes\<close>.\<close>

definition register_entry :: "IndexEntry \<Rightarrow> daemon \<Rightarrow> daemon" where
  "register_entry e st = (set_slot (g_n_indexes st) e st)\<lparr>g_n_indexes := Suc (g_n_indexes st)\<rparr>"

definition sharded_entry ::
  "outside \<Rightarrow> u32 \<Rightarrow> u32 \<Rightarrow> CuvsTidsHeader \<Rightarrow> u64 list \<Rightarrow> ShardEntry list \<Rightarrow> daemon \<Rightarrow> IndexEntry" where
  "sharded_entry out db idx thdr tids shards st =
    (let e = zero_entry\<lparr>e_db_oid := db, e_index_oid := idx, e_dim := th_dim thdr,
           e_metric := th_metric thdr, e_n_vecs := sint (th_n_vecs thdr), e_handle := None,
           e_tids := Some tids\<rparr>;
         e1 = (build_rev_tid_map out e)\<lparr>e_vram_bytes := 0, e_last_search := d_now st, e_valid := True,
           e_warmup_state := WARMUP_HOT, e_gpu_device_id := 0xFFFFFFFF,
           e_shard_count := int (length shards), e_shards := Some shards\<rparr>
     in load_stale (db, idx, F_stale) st (reset_entry_stats e1))"

definition load_index_sharded ::
  "outside \<Rightarrow> u32 \<Rightarrow> u32 \<Rightarrow> CuvsTidsHeader \<Rightarrow> u64 list \<Rightarrow> daemon \<Rightarrow> int \<times> daemon" where
  "load_index_sharded out db idx thdr tids st =
    (case d_files st (db, idx, F_shards) of
       None \<Rightarrow> (1, st)
     | Some mf \<Rightarrow>
        (case cuvs_shards_read (o_mem out) mf of
           None \<Rightarrow> (-1, st)
         | Some (shdr, recs) \<Rightarrow>
            (if sh_base_tids_crc32 shdr \<noteq> th_body_crc32 thdr \<or> sh_n_vecs shdr \<noteq> th_n_vecs thdr
               \<or> sh_dim shdr \<noteq> th_dim thdr \<or> sh_metric shdr \<noteq> th_metric thdr then (-1, st)
             else let st1 = (if length (g_indexes st) \<le> g_n_indexes st
                    then snd (evict_lru out (usable_gpu 0 st) st) else st) in
               if length (g_indexes st1) \<le> g_n_indexes st1 then (-1, st1)
               else if \<not> o_mem out (unat (sh_shard_count shdr) * 80) then (-1, st1)
               else let (rc, shards, st2) = load_shards out db idx 0 recs [] st1 in
                 if rc \<noteq> 0
                 then (rc, fold (\<lambda>s. gpu_free (se_handle s)) shards st2)
                 else (0, register_entry (sharded_entry out db idx thdr tids shards st2) st2))))"

section \<open>Loading an index\<close>

text \<open>The flat branch: brute force only, nothing allocated on the GPU yet.\<close>

definition flat_entry ::
  "outside \<Rightarrow> u32 \<Rightarrow> u32 \<Rightarrow> CuvsTidsHeader \<Rightarrow> u64 list \<Rightarrow> int \<Rightarrow> daemon \<Rightarrow> IndexEntry" where
  "flat_entry out db idx thdr tids fgpu st =
    (let e = (g_indexes st ! g_n_indexes st)\<lparr>e_db_oid := db, e_index_oid := idx, e_dim := th_dim thdr,
           e_metric := th_metric thdr, e_n_vecs := sint (th_n_vecs thdr), e_handle := None,
           e_ivfpq_handle := None, e_ivfpq_n_vecs := 0, e_ivfpq_vram_bytes := 0, e_tids := Some tids,
           e_rev_tids := None, e_rev_item_ids := None\<rparr>;
         e1 = (build_rev_tid_map out e)\<lparr>e_vram_bytes := 0, e_last_search := d_now st, e_valid := True,
           e_gpu_device_id := dev_word fgpu, e_shard_count := 0, e_shards := None, e_inflight := 0,
           e_delta_idx := None, e_delta_tids := None, e_n_delta := 0, e_delta_generation := 0,
           e_delta_mtime := 0, e_delta_vram_bytes := 0, e_delta_vecs_host := None,
           e_delta_n_cached := 0, e_main_bf_idx := None, e_main_bf_n := 0, e_main_bf_vram_bytes := 0,
           e_main_bf_mtime := 0, e_main_bf_generation := 0, e_bf_precision := 0, e_hnsw_idx := None,
           e_n_extended := 0, e_compact_count := 0, e_last_compact_at := 0,
           e_warmup_state := WARMUP_HOT\<rparr>;
         e2 = (reset_entry_stats e1)\<lparr>e_is_flat := True, e_last_search_mode := 3\<rparr>
     in load_stale (db, idx, F_stale) st e2)"

definition load_flat ::
  "outside \<Rightarrow> u32 \<Rightarrow> u32 \<Rightarrow> CuvsTidsHeader \<Rightarrow> u64 list \<Rightarrow> daemon \<Rightarrow> int \<times> daemon" where
  "load_flat out db idx thdr tids st =
    (let p = pick_gpu_for_index out 0 st;
         fgpu = (if p < 0 then usable_gpu 0 st else p);
         st1 = (if length (g_indexes st) \<le> g_n_indexes st then snd (evict_lru out fgpu st) else st)
     in if length (g_indexes st1) \<le> g_n_indexes st1 then (-1, st1)
        else (0, register_entry (flat_entry out db idx thdr tids fgpu st1) st1))"

text \<open>The CAGRA or IVF-PQ entry. The fields the code does not assign keep the slot's old contents.\<close>

definition graph_entry ::
  "outside \<Rightarrow> u32 \<Rightarrow> u32 \<Rightarrow> CuvsTidsHeader \<Rightarrow> u64 list \<Rightarrow> int \<Rightarrow> u64 \<Rightarrow> handle option \<Rightarrow> handle option
    \<Rightarrow> daemon \<Rightarrow> IndexEntry" where
  "graph_entry out db idx thdr tids target_gpu needed h ivf st =
    (let n_vecs = sint (th_n_vecs thdr);
         e = (g_indexes st ! g_n_indexes st)\<lparr>e_db_oid := db, e_index_oid := idx, e_dim := th_dim thdr,
           e_metric := th_metric thdr, e_n_vecs := n_vecs, e_handle := h, e_ivfpq_handle := ivf,
           e_ivfpq_n_vecs := (if ivf \<noteq> None then n_vecs else 0), e_tids := Some tids\<rparr>;
         e1 = (build_rev_tid_map out e)\<lparr>e_vram_bytes := needed, e_last_search := d_now st,
           e_valid := True, e_gpu_device_id := dev_word target_gpu, e_shard_count := 0,
           e_shards := None, e_delta_idx := None, e_delta_tids := None, e_n_delta := 0,
           e_delta_generation := 0, e_delta_mtime := 0, e_delta_vram_bytes := 0,
           e_delta_vecs_host := None, e_delta_n_cached := 0, e_main_bf_idx := None,
           e_main_bf_n := 0, e_main_bf_vram_bytes := 0, e_main_bf_mtime := 0,
           e_main_bf_generation := 0, e_bf_precision := 0\<rparr>;
         e2 = (if e_ivfpq_handle e1 = None then e1\<lparr>e_ivfpq_vram_bytes := 0\<rparr> else e1)
     in load_stale (db, idx, F_stale) st (reset_entry_stats (e2\<lparr>e_warmup_state := WARMUP_HOT\<rparr>)))"

definition load_graph ::
  "outside \<Rightarrow> u32 \<Rightarrow> u32 \<Rightarrow> CuvsTidsHeader \<Rightarrow> u64 list \<Rightarrow> daemon \<Rightarrow> int \<times> daemon" where
  "load_graph out db idx thdr tids st =
    (let dim = th_dim thdr;
         needed = estimate_vram_bytes (sint (th_n_vecs thdr)) (sint dim) 64;
         target_gpu = pick_gpu_for_index out needed st
     in if target_gpu < 0 then (-2, st)
        else let (rc, st1) = ensure_vram out needed target_gpu st in
          if rc \<noteq> 0 then (-2, st1)
          else let (h, st2) = cuvs_cagra_deserialize out (db, idx, F_cagra) dim target_gpu st1;
                   (ivf, st3) = (if h \<noteq> None then (None, st2)
                     else cuvs_ivfpq_deserialize out (db, idx, F_ivfpq) target_gpu st2)
            in if h = None \<and> ivf = None then (-1, st3)
               else let st4 = (if length (g_indexes st3) \<le> g_n_indexes st3
                      then snd (evict_lru out target_gpu st3) else st3) in
                 if length (g_indexes st4) \<le> g_n_indexes st4
                 then (-1, gpu_free ivf (gpu_free h st4))
                 else (0, register_entry (graph_entry out db idx thdr tids target_gpu needed h ivf st4) st4))"

definition load_index :: "outside \<Rightarrow> u32 \<Rightarrow> u32 \<Rightarrow> daemon \<Rightarrow> int \<times> daemon" where
  "load_index out db idx st =
    (case d_files st (db, idx, F_tids) of
       None \<Rightarrow> (-1, st)
     | Some f \<Rightarrow>
        (case cuvs_tids_read (o_mem out) f of
           None \<Rightarrow> (-1, st)
         | Some (thdr, tids) \<Rightarrow>
            (if th_dim thdr = 0 then (-1, st)
             else let (src, st1) = load_index_sharded out db idx thdr tids st in
               if src = 0 then (0, st1)
               else if src < 0 then (src, st1)
               else if d_files st1 (db, idx, F_cagra) = None \<and> d_files st1 (db, idx, F_ivfpq) = None
                 \<and> d_files st1 (db, idx, F_vectors) \<noteq> None
               then load_flat out db idx thdr tids st1
               else load_graph out db idx thdr tids st1)))"

end
