(* ===== verification/Load_Inv.thy ===== *)
theory Load_Inv
  imports Load "HOL-Library.Sublist"
begin

text \<open>
  What loading an index guarantees. Loading may evict, so its effect on the registry is a
  subsequence of the old entries, followed on success by the new one; the handle ownership of
  \<open>Registry_Inv\<close> is kept whether the load succeeds or stops half-way.
\<close>

section \<open>What an eviction leaves alone\<close>

definition other_file :: "suffix \<Rightarrow> bool" where
  "other_file x \<longleftrightarrow> x \<notin> {F_cagra, F_tids, F_cagra_tmp, F_tids_tmp}"

definition untouched :: "daemon \<Rightarrow> daemon \<Rightarrow> bool" where
  "untouched st st' \<longleftrightarrow>
     d_next st' = d_next st \<and> d_now st' = d_now st \<and> d_mtime st' = d_mtime st \<and>
     set (d_live st') \<subseteq> set (d_live st) \<and>
     (\<forall>db idx x. other_file x \<longrightarrow> d_files st' (db, idx, x) = d_files st (db, idx, x))"

lemma untouched_refl [simp]: "untouched st st"
  by (simp add: untouched_def)

lemma untouched_trans: "untouched a b \<Longrightarrow> untouched b c \<Longrightarrow> untouched a c"
  by (auto simp: untouched_def)

lemma untouched_gpu_free: "untouched st (gpu_free h st)"
  by (auto simp: untouched_def gpu_free_def dest: set_remove1_subset [THEN subsetD] split: option.split)

lemma untouched_fold:
  "(\<And>x s. untouched s (f x s)) \<Longrightarrow> untouched st (fold f xs st)"
  by (induction xs arbitrary: st) (auto intro: untouched_trans)

lemma untouched_release: "untouched st (snd (release_entry e st))"
proof -
  have s: "untouched s (snd (free_index_shards x s))" for x s
    by (auto simp: free_index_shards_def intro!: untouched_fold untouched_trans [OF _ untouched_gpu_free]
        intro: untouched_gpu_free split: option.split)
  show ?thesis
    by (auto simp: release_entry_def free_delta_cache_def free_main_bf_cache_def Let_def
        intro!: untouched_trans [OF _ untouched_gpu_free] untouched_trans [OF _ s]
        intro: untouched_gpu_free)
qed

lemma untouched_save: "untouched st (snd (save_index out e st))"
  by (auto simp: untouched_def other_file_def save_index_def write_tids_atomic_def Let_def
      split: option.splits prod.splits)

lemma untouched_slots:
  "untouched st (set_slot i e st)" "untouched st (compact_slots i st)"
  by (simp_all add: untouched_def set_slot_def compact_slots_def Let_def)

lemma untouched_evict_lru: "untouched st (snd (evict_lru out dev st))"
proof -
  have c: "untouched s (s\<lparr>g_cache_evictions := x\<rparr>)" "untouched s (s\<lparr>g_cache_persist_fail := x\<rparr>)" for s x
    by (simp_all add: untouched_def)
  have fin: "untouched s (evict_finish dev i e s)" for i e s
    by (auto simp: evict_finish_def Let_def intro!: untouched_trans [OF _ c(1)]
        untouched_trans [OF _ untouched_slots(2)] untouched_trans [OF _ untouched_slots(1)]
        untouched_trans [OF _ untouched_gpu_free] intro: untouched_gpu_free)
  show ?thesis
    by (auto simp: evict_lru_eq Let_def split: option.split
        intro: c untouched_save untouched_trans [OF untouched_release fin]
          untouched_trans [OF untouched_save c(2)]
          untouched_trans [OF untouched_save untouched_trans [OF untouched_release fin]])
qed

text \<open>No slot, in use or not, holds a CPU HNSW index.\<close>

definition no_hnsw :: "daemon \<Rightarrow> bool" where
  "no_hnsw st \<longleftrightarrow> (\<forall>e \<in> set (g_indexes st). e_hnsw_idx e = None)"

lemma no_hnsw_set_slot: "no_hnsw st \<Longrightarrow> e_hnsw_idx e = None \<Longrightarrow> no_hnsw (set_slot i e st)"
  unfolding no_hnsw_def set_slot_def using set_update_subset_insert [of "g_indexes st" i e] by auto

lemma no_hnsw_compact: "no_hnsw st \<Longrightarrow> no_hnsw (compact_slots i st)"
  by (auto simp: no_hnsw_def compact_slots_def Let_def dest: in_set_takeD in_set_dropD)

lemma no_hnsw_evict_lru:
  assumes "no_hnsw st"
  shows "no_hnsw (snd (evict_lru out dev st))"
proof -
  have fin: "no_hnsw (evict_finish dev i e s)" if "no_hnsw s" for i e s
  proof -
    let ?s = "gpu_free (e_ivfpq_handle e) (gpu_free (e_hnsw_idx e) s)"
    have "no_hnsw ?s" using that by (simp add: no_hnsw_def)
    then have "no_hnsw (compact_slots i (set_slot i (e\<lparr>e_hnsw_idx := None, e_ivfpq_handle := None\<rparr>) ?s))"
      by (intro no_hnsw_compact no_hnsw_set_slot) simp_all
    then show ?thesis
      by (simp add: evict_finish_def Let_def no_hnsw_def)
  qed
  have upd: "no_hnsw (s\<lparr>g_cache_persist_fail := x\<rparr>) = no_hnsw s" for s x
    by (simp add: no_hnsw_def)
  have "no_hnsw (snd (release_entry e s))" "no_hnsw (snd (save_index out e s))" if "no_hnsw s" for e s
    using that by (simp_all add: no_hnsw_def)
  then show ?thesis
    using assms fin upd by (simp add: evict_lru_eq Let_def split: option.split)
qed

section \<open>Room made by evictions\<close>

text \<open>Whatever every eviction keeps, \<open>ensure_vram\<close> keeps.\<close>

lemma ensure_vram_keeps:
  assumes step: "\<And>s. P s \<Longrightarrow> P (snd (evict_lru out dev s))" and "P st"
  shows "P (snd (ensure_vram out needed dev st))"
proof -
  have b: "P (evict_to_budget out needed budget dev s)" if "P s" for budget s
    using that step
  proof (induction out needed budget dev s rule: evict_to_budget.induct)
    case (1 out needed budget dev s)
    then show ?case
      by (subst evict_to_budget.simps) (auto split: prod.split, metis snd_conv, metis snd_conv)
  qed
  have f: "P (snd (evict_to_free out needed dev fr s))" if "P s" for fr s
    using that step
  proof (induction out needed dev fr s rule: evict_to_free.induct)
    case (1 out needed dev fr s)
    then show ?case
      by (subst evict_to_free.simps) (auto split: prod.split, metis snd_conv, metis snd_conv)
  qed
  show ?thesis
    using b f assms(2) by (auto simp: ensure_vram_def Let_def case_prod_beta)
qed

definition shrunk :: "handle list \<Rightarrow> daemon \<Rightarrow> daemon \<Rightarrow> bool" where
  "shrunk hs st st' \<longleftrightarrow> owns hs st' \<and> no_hnsw st' \<and> untouched st st' \<and>
     subseq (live_entries st') (live_entries st) \<and> length (g_indexes st') = length (g_indexes st)"

lemma shrunk_refl: "owns hs st \<Longrightarrow> no_hnsw st \<Longrightarrow> shrunk hs st st"
  by (simp add: shrunk_def)

lemma shrunk_trans: "shrunk hs a b \<Longrightarrow> shrunk hs' b c \<Longrightarrow> shrunk hs' a c"
  unfolding shrunk_def
  by (intro conjI) (auto intro: untouched_trans subseq_order.order_trans)

lemma subseq_remove: "subseq (take i xs @ drop (Suc i) xs) xs"
proof (cases "i < length xs")
  case True
  have "subseq (take i xs @ drop (Suc i) xs) (take i xs @ xs ! i # drop (Suc i) xs)"
    by (rule list_emb_append_mono, simp, rule list_emb_Cons, simp)
  then show ?thesis by (simp only: id_take_nth_drop [OF True, symmetric])
next
  case False
  then show ?thesis by simp
qed

lemma shrunk_evict_lru: "owns hs st \<Longrightarrow> no_hnsw st \<Longrightarrow> shrunk hs st (snd (evict_lru out dev st))"
  using evict_lru_owned [of hs st out dev] no_hnsw_evict_lru [of st out dev]
    untouched_evict_lru [of st out dev] subseq_remove
  unfolding shrunk_def evicts_def by auto

lemma shrunk_ensure_vram:
  assumes "owns hs st" "no_hnsw st"
  shows "shrunk hs st (snd (ensure_vram out needed dev st))"
proof (rule ensure_vram_keeps [where P = "shrunk hs st"])
  fix s
  assume s: "shrunk hs st s"
  then have "shrunk hs s (snd (evict_lru out dev s))"
    by (intro shrunk_evict_lru) (simp_all add: shrunk_def)
  with s show "shrunk hs st (snd (evict_lru out dev s))"
    by (rule shrunk_trans)
next
  show "shrunk hs st st" using assms by (rule shrunk_refl)
qed

section \<open>Allocation and registration\<close>

definition fresh :: "daemon \<Rightarrow> bool" where
  "fresh st \<longleftrightarrow> (\<forall>h \<in> set (d_live st). h < d_next st)"

text \<open>Between the start of a load and any later point of it; \<open>hs\<close> is held by the loader.\<close>

definition loading :: "handle list \<Rightarrow> daemon \<Rightarrow> daemon \<Rightarrow> bool" where
  "loading hs st st' \<longleftrightarrow> owns hs st' \<and> no_hnsw st' \<and> fresh st' \<and>
     subseq (live_entries st') (live_entries st) \<and> length (g_indexes st') = length (g_indexes st) \<and>
     d_now st' = d_now st \<and> d_mtime st' = d_mtime st \<and>
     (\<forall>db idx x. other_file x \<longrightarrow> d_files st' (db, idx, x) = d_files st (db, idx, x))"

lemma loading_refl: "owns hs st \<Longrightarrow> no_hnsw st \<Longrightarrow> fresh st \<Longrightarrow> loading hs st st"
  by (simp add: loading_def)

lemma loading_shrunk: "loading hs st st1 \<Longrightarrow> shrunk hs st1 st2 \<Longrightarrow> loading hs st st2"
  unfolding loading_def shrunk_def untouched_def fresh_def
  by (intro conjI) (auto intro: subseq_order.order_trans)

lemma loading_ensure_vram:
  "loading hs st st1 \<Longrightarrow> loading hs st (snd (ensure_vram out needed dev st1))"
  by (rule loading_shrunk) (auto intro: shrunk_ensure_vram simp: loading_def)

lemma loading_evict_lru: "loading hs st st1 \<Longrightarrow> loading hs st (snd (evict_lru out dev st1))"
  by (rule loading_shrunk) (auto intro: shrunk_evict_lru simp: loading_def)

lemma loading_alloc:
  assumes "loading hs st st1"
  shows "loading (hs @ [fst (gpu_alloc st1)]) st (snd (gpu_alloc st1))"
  using assms unfolding loading_def owns_def no_hnsw_def fresh_def gpu_alloc_def
  by (auto simp: live_entries_def less_Suc_eq)

lemma owns_frees:
  assumes "owns hs st"
  shows "owned (frees hs st)"
proof -
  have "mset hs \<subseteq># mset (d_live st)" "distinct (d_live st)"
    using assms unfolding owns_def by (metis mset_subset_eq_add_right, blast)
  from frees_ok [OF this] assms show ?thesis
    unfolding owns_def by (auto simp: live_entries_def) (metis add_diff_cancel_right')
qed

lemma loading_frees:
  assumes "loading hs st st1"
  shows "loading [] st (frees hs st1)"
proof -
  have u: "untouched st1 (frees hs st1)"
    unfolding frees_def by (rule untouched_fold) (rule untouched_gpu_free)
  have "owns hs st1" using assms by (simp add: loading_def)
  from owns_frees [OF this] u assms show ?thesis
    unfolding loading_def untouched_def fresh_def by (auto simp: no_hnsw_def live_entries_def)
qed

lemma register_live:
  assumes "g_n_indexes st < length (g_indexes st)"
  shows "live_entries (register_entry e st) = live_entries st @ [e]"
  using assms by (simp add: register_entry_def set_slot_def live_entries_def take_Suc_conv_app_nth)

text \<open>What a load adds: an entry that takes over the loader's handles.\<close>

definition takes_over :: "handle list \<Rightarrow> IndexEntry \<Rightarrow> bool" where
  "takes_over hs e \<longleftrightarrow> wf_entry e \<and> e_hnsw_idx e = None \<and> mset (entry_handles e) = mset hs"

lemma register_owned:
  assumes "loading hs st st1" "g_n_indexes st1 < length (g_indexes st1)" "takes_over hs e"
  shows "owned (register_entry e st1) \<and> no_hnsw (register_entry e st1) \<and> fresh (register_entry e st1)"
proof -
  have "no_hnsw (set_slot (g_n_indexes st1) e st1)"
    using assms by (intro no_hnsw_set_slot) (simp_all add: loading_def takes_over_def)
  then have "no_hnsw (register_entry e st1)"
    by (simp add: register_entry_def no_hnsw_def)
  moreover have "owned (register_entry e st1)"
    using assms register_live [OF assms(2), of e] unfolding loading_def takes_over_def owns_def
    by (auto simp: register_entry_def set_slot_def)
  ultimately show ?thesis
    using assms(1) by (simp add: loading_def fresh_def register_entry_def set_slot_def)
qed

section \<open>The three kinds of entries\<close>

lemma build_rev_fields [simp]:
  "e_db_oid (build_rev_tid_map out e) = e_db_oid e" "e_index_oid (build_rev_tid_map out e) = e_index_oid e"
  "e_dim (build_rev_tid_map out e) = e_dim e" "e_metric (build_rev_tid_map out e) = e_metric e"
  "e_n_vecs (build_rev_tid_map out e) = e_n_vecs e" "e_tids (build_rev_tid_map out e) = e_tids e"
  "e_handle (build_rev_tid_map out e) = e_handle e" "e_hnsw_idx (build_rev_tid_map out e) = e_hnsw_idx e"
  "e_ivfpq_handle (build_rev_tid_map out e) = e_ivfpq_handle e"
  "e_delta_idx (build_rev_tid_map out e) = e_delta_idx e"
  "e_main_bf_idx (build_rev_tid_map out e) = e_main_bf_idx e"
  by (simp_all add: build_rev_tid_map_def Let_def split: option.split)

definition describes :: "u32 \<Rightarrow> u32 \<Rightarrow> CuvsTidsHeader \<Rightarrow> u64 list \<Rightarrow> bool \<Rightarrow> IndexEntry \<Rightarrow> bool" where
  "describes db idx hdr tids stale e \<longleftrightarrow> entry_is db idx e \<and> e_tids e = Some tids \<and>
     e_dim e = th_dim hdr \<and> e_metric e = th_metric hdr \<and> e_n_vecs e = sint (th_n_vecs hdr) \<and>
     e_stale e = stale"

lemmas entry_parts = describes_def takes_over_def entry_is_def load_stale_def reset_entry_stats_def
  Let_def wf_entry_def plain_cagra_def is_sharded_def entry_handles_def shard_list_def

lemma flat_entry_ok:
  "takes_over [] (flat_entry out db idx hdr tids g st)"
  "describes db idx hdr tids (d_files st (db, idx, F_stale) \<noteq> None) (flat_entry out db idx hdr tids g st)"
  by (simp_all add: flat_entry_def entry_parts)

lemma graph_entry_ok:
  assumes "no_hnsw st" "g_n_indexes st < length (g_indexes st)" "h = None \<or> ivf = None"
  shows "takes_over (opt_list h @ opt_list ivf) (graph_entry out db idx hdr tids g n h ivf st)"
    and "describes db idx hdr tids (d_files st (db, idx, F_stale) \<noteq> None)
      (graph_entry out db idx hdr tids g n h ivf st)"
proof -
  have "e_hnsw_idx (g_indexes st ! g_n_indexes st) = None"
    using assms(1,2) by (simp add: no_hnsw_def)
  then show "takes_over (opt_list h @ opt_list ivf) (graph_entry out db idx hdr tids g n h ivf st)"
    using assms(3) by (auto simp: graph_entry_def entry_parts)
  show "describes db idx hdr tids (d_files st (db, idx, F_stale) \<noteq> None)
      (graph_entry out db idx hdr tids g n h ivf st)"
    by (simp add: graph_entry_def entry_parts)
qed

lemma sharded_entry_ok:
  assumes "2 \<le> length shards"
  shows "takes_over (concat (map shard_handles shards)) (sharded_entry out db idx hdr tids shards st)"
    and "describes db idx hdr tids (d_files st (db, idx, F_stale) \<noteq> None)
      (sharded_entry out db idx hdr tids shards st)"
  using assms by (simp_all add: sharded_entry_def entry_parts zero_entry_def)

section \<open>The loaders\<close>

lemma loading_place_shard:
  "loading hs st st1 \<Longrightarrow> loading hs st (snd (place_shard out i needed st1))"
  by (auto simp: place_shard_def Let_def case_prod_beta intro: loading_ensure_vram)

lemma loading_deserialize:
  assumes "loading hs st st1" "cuvs_cagra_deserialize out path dim dev st1 = (h, st2)"
  shows "loading (hs @ opt_list h) st st2"
  using assms loading_alloc [OF assms(1)]
  by (auto simp: cuvs_cagra_deserialize_def map_prod_def split: option.splits if_splits prod.splits)

lemma loading_ivfpq:
  assumes "loading hs st st1" "cuvs_ivfpq_deserialize out path dev st1 = (h, st2)"
  shows "loading (hs @ opt_list h) st st2"
  using assms loading_alloc [OF assms(1)]
  by (auto simp: cuvs_ivfpq_deserialize_def map_prod_def split: option.splits if_splits prod.splits)

definition loaded_shard :: "ShardEntry \<Rightarrow> bool" where
  "loaded_shard s \<longleftrightarrow> se_valid s \<and> se_bf_idx s = None"

lemma load_shards_ok:
  assumes "loading (concat (map shard_handles acc)) st st1" "\<forall>s \<in> set acc. loaded_shard s"
    and "load_shards out db idx i rs acc st1 = (rc, shards, st2)"
  shows "loading (concat (map shard_handles shards)) st st2 \<and> (\<forall>s \<in> set shards. loaded_shard s) \<and>
    rc \<le> 0 \<and> (rc = 0 \<longrightarrow> length shards = length acc + length rs)"
  using assms
proof (induction rs arbitrary: acc st1 i)
  case Nil
  then show ?case by auto
next
  case (Cons r rs)
  obtain place s1 where p: "place_shard out i (estimate_vram_bytes (sint (sr_n_vecs r)) (sint (sr_dim r)) 64) st1
      = (place, s1)"
    by fastforce
  have l1: "loading (concat (map shard_handles acc)) st s1"
    using loading_place_shard [OF Cons.prems(1)] p by (metis snd_conv)
  show ?case
  proof (cases place)
    case None
    then show ?thesis using Cons.prems l1 p by (auto simp: Let_def)
  next
    case (Some dev)
    let ?sp = "(db, idx, F_shard (unat (sr_shard_id r)))"
    obtain h s2 where d: "cuvs_cagra_deserialize out ?sp (sr_dim r) dev s1 = (h, s2)" by fastforce
    note l2 = loading_deserialize [OF l1 d]
    let ?s = "zero_shard\<lparr>se_shard_id := sr_shard_id r, se_handle := h,
                se_tid_offset := sint (sr_tid_offset r), se_n_vecs := sint (sr_n_vecs r),
                se_gpu_device_id := dev_word dev,
                se_vram_bytes := estimate_vram_bytes (sint (sr_n_vecs r)) (sint (sr_dim r)) 64,
                se_valid := True\<rparr>"
    have sh: "shard_handles ?s = opt_list h" "loaded_shard ?s"
      by (simp_all add: shard_handles_def loaded_shard_def zero_shard_def)
    show ?thesis
    proof (cases "crc32_file (d_files s1 ?sp) \<noteq> Some (sr_artifact_crc32 r) \<or> h = None")
      case True
      then show ?thesis using Cons.prems l1 l2 p d Some by (auto simp: Let_def split: if_splits)
    next
      case False
      then have "load_shards out db idx (Suc i) rs (acc @ [?s]) s2 = (rc, shards, st2)"
        using Cons.prems(3) p d Some by (auto simp: Let_def)
      from Cons.IH [OF _ _ this] l2 sh Cons.prems(2) show ?thesis by auto
    qed
  qed
qed

lemma frees_Nil [simp]: "frees [] st = st"
  by (simp add: frees_def)

lemma free_loaded_shards:
  "\<forall>s \<in> set shards. loaded_shard s
    \<Longrightarrow> fold (\<lambda>s. gpu_free (se_handle s)) shards st = frees (concat (map shard_handles shards)) st"
  by (induction shards arbitrary: st)
    (simp_all add: loaded_shard_def shard_handles_def gpu_free_frees frees_append)

text \<open>The outcome of a load: it failed and only evicted, or it also appended the new entry.\<close>

definition load_outcome ::
  "u32 \<Rightarrow> u32 \<Rightarrow> CuvsTidsHeader \<Rightarrow> u64 list \<Rightarrow> daemon \<Rightarrow> int \<times> daemon \<Rightarrow> bool" where
  "load_outcome db idx hdr tids st r \<longleftrightarrow>
     owned (snd r) \<and> no_hnsw (snd r) \<and> fresh (snd r) \<and>
     (fst r \<noteq> 0 \<longrightarrow> subseq (live_entries (snd r)) (live_entries st)) \<and>
     (fst r = 0 \<longrightarrow> (\<exists>L e. live_entries (snd r) = L @ [e] \<and> subseq L (live_entries st) \<and>
        describes db idx hdr tids (d_files st (db, idx, F_stale) \<noteq> None) e))"

lemma load_outcome_fail: "loading [] st st' \<Longrightarrow> rc \<noteq> 0 \<Longrightarrow> load_outcome db idx hdr tids st (rc, st')"
  by (simp add: load_outcome_def loading_def)

lemma load_outcome_register:
  assumes "loading hs st st1" "g_n_indexes st1 < length (g_indexes st1)" "takes_over hs e"
    and "describes db idx hdr tids (d_files st1 (db, idx, F_stale) \<noteq> None) e"
  shows "load_outcome db idx hdr tids st (0, register_entry e st1)"
proof -
  have "d_files st1 (db, idx, F_stale) = d_files st (db, idx, F_stale)"
    using assms(1) by (simp add: loading_def other_file_def)
  then show ?thesis
    using register_owned [OF assms(1-3)] register_live [OF assms(2), of e] assms(1,4)
    by (simp add: load_outcome_def loading_def)
qed

lemma loading_free_slot:
  "loading hs st st1 \<Longrightarrow> loading hs st (if c then snd (evict_lru out dev st1) else st1)"
  by (simp add: loading_evict_lru)

lemma load_flat_outcome:
  assumes "loading [] st st1"
  shows "load_outcome db idx hdr tids st (load_flat out db idx hdr tids st1)"
  using loading_free_slot [OF assms] load_outcome_register [OF loading_free_slot [OF assms] _ flat_entry_ok]
    load_outcome_fail [OF loading_free_slot [OF assms]]
  by (simp add: load_flat_def Let_def not_le)

lemma load_graph_outcome:
  assumes "loading [] st st1"
  shows "load_outcome db idx hdr tids st (load_graph out db idx hdr tids st1)"
proof -
  let ?needed = "estimate_vram_bytes (sint (th_n_vecs hdr)) (sint (th_dim hdr)) 64"
  let ?gpu = "pick_gpu_for_index out ?needed st1"
  obtain rc s1 where e: "ensure_vram out ?needed ?gpu st1 = (rc, s1)" by fastforce
  have l1: "loading [] st s1"
    using loading_ensure_vram [OF assms, of out ?needed ?gpu] e by simp
  obtain h s2 where d: "cuvs_cagra_deserialize out (db, idx, F_cagra) (th_dim hdr) ?gpu s1 = (h, s2)"
    by fastforce
  define r where "r = (if h \<noteq> None then (None, s2) else cuvs_ivfpq_deserialize out (db, idx, F_ivfpq) ?gpu s2)"
  obtain ivf s3 where r: "r = (ivf, s3)" by fastforce
  have l2: "loading (opt_list h) st s2"
    using loading_deserialize [OF l1 d] by simp
  have l3: "loading (opt_list h @ opt_list ivf) st s3" and one: "h = None \<or> ivf = None"
    using l2 loading_ivfpq [OF l2, of out "(db, idx, F_ivfpq)" ?gpu ivf s3] r
    by (auto simp: r_def split: if_splits)
  define s4 where "s4 = (if length (g_indexes s3) \<le> g_n_indexes s3 then snd (evict_lru out ?gpu s3) else s3)"
  have l4: "loading (opt_list h @ opt_list ivf) st s4"
    unfolding s4_def by (rule loading_free_slot [OF l3])
  have full: "loading [] st (gpu_free ivf (gpu_free h s4))"
    using loading_frees [OF l4] by (simp add: gpu_free_frees frees_append)
  have res: "load_graph out db idx hdr tids st1 =
    (if ?gpu < 0 then (-2, st1) else if rc \<noteq> 0 then (-2, s1)
     else if h = None \<and> ivf = None then (-1, s3)
     else if length (g_indexes s4) \<le> g_n_indexes s4 then (-1, gpu_free ivf (gpu_free h s4))
     else (0, register_entry (graph_entry out db idx hdr tids ?gpu ?needed h ivf s4) s4))"
    using e d r by (simp add: load_graph_def Let_def r_def s4_def del: not_None_eq)
  consider "?gpu < 0" | "\<not> ?gpu < 0" "rc \<noteq> 0" | "\<not> ?gpu < 0" "rc = 0" "h = None \<and> ivf = None"
    | "\<not> ?gpu < 0" "rc = 0" "\<not> (h = None \<and> ivf = None)" "length (g_indexes s4) \<le> g_n_indexes s4"
    | "\<not> ?gpu < 0" "rc = 0" "\<not> (h = None \<and> ivf = None)" "g_n_indexes s4 < length (g_indexes s4)"
    by linarith
  then show ?thesis
  proof cases
    case 1
    then show ?thesis using load_outcome_fail [OF assms, of "-2"] res by simp
  next
    case 2
    then show ?thesis using load_outcome_fail [OF l1, of "-2"] res by simp
  next
    case 3
    then show ?thesis using load_outcome_fail [of st s3 "-1"] l3 res by simp
  next
    case 4
    then show ?thesis using load_outcome_fail [OF full, of "-1"] res by auto
  next
    case 5
    have nh: "no_hnsw s4" using l4 by (simp add: loading_def)
    show ?thesis
      using load_outcome_register [OF l4 5(4) graph_entry_ok [OF nh 5(4) one]] res 5 by simp
  qed
qed

lemma load_sharded_outcome:
  assumes "loading [] st st1"
    and multi: "\<And>mf shdr recs. d_files st1 (db, idx, F_shards) = Some mf \<Longrightarrow>
      cuvs_shards_read (o_mem out) mf = Some (shdr, recs) \<Longrightarrow> sh_shard_count shdr \<noteq> 1"
    and "load_index_sharded out db idx hdr tids st1 = r"
  shows "fst r = 1 \<and> snd r = st1 \<or> fst r \<le> 0 \<and> load_outcome db idx hdr tids st r"
proof (cases "d_files st1 (db, idx, F_shards)")
  case None
  then show ?thesis using assms(3) by (auto simp: load_index_sharded_def)
next
  case (Some mf)
  note m = this
  show ?thesis
  proof (cases "cuvs_shards_read (o_mem out) mf")
    case None
    then show ?thesis
      using m assms(3) load_outcome_fail [OF assms(1), of "-1"] by (auto simp: load_index_sharded_def)
  next
    case (Some p)
    then obtain shdr recs where rd: "cuvs_shards_read (o_mem out) mf = Some (shdr, recs)" by (cases p) auto
    have len: "length recs = unat (sh_shard_count shdr)"
      using shards_file.length_items [OF rd] .
    define bad where "bad \<longleftrightarrow> sh_base_tids_crc32 shdr \<noteq> th_body_crc32 hdr \<or> sh_n_vecs shdr \<noteq> th_n_vecs hdr
               \<or> sh_dim shdr \<noteq> th_dim hdr \<or> sh_metric shdr \<noteq> th_metric hdr"
    define s1 where "s1 = (if length (g_indexes st1) \<le> g_n_indexes st1
                    then snd (evict_lru out (usable_gpu 0 st1) st1) else st1)"
    have l1: "loading [] st s1" unfolding s1_def by (rule loading_free_slot [OF assms(1)])
    obtain rc shards s2 where ls: "load_shards out db idx 0 recs [] s1 = (rc, shards, s2)"
      by (cases "load_shards out db idx 0 recs [] s1") auto
    have ok: "loading (concat (map shard_handles shards)) st s2" "\<forall>s \<in> set shards. loaded_shard s"
      "rc \<le> 0" "rc = 0 \<longrightarrow> length shards = length recs"
      using load_shards_ok [of "[]" st s1, OF _ _ ls] l1 by simp_all
    have fl: "loading [] st (fold (\<lambda>s. gpu_free (se_handle s)) shards s2)"
      using loading_frees [OF ok(1)] free_loaded_shards [OF ok(2)] by simp
    have res: "r = (if bad then (-1, st1) else if length (g_indexes s1) \<le> g_n_indexes s1 then (-1, s1)
       else if \<not> o_mem out (unat (sh_shard_count shdr) * 80) then (-1, s1)
       else if rc \<noteq> 0 then (rc, fold (\<lambda>s. gpu_free (se_handle s)) shards s2)
       else (0, register_entry (sharded_entry out db idx hdr tids shards s2) s2))"
      unfolding assms(3) [symmetric] load_index_sharded_def
      by (simp only: m rd option.case prod.case Let_def bad_def [symmetric] s1_def [symmetric] ls)
    show ?thesis
    proof (cases "bad \<or> length (g_indexes s1) \<le> g_n_indexes s1
        \<or> \<not> o_mem out (unat (sh_shard_count shdr) * 80) \<or> rc \<noteq> 0")
      case True
      then show ?thesis
        using res load_outcome_fail [OF assms(1), of "-1"] load_outcome_fail [OF l1, of "-1"]
          load_outcome_fail [OF fl, of rc] ok(3) by auto
    next
      case False
      have "sh_shard_count shdr \<noteq> 0"
        using rd by (auto simp: cuvs_shards_read_def Let_def split: option.splits if_splits)
      then have "unat (sh_shard_count shdr) \<noteq> 0" "unat (sh_shard_count shdr) \<noteq> 1"
        using multi [OF m rd] by (simp_all add: word_unat_eq_iff)
      then have two: "2 \<le> length shards" using ok(4) False len by simp
      have "length (live_entries s2) \<le> length (live_entries s1)"
        using load_shards_ok [of "[]" s1 s1, OF _ _ ls] l1 list_emb_length
        unfolding loading_def by fastforce
      then have slot: "g_n_indexes s2 < length (g_indexes s2)"
        using ok(1) l1 False unfolding loading_def owns_def live_entries_def by simp
      show ?thesis
        using load_outcome_register [OF ok(1) slot sharded_entry_ok [OF two]] res False by auto
    qed
  qed
qed

text \<open>
  C14. Loading an index is all or nothing. Whatever it returns, every GPU handle is still held by
  exactly one entry, so a load that fails half-way through its shards leaks none. A failed load can
  only have evicted entries; a successful one appends one entry that describes the \<open>.tids\<close>
  file on disk and is stale exactly if the staleness marker exists. The registry must hold no CPU HNSW
  index (the evictions of a load can break the ownership of such a handle, as
  \<open>reload_shares_hnsw\<close> shows), and a manifest, if there is one, must not have a single
  shard, which no build writes.
\<close>

theorem load_index_correct:
  assumes "owned st" "no_hnsw st" "fresh st"
    and "\<forall>mf shdr recs. d_files st (db, idx, F_shards) = Some mf \<longrightarrow>
      cuvs_shards_read (o_mem out) mf = Some (shdr, recs) \<longrightarrow> sh_shard_count shdr \<noteq> 1"
    and "load_index out db idx st = (rc, st')"
  shows "owned st' \<and> no_hnsw st' \<and> fresh st' \<and>
    (if rc = 0
     then \<exists>f hdr tids L e. d_files st (db, idx, F_tids) = Some f \<and>
       cuvs_tids_read (o_mem out) f = Some (hdr, tids) \<and>
       live_entries st' = L @ [e] \<and> subseq L (live_entries st) \<and>
       describes db idx hdr tids (d_files st (db, idx, F_stale) \<noteq> None) e
     else subseq (live_entries st') (live_entries st))"
proof -
  have l: "loading [] st st" using assms(1-3) by (rule loading_refl)
  consider "rc = -1" "st' = st"
    | f hdr tids where "d_files st (db, idx, F_tids) = Some f" "cuvs_tids_read (o_mem out) f = Some (hdr, tids)"
      "th_dim hdr \<noteq> 0"
    using assms(5) by (auto simp: load_index_def split: option.splits if_splits)
  then show ?thesis
  proof cases
    case 1
    then show ?thesis using assms(1-3) by simp
  next
    case (2 f hdr tids)
    obtain src s1 where s: "load_index_sharded out db idx hdr tids st = (src, s1)" by fastforce
    have src: "src = 1 \<and> s1 = st \<or> src \<le> 0 \<and> load_outcome db idx hdr tids st (src, s1)"
      using load_sharded_outcome [OF l _ s] assms(4) by fastforce
    have "(rc, st') = (if src = 0 then (0, s1) else if src < 0 then (src, s1)
       else if d_files s1 (db, idx, F_cagra) = None \<and> d_files s1 (db, idx, F_ivfpq) = None
         \<and> d_files s1 (db, idx, F_vectors) \<noteq> None
       then load_flat out db idx hdr tids s1 else load_graph out db idx hdr tids s1)"
      unfolding assms(5) [symmetric] load_index_def
      by (simp only: 2 option.case prod.case Let_def s if_False)
    then have "load_outcome db idx hdr tids st (rc, st')"
      using src load_flat_outcome [OF l, of db idx hdr tids out] load_graph_outcome [OF l, of db idx hdr tids out]
      by (auto split: if_splits)
    then show ?thesis
      using 2 by (auto simp: load_outcome_def)
  qed
qed

text \<open>The files of a flat index and of a CAGRA index, and an idle daemon that has them.\<close>

definition sample_file :: bytes where
  "sample_file = tids_header_bytes sample_tids_header @ [1, 0, 1, 0, 0, 0, 0, 0]"

definition flat_on_disk :: daemon where
  "flat_on_disk = idle_daemon\<lparr>d_files := [(1, 12, F_tids) \<mapsto> sample_file, (1, 12, F_vectors) \<mapsto> []]\<rparr>"

lemma load_flat_on_disk: "fst (load_index calm_outside 1 12 flat_on_disk) = 0"
  using sample_tids_read
  by (simp add: load_index_def load_index_sharded_def load_flat_def flat_on_disk_def idle_daemon_def
      calm_outside_def sample_file_def Let_def sample_tids_header_def)

theorem load_index_correct_witness:
  "owned (snd (load_index calm_outside 1 12 flat_on_disk)) \<and>
   (\<exists>f hdr tids L e. d_files flat_on_disk (1, 12, F_tids) = Some f \<and>
      cuvs_tids_read (o_mem calm_outside) f = Some (hdr, tids) \<and>
      live_entries (snd (load_index calm_outside 1 12 flat_on_disk)) = L @ [e] \<and>
      subseq L (live_entries flat_on_disk) \<and>
      describes 1 12 hdr tids (d_files flat_on_disk (1, 12, F_stale) \<noteq> None) e)"
proof -
  have st: "owned flat_on_disk" "no_hnsw flat_on_disk" "fresh flat_on_disk"
    by (simp_all add: owns_def no_hnsw_def fresh_def flat_on_disk_def idle_daemon_def live_entries_def
        zero_entry_def)
  have m: "\<forall>mf shdr recs. d_files flat_on_disk (1, 12, F_shards) = Some mf \<longrightarrow>
      cuvs_shards_read (o_mem calm_outside) mf = Some (shdr, recs) \<longrightarrow> sh_shard_count shdr \<noteq> 1"
    by (simp add: flat_on_disk_def)
  show ?thesis
    using load_index_correct [OF st m prod.collapse [symmetric]] load_flat_on_disk by simp
qed

section \<open>A dropped index is not reloaded\<close>

text \<open>
  No zombie: after a drop, loading the index fails and changes nothing, whatever the daemon held
  before. In particular the search-miss reload and the next start cannot bring it back.
\<close>

theorem dropped_not_reloaded:
  "load_index out db idx (snd (handle_drop db idx st)) = (-1, snd (handle_drop db idx st))"
proof -
  have "d_files (snd (handle_drop db idx st)) (db, idx, F_tids) = None"
    unfolding handle_drop_state by (rule drop_unlinks_gone) simp
  then show ?thesis by (simp add: load_index_def)
qed

section \<open>The CPU HNSW handle of a reused slot\<close>

text \<open>
  A flat index that was searched longest ago, and a CAGRA index that also holds the CPU HNSW
  handle 3; a third index is on disk.
\<close>

definition hnsw_run :: daemon where
  "hnsw_run = idle_daemon\<lparr>
     g_indexes := [zero_entry\<lparr>e_db_oid := 1, e_index_oid := 10, e_is_flat := True, e_main_bf_idx := Some 1,
         e_main_bf_vram_bytes := 60, e_last_search := 5, e_valid := True\<rparr>,
       zero_entry\<lparr>e_db_oid := 1, e_index_oid := 11, e_handle := Some 2, e_hnsw_idx := Some 3,
         e_vram_bytes := 40, e_last_search := 9, e_valid := True\<rparr>,
       zero_entry, zero_entry],
     g_max_vram_per_gpu := replicate 16 0,
     g_n_indexes := 2, d_live := [1, 2, 3], d_next := 4,
     d_files := [(1, 12, F_tids) \<mapsto> sample_file, (1, 12, F_cagra) \<mapsto> [1, 2, 3]]\<rparr>"

lemma hnsw_run_evicted:
  "snd (evict_lru calm_outside 0 hnsw_run) = hnsw_run\<lparr>
     g_indexes := [g_indexes hnsw_run ! 1, g_indexes hnsw_run ! 1, zero_entry, zero_entry],
     g_n_indexes := 1, d_live := [2, 3],
     g_cache_evictions := bump 0 (g_cache_evictions hnsw_run)\<rparr>"
  by (simp add: hnsw_run_def evict_lru_def registry_eval)

text \<open>
  Loading a CAGRA index does not clear the CPU HNSW handle of the slot it fills. Compaction
  leaves a copy of the last entry behind, so after one eviction the next load produces two entries
  of different indexes that share one HNSW handle: the ownership invariant, which held before, is
  broken.
\<close>

theorem reload_shares_hnsw:
  "owned hnsw_run \<and>
   (case load_index calm_outside 1 12 (snd (evict_lru calm_outside 0 hnsw_run)) of (rc, st) \<Rightarrow>
      rc = 0 \<and> map (\<lambda>e. (e_index_oid e, e_hnsw_idx e)) (live_entries st) = [(11, Some 3), (12, Some 3)] \<and>
      \<not> owned st)"
proof
  show "owned hnsw_run"
    by (simp add: owns_def hnsw_run_def idle_daemon_def live_entries_def entry_handles_def
        zero_entry_def wf_entry_def plain_cagra_def is_sharded_def)
next
  define s where "s = snd (evict_lru calm_outside 0 hnsw_run)"
  let ?n = "estimate_vram_bytes (sint (th_n_vecs sample_tids_header)) (sint (th_dim sample_tids_header)) 64"
  let ?s2 = "s\<lparr>d_live := 4 # d_live s, d_next := 5\<rparr>"
  let ?e = "graph_entry calm_outside 1 12 sample_tids_header [65537] 0 ?n (Some 4) None ?s2"
  have gpu: "pick_gpu_for_index calm_outside ?n s = 0"
    unfolding s_def hnsw_run_evicted
    by (simp add: pick_gpu_for_index_def pick_gpu_step_def n_usable_gpus_def usable_gpu_def upt_rec
        hnsw_run_def idle_daemon_def gpu_free_vram_bytes_def calm_outside_def Let_def)
  have room: "ensure_vram calm_outside ?n 0 s = (0, s)"
    unfolding s_def hnsw_run_evicted
    by (simp add: ensure_vram_def evict_to_free.simps hnsw_run_def idle_daemon_def estimate_vram_bytes_def
        gpu_free_vram_bytes_def calm_outside_def sample_tids_header_def Let_def)
  have fs: "d_files s (1, 12, F_tids) = Some sample_file" "d_files s (1, 12, F_cagra) = Some [1, 2, 3]"
    "d_files s (1, 12, F_shards) = None" "d_next s = 4" "g_n_indexes s = 1" "length (g_indexes s) = 4"
    "g_indexes s ! 1 = g_indexes hnsw_run ! 1" "g_indexes s ! 0 = g_indexes hnsw_run ! 1"
    unfolding s_def hnsw_run_evicted by (simp_all add: hnsw_run_def idle_daemon_def)
  have l: "load_index calm_outside 1 12 s = (0, register_entry ?e ?s2)"
    using fs sample_tids_read gpu room
    by (simp add: load_index_def load_index_sharded_def load_graph_def cuvs_cagra_deserialize_def
        gpu_alloc_def calm_outside_def sample_file_def Let_def) (simp add: sample_tids_header_def)
  have live: "live_entries (register_entry ?e ?s2) = [g_indexes hnsw_run ! 1, ?e]"
    using fs by (subst register_live) (simp_all add: live_entries_def take_Suc_conv_app_nth)
  have h: "e_hnsw_idx ?e = Some 3" "e_hnsw_idx (g_indexes hnsw_run ! 1) = Some 3"
    "e_index_oid ?e = 12" "e_index_oid (g_indexes hnsw_run ! 1) = 11"
    using fs by (simp_all add: graph_entry_def load_stale_def reset_entry_stats_def Let_def) (simp_all add: hnsw_run_def)
  have "\<not> owned (register_entry ?e ?s2)"
  proof
    assume o: "owned (register_entry ?e ?s2)"
    then have "distinct (concat (map entry_handles (live_entries (register_entry ?e ?s2))))"
      unfolding owns_def by (metis add_0_right mset.simps(1) mset_eq_imp_distinct_iff)
    then show False using h by (simp add: live entry_handles_def)
  qed
  then show "case load_index calm_outside 1 12 (snd (evict_lru calm_outside 0 hnsw_run)) of (rc, st) \<Rightarrow>
      rc = 0 \<and> map (\<lambda>e. (e_index_oid e, e_hnsw_idx e)) (live_entries st) = [(11, Some 3), (12, Some 3)] \<and>
      \<not> owned st"
    using live h by (simp add: s_def [symmetric] l)
qed

end
