(* ===== verification/Warmup_Queue.thy ===== *)
theory Warmup_Queue
  imports Prelude
begin

text \<open>
  The queue of background downloads (\<open>warmup_enqueue\<close>, \<open>warmup_dequeue\<close> of
  \<open>src/pg_cuvs_server.c\<close>): a ring of \<open>WARMUP_QUEUE_MAX\<close> slots with a head, a
  tail and a count. Each operation runs under \<open>g_warmup_mutex\<close> and is one step. The locale
  \<open>job_queue\<close> is the contract of such a queue, in terms of the list of waiting jobs; the ring
  interprets it.
\<close>

section \<open>The ring\<close>

record WarmupJob =
  j_db_oid :: u32
  j_index_oid :: u32
  j_relfilenode :: u32
  j_table_oid :: u32
  j_from_cache_miss :: int

definition WARMUP_QUEUE_MAX :: nat where "WARMUP_QUEUE_MAX = 64"

record warmup_ring =
  g_warmup_queue :: "WarmupJob list"
  g_warmup_head :: nat
  g_warmup_tail :: nat
  g_warmup_count :: nat

definition same_index :: "WarmupJob \<Rightarrow> WarmupJob \<Rightarrow> bool" where
  "same_index a b \<longleftrightarrow> j_db_oid a = j_db_oid b \<and> j_index_oid a = j_index_oid b"

definition warmup_enqueue :: "WarmupJob \<Rightarrow> warmup_ring \<Rightarrow> int \<times> warmup_ring" where
  "warmup_enqueue job q =
    (if list_ex (\<lambda>i. same_index (g_warmup_queue q ! ((g_warmup_head q + i) mod WARMUP_QUEUE_MAX)) job)
          [0..<g_warmup_count q] then (-1, q)
     else if WARMUP_QUEUE_MAX \<le> g_warmup_count q then (-1, q)
     else (0, q\<lparr>g_warmup_queue := (g_warmup_queue q)[g_warmup_tail q := job],
                g_warmup_tail := (g_warmup_tail q + 1) mod WARMUP_QUEUE_MAX,
                g_warmup_count := g_warmup_count q + 1\<rparr>))"

text \<open>\<open>None\<close>: nothing is waiting and the worker blocks, or the daemon is shutting down.\<close>

definition warmup_dequeue :: "bool \<Rightarrow> warmup_ring \<Rightarrow> (WarmupJob \<times> warmup_ring) option" where
  "warmup_dequeue g_shutdown q =
    (if g_shutdown \<or> g_warmup_count q = 0 then None
     else Some (g_warmup_queue q ! g_warmup_head q,
       q\<lparr>g_warmup_head := (g_warmup_head q + 1) mod WARMUP_QUEUE_MAX,
         g_warmup_count := g_warmup_count q - 1\<rparr>))"

definition empty_ring :: warmup_ring where
  "empty_ring = \<lparr>g_warmup_queue = replicate WARMUP_QUEUE_MAX
     \<lparr>j_db_oid = 0, j_index_oid = 0, j_relfilenode = 0, j_table_oid = 0, j_from_cache_miss = 0\<rparr>,
     g_warmup_head = 0, g_warmup_tail = 0, g_warmup_count = 0\<rparr>"

section \<open>The contract of a bounded queue without duplicates\<close>

datatype 'j queue_event = Enq 'j | Deq

locale job_queue =
  fixes enq :: "'j \<Rightarrow> 'q \<Rightarrow> int \<times> 'q" and deq :: "'q \<Rightarrow> ('j \<times> 'q) option"
    and waiting :: "'q \<Rightarrow> 'j list" and invar :: "'q \<Rightarrow> bool" and cap :: nat
    and clash :: "'j \<Rightarrow> 'j \<Rightarrow> bool"
  assumes enq_refused: "invar q \<Longrightarrow> list_ex (\<lambda>x. clash x j) (waiting q) \<or> cap \<le> length (waiting q)
      \<Longrightarrow> enq j q = (-1, q)"
    and enq_accepted: "invar q \<Longrightarrow> \<not> list_ex (\<lambda>x. clash x j) (waiting q) \<Longrightarrow> length (waiting q) < cap
      \<Longrightarrow> fst (enq j q) = 0 \<and> waiting (snd (enq j q)) = waiting q @ [j] \<and> invar (snd (enq j q))"
    and deq_empty: "invar q \<Longrightarrow> waiting q = [] \<Longrightarrow> deq q = None"
    and deq_first: "invar q \<Longrightarrow> waiting q = x # xs
      \<Longrightarrow> \<exists>q'. deq q = Some (x, q') \<and> waiting q' = xs \<and> invar q'"
begin

text \<open>Running events: the jobs accepted, the jobs handed out, and the queue at the end.\<close>

fun queue_run :: "'j queue_event list \<Rightarrow> 'q \<Rightarrow> 'j list \<times> 'j list \<times> 'q" where
  "queue_run [] q = ([], [], q)"
| "queue_run (Enq j # es) q =
     (case enq j q of (rc, q1) \<Rightarrow> case queue_run es q1 of (acc, out, q2) \<Rightarrow>
        (if rc = 0 then j # acc else acc, out, q2))"
| "queue_run (Deq # es) q =
     (case deq q of None \<Rightarrow> queue_run es q
      | Some (j, q1) \<Rightarrow> case queue_run es q1 of (acc, out, q2) \<Rightarrow> (acc, j # out, q2))"

definition no_clash :: "'q \<Rightarrow> bool" where
  "no_clash q \<longleftrightarrow> length (waiting q) \<le> cap \<and>
     (\<forall>i j. i < j \<longrightarrow> j < length (waiting q) \<longrightarrow> \<not> clash (waiting q ! i) (waiting q ! j))"

lemma enq_no_clash:
  assumes "invar q" "no_clash q"
  shows "invar (snd (enq j q)) \<and> no_clash (snd (enq j q))"
proof (cases "list_ex (\<lambda>x. clash x j) (waiting q) \<or> cap \<le> length (waiting q)")
  case True
  then show ?thesis using enq_refused [OF assms(1) True] assms by simp
next
  case False
  then show ?thesis
    using enq_accepted [OF assms(1), of j] assms(2)
    by (auto simp: no_clash_def nth_append list_ex_iff less_Suc_eq)
qed

theorem fifo:
  assumes "invar q" "no_clash q" "queue_run es q = (acc, out, q')"
  shows "waiting q @ acc = out @ waiting q' \<and> invar q' \<and> no_clash q'"
  using assms
proof (induction es q arbitrary: acc out q' rule: queue_run.induct)
  case (1 q)
  then show ?case by simp
next
  case (2 j es q)
  obtain rc q1 where e: "enq j q = (rc, q1)" by fastforce
  obtain a o' q2 where r: "queue_run es q1 = (a, o', q2)" by (cases "queue_run es q1") auto
  have "invar q1 \<and> no_clash q1" using enq_no_clash [OF 2(2,3), of j] e by simp
  then have ih: "waiting q1 @ a = o' @ waiting q2 \<and> invar q2 \<and> no_clash q2"
    using 2(1) [OF e [symmetric] _ _ r] by blast
  show ?case
  proof (cases "list_ex (\<lambda>x. clash x j) (waiting q) \<or> cap \<le> length (waiting q)")
    case True
    then show ?thesis using enq_refused [OF 2(2) True] e ih r 2(4) by auto
  next
    case False
    then show ?thesis using enq_accepted [OF 2(2), of j] e ih r 2(4) by auto
  qed
next
  case (3 es q)
  show ?case
  proof (cases "waiting q")
    case Nil
    then show ?thesis using deq_empty [OF 3(3) Nil] 3 by simp
  next
    case (Cons x xs)
    then obtain q1 where d: "deq q = Some (x, q1)" "waiting q1 = xs" "invar q1"
      using deq_first [OF 3(3) Cons] by blast
    obtain a o' q2 where r: "queue_run es q1 = (a, o', q2)" by (cases "queue_run es q1") auto
    have nc: "\<not> clash ((x # xs) ! i) ((x # xs) ! j)" if "i < j" "j < length (x # xs)" for i j
      using 3(4) [unfolded no_clash_def Cons] that by blast
    have "no_clash q1"
      unfolding no_clash_def d(2)
    proof (intro conjI allI impI)
      show "length xs \<le> cap" using 3(4) Cons by (simp add: no_clash_def)
      fix i j
      assume "i < j" "j < length xs"
      then show "\<not> clash (xs ! i) (xs ! j)" using nc [of "Suc i" "Suc j"] by simp
    qed
    then have "waiting q1 @ a = o' @ waiting q2 \<and> invar q2 \<and> no_clash q2"
      using 3(2) [OF d(1) refl d(3) _ r] by blast
    then show ?thesis using 3(5) r d Cons by auto
  qed
qed

end

section \<open>The ring keeps the contract\<close>

definition ring_jobs :: "warmup_ring \<Rightarrow> WarmupJob list" where
  "ring_jobs q = map (\<lambda>i. g_warmup_queue q ! ((g_warmup_head q + i) mod WARMUP_QUEUE_MAX)) [0..<g_warmup_count q]"

definition ring_ok :: "warmup_ring \<Rightarrow> bool" where
  "ring_ok q \<longleftrightarrow> length (g_warmup_queue q) = WARMUP_QUEUE_MAX \<and> g_warmup_head q < WARMUP_QUEUE_MAX \<and>
     g_warmup_count q \<le> WARMUP_QUEUE_MAX \<and>
     g_warmup_tail q = (g_warmup_head q + g_warmup_count q) mod WARMUP_QUEUE_MAX"

lemma ring_enq_jobs:
  assumes "ring_ok q" "g_warmup_count q < WARMUP_QUEUE_MAX"
  shows "ring_jobs (q\<lparr>g_warmup_queue := (g_warmup_queue q)[g_warmup_tail q := j],
      g_warmup_tail := t, g_warmup_count := g_warmup_count q + 1\<rparr>) = ring_jobs q @ [j]"
proof -
  let ?h = "g_warmup_head q" and ?c = "g_warmup_count q" and ?n = WARMUP_QUEUE_MAX
  have "(?h + i) mod ?n \<noteq> (?h + ?c) mod ?n" if "i < ?c" for i
  proof
    assume "(?h + i) mod ?n = (?h + ?c) mod ?n"
    then have "?n dvd (?h + ?c) - (?h + i)" by (metis mod_eq_dvd_iff_nat add_le_cancel_left less_imp_le that)
    then show False using that assms(2) by (auto dest: dvd_imp_le)
  qed
  then have old: "((g_warmup_queue q)[g_warmup_tail q := j]) ! ((?h + i) mod ?n) = g_warmup_queue q ! ((?h + i) mod ?n)"
    if "i < ?c" for i
    using that assms(1) by (metis ring_ok_def nth_list_update_neq)
  have "((g_warmup_queue q)[g_warmup_tail q := j]) ! ((?h + ?c) mod ?n) = j"
    using assms(1) by (simp add: ring_ok_def WARMUP_QUEUE_MAX_def)
  then show ?thesis using old by (simp add: ring_jobs_def)
qed

lemma ring_deq_jobs:
  assumes "ring_ok q" "g_warmup_count q \<noteq> 0"
  shows "ring_jobs q = g_warmup_queue q ! g_warmup_head q #
    ring_jobs (q\<lparr>g_warmup_head := (g_warmup_head q + 1) mod WARMUP_QUEUE_MAX,
      g_warmup_count := g_warmup_count q - 1\<rparr>)"
proof -
  obtain c where c: "g_warmup_count q = Suc c" using assms(2) by (cases "g_warmup_count q") auto
  have "(Suc (g_warmup_head q) mod WARMUP_QUEUE_MAX + i) mod WARMUP_QUEUE_MAX
      = (g_warmup_head q + Suc i) mod WARMUP_QUEUE_MAX" for i
    by (metis add_Suc_right add_Suc_shift mod_add_left_eq)
  then show ?thesis
    using c assms(1)
    by (simp add: ring_jobs_def ring_ok_def upt_conv_Cons map_Suc_upt [symmetric] del: upt_Suc)
qed

lemma ring_enq_dup:
  "list_ex (\<lambda>i. same_index (g_warmup_queue q ! ((g_warmup_head q + i) mod WARMUP_QUEUE_MAX)) j) [0..<g_warmup_count q]
    = list_ex (\<lambda>x. same_index x j) (ring_jobs q)"
  by (simp add: ring_jobs_def list_ex_iff)

lemma length_ring_jobs [simp]: "length (ring_jobs q) = g_warmup_count q"
  by (simp add: ring_jobs_def)

interpretation warmup: job_queue warmup_enqueue "warmup_dequeue False" ring_jobs ring_ok WARMUP_QUEUE_MAX
  same_index
proof unfold_locales
  fix q j
  assume "ring_ok q" "list_ex (\<lambda>x. same_index x j) (ring_jobs q) \<or> WARMUP_QUEUE_MAX \<le> length (ring_jobs q)"
  then show "warmup_enqueue j q = (-1, q)"
    by (auto simp: warmup_enqueue_def ring_enq_dup)
next
  fix q j
  assume a: "ring_ok q" "\<not> list_ex (\<lambda>x. same_index x j) (ring_jobs q)" "length (ring_jobs q) < WARMUP_QUEUE_MAX"
  have "Suc ((g_warmup_head q + g_warmup_count q) mod WARMUP_QUEUE_MAX) mod WARMUP_QUEUE_MAX
      = Suc (g_warmup_head q + g_warmup_count q) mod WARMUP_QUEUE_MAX"
    by (simp add: mod_Suc_eq)
  then show "fst (warmup_enqueue j q) = 0 \<and> ring_jobs (snd (warmup_enqueue j q)) = ring_jobs q @ [j] \<and>
      ring_ok (snd (warmup_enqueue j q))"
    using a ring_enq_jobs [OF a(1), where j = j] by (simp add: warmup_enqueue_def ring_enq_dup ring_ok_def)
next
  fix q
  assume "ring_ok q" "ring_jobs q = []"
  then have "g_warmup_count q = 0" by (metis length_ring_jobs list.size(3))
  then show "warmup_dequeue False q = None"
    by (simp add: warmup_dequeue_def)
next
  fix q x xs
  assume a: "ring_ok q" "ring_jobs q = x # xs"
  then have c: "g_warmup_count q \<noteq> 0" by (metis length_ring_jobs list.size(3) list.distinct(1) length_0_conv)
  have "(Suc (g_warmup_head q) mod WARMUP_QUEUE_MAX + (g_warmup_count q - 1)) mod WARMUP_QUEUE_MAX
      = (g_warmup_head q + g_warmup_count q) mod WARMUP_QUEUE_MAX"
  proof -
    obtain n where "g_warmup_count q = Suc n" using c by (cases "g_warmup_count q") auto
    then show ?thesis by (simp add: mod_add_left_eq)
  qed
  then show "\<exists>q'. warmup_dequeue False q = Some (x, q') \<and> ring_jobs q' = xs \<and> ring_ok q'"
    using ring_deq_jobs [OF a(1) c] a c
    by (auto simp: warmup_dequeue_def ring_ok_def WARMUP_QUEUE_MAX_def)
qed

text \<open>
  Running events on the ring, as a top-level definition.
\<close>

fun warmup_run :: "WarmupJob queue_event list \<Rightarrow> warmup_ring \<Rightarrow> WarmupJob list \<times> WarmupJob list \<times> warmup_ring" where
  "warmup_run [] q = ([], [], q)"
| "warmup_run (Enq j # es) q =
     (case warmup_enqueue j q of (rc, q1) \<Rightarrow> case warmup_run es q1 of (acc, out, q2) \<Rightarrow>
        (if rc = 0 then j # acc else acc, out, q2))"
| "warmup_run (Deq # es) q =
     (case warmup_dequeue False q of None \<Rightarrow> warmup_run es q
      | Some (j, q1) \<Rightarrow> case warmup_run es q1 of (acc, out, q2) \<Rightarrow> (acc, j # out, q2))"

lemma warmup_run_eq: "warmup_run es q = warmup.queue_run es q"
  by (induction es q rule: warmup_run.induct)
    (auto split: option.split prod.split)

text \<open>
  C33. The ring is a first-in first-out queue. From an empty ring, whatever sequence of enqueues and
  dequeues the threads perform, the accepted jobs are the jobs handed out followed by the jobs still
  waiting, in order: none is lost, duplicated or reordered. At most 64 jobs wait, never two for the
  same index.
\<close>

theorem warmup_fifo:
  assumes "warmup_run es empty_ring = (acc, out, q')"
  shows "acc = out @ ring_jobs q' \<and> g_warmup_count q' \<le> WARMUP_QUEUE_MAX \<and>
    (\<forall>i j. i < j \<longrightarrow> j < g_warmup_count q' \<longrightarrow> \<not> same_index (ring_jobs q' ! i) (ring_jobs q' ! j))"
proof -
  have "ring_ok empty_ring" "ring_jobs empty_ring = []"
    by (simp_all add: ring_ok_def empty_ring_def ring_jobs_def WARMUP_QUEUE_MAX_def)
  then show ?thesis
    using warmup.fifo [of empty_ring es acc out q'] assms
    by (simp add: warmup_run_eq warmup.no_clash_def)
qed

definition sample_job :: "u32 \<Rightarrow> WarmupJob" where
  "sample_job i = \<lparr>j_db_oid = 1, j_index_oid = i, j_relfilenode = 0, j_table_oid = 0, j_from_cache_miss = 0\<rparr>"

theorem warmup_fifo_witness:
  "fst (warmup_run [Enq (sample_job 1), Enq (sample_job 2), Enq (sample_job 1), Deq] empty_ring)
    = fst (snd (warmup_run [Enq (sample_job 1), Enq (sample_job 2), Enq (sample_job 1), Deq] empty_ring))
      @ ring_jobs (snd (snd (warmup_run [Enq (sample_job 1), Enq (sample_job 2), Enq (sample_job 1), Deq] empty_ring)))"
  using warmup_fifo [of "[Enq (sample_job 1), Enq (sample_job 2), Enq (sample_job 1), Deq]"
      "fst r" "fst (snd r)" "snd (snd r)" for r] by simp

text \<open>
  The duplicate check sees only jobs that are waiting. A job a worker has dequeued and is still
  downloading is no longer in the ring, so the same index is accepted again and a second worker can
  download it at the same time; the comment on the check says queued or downloading.
\<close>

theorem warmup_requeue_while_downloading:
  assumes "ring_ok q" "warmup_dequeue False q = Some (job, q')"
    and "\<not> list_ex (\<lambda>x. same_index x job) (ring_jobs q')"
  shows "fst (warmup_enqueue job q') = 0 \<and> ring_jobs (snd (warmup_enqueue job q')) = ring_jobs q' @ [job]"
proof -
  have "ring_jobs q \<noteq> []" using warmup.deq_empty [OF assms(1)] assms(2) by auto
  then obtain x xs where x: "ring_jobs q = x # xs" by (meson neq_Nil_conv)
  from warmup.deq_first [OF assms(1) x] assms(2)
  have q': "ring_jobs q' = xs" "ring_ok q'" by auto
  have "length (ring_jobs q) \<le> WARMUP_QUEUE_MAX" using assms(1) by (simp add: ring_ok_def)
  then have "length (ring_jobs q') < WARMUP_QUEUE_MAX" using x q'(1) by simp
  then show ?thesis using warmup.enq_accepted [OF q'(2) assms(3)] by simp
qed

definition one_waiting :: warmup_ring where
  "one_waiting = empty_ring\<lparr>g_warmup_queue := (g_warmup_queue empty_ring)[0 := sample_job 1],
     g_warmup_tail := 1, g_warmup_count := 1\<rparr>"

theorem warmup_requeue_while_downloading_witness:
  "fst (warmup_enqueue (sample_job 1) (one_waiting\<lparr>g_warmup_head := 1, g_warmup_count := 0\<rparr>)) = 0 \<and>
   ring_jobs (snd (warmup_enqueue (sample_job 1) (one_waiting\<lparr>g_warmup_head := 1, g_warmup_count := 0\<rparr>)))
     = ring_jobs (one_waiting\<lparr>g_warmup_head := 1, g_warmup_count := 0\<rparr>) @ [sample_job 1]"
proof (rule warmup_requeue_while_downloading)
  show "ring_ok one_waiting"
    by (simp add: ring_ok_def one_waiting_def empty_ring_def WARMUP_QUEUE_MAX_def)
  show "warmup_dequeue False one_waiting
      = Some (sample_job 1, one_waiting\<lparr>g_warmup_head := 1, g_warmup_count := 0\<rparr>)"
    by (simp add: warmup_dequeue_def one_waiting_def empty_ring_def WARMUP_QUEUE_MAX_def)
  show "\<not> list_ex (\<lambda>x. same_index x (sample_job 1)) (ring_jobs (one_waiting\<lparr>g_warmup_head := 1, g_warmup_count := 0\<rparr>))"
    by (simp add: ring_jobs_def)
qed

end
