(* ===== verification/Warmup.thy ===== *)
theory Warmup
  imports Load_Inv Warmup_Queue
begin

text \<open>
  Background download of cold indexes and the start of the daemon: the three critical sections of
  \<open>warmup_worker_thread\<close> and the directory passes of \<open>startup_load_indexes\<close> of
  \<open>src/pg_cuvs_server.c\<close>. The download itself runs without the registry mutex; its effect
  is a parameter: whether it succeeded and the files it put into the index directory.
\<close>

section \<open>The worker\<close>

definition cold_is :: "u32 \<Rightarrow> u32 \<Rightarrow> ColdIndexEntry \<Rightarrow> bool" where
  "cold_is db idx c \<longleftrightarrow> c_valid c \<and> c_db_oid c = db \<and> c_index_oid c = idx"

definition cold_mark :: "u32 \<Rightarrow> u32 \<Rightarrow> warmup_state \<Rightarrow> daemon \<Rightarrow> daemon" where
  "cold_mark db idx w st =
    (case slot_of (cold_is db idx) (g_cold_indexes st) of
       None \<Rightarrow> st
     | Some i \<Rightarrow> st\<lparr>g_cold_indexes := (g_cold_indexes st)[i := (g_cold_indexes st ! i)\<lparr>c_warmup_state := w\<rparr>]\<rparr>)"

text \<open>First critical section: the job was taken from the queue.\<close>

definition warmup_start :: "WarmupJob \<Rightarrow> daemon \<Rightarrow> daemon" where
  "warmup_start job st = cold_mark (j_db_oid job) (j_index_oid job) WARMUP_DOWNLOADING st"

text \<open>The download, outside the mutex.\<close>

definition warmup_download :: "WarmupJob \<Rightarrow> (suffix \<rightharpoonup> bytes) \<Rightarrow> daemon \<Rightarrow> daemon" where
  "warmup_download job files st =
     st\<lparr>d_files := (\<lambda>(db, idx, x). if db = j_db_oid job \<and> idx = j_index_oid job \<and> files x \<noteq> None
          then files x else d_files st (db, idx, x))\<rparr>"

definition warmup_failed :: "WarmupJob \<Rightarrow> daemon \<Rightarrow> daemon" where
  "warmup_failed job st = cold_mark (j_db_oid job) (j_index_oid job) WARMUP_FAILED st"

text \<open>The statistics of the entry that became hot; \<open>ce\<close> is the cold entry, if there is one.\<close>

definition propagate_stats :: "ColdIndexEntry option \<Rightarrow> int \<Rightarrow> u32 \<Rightarrow> IndexEntry \<Rightarrow> IndexEntry" where
  "propagate_stats ce now dur_ms e = e\<lparr>e_warmup_state := WARMUP_HOT, e_last_warmup_at := now,
     e_warmup_duration_ms := dur_ms,
     e_download_count := (case ce of None \<Rightarrow> 0 | Some c \<Rightarrow> c_download_count c) + 1,
     e_cache_miss_count := (case ce of None \<Rightarrow> 0 | Some c \<Rightarrow> c_cache_miss_count c)\<rparr>"

text \<open>Last critical section, after a successful download, and the unlinks behind it.\<close>

definition warmup_finish :: "outside \<Rightarrow> u32 \<Rightarrow> WarmupJob \<Rightarrow> daemon \<Rightarrow> int \<times> daemon" where
  "warmup_finish out dur_ms job st =
    (let db = j_db_oid job; idx = j_index_oid job;
         target = slot_of (cold_is db idx) (g_cold_indexes st);
         st1 = cold_mark db idx WARMUP_LOADING st;
         (rc, st2) = load_index out db idx st1
     in if rc \<noteq> 0
        then (-1, case target of None \<Rightarrow> st2
            | Some i \<Rightarrow> st2\<lparr>g_cold_indexes := (g_cold_indexes st2)[i := (g_cold_indexes st2 ! i)\<lparr>c_warmup_state := WARMUP_FAILED\<rparr>]\<rparr>)
        else
          (let ce = map_option (\<lambda>i. g_cold_indexes st2 ! i) target;
               st3 = (case find_index db idx st2 of None \<Rightarrow> st2
                 | Some i \<Rightarrow> set_slot i (propagate_stats ce (d_now st2) dur_ms (g_indexes st2 ! i)) st2);
               st4 = (case target of None \<Rightarrow> st3
                 | Some i \<Rightarrow> st3\<lparr>g_cold_indexes := take i (g_cold_indexes st3) @ drop (Suc i) (g_cold_indexes st3)\<rparr>)
           in (0, st4\<lparr>d_files := (d_files st4)((db, idx, F_delta) := None, (db, idx, F_tombstone) := None,
                (db, idx, F_stale) := None)\<rparr>)))"

section \<open>Startup\<close>

text \<open>
  \<open>sscanf (name, "%u_%u.%15s", ...) == 3\<close> and the comparison of the tail: after the dot, white
  space is skipped and at most 15 other characters are read.
\<close>

definition scan_two :: "string \<Rightarrow> (u32 \<times> u32 \<times> string) option" where
  "scan_two s =
    (case scan_u s of
       None \<Rightarrow> None
     | Some (db, r1) \<Rightarrow>
        (case r1 of
           [] \<Rightarrow> None
         | c # r2 \<Rightarrow> if c \<noteq> CHR ''_'' then None
             else (case scan_u r2 of None \<Rightarrow> None | Some (idx, r3) \<Rightarrow> Some (db, idx, r3))))"

definition parse_sidecar_name :: "string \<Rightarrow> string \<Rightarrow> (u32 \<times> u32) option" where
  "parse_sidecar_name want s =
    (case scan_two s of
       None \<Rightarrow> None
     | Some (db, idx, r) \<Rightarrow>
        (case r of
           [] \<Rightarrow> None
         | c # r' \<Rightarrow>
             if c = CHR ''.'' \<and>
                take 15 (takeWhile (\<lambda>x. \<not> c_isspace x) (dropWhile c_isspace r')) = want \<and> want \<noteq> []
             then Some (db, idx) else None))"

definition load_unless_found :: "outside \<Rightarrow> (u32 \<times> u32) option \<Rightarrow> daemon \<Rightarrow> daemon" where
  "load_unless_found out p st =
    (case p of None \<Rightarrow> st
     | Some (db, idx) \<Rightarrow> if find_index db idx st = None then snd (load_index out db idx st) else st)"

text \<open>
  One name of the last pass. \<open>sscanf (name, "%u_%u.relfilenode", ...) != 2\<close> counts conversions
  only, so the suffix is not compared. \<open>read_relfilenode\<close> stands for the contents of the
  \<open>.relfilenode\<close> sidecar, 0 and 0 when it cannot be read.
\<close>

definition startup_cold :: "(u32 \<Rightarrow> u32 \<Rightarrow> u32 \<times> u32) \<Rightarrow> string \<Rightarrow> daemon \<times> warmup_ring \<Rightarrow> daemon \<times> warmup_ring" where
  "startup_cold read_relfilenode name s =
    (case scan_two name of
       None \<Rightarrow> s
     | Some (db, idx, r) \<Rightarrow>
        (let (st, q) = s in
         if find_index db idx st \<noteq> None then s
         else
           (let (rfn, tbl) = read_relfilenode db idx;
                cold = g_cold_indexes st;
                st1 = (if length cold < length (g_indexes st)
                  then st\<lparr>g_cold_indexes := cold @ [\<lparr>c_db_oid = db, c_index_oid = idx, c_relfilenode = rfn,
                    c_table_oid = tbl, c_warmup_state = WARMUP_QUEUED, c_last_warmup_at = 0,
                    c_warmup_duration_ms = 0, c_download_count = 0, c_cache_miss_count = 0,
                    c_gpu_device_id = 0, c_valid = True\<rparr>]\<rparr>
                  else st);
                (rc, q1) = warmup_enqueue \<lparr>j_db_oid = db, j_index_oid = idx, j_relfilenode = rfn,
                  j_table_oid = tbl, j_from_cache_miss = 0\<rparr> q
            in (st1, q1))))"

text \<open>The four passes; \<open>names\<close> is what \<open>readdir\<close> returns, in its order.\<close>

definition startup_load_indexes ::
  "outside \<Rightarrow> (u32 \<Rightarrow> u32 \<Rightarrow> u32 \<times> u32) \<Rightarrow> bool \<Rightarrow> string list \<Rightarrow> daemon \<times> warmup_ring \<Rightarrow> daemon \<times> warmup_ring" where
  "startup_load_indexes out read_relfilenode snapshots names s =
    (let (st, q) = s;
         st1 = fold (\<lambda>n d. case cuvs_parse_index_filename (Some n) of None \<Rightarrow> d
             | Some (db, idx) \<Rightarrow> snd (load_index out db idx d)) names st;
         st2 = fold (\<lambda>n. load_unless_found out (parse_sidecar_name ''shards'' n)) names st1;
         st3 = fold (\<lambda>n. load_unless_found out (parse_sidecar_name ''vectors'' n)) names st2
     in if \<not> snapshots then (st3, q)
        else fold (startup_cold read_relfilenode) names (st3, q))"

section \<open>Concurrent loading of one index\<close>

lemma load_flat_on_disk_twice:
  assumes "d_files st = d_files flat_on_disk" "g_n_indexes st < length (g_indexes st)"
  shows "\<exists>e. load_index calm_outside 1 12 st = (0, register_entry e st) \<and> entry_is 1 12 e"
proof -
  let ?e = "\<lambda>g. flat_entry calm_outside 1 12 sample_tids_header [65537] g st"
  have "\<exists>g. load_index calm_outside 1 12 st = (0, register_entry (?e g) st)"
    using assms sample_tids_read
    by (auto simp: load_index_def load_index_sharded_def load_flat_def flat_on_disk_def idle_daemon_def
        calm_outside_def sample_file_def Let_def) (simp_all add: sample_tids_header_def)
  moreover have "entry_is 1 12 (?e g)" for g
    using flat_entry_ok(2) by (simp add: describes_def)
  ultimately show ?thesis by blast
qed

text \<open>
  The worker does not look whether the index is already resident. When a search miss loads the
  index between the end of the download and the worker's critical section, the worker loads it a
  second time: two entries of one index, and after the index is dropped one of them still answers.
\<close>

theorem warmup_duplicates_entry:
  "\<exists>st. warmup_finish calm_outside 5 (sample_job 12) (snd (load_index calm_outside 1 12 flat_on_disk)) = (0, st) \<and>
    \<not> one_entry_per_index st \<and> find_index 1 12 (snd (handle_drop 1 12 st)) \<noteq> None"
proof -
  have d0: "g_n_indexes flat_on_disk = 0" "length (g_indexes flat_on_disk) = 4" "g_cold_indexes flat_on_disk = []"
    by (simp_all add: flat_on_disk_def idle_daemon_def)
  obtain e1 where l1: "load_index calm_outside 1 12 flat_on_disk = (0, register_entry e1 flat_on_disk)"
    "entry_is 1 12 e1"
    using load_flat_on_disk_twice [of flat_on_disk] d0 by auto
  let ?s1 = "register_entry e1 flat_on_disk"
  have d1: "d_files ?s1 = d_files flat_on_disk" "g_n_indexes ?s1 = 1" "length (g_indexes ?s1) = 4"
    "g_cold_indexes ?s1 = []" "live_entries ?s1 = [e1]"
    using d0 register_live [of flat_on_disk e1] by (simp_all add: register_entry_def set_slot_def live_entries_def)
  obtain e2 where l2: "load_index calm_outside 1 12 ?s1 = (0, register_entry e2 ?s1)" "entry_is 1 12 e2"
    using load_flat_on_disk_twice [of ?s1] d1 by auto
  let ?s2 = "register_entry e2 ?s1"
  have d2: "g_n_indexes ?s2 = 2" "length (g_indexes ?s2) = 4" "g_cold_indexes ?s2 = []" "live_entries ?s2 = [e1, e2]"
    using d1 register_live [of ?s1 e2] by (simp_all add: register_entry_def set_slot_def)
  have f2: "find_index 1 12 ?s2 = Some 0"
    using d2(4) l1(2) by (simp add: find_index_def)
  define st where "st = (let s = set_slot 0 (propagate_stats None (d_now ?s2) 5 (g_indexes ?s2 ! 0)) ?s2
    in s\<lparr>d_files := (d_files s)((1, 12, F_delta) := None, (1, 12, F_tombstone) := None, (1, 12, F_stale) := None)\<rparr>)"
  have fin: "warmup_finish calm_outside 5 (sample_job 12) ?s1 = (0, st)"
    using d1 l2(1) f2 by (simp add: warmup_finish_def cold_mark_def sample_job_def st_def Let_def)
  have g0: "g_indexes ?s2 ! 0 = e1"
    using d2 by (metis live_entries_def nth_Cons_0 nth_take zero_less_numeral)
  let ?p = "propagate_stats None (d_now ?s2) 5 e1"
  have "live_entries st = (live_entries ?s2)[0 := ?p]"
    by (simp add: st_def live_entries_def set_slot_def Let_def g0 take_update_swap)
  then have live: "live_entries st = [?p, e2]" using d2(4) by simp
  have p: "entry_is 1 12 ?p" using l1(2) by (simp add: propagate_stats_def entry_is_def)
  have "\<not> one_entry_per_index st"
    using p l2(2) by (simp add: one_entry_per_index_def live entry_is_def)
  moreover have "find_index 1 12 (snd (handle_drop 1 12 st)) \<noteq> None"
  proof -
    have n: "0 < g_n_indexes st" "g_n_indexes st \<le> length (g_indexes st)"
      using d2 by (simp_all add: st_def set_slot_def Let_def)
    have "drop_resident 1 12 st = drop_entry 0 st"
      using p by (simp add: drop_resident_def find_index_def live)
    then have "live_entries (snd (handle_drop 1 12 st)) = live_entries (drop_entry 0 st)"
      by (simp only: live_entries_def handle_drop_state)
    also have "\<dots> = [e2]" using drop_entry_live(1) [OF n] live by simp
    finally show ?thesis using l2(2) by (simp add: find_index_def)
  qed
  ultimately show ?thesis using fin l1(1) by auto
qed

section \<open>Duplicate cold entries\<close>

text \<open>
  The last startup pass registers an index once per file, not once per index: it neither checks
  the suffix nor the cold registry, so any two files of an index that is not resident, none of
  them a \<open>.relfilenode\<close>, give two cold entries.
\<close>

theorem startup_cold_duplicates:
  assumes "scan_two n1 = Some (db, idx, r1)" "scan_two n2 = Some (db, idx, r2)" "find_index db idx st = None"
    and "length (g_cold_indexes st) + 2 \<le> length (g_indexes st)"
  shows "length (filter (cold_is db idx) (g_cold_indexes (fst (fold (startup_cold rd) [n1, n2] (st, q)))))
    = length (filter (cold_is db idx) (g_cold_indexes st)) + 2"
proof -
  obtain rfn tbl where r: "rd db idx = (rfn, tbl)" by fastforce
  obtain q1 rc1 where 1: "warmup_enqueue \<lparr>j_db_oid = db, j_index_oid = idx, j_relfilenode = rfn,
      j_table_oid = tbl, j_from_cache_miss = 0\<rparr> q = (rc1, q1)" by fastforce
  obtain q2 rc2 where 2: "warmup_enqueue \<lparr>j_db_oid = db, j_index_oid = idx, j_relfilenode = rfn,
      j_table_oid = tbl, j_from_cache_miss = 0\<rparr> q1 = (rc2, q2)" by fastforce
  have "find_index db idx (st\<lparr>g_cold_indexes := c\<rparr>) = None" for c
    using assms(3) by (simp add: find_index_def live_entries_def)
  then show ?thesis
    using assms r 1 2 by (simp add: startup_cold_def Let_def cold_is_def)
qed

theorem startup_cold_duplicates_witness:
  "length (filter (cold_is 1 2) (g_cold_indexes (fst (fold (startup_cold (\<lambda>_ _. (0, 0)))
      [''1_2.tids'', ''1_2.delta''] (idle_daemon, empty_ring)))))
    = length (filter (cold_is 1 2) (g_cold_indexes idle_daemon)) + 2"
proof (rule startup_cold_duplicates)
  show "scan_two ''1_2.tids'' = Some (1, 2, ''.tids'')"
    by (simp add: scan_two_def scan_u_def c_isspace_def c_isdigit_def digits_value_def Let_def)
  show "scan_two ''1_2.delta'' = Some (1, 2, ''.delta'')"
    by (simp add: scan_two_def scan_u_def c_isspace_def c_isdigit_def digits_value_def Let_def)
qed (simp_all add: find_index_def live_entries_def idle_daemon_def)

end
