(* ===== verification/Search_Exact.thy ===== *)
theory Search_Exact
  imports Load_Inv Append_Log
begin

text \<open>
  Exact filtered search by streaming (\<open>gather_chunk_pread\<close>, \<open>search_filter_exact\<close>
  of \<open>src/pg_cuvs_server.c\<close>): the TIDs of the filter are mapped to row numbers with the
  reverse map, the rows are read from the \<open>.vectors\<close> file chunk by chunk, each chunk is
  searched by brute force on the GPU, and a running top-k is kept. The GPU's brute-force search is
  the parameter \<open>bf\<close>: rows, query, how many results and the metric give the result list, or
  \<open>None\<close> when it fails.
\<close>

section \<open>Status codes\<close>

definition CUVS_STATUS_OK :: u32 where "CUVS_STATUS_OK = 0"
definition CUVS_STATUS_ERROR :: u32 where "CUVS_STATUS_ERROR = 1"
definition CUVS_STATUS_NO_VECTORS :: u32 where "CUVS_STATUS_NO_VECTORS = 10"

lemmas status_codes = CUVS_STATUS_OK_def CUVS_STATUS_ERROR_def CUVS_STATUS_NO_VECTORS_def

type_synonym vec = "u32 list"
type_synonym gpu_hit = "int \<times> u32"
type_synonym brute_force = "vec list \<Rightarrow> vec \<Rightarrow> nat \<Rightarrow> u32 \<Rightarrow> gpu_hit list option"

section \<open>The code\<close>

text \<open>Row \<open>i\<close> of the sidecar: \<open>dim\<close> floats behind the 40-byte header.\<close>

definition pread_row :: "bytes \<Rightarrow> nat \<Rightarrow> nat \<Rightarrow> vec option" where
  "pread_row f dim i = map_option (\<lambda>bs. map le_word (chunks 4 dim bs)) (pread (40 + i * (dim * 4)) (dim * 4) f)"

primrec gather_chunk_pread :: "bytes \<Rightarrow> nat \<Rightarrow> nat list \<Rightarrow> vec list option" where
  "gather_chunk_pread f dim [] = Some []"
| "gather_chunk_pread f dim (i # is) =
    (case pread_row f dim i of
       None \<Rightarrow> None
     | Some r \<Rightarrow> map_option (\<lambda>rs. r # rs) (gather_chunk_pread f dim is))"

text \<open>The filter loop: skip a TID equal to the one before it, look the others up.\<close>

primrec filter_items :: "u64 list \<Rightarrow> u32 list \<Rightarrow> int \<Rightarrow> u64 option \<Rightarrow> u64 list \<Rightarrow> nat list" where
  "filter_items rev_tids rev_item_ids n_vecs prev [] = []"
| "filter_items rev_tids rev_item_ids n_vecs prev (want # ts) =
    (let rest = filter_items rev_tids rev_item_ids n_vecs (Some want) ts in
     if prev = Some want then rest
     else case bs_closed rev_tids want 0 (n_vecs - 1) of
       None \<Rightarrow> rest
     | Some mid \<Rightarrow>
        (let item_id = sint (rev_item_ids ! mid)
         in if 0 \<le> item_id \<and> item_id < n_vecs then nat item_id # rest else rest))"

text \<open>The results of one chunk, with row numbers turned into TIDs.\<close>

definition chunk_hits :: "u64 list \<Rightarrow> int \<Rightarrow> nat list \<Rightarrow> gpu_hit list \<Rightarrow> CuvsResult list" where
  "chunk_hits tids n_vecs chunk res =
    concat (map (\<lambda>(row, d).
      if 0 \<le> row \<and> row < int (length chunk) \<and> int (chunk ! nat row) < n_vecs
      then [\<lparr>r_tid = tids ! (chunk ! nat row), r_distance = d\<rparr>] else []) res)"

function filter_chunks ::
  "brute_force \<Rightarrow> bytes \<Rightarrow> nat \<Rightarrow> u64 list \<Rightarrow> int \<Rightarrow> vec \<Rightarrow> u32 \<Rightarrow> nat \<Rightarrow> nat \<Rightarrow> nat list \<Rightarrow> CuvsResult list
    \<Rightarrow> u32 \<times> CuvsResult list" where
  "filter_chunks bf f dim tids n_vecs query metric k cap items best =
    (if items = [] \<or> cap = 0 then (CUVS_STATUS_OK, best)
     else let chunk = take cap items; search_k = min k (length chunk) in
       case gather_chunk_pread f dim chunk of
         None \<Rightarrow> (CUVS_STATUS_ERROR, best)
       | Some rows \<Rightarrow>
          (case bf rows query search_k metric of
             None \<Rightarrow> (CUVS_STATUS_ERROR, best)
           | Some res \<Rightarrow>
              filter_chunks bf f dim tids n_vecs query metric k cap (drop cap items)
                (topk_all k (chunk_hits tids n_vecs chunk (take search_k res)) best)))"
  by pat_completeness auto
termination
  by (relation "measure (\<lambda>(bf, f, dim, tids, n_vecs, query, metric, k, cap, items, best). length items)") auto

declare filter_chunks.simps [simp del]

definition search_filter_exact ::
  "brute_force \<Rightarrow> (nat \<Rightarrow> bool) \<Rightarrow> bytes option \<Rightarrow> IndexEntry \<Rightarrow> vec \<Rightarrow> u64 list \<Rightarrow> nat \<Rightarrow> int
    \<Rightarrow> u32 \<times> CuvsResult list" where
  "search_filter_exact bf mem vectors e query filter_tids k chunk_cap =
    (case (e_rev_tids e, e_rev_item_ids e) of
       (Some rt, Some ri) \<Rightarrow>
         if e_n_vecs e \<le> 0 then (CUVS_STATUS_NO_VECTORS, [])
         else if \<not> mem (length filter_tids * 4) then (CUVS_STATUS_ERROR, [])
         else let items = filter_items rt ri (e_n_vecs e) None filter_tids in
           if items = [] then (CUVS_STATUS_OK, [])
           else (case vectors of
              None \<Rightarrow> (CUVS_STATUS_NO_VECTORS, [])
            | Some f \<Rightarrow>
               (case pread 0 40 f of
                  None \<Rightarrow> (CUVS_STATUS_NO_VECTORS, [])
                | Some hb \<Rightarrow>
                   (let vh = vectors_header_of hb in
                    if vh_magic vh \<noteq> CUVS_VECTORS_MAGIC \<or> vh_dim vh \<noteq> e_dim e \<or> vh_metric vh \<noteq> e_metric e
                      \<or> sint (vh_n_vecs vh) \<noteq> e_n_vecs e then (CUVS_STATUS_NO_VECTORS, [])
                    else let cap = min (nat (max 1 chunk_cap)) (length items) in
                      if \<not> (mem (cap * (unat (e_dim e) * 4)) \<and> mem (min k cap * 16))
                      then (CUVS_STATUS_ERROR, [])
                      else filter_chunks bf f (unat (e_dim e)) (case e_tids e of None \<Rightarrow> [] | Some ts \<Rightarrow> ts)
                        (e_n_vecs e) query (e_metric e) k cap items [])))
     | _ \<Rightarrow> (CUVS_STATUS_NO_VECTORS, []))"

section \<open>The reverse map\<close>

interpretation rev_order: key_comparator cmp_rev_tid "\<lambda>_. True" "\<lambda>p. uint (fst p)"
  by unfold_locales (auto simp: cmp_rev_tid_def word_less_def word_le_def)

text \<open>What a reverse map must say of the TIDs of an index.\<close>

definition rev_map_ok :: "u64 list \<Rightarrow> u64 list \<Rightarrow> u32 list \<Rightarrow> bool" where
  "rev_map_ok tids rt ri \<longleftrightarrow> length rt = length tids \<and> length ri = length tids \<and> sorted rt \<and>
     set rt = set tids \<and>
     (\<forall>j < length tids. unat (ri ! j) < length tids \<and> tids ! unat (ri ! j) = rt ! j)"

lemma build_rev_tid_map_ok:
  assumes "e_tids e = Some tids" "e_n_vecs e = int (length tids)" "tids \<noteq> []" "length tids < 2 ^ 31"
    and "\<And>n. o_mem out n"
  obtains rt ri where "e_rev_tids (build_rev_tid_map out e) = Some rt"
    "e_rev_item_ids (build_rev_tid_map out e) = Some ri" "rev_map_ok tids rt ri"
proof -
  let ?ps = "map (\<lambda>i. (tids ! i, of_nat i :: u32)) [0..<length tids]"
  let ?qs = "qsort cmp_rev_tid ?ps"
  have rt: "e_rev_tids (build_rev_tid_map out e) = Some (map fst ?qs)"
    "e_rev_item_ids (build_rev_tid_map out e) = Some (map snd ?qs)"
    using assms by (simp_all add: build_rev_tid_map_def Let_def)
  have len: "length ?qs = length tids" by simp
  have mem: "unat (snd p) < length tids \<and> tids ! unat (snd p) = fst p" if "p \<in> set ?qs" for p
    using that assms(4) by (auto simp: unat_of_nat)
  have "sorted (map (\<lambda>p. uint (fst p)) ?qs)"
    by (rule rev_order.sorted_qsort) simp
  then have "sorted (map fst ?qs)"
    by (simp add: sorted_map word_le_def)
  moreover have "set (map fst ?qs) = set tids"
    by (auto simp: in_set_conv_nth image_iff) (metis fst_conv atLeastLessThan_iff le0)
  ultimately have "rev_map_ok tids (map fst ?qs) (map snd ?qs)"
    unfolding rev_map_ok_def using len mem nth_mem [of _ ?qs] by auto
  then show ?thesis using rt that by blast
qed

lemma sint_item_id:
  assumes "unat (w :: u32) < 2 ^ 31"
  shows "sint w = int (unat w)"
proof -
  have "uint w < 2 ^ 31"
    using assms by (simp add: unat_eq_nat_uint nat_less_iff del: nat_uint_eq)
  then have "signed_take_bit 31 (uint w) = uint w"
    by (intro signed_take_bit_int_eq_self) (use uint_ge_0 [of w] in linarith)+
  then show ?thesis
    by (simp add: sint_uint)
qed

lemma rev_lookup:
  assumes "rev_map_ok tids rt ri" "distinct tids" "length tids < 2 ^ 31"
  shows "case bs_closed rt t 0 (int (length tids) - 1) of
     None \<Rightarrow> t \<notin> set tids
   | Some j \<Rightarrow> (\<exists>i < length tids. tids ! i = t \<and> sint (ri ! j) = int i)"
proof (cases "bs_closed rt t 0 (int (length tids) - 1)")
  case None
  have "t \<notin> set rt"
  proof
    assume "t \<in> set rt"
    then obtain j where "j < length rt" "rt ! j = t" by (auto simp: in_set_conv_nth)
    then show False
      using bs_closed_complete [of rt 0 "int (length tids) - 1" j t] assms(1) None
      by (auto simp: rev_map_ok_def)
  qed
  then show ?thesis using None assms(1) by (simp add: rev_map_ok_def)
next
  case (Some j)
  from bs_closed_Some [OF this] have j: "j < length tids" "rt ! j = t" by auto
  then have "unat (ri ! j) < length tids" "tids ! unat (ri ! j) = t"
    using assms(1) by (auto simp: rev_map_ok_def)
  moreover have "sint (ri ! j) = int (unat (ri ! j))"
    using calculation(1) assms(3) sint_item_id [of "ri ! j"] by simp
  ultimately show ?thesis using Some by auto
qed

lemma filter_items_ok:
  assumes "rev_map_ok tids rt ri" "distinct tids" "length tids < 2 ^ 31" "sorted ts"
    and "\<And>p t. prev = Some p \<Longrightarrow> t \<in> set ts \<Longrightarrow> p \<le> t"
  shows "distinct (filter_items rt ri (int (length tids)) prev ts) \<and>
    set (filter_items rt ri (int (length tids)) prev ts)
      = {i. i < length tids \<and> tids ! i \<in> set ts \<and> prev \<noteq> Some (tids ! i)}"
  using assms(4,5)
proof (induction ts arbitrary: prev)
  case Nil
  then show ?case by simp
next
  case (Cons t ts)
  let ?n = "int (length tids)"
  let ?rest = "filter_items rt ri ?n (Some t) ts"
  have ih: "distinct ?rest" "set ?rest = {i. i < length tids \<and> tids ! i \<in> set ts \<and> tids ! i \<noteq> t}"
    using Cons.IH [of "Some t"] Cons.prems(1) by auto
  have pn: "prev \<noteq> Some x" if "prev \<noteq> Some t" "x \<in> set ts" for x
  proof
    assume "prev = Some x"
    then have "x \<le> t" using Cons.prems(2) [of x t] by simp
    moreover have "t \<le> x" using Cons.prems(1) that(2) by simp
    ultimately show False using that(1) \<open>prev = Some x\<close> by simp
  qed
  show ?case
  proof (cases "prev = Some t")
    case True
    then show ?thesis using ih by (auto simp: Let_def)
  next
    case np: False
    show ?thesis
    proof (cases "bs_closed rt t 0 (?n - 1)")
      case None
      then have "t \<notin> set tids" using rev_lookup [OF assms(1-3), of t] by simp
      then have "tids ! i \<noteq> t" if "i < length tids" for i using nth_mem [OF that] by metis
      then show ?thesis using ih np pn None by (auto simp: Let_def)
    next
      case (Some j)
      then obtain i where i: "i < length tids" "tids ! i = t" "sint (ri ! j) = int i"
        using rev_lookup [OF assms(1-3), of t] by auto
      have eq: "filter_items rt ri ?n prev (t # ts) = i # ?rest"
        using np Some i by (simp add: Let_def)
      have only: "x = i" if "x < length tids" "tids ! x = t" for x
        using that i assms(2) by (metis nth_eq_iff_index_eq)
      have "set (i # ?rest) = {x. x < length tids \<and> tids ! x \<in> set (t # ts) \<and> prev \<noteq> Some (tids ! x)}"
      proof (intro set_eqI iffI)
        fix x
        assume "x \<in> set (i # ?rest)"
        then show "x \<in> {x. x < length tids \<and> tids ! x \<in> set (t # ts) \<and> prev \<noteq> Some (tids ! x)}"
          using ih(2) i np pn by auto
      next
        fix x
        assume "x \<in> {x. x < length tids \<and> tids ! x \<in> set (t # ts) \<and> prev \<noteq> Some (tids ! x)}"
        then show "x \<in> set (i # ?rest)"
          using ih(2) only by auto
      qed
      moreover have "i \<notin> set ?rest" using ih(2) i by simp
      ultimately show ?thesis unfolding eq using ih(1) by simp
    qed
  qed
qed

section \<open>Chunking does not matter\<close>

definition row_at :: "bytes \<Rightarrow> nat \<Rightarrow> nat \<Rightarrow> vec" where
  "row_at f dim i = map le_word (chunks 4 dim (take (dim * 4) (drop (40 + i * (dim * 4)) f)))"

lemma gather_rows:
  assumes "\<forall>i \<in> set is. i < n" "40 + n * (dim * 4) \<le> length f"
  shows "gather_chunk_pread f dim is = Some (map (row_at f dim) is)"
  using assms(1)
proof (induction "is")
  case Nil
  then show ?case by simp
next
  case (Cons i "is")
  have "Suc i * (dim * 4) \<le> n * (dim * 4)"
    using Cons.prems by (intro mult_le_mono1) simp
  then have "40 + i * (dim * 4) + dim * 4 \<le> length f"
    using assms(2) by simp
  then show ?case using Cons by (simp add: pread_row_def pread_def row_at_def)
qed

text \<open>
  The documented behaviour of the GPU's brute-force search: it succeeds, the distance of a result is
  the distance \<open>dist\<close> of its row, and the results are the \<open>k\<close> nearest rows, nearest
  first; under the inner product the largest values are the nearest.
\<close>

definition dist_key :: "u32 \<Rightarrow> u32 \<Rightarrow> int" where
  "dist_key metric d = (if metric = CUVS_METRIC_IP then - f32_key d else f32_key d)"

definition exact_bf :: "(vec \<Rightarrow> u32) \<Rightarrow> brute_force \<Rightarrow> vec \<Rightarrow> u32 \<Rightarrow> bool" where
  "exact_bf dist bf query metric \<longleftrightarrow>
    (\<forall>rows k. k \<le> length rows \<longrightarrow>
      (\<exists>ids. bf rows query k metric = Some (map (\<lambda>i. (int i, dist (rows ! i))) ids) \<and>
        set ids \<subseteq> {..<length rows} \<and>
        map (\<lambda>i. dist_key metric (dist (rows ! i))) ids
          = take k (sort (map (\<lambda>r. dist_key metric (dist r)) rows))))"

lemma chunk_hits_map:
  assumes "set ids \<subseteq> {..<length chunk}" "\<forall>i \<in> set chunk. int i < n_vecs"
  shows "chunk_hits tids n_vecs chunk (map (\<lambda>i. (int i, d i)) ids)
    = map (\<lambda>i. \<lparr>r_tid = tids ! (chunk ! i), r_distance = d i\<rparr>) ids"
  using assms(1)
proof (induction ids)
  case Nil
  then show ?case by (simp add: chunk_hits_def)
next
  case (Cons i ids)
  then have "int (chunk ! i) < n_vecs" using assms(2) by simp
  then show ?case using Cons by (simp add: chunk_hits_def)
qed

lemma sort_perm: "mset xs = mset ys \<Longrightarrow> sort xs = sort (ys :: int list)"
  by (rule properties_for_sort) simp_all

lemma filter_chunks_exact:
  fixes dist :: "vec \<Rightarrow> u32"
  defines "key \<equiv> \<lambda>f dim i. f32_key (dist (row_at f dim i))"
  assumes "exact_bf dist bf query metric" "metric \<noteq> CUVS_METRIC_IP \<or> cap = 1" "0 < k" "0 < cap"
    and "40 + n * (dim * 4) \<le> length f" "\<forall>i \<in> set items. i < n" "\<forall>i < n. \<not> f32_nan (dist (row_at f dim i))"
    and "\<forall>x \<in> set best. proper x" "sorted (map res_key best)" "length best \<le> k"
  shows "\<exists>best'. filter_chunks bf f dim tids (int n) query metric k cap items best = (CUVS_STATUS_OK, best') \<and>
    map res_key best' = take k (sort (map (key f dim) items @ map res_key best)) \<and>
    set best' \<subseteq> set best \<union> (\<lambda>i. \<lparr>r_tid = tids ! i, r_distance = dist (row_at f dim i)\<rparr>) ` set items"
  using assms(2-)
proof (induction bf f dim tids "int n" query metric k cap items best rule: filter_chunks.induct)
  case (1 bf f dim tids query metric k cap items best)
  show ?case
  proof (cases "items = []")
    case True
    then show ?thesis using "1.prems" by (simp add: filter_chunks.simps sorted_sort_id)
  next
    case False
    let ?chunk = "take cap items"
    let ?sk = "min k (length ?chunk)"
    let ?rows = "map (row_at f dim) ?chunk"
    have cn: "\<forall>i \<in> set ?chunk. i < n" using "1.prems"(6) by (auto dest: in_set_takeD)
    have g: "gather_chunk_pread f dim ?chunk = Some ?rows"
      using gather_rows [OF cn "1.prems"(5)] .
    have "?sk \<le> length ?rows" by (simp only: length_map min.cobounded2)
    from "1.prems"(1) [unfolded exact_bf_def, rule_format, OF this]
    obtain ids where ids: "bf ?rows query ?sk metric = Some (map (\<lambda>i. (int i, dist (?rows ! i))) ids)"
      "set ids \<subseteq> {..<length ?rows}"
      "map (\<lambda>i. dist_key metric (dist (?rows ! i))) ids = take ?sk (sort (map (\<lambda>r. dist_key metric (dist r)) ?rows))"
      by blast
    have len: "length ids = ?sk"
      using arg_cong [OF ids(3), of length] by (auto simp: min_def)
    define hits where "hits = map (\<lambda>i. \<lparr>r_tid = tids ! (?chunk ! i), r_distance = dist (row_at f dim (?chunk ! i))\<rparr>) ids"
    have row: "?rows ! i = row_at f dim (?chunk ! i)" if "i \<in> set ids" for i
      using that ids(2) by auto
    have hits: "chunk_hits tids (int n) ?chunk (take ?sk (map (\<lambda>i. (int i, dist (?rows ! i))) ids)) = hits"
    proof -
      have "chunk_hits tids (int n) ?chunk (map (\<lambda>i. (int i, dist (?rows ! i))) ids)
          = map (\<lambda>i. \<lparr>r_tid = tids ! (?chunk ! i), r_distance = dist (?rows ! i)\<rparr>) ids"
        using ids(2) cn by (intro chunk_hits_map) auto
      also have "\<dots> = hits" unfolding hits_def using row by (intro map_cong) simp_all
      finally show ?thesis using len by simp
    qed
    have src: "set hits \<subseteq> (\<lambda>i. \<lparr>r_tid = tids ! i, r_distance = dist (row_at f dim i)\<rparr>) ` set ?chunk"
    proof
      fix x
      assume "x \<in> set hits"
      then obtain i where i: "i \<in> set ids"
        "x = \<lparr>r_tid = tids ! (?chunk ! i), r_distance = dist (row_at f dim (?chunk ! i))\<rparr>"
        unfolding hits_def set_map by blast
      have "?chunk ! i \<in> set ?chunk" using i(1) ids(2) by (intro nth_mem) auto
      then show "x \<in> (\<lambda>i. \<lparr>r_tid = tids ! i, r_distance = dist (row_at f dim i)\<rparr>) ` set ?chunk"
        unfolding i(2) by (rule imageI)
    qed
    have pr: "\<forall>x \<in> set hits. proper x"
      using src cn "1.prems"(7) by (auto simp: proper_def)
    let ?C = "map (key f dim) ?chunk"
    have hk: "map res_key hits = take k (sort ?C)"
    proof -
      have sk: "take ?sk (sort ?C) = take k (sort ?C)" by (simp add: min_def)
      show ?thesis
      proof (cases "metric = CUVS_METRIC_IP")
        case False
        have "map res_key hits = map (\<lambda>i. dist_key metric (dist (?rows ! i))) ids"
          unfolding hits_def using row False by (simp add: dist_key_def)
        also have "\<dots> = take ?sk (sort ?C)"
          unfolding ids(3) using False by (simp add: dist_key_def key_def comp_def)
        finally show ?thesis using sk by simp
      next
        case True
        then have "cap = 1" using "1.prems"(2) by simp
        then obtain x where x: "?chunk = [x]" using \<open>items \<noteq> []\<close> by (cases items) auto
        then have "length ids = 1" using len "1.prems"(3) by simp
        then obtain j where "ids = [j]" by (cases ids) auto
        then have "ids = [0]" using ids(2) x by simp
        then show ?thesis using x "1.prems"(3) by (simp add: hits_def key_def)
      qed
    qed
    let ?b = "topk_all k hits best"
    have bk: "map res_key ?b = take k (sort (?C @ map res_key best))"
    proof -
      have "\<forall>x \<in> set hits \<union> set best. proper x" using pr "1.prems"(8) by blast
      then show ?thesis
        using topk_all_keys [of k hits best] "1.prems"(3,9,10) hk take_sort_append [of k ?C "map res_key best"]
        by simp
    qed
    have bp: "\<forall>x \<in> set ?b. proper x" "sorted (map res_key ?b)" "length ?b \<le> k"
      using set_topk_all [of k hits best] pr "1.prems"(8) apply blast
      using bk apply (simp add: sorted_wrt_take)
      using arg_cong [OF bk, of length] by simp
    have rest: "\<forall>i \<in> set (drop cap items). i < n" using "1.prems"(6) by (auto dest: in_set_dropD)
    have step: "filter_chunks bf f dim tids (int n) query metric k cap items best
        = filter_chunks bf f dim tids (int n) query metric k cap (drop cap items) ?b"
      using False "1.prems"(4) g ids(1) hits
      by (simp add: filter_chunks.simps [of bf f dim tids "int n" query metric k cap items] Let_def)
    have cond: "\<not> (items = [] \<or> cap = 0)" using False "1.prems"(4) by simp
    obtain best' where b': "filter_chunks bf f dim tids (int n) query metric k cap (drop cap items) ?b = (CUVS_STATUS_OK, best')"
      "map res_key best' = take k (sort (map (key f dim) (drop cap items) @ map res_key ?b))"
      "set best' \<subseteq> set ?b \<union> (\<lambda>i. \<lparr>r_tid = tids ! i, r_distance = dist (row_at f dim i)\<rparr>) ` set (drop cap items)"
      using "1.hyps" [OF cond refl refl g ids(1), unfolded hits, OF "1.prems"(1-5) rest "1.prems"(7) bp]
      by (elim exE conjE) (rule that)
    have "map res_key best' = take k (sort (map (key f dim) (drop cap items) @ (?C @ map res_key best)))"
      using b'(2) bk take_sort_append2 by metis
    also have "sort (map (key f dim) (drop cap items) @ (?C @ map res_key best))
        = sort (map (key f dim) items @ map res_key best)"
    proof (rule sort_perm)
      have m: "mset (map (key f dim) items) = mset ?C + mset (map (key f dim) (drop cap items))"
        by (metis append_take_drop_id map_append mset_append)
      show "mset (map (key f dim) (drop cap items) @ (?C @ map res_key best)) = mset (map (key f dim) items @ map res_key best)"
        unfolding mset_append m by (simp only: ac_simps)
    qed
    finally have keys: "map res_key best' = take k (sort (map (key f dim) items @ map res_key best))" .
    have "set best' \<subseteq> set best \<union> (\<lambda>i. \<lparr>r_tid = tids ! i, r_distance = dist (row_at f dim i)\<rparr>) ` set items"
      using b'(3) set_topk_all [of k hits best] src set_take_subset [of cap items] set_drop_subset [of cap items]
      by blast
    then show ?thesis using step b'(1) keys by simp
  qed
qed

lemma sort_map_set_eq:
  assumes "distinct xs" "distinct ys" "set xs = set ys"
  shows "sort (map g xs) = sort (map (g :: nat \<Rightarrow> int) ys)"
  using assms by (intro sort_perm) (simp add: set_eq_iff_mset_eq_distinct)

text \<open>What the daemon must hold and find on disk for an exact filtered search.\<close>

definition streamable :: "IndexEntry \<Rightarrow> u64 list \<Rightarrow> bytes \<Rightarrow> bool" where
  "streamable e tids f \<longleftrightarrow> e_tids e = Some tids \<and> e_n_vecs e = int (length tids) \<and> tids \<noteq> [] \<and>
     length tids < 2 ^ 31 \<and> distinct tids \<and>
     (\<exists>rt ri. e_rev_tids e = Some rt \<and> e_rev_item_ids e = Some ri \<and> rev_map_ok tids rt ri) \<and>
     40 + length tids * (unat (e_dim e) * 4) \<le> length f \<and>
     (let vh = vectors_header_of (take 40 f) in vh_magic vh = CUVS_VECTORS_MAGIC \<and> vh_dim vh = e_dim e \<and>
        vh_metric vh = e_metric e \<and> sint (vh_n_vecs vh) = e_n_vecs e)"

lemma search_filter_exact_keys:
  assumes "streamable e tids f" "e_metric e \<noteq> CUVS_METRIC_IP \<or> chunk_cap = 1" "exact_bf dist bf query (e_metric e)"
    and "\<forall>i < length tids. \<not> f32_nan (dist (row_at f (unat (e_dim e)) i))"
    and "sorted filter_tids" "\<forall>n. mem n" "0 < k"
  shows "\<exists>best. search_filter_exact bf mem (Some f) e query filter_tids k chunk_cap = (CUVS_STATUS_OK, best) \<and>
    map res_key best = take k (sort (map (\<lambda>i. f32_key (dist (row_at f (unat (e_dim e)) i)))
      (filter (\<lambda>i. tids ! i \<in> set filter_tids) [0..<length tids]))) \<and>
    (\<forall>r \<in> set best. \<exists>i < length tids. tids ! i \<in> set filter_tids \<and>
      r = \<lparr>r_tid = tids ! i, r_distance = dist (row_at f (unat (e_dim e)) i)\<rparr>)"
proof -
  obtain rt ri where rv: "e_rev_tids e = Some rt" "e_rev_item_ids e = Some ri" "rev_map_ok tids rt ri"
    using assms(1) by (auto simp: streamable_def)
  have s: "e_tids e = Some tids" "e_n_vecs e = int (length tids)" "tids \<noteq> []" "length tids < 2 ^ 31"
    "distinct tids" "40 + length tids * (unat (e_dim e) * 4) \<le> length f"
    using assms(1) by (auto simp: streamable_def)
  let ?items = "filter_items rt ri (int (length tids)) None filter_tids"
  let ?want = "filter (\<lambda>i. tids ! i \<in> set filter_tids) [0..<length tids]"
  let ?key = "\<lambda>i. f32_key (dist (row_at f (unat (e_dim e)) i))"
  have it: "distinct ?items" "set ?items = set ?want"
    using filter_items_ok [OF rv(3) s(5,4) assms(5), of None] by auto
  have perm: "sort (map ?key ?items) = sort (map ?key ?want)"
    using it by (intro sort_map_set_eq) simp_all
  show ?thesis
  proof (cases "?items = []")
    case True
    then have "?want = []" using it(2) by (metis set_empty)
    then show ?thesis
      using True rv s assms(6) by (simp add: search_filter_exact_def)
  next
    case False
    let ?cap = "min (nat (max 1 chunk_cap)) (length ?items)"
    have cap: "0 < ?cap" using False by simp
    have ip: "e_metric e \<noteq> CUVS_METRIC_IP \<or> ?cap = 1"
      using assms(2) False by (auto simp: Suc_le_eq)
    have "pread 0 40 f = Some (take 40 f)" using s(6) by (simp add: pread_def)
    then have eq: "search_filter_exact bf mem (Some f) e query filter_tids k chunk_cap
      = filter_chunks bf f (unat (e_dim e)) tids (int (length tids)) query (e_metric e) k ?cap ?items []"
      using False rv s assms(1,6) by (simp add: search_filter_exact_def streamable_def Let_def)
    obtain best where b: "filter_chunks bf f (unat (e_dim e)) tids (int (length tids)) query (e_metric e) k ?cap ?items []
        = (CUVS_STATUS_OK, best)" "map res_key best = take k (sort (map ?key ?items))"
      "set best \<subseteq> (\<lambda>i. \<lparr>r_tid = tids ! i, r_distance = dist (row_at f (unat (e_dim e)) i)\<rparr>) ` set ?items"
      using filter_chunks_exact [OF assms(3) ip assms(7) cap s(6), of ?items "[]" tids] it(2) assms(4) by auto
    then show ?thesis
      using eq perm it(2) by auto
  qed
qed

text \<open>
  C31. Streaming filtered search is exact, whatever the chunk size. For the L2 and cosine metrics, if
  the GPU's brute force returns the nearest rows of each chunk, the answer has status OK, its
  distances are the \<open>k\<close> smallest over exactly the rows whose TID is in the filter, in
  order, and every result is such a row with its own distance.
\<close>

theorem search_filter_exact_correct:
  assumes "streamable e tids f" "e_metric e \<noteq> CUVS_METRIC_IP" "exact_bf dist bf query (e_metric e)"
    and "\<forall>i < length tids. \<not> f32_nan (dist (row_at f (unat (e_dim e)) i))"
    and "sorted filter_tids" "\<forall>n. mem n" "0 < k"
  shows "\<exists>best. search_filter_exact bf mem (Some f) e query filter_tids k chunk_cap = (CUVS_STATUS_OK, best) \<and>
    map res_key best = take k (sort (map (\<lambda>i. f32_key (dist (row_at f (unat (e_dim e)) i)))
      (filter (\<lambda>i. tids ! i \<in> set filter_tids) [0..<length tids]))) \<and>
    (\<forall>r \<in> set best. \<exists>i < length tids. tids ! i \<in> set filter_tids \<and>
      r = \<lparr>r_tid = tids ! i, r_distance = dist (row_at f (unat (e_dim e)) i)\<rparr>)"
  using search_filter_exact_keys [of e tids f chunk_cap dist bf query filter_tids mem k] assms by blast

text \<open>
  For the inner product it is not exact. The GPU returns inner products unnegated, the largest
  first, but the running top-k keeps the smallest values: with chunks of one row the answer is the
  \<open>k\<close> rows of the filter with the smallest inner products, the farthest ones.
\<close>

theorem search_filter_exact_ip_farthest:
  assumes "streamable e tids f" "e_metric e = CUVS_METRIC_IP" "exact_bf dist bf query (e_metric e)"
    and "\<forall>i < length tids. \<not> f32_nan (dist (row_at f (unat (e_dim e)) i))"
    and "sorted filter_tids" "\<forall>n. mem n" "0 < k"
  shows "\<exists>best. search_filter_exact bf mem (Some f) e query filter_tids k 1 = (CUVS_STATUS_OK, best) \<and>
    map res_key best = take k (sort (map (\<lambda>i. f32_key (dist (row_at f (unat (e_dim e)) i)))
      (filter (\<lambda>i. tids ! i \<in> set filter_tids) [0..<length tids])))"
  using search_filter_exact_keys [of e tids f 1 dist bf query filter_tids mem k] assms by blast

section \<open>A concrete search\<close>

text \<open>Brute force by sorting the row numbers, as the CPU stand-in for the GPU library does.\<close>

definition sorting_bf :: "(vec \<Rightarrow> u32) \<Rightarrow> brute_force" where
  "sorting_bf dist rows query k metric =
    Some (map (\<lambda>i. (int i, dist (rows ! i)))
      (take k (sort_key (\<lambda>i. dist_key metric (dist (rows ! i))) [0..<length rows])))"

lemma sorting_bf_exact: "exact_bf dist (sorting_bf dist) query metric"
  unfolding exact_bf_def
proof (intro allI impI)
  fix rows :: "vec list" and k
  assume "k \<le> length rows"
  let ?g = "\<lambda>i. dist_key metric (dist (rows ! i))"
  let ?ids = "take k (sort_key ?g [0..<length rows])"
  have "map ?g (sort_key ?g [0..<length rows]) = sort (map ?g [0..<length rows])"
    by (intro properties_for_sort [symmetric]) simp_all
  also have "map ?g [0..<length rows] = map (\<lambda>r. dist_key metric (dist r)) rows"
    by (intro nth_equalityI) simp_all
  finally have "map ?g ?ids = take k (sort (map (\<lambda>r. dist_key metric (dist r)) rows))"
    by (simp flip: take_map)
  moreover have "set ?ids \<subseteq> {..<length rows}"
    using set_take_subset [of k "sort_key ?g [0..<length rows]"] by auto
  ultimately show "\<exists>ids. sorting_bf dist rows query k metric = Some (map (\<lambda>i. (int i, dist (rows ! i))) ids) \<and>
        set ids \<subseteq> {..<length rows} \<and>
        map ?g ids = take k (sort (map (\<lambda>r. dist_key metric (dist r)) rows))"
    by (intro exI [of _ ?ids]) (simp add: sorting_bf_def)
qed

text \<open>Three rows of one float, 1.0, 2.0 and 3.0, with TIDs 10, 20, 30; the distance is the float.\<close>

definition sample_dist :: "vec \<Rightarrow> u32" where
  "sample_dist r = (if f32_nan (hd r) then 0 else hd r)"

definition sample_vectors :: "u32 \<Rightarrow> bytes" where
  "sample_vectors metric = vectors_header_bytes \<lparr>vh_magic = CUVS_VECTORS_MAGIC, vh_version = CUVS_VECTORS_VERSION,
      vh_n_vecs = 3, vh_dim = 1, vh_metric = metric, vh_body_crc32 = 0, vh_base_tids_crc32 = 0, vh_reserved = 0\<rparr>
    @ concat (map (le_bytes 4) [0x3F800000, 0x40000000, 0x40400000 :: u32])"

definition sample_entry :: "u32 \<Rightarrow> IndexEntry" where
  "sample_entry metric = zero_entry\<lparr>e_dim := 1, e_metric := metric, e_n_vecs := 3, e_tids := Some [10, 20, 30],
     e_rev_tids := Some [10, 20, 30], e_rev_item_ids := Some [0, 1, 2], e_valid := True\<rparr>"

lemma sample_streamable: "streamable (sample_entry metric) [10, 20, 30] (sample_vectors metric)"
proof -
  have "rev_map_ok [10, 20, 30] [10, 20, 30] [0, 1, 2]"
    by (auto simp: rev_map_ok_def less_Suc_eq)
  moreover have "length (sample_vectors metric) = 52"
    by (simp add: sample_vectors_def vectors_hdr.length_enc)
  moreover have "vectors_header_of (take 40 (sample_vectors metric)) = \<lparr>vh_magic = CUVS_VECTORS_MAGIC,
      vh_version = CUVS_VECTORS_VERSION, vh_n_vecs = 3, vh_dim = 1, vh_metric = metric, vh_body_crc32 = 0,
      vh_base_tids_crc32 = 0, vh_reserved = 0\<rparr>"
    by (simp add: sample_vectors_def vectors_hdr.length_enc vectors_hdr.dec_enc)
  ultimately show ?thesis
    by (simp add: streamable_def sample_entry_def Let_def)
qed

lemma sample_dist_proper: "\<not> f32_nan (sample_dist r)"
  by (simp add: sample_dist_def f32_nan_def f32_mag_def)

theorem search_filter_exact_correct_witness:
  "\<exists>best. search_filter_exact (sorting_bf sample_dist) (\<lambda>_. True) (Some (sample_vectors 0)) (sample_entry 0)
      [0] [10, 30] 1 2 = (CUVS_STATUS_OK, best) \<and>
    map res_key best = take 1 (sort (map (\<lambda>i. f32_key (sample_dist (row_at (sample_vectors 0) (unat (e_dim (sample_entry 0))) i)))
      (filter (\<lambda>i. [10, 20, 30] ! i \<in> set [10, 30 :: u64]) [0..<length [10, 20, 30 :: u64]])))"
proof -
  have m: "e_metric (sample_entry 0) \<noteq> CUVS_METRIC_IP"
    by (simp add: sample_entry_def CUVS_METRIC_IP_def)
  show ?thesis
    using search_filter_exact_correct [OF sample_streamable m sorting_bf_exact,
        where dist = sample_dist and filter_tids = "[10, 30]" and mem = "\<lambda>_. True" and k = 1 and query = "[0]" and chunk_cap = 2]
      sample_dist_proper by auto
qed

theorem search_filter_exact_ip_farthest_witness:
  "\<exists>best. search_filter_exact (sorting_bf sample_dist) (\<lambda>_. True) (Some (sample_vectors CUVS_METRIC_IP))
      (sample_entry CUVS_METRIC_IP) [0] [10, 30] 1 1 = (CUVS_STATUS_OK, best) \<and>
    map res_key best = take 1 (sort (map (\<lambda>i. f32_key (sample_dist (row_at (sample_vectors CUVS_METRIC_IP)
        (unat (e_dim (sample_entry CUVS_METRIC_IP))) i)))
      (filter (\<lambda>i. [10, 20, 30] ! i \<in> set [10, 30 :: u64]) [0..<length [10, 20, 30 :: u64]])))"
proof -
  have m: "e_metric (sample_entry CUVS_METRIC_IP) = CUVS_METRIC_IP"
    by (simp add: sample_entry_def)
  show ?thesis
    using search_filter_exact_ip_farthest [OF sample_streamable m sorting_bf_exact,
        where dist = sample_dist and filter_tids = "[10, 30]" and mem = "\<lambda>_. True" and k = 1 and query = "[0]"]
      sample_dist_proper by auto
qed

end
