(* ===== verification/Gpu_Cache.thy ===== *)
theory Gpu_Cache
  imports Search_Exact Pending_Merge
begin

text \<open>
  The GPU copies of files the daemon keeps beside an index: the brute-force index over the pending
  \<open>.delta\<close> rows (\<open>refresh_delta_cache\<close>), over the full \<open>.vectors\<close> matrix
  (\<open>refresh_main_bf_cache\<close>) and, for a sharded index, over each shard's slice of it
  (\<open>refresh_shard_bf_caches\<close>), of \<open>src/pg_cuvs_server.c\<close>. Each function works on
  the entry in slot \<open>i\<close> under the registry mutex. What the GPU library answers is the record
  \<open>gpu_lib\<close>.
\<close>

section \<open>The GPU library\<close>

text \<open>
  A search answers its return code and the candidates it wrote, each the number of a row (the pad
  value is -1) and the bits of its distance; a handle may be NULL. A filtered search gets the bit
  set of excluded rows.
\<close>

record gpu_lib =
  gl_bf_build :: "u32 list \<Rightarrow> nat \<Rightarrow> u32 \<Rightarrow> u32 \<Rightarrow> u32 \<Rightarrow> u32 \<Rightarrow> bool"
  gl_bf_search :: "handle option \<Rightarrow> vec \<Rightarrow> nat \<Rightarrow> u32 \<Rightarrow> int \<times> gpu_hit list"
  gl_bf_filtered :: "handle option \<Rightarrow> vec \<Rightarrow> nat \<Rightarrow> u32 list \<Rightarrow> u32 \<Rightarrow> int \<times> gpu_hit list"
  gl_cagra_search :: "handle option \<Rightarrow> vec \<Rightarrow> nat \<Rightarrow> u32 \<Rightarrow> u32 \<Rightarrow> u32 \<Rightarrow> int \<times> gpu_hit list"
  gl_cagra_filtered ::
    "handle option \<Rightarrow> vec \<Rightarrow> nat \<Rightarrow> u32 list \<Rightarrow> u32 \<Rightarrow> u32 \<Rightarrow> u32 \<Rightarrow> int \<times> gpu_hit list"
  gl_hnsw_load :: "bytes option \<Rightarrow> u32 \<Rightarrow> u32 \<Rightarrow> u32 \<Rightarrow> bool"
  gl_hnsw_search :: "handle option \<Rightarrow> vec \<Rightarrow> nat \<Rightarrow> int \<times> gpu_hit list"
  gl_brute_force :: brute_force

text \<open>The non-evicting admission test the caches share.\<close>

definition vram_spare :: "outside \<Rightarrow> u32 \<Rightarrow> u64 \<Rightarrow> daemon \<Rightarrow> bool" where
  "vram_spare out dg needed st \<longleftrightarrow>
     \<not> (0 < g_max_vram_per_gpu st ! unat dg
         \<and> total_vram_used (int (unat dg)) st + needed > g_max_vram_per_gpu st ! unat dg) \<and>
     needed \<le> gpu_free_vram_bytes out (int (unat dg)) st"

section \<open>The pending rows\<close>

definition delta_fail :: "IndexEntry \<Rightarrow> IndexEntry" where
  "delta_fail e = e\<lparr>e_delta_tids := None, e_delta_vecs_host := None, e_delta_n_cached := 0,
     e_delta_generation := 0\<rparr>"

text \<open>
  The checks up to the generation: the header of a \<open>.delta\<close> that belongs to the index and
  its current base, or \<open>None\<close>.
\<close>

definition delta_source :: "bytes \<Rightarrow> bytes option \<Rightarrow> IndexEntry \<Rightarrow> CuvsDeltaHeader option" where
  "delta_source f tids e =
    (case cuvs_delta_read_header f of
       None \<Rightarrow> None
     | Some hdr \<Rightarrow>
        (if cuvs_delta_validate hdr (int (length f) - 32) \<noteq> 0 \<or> dh_dim hdr \<noteq> e_dim e \<or> dh_metric hdr \<noteq> e_metric e
         then None
         else case tids of
           None \<Rightarrow> None
         | Some tf \<Rightarrow>
            (if length tf < 32 then None
             else let th = tids_header_of (take 32 tf) in
               if th_magic th \<noteq> CUVS_TIDS_MAGIC \<or> th_body_crc32 th \<noteq> dh_base_tids_crc32 hdr then None
               else Some hdr)))"

text \<open>
  Putting a built index over \<open>rows\<close> into the entry. The two host buffers of the entry are
  taken as unchanged when an allocation fails; in the source one of the two may already have been
  moved by \<open>realloc\<close> then, and the entry keeps the old address.
\<close>

definition delta_install ::
  "gpu_lib \<Rightarrow> nat \<Rightarrow> CuvsDeltaHeader \<Rightarrow> u64 \<Rightarrow> u64 list \<Rightarrow> u32 list \<Rightarrow> IndexEntry \<Rightarrow> IndexEntry \<Rightarrow> daemon \<Rightarrow> daemon" where
  "delta_install gl i hdr needed tids vecs e_built e_unbuilt st =
    (if gl_bf_build gl vecs (unat (dh_n_rows hdr)) (dh_dim hdr) (dh_metric hdr) 0 (delta_gpu_of e_built)
     then let (h, st') = gpu_alloc st in
       set_slot i (e_built\<lparr>e_delta_idx := Some h, e_delta_tids := Some tids, e_delta_vecs_host := Some vecs,
         e_n_delta := sint (dh_n_rows hdr), e_delta_n_cached := sint (dh_n_rows hdr),
         e_delta_vram_bytes := needed\<rparr>) st'
     else set_slot i e_unbuilt st)"

definition refresh_delta_cache :: "outside \<Rightarrow> gpu_lib \<Rightarrow> nat \<Rightarrow> daemon \<Rightarrow> daemon" where
  "refresh_delta_cache out gl i st =
    (let e = g_indexes st ! i; path = (e_db_oid e, e_index_oid e, F_delta) in
     case d_files st path of
       None \<Rightarrow> (let (e', st') = free_delta_cache e st in set_slot i e' st')
     | Some f \<Rightarrow>
        if d_mtime st path = e_delta_mtime e then st
        else
          (let prev_gen = e_delta_generation e; prev_cached = e_delta_n_cached e;
               e1 = e\<lparr>e_delta_idx := None, e_n_delta := 0, e_delta_vram_bytes := 0, e_delta_mtime := d_mtime st path\<rparr>;
               st1 = set_slot i e1 (gpu_free (e_delta_idx e) st);
               fail = set_slot i (delta_fail e1) st1
           in case delta_source f (d_files st (e_db_oid e, e_index_oid e, F_tids)) e of
             None \<Rightarrow> fail
           | Some hdr \<Rightarrow>
              (let dim = dh_dim hdr; n = dh_n_rows hdr;
                   needed = n * (ucast dim * 4 + 8);
                   e2 = e1\<lparr>e_delta_generation := dh_base_tids_crc32 hdr\<rparr>;
                   st2 = set_slot i e2 st1
               in if n = 0 then fail
                  else if \<not> vram_spare out (delta_gpu_of e) needed st2 then fail
                  else if dh_base_tids_crc32 hdr = prev_gen \<and> sint n > prev_cached
                    \<and> e_delta_vecs_host e \<noteq> None \<and> e_delta_tids e \<noteq> None
                  then
                    (if \<not> (o_mem out (unat n * unat dim * 4) \<and> o_mem out (unat n * 8)
                         \<and> o_mem out (cuvs_delta_record_bytes dim)) then st2
                     else case delta_read_rows dim f (nat prev_cached) (nat (sint n - prev_cached)) of
                       None \<Rightarrow> st2
                     | Some rows \<Rightarrow>
                        (let tids = take (nat prev_cached) (the (e_delta_tids e)) @ map fst rows;
                             vecs = take (nat prev_cached * unat dim) (the (e_delta_vecs_host e)) @ concat (map snd rows)
                         in delta_install gl i hdr needed tids vecs e2
                              (e2\<lparr>e_delta_tids := Some tids, e_delta_vecs_host := Some vecs\<rparr>) st2))
                  else
                    (if \<not> (o_mem out (unat n * unat dim * 4) \<and> o_mem out (unat n * 8)
                         \<and> o_mem out (cuvs_delta_record_bytes dim)) then st2
                     else case delta_read_rows dim f 0 (unat n) of
                       None \<Rightarrow> st2
                     | Some rows \<Rightarrow>
                        delta_install gl i hdr needed (map fst rows) (concat (map snd rows)) e2 e2 st2))))"

section \<open>The full matrix\<close>

text \<open>The checks on the \<open>.vectors\<close> file: shape and generation.\<close>

definition vectors_source ::
  "(nat \<Rightarrow> bool) \<Rightarrow> bytes \<Rightarrow> bytes option \<Rightarrow> IndexEntry \<Rightarrow> (CuvsVectorsHeader \<times> u32 list) option" where
  "vectors_source mem f tids e =
    (case cuvs_vectors_read mem f of
       None \<Rightarrow> None
     | Some (vh, vecs) \<Rightarrow>
        (if vh_dim vh \<noteq> e_dim e \<or> vh_metric vh \<noteq> e_metric e \<or> sint (vh_n_vecs vh) \<noteq> e_n_vecs e then None
         else case tids of
           None \<Rightarrow> None
         | Some tf \<Rightarrow>
            (if length tf < 32 then None
             else let th = tids_header_of (take 32 tf) in
               if th_magic th \<noteq> CUVS_TIDS_MAGIC \<or> th_body_crc32 th \<noteq> vh_base_tids_crc32 vh then None
               else Some (vh, vecs))))"

definition refresh_main_bf_cache :: "outside \<Rightarrow> gpu_lib \<Rightarrow> u32 \<Rightarrow> nat \<Rightarrow> daemon \<Rightarrow> daemon" where
  "refresh_main_bf_cache out gl want_precision i st =
    (let e = g_indexes st ! i; path = (e_db_oid e, e_index_oid e, F_vectors) in
     case d_files st path of
       None \<Rightarrow> (let (e', st') = free_main_bf_cache e st in set_slot i e' st')
     | Some f \<Rightarrow>
        if e_main_bf_idx e \<noteq> None \<and> d_mtime st path = e_main_bf_mtime e \<and> e_bf_precision e = want_precision then st
        else
          (let (e0, st0) = free_main_bf_cache e st;
               e1 = e0\<lparr>e_main_bf_mtime := d_mtime st path, e_bf_precision := want_precision\<rparr>;
               st1 = set_slot i e1 st0
           in case vectors_source (o_mem out) f (d_files st (e_db_oid e, e_index_oid e, F_tids)) e of
             None \<Rightarrow> st1
           | Some (vh, vecs) \<Rightarrow>
              (let needed = vh_n_vecs vh * ucast (vh_dim vh) * (if want_precision = 1 then 2 else 4) in
               if \<not> vram_spare out (delta_gpu_of e) needed st1 then st1
               else if \<not> gl_bf_build gl vecs (unat (vh_n_vecs vh)) (vh_dim vh) (vh_metric vh) want_precision (delta_gpu_of e) then st1
               else let (h, st2) = gpu_alloc st1 in
                 set_slot i (e1\<lparr>e_main_bf_idx := Some h, e_main_bf_n := sint (vh_n_vecs vh),
                   e_main_bf_generation := vh_base_tids_crc32 vh, e_main_bf_vram_bytes := needed\<rparr>) st2)))"

section \<open>The shards\<close>

text \<open>The build loop: shard \<open>s\<close> of the entry in slot \<open>i\<close>; False is the roll-back.\<close>

fun build_shard_bfs ::
  "outside \<Rightarrow> gpu_lib \<Rightarrow> CuvsVectorsHeader \<Rightarrow> u32 list \<Rightarrow> u32 \<Rightarrow> nat \<Rightarrow> nat \<Rightarrow> nat \<Rightarrow> daemon \<Rightarrow> bool \<times> daemon" where
  "build_shard_bfs out gl vh vecs prec i s 0 st = (True, st)"
| "build_shard_bfs out gl vh vecs prec i s (Suc n) st =
    (let e = g_indexes st ! i; ss = (case e_shards e of None \<Rightarrow> [] | Some x \<Rightarrow> x); sh = ss ! s;
         dev = se_gpu_device_id sh;
         needed = of_int (se_n_vecs sh) * ucast (vh_dim vh) * (if prec = 1 then 2 else 4)
     in if \<not> vram_spare out dev needed st then (False, st)
        else if \<not> gl_bf_build gl (drop (nat (se_tid_offset sh) * unat (vh_dim vh)) vecs) (nat (se_n_vecs sh))
            (vh_dim vh) (vh_metric vh) prec dev then (False, st)
        else let (h, st1) = gpu_alloc st;
                 e' = e\<lparr>e_shards := Some (ss[s := sh\<lparr>se_bf_idx := Some h, se_bf_vram_bytes := needed\<rparr>])\<rparr>
          in build_shard_bfs out gl vh vecs prec i (Suc s) n (set_slot i e' st1))"

definition refresh_shard_bf_caches :: "outside \<Rightarrow> gpu_lib \<Rightarrow> u32 \<Rightarrow> nat \<Rightarrow> daemon \<Rightarrow> bool \<times> daemon" where
  "refresh_shard_bf_caches out gl want_precision i st =
    (let e = g_indexes st ! i; path = (e_db_oid e, e_index_oid e, F_vectors) in
     if \<not> is_sharded e \<or> e_shards e = None then (False, st)
     else case d_files st path of
       None \<Rightarrow> (let (e', st') = free_shard_bf_caches e st in (False, set_slot i (e'\<lparr>e_main_bf_mtime := 0\<rparr>) st'))
     | Some f \<Rightarrow>
        if d_mtime st path = e_main_bf_mtime e \<and> e_bf_precision e = want_precision
          \<and> list_all (\<lambda>s. se_bf_idx s \<noteq> None) (shard_list e) then (True, st)
        else
          (let (e0, st0) = free_shard_bf_caches e st;
               e1 = e0\<lparr>e_main_bf_mtime := d_mtime st path, e_bf_precision := want_precision\<rparr>;
               st1 = set_slot i e1 st0
           in case vectors_source (o_mem out) f (d_files st (e_db_oid e, e_index_oid e, F_tids)) e of
             None \<Rightarrow> (False, st1)
           | Some (vh, vecs) \<Rightarrow>
              (let (ok, st2) = build_shard_bfs out gl vh vecs want_precision i 0 (nat (e_shard_count e)) st1 in
               if ok then (True, st2)
               else let (e', st3) = free_shard_bf_caches (g_indexes st2 ! i) st2 in (False, set_slot i e' st3))))"

section \<open>The delta cache follows the file\<close>

lemma delta_read_rows_add:
  "delta_read_rows dim f i (m + n) =
    (case delta_read_rows dim f i m of
       None \<Rightarrow> None
     | Some xs \<Rightarrow> map_option (\<lambda>ys. xs @ ys) (delta_read_rows dim f (i + m) n))"
proof (induction m arbitrary: i)
  case 0
  then show ?case by (cases "delta_read_rows dim f i n") simp_all
next
  case (Suc m)
  then show ?case
    by (simp split: option.split)
qed

lemma delta_read_rows_length:
  "delta_read_rows dim f i n = Some rows \<Longrightarrow> length rows = n \<and> (\<forall>r \<in> set rows. length (snd r) = unat dim)"
  by (induction n arbitrary: i rows) (fastforce split: option.splits)+

lemma length_concat_rows:
  "\<forall>r \<in> set rows. length (snd r) = d \<Longrightarrow> length (concat (map snd rows)) = length rows * d"
  by (induction rows) auto

lemma set_slot_nth [simp]: "i < length (g_indexes st) \<Longrightarrow> g_indexes (set_slot i e st) ! i = e"
  and set_slot_length [simp]: "length (g_indexes (set_slot i e st)) = length (g_indexes st)"
  and gpu_alloc_slots [simp]: "g_indexes (snd (gpu_alloc st)) = g_indexes st"
  by (simp_all add: set_slot_def gpu_alloc_def)

text \<open>
  What the file holds, as the backend would read it: the tuple ids and vectors of all rows the
  header counts.
\<close>

definition delta_rows :: "bytes \<Rightarrow> u32 \<Rightarrow> (u64 \<times> u32 list) list option" where
  "delta_rows f dim = delta_read_rows dim f 0 (unat (dh_n_rows (delta_header_of (take 32 f))))"

lemma delta_source_header:
  assumes "delta_source f tids e = Some hdr"
  shows "hdr = delta_header_of (take 32 f)" "dh_dim hdr = e_dim e" "0 \<le> sint (dh_n_rows hdr)"
    "sint (dh_n_rows hdr) \<le> CUVS_TIDS_MAX_VECS"
  using assms
  by (auto simp: delta_source_def cuvs_delta_read_header_def cuvs_delta_validate_def fread_def Let_def
      split: option.splits if_splits)

text \<open>
  What a refresh of a changed file makes of the entry. \<open>base\<close> is the entry with its GPU index
  dropped and the new time recorded; the rows come from the incremental path, behind the host copy,
  or from a full read, and \<open>index_over\<close> is the entry once the GPU has built an index over them.
\<close>

definition index_over :: "IndexEntry \<Rightarrow> u64 list \<Rightarrow> u32 list \<Rightarrow> int \<Rightarrow> handle \<Rightarrow> u64 \<Rightarrow> IndexEntry" where
  "index_over e ts vs n h bytes = e\<lparr>e_delta_idx := Some h, e_delta_tids := Some ts, e_delta_vecs_host := Some vs,
     e_n_delta := n, e_delta_n_cached := n, e_delta_vram_bytes := bytes\<rparr>"

lemma delta_install_over:
  assumes "i < length (g_indexes st)"
  shows "g_indexes (delta_install gl i hdr needed tids vecs eb eu st) ! i = eu \<or>
    (\<exists>h. g_indexes (delta_install gl i hdr needed tids vecs eb eu st) ! i = index_over eb tids vecs (sint (dh_n_rows hdr)) h needed)"
  using assms by (auto simp: delta_install_def gpu_alloc_def index_over_def)

lemma refresh_delta_cache_outcome:
  fixes st :: daemon and i :: nat and out :: outside and gl :: gpu_lib
  defines "e \<equiv> g_indexes st ! i"
  defines "path \<equiv> (e_db_oid e, e_index_oid e, F_delta)"
  defines "e' \<equiv> g_indexes (refresh_delta_cache out gl i st) ! i"
  defines "base \<equiv> e\<lparr>e_delta_idx := None, e_n_delta := 0, e_delta_vram_bytes := 0, e_delta_mtime := d_mtime st path\<rparr>"
  assumes "i < length (g_indexes st)" "d_files st path = Some f" "d_mtime st path \<noteq> e_delta_mtime e"
  obtains "e' = delta_fail base"
  | hdr where "delta_source f (d_files st (e_db_oid e, e_index_oid e, F_tids)) e = Some hdr"
      "e' = base\<lparr>e_delta_generation := dh_base_tids_crc32 hdr\<rparr>"
  | hdr rows ts vs ts' vs' where "delta_source f (d_files st (e_db_oid e, e_index_oid e, F_tids)) e = Some hdr"
      "e_delta_tids e = Some ts" "e_delta_vecs_host e = Some vs" "e_delta_n_cached e < int (unat (dh_n_rows hdr))"
      "delta_read_rows (e_dim e) f (nat (e_delta_n_cached e)) (nat (int (unat (dh_n_rows hdr)) - e_delta_n_cached e)) = Some rows"
      "ts' = take (nat (e_delta_n_cached e)) ts @ map fst rows"
      "vs' = take (nat (e_delta_n_cached e) * unat (e_dim e)) vs @ concat (map snd rows)"
      "e' = base\<lparr>e_delta_generation := dh_base_tids_crc32 hdr, e_delta_tids := Some ts', e_delta_vecs_host := Some vs'\<rparr> \<or>
       (\<exists>h b. e' = index_over (base\<lparr>e_delta_generation := dh_base_tids_crc32 hdr\<rparr>) ts' vs' (int (unat (dh_n_rows hdr))) h b)"
  | hdr rows where "delta_source f (d_files st (e_db_oid e, e_index_oid e, F_tids)) e = Some hdr"
      "delta_read_rows (e_dim e) f 0 (unat (dh_n_rows hdr)) = Some rows"
      "e' = base\<lparr>e_delta_generation := dh_base_tids_crc32 hdr\<rparr> \<or>
       (\<exists>h b. e' = index_over (base\<lparr>e_delta_generation := dh_base_tids_crc32 hdr\<rparr>) (map fst rows) (concat (map snd rows))
          (int (unat (dh_n_rows hdr))) h b)"
proof -
  define st1 where "st1 = set_slot i base (gpu_free (e_delta_idx e) st)"
  have i1: "i < length (g_indexes st1)" using assms(5) by (simp add: st1_def)
  show thesis
  proof (cases "delta_source f (d_files st (e_db_oid e, e_index_oid e, F_tids)) e")
    case None
    then have "refresh_delta_cache out gl i st = set_slot i (delta_fail base) st1"
      using assms(6,7) unfolding e_def path_def
      by (simp add: refresh_delta_cache_def Let_def st1_def base_def e_def path_def)
    then show thesis using that(1) i1 by (simp add: e'_def)
  next
    case (Some hdr)
    note h = delta_source_header [OF Some]
    let ?n = "unat (dh_n_rows hdr)"
    have n: "sint (dh_n_rows hdr) = int ?n" using h(3) unat_of_sint [of "dh_n_rows hdr"] by simp
    define e2 where "e2 = base\<lparr>e_delta_generation := dh_base_tids_crc32 hdr\<rparr>"
    define st2 where "st2 = set_slot i e2 st1"
    have i2: "i < length (g_indexes st2)" using i1 by (simp add: st2_def)
    let ?c = "e_delta_n_cached e" and ?ts = "the (e_delta_tids e)" and ?vs = "the (e_delta_vecs_host e)"
    let ?needed = "dh_n_rows hdr * (ucast (dh_dim hdr) * 4 + 8)"
    let ?T = "\<lambda>rows. take (nat ?c) ?ts @ map fst rows" and ?V = "\<lambda>rows. take (nat ?c * unat (e_dim e)) ?vs @ concat (map snd rows)"
    let ?inc = "\<lambda>rows. delta_install gl i hdr ?needed (?T rows) (?V rows) e2
      (e2\<lparr>e_delta_tids := Some (?T rows), e_delta_vecs_host := Some (?V rows)\<rparr>) st2"
    let ?full = "\<lambda>rows. delta_install gl i hdr ?needed (map fst rows) (concat (map snd rows)) e2 e2 st2"
    let ?r = "refresh_delta_cache out gl i st"
    have r: "?r =
       (if dh_n_rows hdr = 0 then set_slot i (delta_fail base) st1
        else if \<not> vram_spare out (delta_gpu_of e) ?needed st2 then set_slot i (delta_fail base) st1
        else if dh_base_tids_crc32 hdr = e_delta_generation e \<and> int ?n > ?c
                    \<and> e_delta_vecs_host e \<noteq> None \<and> e_delta_tids e \<noteq> None
        then (if \<not> (o_mem out (?n * unat (e_dim e) * 4) \<and> o_mem out (?n * 8)
                         \<and> o_mem out (cuvs_delta_record_bytes (e_dim e))) then st2
              else case delta_read_rows (e_dim e) f (nat ?c) (nat (int ?n - ?c)) of
                None \<Rightarrow> st2 | Some rows \<Rightarrow> ?inc rows)
        else (if \<not> (o_mem out (?n * unat (e_dim e) * 4) \<and> o_mem out (?n * 8)
                         \<and> o_mem out (cuvs_delta_record_bytes (e_dim e))) then st2
              else case delta_read_rows (e_dim e) f 0 ?n of None \<Rightarrow> st2 | Some rows \<Rightarrow> ?full rows))"
      using assms(6,7) Some h(2) n unfolding e_def path_def
      by (simp add: refresh_delta_cache_def Let_def st1_def e2_def st2_def base_def e_def path_def
          cong: if_cong option.case_cong)
    have "?r = set_slot i (delta_fail base) st1 \<or> ?r = st2 \<or>
      (\<exists>rows ts vs. e_delta_tids e = Some ts \<and> e_delta_vecs_host e = Some vs \<and> ?c < int ?n \<and>
         delta_read_rows (e_dim e) f (nat ?c) (nat (int ?n - ?c)) = Some rows \<and> ?r = ?inc rows) \<or>
      (\<exists>rows. delta_read_rows (e_dim e) f 0 ?n = Some rows \<and> ?r = ?full rows)"
      unfolding r by (auto split: option.split)
    then consider "?r = set_slot i (delta_fail base) st1" | "?r = st2"
      | rows ts vs where "e_delta_tids e = Some ts" "e_delta_vecs_host e = Some vs" "?c < int ?n"
         "delta_read_rows (e_dim e) f (nat ?c) (nat (int ?n - ?c)) = Some rows" "?r = ?inc rows"
      | rows where "delta_read_rows (e_dim e) f 0 ?n = Some rows" "?r = ?full rows"
      by blast
    then show thesis
    proof cases
      case 1
      then show thesis using that(1) i1 by (simp add: e'_def)
    next
      case 2
      then show thesis using that(2) Some i1 by (simp add: e'_def st2_def e2_def)
    next
      case (3 rows ts vs)
      then show thesis
        using that(3) [OF Some 3(1-4) refl refl] delta_install_over [OF i2, of gl hdr ?needed "?T rows" "?V rows" e2
            "e2\<lparr>e_delta_tids := Some (?T rows), e_delta_vecs_host := Some (?V rows)\<rparr>"] n
        by (auto simp: e'_def e2_def)
    next
      case (4 rows)
      then show thesis
        using that(4) [OF Some 4(1)] delta_install_over [OF i2, of gl hdr ?needed "map fst rows" "concat (map snd rows)" e2 e2] n
        by (auto simp: e'_def e2_def)
    qed
  qed
qed

lemma gpu_free_disk [simp]: "d_mtime (gpu_free h st) = d_mtime st" "d_files (gpu_free h st) = d_files st"
  by (simp_all add: gpu_free_def split: option.split)

lemma set_slot_disk [simp]: "d_mtime (set_slot i e st) = d_mtime st" "d_files (set_slot i e st) = d_files st"
  by (simp_all add: set_slot_def)

lemma delta_install_disk [simp]:
  "d_mtime (delta_install gl i hdr needed tids vecs eb eu st) = d_mtime st"
  "d_files (delta_install gl i hdr needed tids vecs eb eu st) = d_files st"
  by (simp_all add: delta_install_def gpu_alloc_def)

lemma refresh_delta_cache_mtime:
  "d_mtime (refresh_delta_cache out gl i st) = d_mtime st"
  by (simp add: refresh_delta_cache_def Let_def free_delta_cache_def split: option.split)

lemma refresh_records:
  fixes st :: daemon and i :: nat and out :: outside and gl :: gpu_lib
  defines "e \<equiv> g_indexes st ! i"
  defines "path \<equiv> (e_db_oid e, e_index_oid e, F_delta)"
  defines "e' \<equiv> g_indexes (refresh_delta_cache out gl i st) ! i"
  assumes "i < length (g_indexes st)" "d_files st path = Some f" "d_mtime st path \<noteq> e_delta_mtime e"
  shows "e_delta_mtime e' = d_mtime st path \<and> e_db_oid e' = e_db_oid e \<and> e_index_oid e' = e_index_oid e"
  by (cases rule: refresh_delta_cache_outcome [OF assms(4) assms(5,6) [unfolded path_def e_def], where out = out and gl = gl])
    (auto simp: e_def e'_def path_def delta_fail_def index_over_def)

text \<open>
  The refresh compares modification times in whole seconds. Whatever is appended to the
  \<open>.delta\<close> file within the second of the last refresh is not seen: the next refresh leaves
  the daemon as it is, with an index over the old rows only.
\<close>

theorem delta_cache_same_second:
  assumes "i < length (g_indexes st)" "e = g_indexes st ! i" "path = (e_db_oid e, e_index_oid e, F_delta)"
    and "d_files st path = Some f" "d_mtime st path \<noteq> e_delta_mtime e"
    and "st' = refresh_delta_cache out gl i st"
    and "late = st'\<lparr>d_files := (d_files st')(path \<mapsto> f')\<rparr>"
  shows "refresh_delta_cache out' gl' i late = late"
proof -
  have "e_delta_mtime (g_indexes late ! i) = d_mtime late path"
    "(e_db_oid (g_indexes late ! i), e_index_oid (g_indexes late ! i), F_delta) = path"
    using refresh_records [of i st f out gl] assms by (auto simp: refresh_delta_cache_mtime)
  moreover have "d_files late path = Some f'" by (simp add: assms(7))
  ultimately show ?thesis by (simp add: refresh_delta_cache_def Let_def)
qed

section \<open>The copy and the file\<close>

lemma delta_read_rows_split:
  assumes "delta_read_rows dim f i (m + n) = Some rows"
  shows "delta_read_rows dim f i m = Some (take m rows)" "delta_read_rows dim f (i + m) n = Some (drop m rows)"
  using assms delta_read_rows_length [of dim f i m]
  by (auto simp: delta_read_rows_add split: option.splits)

text \<open>The rows behind the host copy of an entry, and the GPU index over some of them.\<close>

definition host_of :: "IndexEntry \<Rightarrow> (u64 \<times> u32 list) list \<Rightarrow> bool" where
  "host_of e rs \<longleftrightarrow>
    (\<forall>ts vs. e_delta_tids e = Some ts \<longrightarrow> e_delta_vecs_host e = Some vs \<longrightarrow>
      0 \<le> e_delta_n_cached e \<and> e_delta_n_cached e \<le> int (length rs) \<and>
      take (nat (e_delta_n_cached e)) ts = map fst (take (nat (e_delta_n_cached e)) rs) \<and>
      take (nat (e_delta_n_cached e) * unat (e_dim e)) vs = concat (map snd (take (nat (e_delta_n_cached e)) rs)))"

definition copy_of :: "IndexEntry \<Rightarrow> (u64 \<times> u32 list) list \<Rightarrow> bool" where
  "copy_of e rs \<longleftrightarrow> e_delta_tids e = Some (map fst rs) \<and> e_delta_vecs_host e = Some (concat (map snd rs)) \<and>
    e_n_delta e = int (length rs)"

lemma delta_image_source:
  assumes "delta_source (delta_image dim m crc rs t) tids e = Some hdr" "length rs \<le> 2 ^ 62"
  shows "unat (dh_n_rows hdr) = length rs" "e_dim e = dim"
proof -
  have "take 32 (delta_image dim m crc rs t) = delta_count_header dim m crc (length rs)"
    using pread_delta_image [of dim m crc rs t] by (simp add: pread_def split: if_splits)
  then have "hdr = (cuvs_delta_header_init dim m crc)\<lparr>dh_n_rows := of_nat (length rs)\<rparr>"
    using delta_source_header(1) [OF assms(1)] by simp
  then show "unat (dh_n_rows hdr) = length rs" "e_dim e = dim"
    using assms(2) delta_source_header(2) [OF assms(1)] by (simp_all add: unat_of_nat cuvs_delta_header_init_def)
qed

lemma image_part:
  assumes "\<forall>r \<in> set rs. delta_good dim r" "c \<le> length rs"
  shows "delta_read_rows dim (delta_image dim m crc rs t) c (length rs - c) = Some (drop c rs)"
  using delta_read_rows_split(2) [of dim _ 0 c "length rs - c"] delta_image_read [OF assms(1), of m crc t] assms(2) by simp

text \<open>A refresh of a changed file: what it leaves behind is over all rows, or there is no GPU index.\<close>

lemma refresh_copies:
  fixes st :: daemon and i :: nat and out :: outside and gl :: gpu_lib
  defines "e \<equiv> g_indexes st ! i"
  defines "path \<equiv> (e_db_oid e, e_index_oid e, F_delta)"
  defines "e' \<equiv> g_indexes (refresh_delta_cache out gl i st) ! i"
  assumes "i < length (g_indexes st)" "d_mtime st path \<noteq> e_delta_mtime e"
    and "d_files st path = Some (delta_image (e_dim e) m crc rs t)" "\<forall>r \<in> set rs. delta_good (e_dim e) r" "length rs \<le> 2 ^ 62"
    and "host_of e rs"
  shows "host_of e' rs \<and> (e_delta_idx e' = None \<or> copy_of e' rs) \<and> e_delta_mtime e' = d_mtime st path \<and>
    e_db_oid e' = e_db_oid e \<and> e_index_oid e' = e_index_oid e \<and> e_dim e' = e_dim e"
proof -
  let ?f = "delta_image (e_dim e) m crc rs t"
  have len: "length (concat (map snd xs)) = length xs * unat (e_dim e)" if "set xs \<subseteq> set rs" for xs
    using that assms(7) by (intro length_concat_rows) (auto simp: delta_good_def)
  have over: "host_of (index_over b (map fst rs) (concat (map snd rs)) (int (length rs)) h v) rs" if "e_dim b = e_dim e" for b h v
    using that len [of rs] by (simp add: host_of_def index_over_def)
  show ?thesis
  proof (cases rule: refresh_delta_cache_outcome [OF assms(4) assms(6) [unfolded path_def e_def] assms(5) [unfolded path_def e_def],
      where out = out and gl = gl])
    case 1
    then show ?thesis by (simp add: e_def e'_def path_def delta_fail_def host_of_def)
  next
    case (2 hdr)
    then show ?thesis using assms(9) by (simp add: e_def e'_def path_def host_of_def)
  next
    case (3 hdr rows ts vs ts' vs')
    note k = 3(1-5) [folded e_def]
    let ?c = "nat (e_delta_n_cached e)"
    have n: "unat (dh_n_rows hdr) = length rs" by (rule delta_image_source [OF k(1) assms(8)])
    have h: "0 \<le> e_delta_n_cached e" "?c \<le> length rs" "take ?c ts = map fst (take ?c rs)"
      "take (?c * unat (e_dim e)) vs = concat (map snd (take ?c rs))"
      using assms(9) k(2,3) by (auto simp: host_of_def)
    have "nat (int (length rs) - e_delta_n_cached e) = length rs - ?c" using h(1,2) by linarith
    then have "rows = drop ?c rs"
      using k(5) image_part [OF assms(7) h(2), of m crc t] by (simp add: n)
    then have ts': "ts' = map fst rs" "vs' = concat (map snd rs)"
      using 3(6,7) h(3,4) by (simp_all add: e_def [symmetric] flip: map_append concat_append)
    have "concat (map snd rs) = concat (map snd (take ?c rs)) @ concat (map snd (drop ?c rs))"
      by (metis append_take_drop_id concat_append map_append)
    then have pre: "take (?c * unat (e_dim e)) (concat (map snd rs)) = concat (map snd (take ?c rs))"
      using len [of "take ?c rs"] h(2) by (simp add: set_take_subset min_absorb2)
    show ?thesis
      using 3(8) h pre over [unfolded e_def]
      unfolding ts' n by (auto simp: e_def e'_def path_def host_of_def copy_of_def index_over_def take_map set_take_subset)
  next
    case (4 hdr rows)
    note k = 4(1,2) [folded e_def]
    have n: "unat (dh_n_rows hdr) = length rs" by (rule delta_image_source [OF k(1) assms(8)])
    have "rows = rs" using k(2) delta_image_read [OF assms(7)] by (simp add: n)
    then show ?thesis
      using 4(3) assms(9) over [unfolded e_def]
      unfolding n by (auto simp: e_def e'_def path_def host_of_def copy_of_def index_over_def)
  qed
qed

text \<open>
  The history of the \<open>.delta\<close> file of slot \<open>i\<close> and its GPU copy within one generation of
  the base: the index is resident with no copy; rows are appended; the daemon refreshes the copy,
  whatever the GPU and the memory allow; and it does other things, which leave the copy and the file
  alone. \<open>rs\<close> are the rows the file holds.
\<close>

definition delta_path :: "nat \<Rightarrow> daemon \<Rightarrow> fkey" where
  "delta_path i st = (e_db_oid (g_indexes st ! i), e_index_oid (g_indexes st ! i), F_delta)"

definition same_copy :: "IndexEntry \<Rightarrow> IndexEntry \<Rightarrow> bool" where
  "same_copy e e' \<longleftrightarrow> e_db_oid e' = e_db_oid e \<and> e_index_oid e' = e_index_oid e \<and> e_dim e' = e_dim e \<and>
    e_delta_idx e' = e_delta_idx e \<and> e_delta_tids e' = e_delta_tids e \<and> e_delta_vecs_host e' = e_delta_vecs_host e \<and>
    e_n_delta e' = e_n_delta e \<and> e_delta_n_cached e' = e_delta_n_cached e \<and> e_delta_mtime e' = e_delta_mtime e"

inductive delta_reach :: "u32 \<Rightarrow> u32 \<Rightarrow> nat \<Rightarrow> (u64 \<times> u32 list) list \<Rightarrow> daemon \<Rightarrow> bool" for m crc i where
  start: "i < length (g_indexes st) \<Longrightarrow> e_delta_idx (g_indexes st ! i) = None \<Longrightarrow> e_delta_tids (g_indexes st ! i) = None \<Longrightarrow>
    d_files st (delta_path i st) = Some (delta_image (e_dim (g_indexes st ! i)) m crc rs t) \<Longrightarrow>
    \<forall>r \<in> set rs. delta_good (e_dim (g_indexes st ! i)) r \<Longrightarrow> length rs \<le> 2 ^ 62 \<Longrightarrow> delta_reach m crc i rs st"
| append: "delta_reach m crc i rs st \<Longrightarrow> \<forall>r \<in> set ys. delta_good (e_dim (g_indexes st ! i)) r \<Longrightarrow>
    length (rs @ ys) \<le> 2 ^ 62 \<Longrightarrow>
    delta_reach m crc i (rs @ ys)
      (st\<lparr>d_files := (d_files st)(delta_path i st \<mapsto> delta_image (e_dim (g_indexes st ! i)) m crc (rs @ ys) t),
          d_mtime := (d_mtime st)(delta_path i st := time)\<rparr>)"
| refresh: "delta_reach m crc i rs st \<Longrightarrow> delta_reach m crc i rs (refresh_delta_cache out gl i st)"
| other: "delta_reach m crc i rs st \<Longrightarrow> i < length (g_indexes st') \<Longrightarrow> same_copy (g_indexes st ! i) (g_indexes st' ! i) \<Longrightarrow>
    d_files st' (delta_path i st) = d_files st (delta_path i st) \<Longrightarrow>
    d_mtime st' (delta_path i st) = d_mtime st (delta_path i st) \<Longrightarrow> delta_reach m crc i rs st'"

text \<open>What holds all along: the copy, if there is one, is over the first rows of the file.\<close>

definition delta_inv :: "u32 \<Rightarrow> u32 \<Rightarrow> nat \<Rightarrow> (u64 \<times> u32 list) list \<Rightarrow> daemon \<Rightarrow> bool" where
  "delta_inv m crc i rs st \<longleftrightarrow> i < length (g_indexes st) \<and> length rs \<le> 2 ^ 62 \<and>
    (\<forall>r \<in> set rs. delta_good (e_dim (g_indexes st ! i)) r) \<and>
    (\<exists>t. d_files st (delta_path i st) = Some (delta_image (e_dim (g_indexes st ! i)) m crc rs t)) \<and>
    host_of (g_indexes st ! i) rs \<and>
    (e_delta_idx (g_indexes st ! i) = None \<or> (\<exists>k \<le> length rs. copy_of (g_indexes st ! i) (take k rs)))"

lemma host_of_append: "host_of e rs \<Longrightarrow> host_of e (rs @ ys)"
  by (fastforce simp: host_of_def nat_le_iff)

lemma delta_install_slots [simp]: "length (g_indexes (delta_install gl i hdr needed tids vecs eb eu st)) = length (g_indexes st)"
  by (simp add: delta_install_def gpu_alloc_def)

lemma refresh_disk: "d_files (refresh_delta_cache out gl i st) = d_files st"
  "length (g_indexes (refresh_delta_cache out gl i st)) = length (g_indexes st)"
  by (simp_all add: refresh_delta_cache_def Let_def free_delta_cache_def split: option.split)

lemma delta_inv_refresh:
  assumes "delta_inv m crc i rs st"
  shows "delta_inv m crc i rs (refresh_delta_cache out gl i st)"
proof (cases "d_mtime st (delta_path i st) = e_delta_mtime (g_indexes st ! i)")
  case True
  then have "refresh_delta_cache out gl i st = st"
    using assms by (auto simp: delta_inv_def delta_path_def refresh_delta_cache_def Let_def)
  then show ?thesis using assms by simp
next
  case False
  obtain t where f: "d_files st (delta_path i st) = Some (delta_image (e_dim (g_indexes st ! i)) m crc rs t)"
    using assms by (auto simp: delta_inv_def)
  have "host_of (g_indexes st ! i) rs" "i < length (g_indexes st)" "\<forall>r \<in> set rs. delta_good (e_dim (g_indexes st ! i)) r"
    "length rs \<le> 2 ^ 62"
    using assms by (simp_all add: delta_inv_def)
  note c = refresh_copies [OF this(2) False [unfolded delta_path_def] f [unfolded delta_path_def] this(3,4,1), of out gl]
  then have "\<exists>k \<le> length rs. copy_of (g_indexes (refresh_delta_cache out gl i st) ! i) (take k rs)"
    if "e_delta_idx (g_indexes (refresh_delta_cache out gl i st) ! i) \<noteq> None"
    using that by (intro exI [of _ "length rs"]) simp
  then show ?thesis
    using assms c f by (auto simp: delta_inv_def delta_path_def refresh_disk)
qed

lemma delta_reach_inv: "delta_reach m crc i rs st \<Longrightarrow> delta_inv m crc i rs st"
proof (induction rule: delta_reach.induct)
  case (start st rs t)
  then show ?case by (auto simp: delta_inv_def host_of_def)
next
  case (append rs st ys t time)
  have k: "e_delta_idx (g_indexes st ! i) = None \<or> (\<exists>k \<le> length (rs @ ys). copy_of (g_indexes st ! i) (take k (rs @ ys)))"
  proof (cases "e_delta_idx (g_indexes st ! i) = None")
    case False
    then obtain k where "k \<le> length rs" "copy_of (g_indexes st ! i) (take k rs)" using append.IH by (auto simp: delta_inv_def)
    then show ?thesis by (intro disjI2 exI [of _ k]) simp
  qed simp
  show ?case
    using append.IH append.hyps(2,3) k
    by (auto simp: delta_inv_def delta_path_def host_of_append simp del: take_append length_append)
next
  case (refresh rs st out gl)
  then show ?case by (intro delta_inv_refresh)
next
  case (other rs st st')
  then show ?case by (simp add: delta_inv_def same_copy_def host_of_def copy_of_def delta_path_def)
qed


section \<open>Rows of an old generation\<close>

lemma delta_source_image:
  assumes "sample_tids crc = tids" "dim \<noteq> 0" "\<forall>r \<in> set rs. delta_good dim r" "length rs \<le> 1000"
    "e_dim e = dim" "e_metric e = m"
  shows "delta_source (delta_image dim m crc rs []) tids e
    = Some ((cuvs_delta_header_init dim m crc)\<lparr>dh_n_rows := of_nat (length rs)\<rparr>)"
proof -
  let ?f = "delta_image dim m crc rs []"
  let ?h = "(cuvs_delta_header_init dim m crc)\<lparr>dh_n_rows := of_nat (length rs)\<rparr>"
  have h: "delta_scan_header 1000 tids dim ?f = Some ?h"
    using assms sample_tids_crc by (intro delta_scan_header_image) auto
  have "cuvs_delta_validate ?h (int (length ?f) - 32) = 0"
    using h by (auto simp: delta_scan_header_def pread_delta_image Let_def split: if_splits)
  then show ?thesis
    using assms(5,6) assms(1) [symmetric]
    by (simp add: delta_source_def cuvs_delta_read_header_def fread_pread pread_delta_image sample_tids_def
        tids_hdr.length_enc tids_hdr.dec_enc cuvs_delta_header_init_def)
qed

text \<open>
  An index whose GPU copy holds row 7 of generation 5, on the disk the first row of generation 6;
  then a second one follows.
\<close>

definition rebuilt_run :: daemon where
  "rebuilt_run = idle_daemon\<lparr>
     g_indexes := [zero_entry\<lparr>e_db_oid := 1, e_index_oid := 10, e_dim := 1, e_valid := True,
       e_delta_idx := Some 1, e_delta_tids := Some [7], e_delta_vecs_host := Some [70], e_n_delta := 1,
       e_delta_n_cached := 1, e_delta_generation := 5, e_delta_mtime := 100\<rparr>],
     g_max_vram_per_gpu := replicate 16 0, g_n_indexes := 1, d_live := [1], d_next := 2,
     d_files := [(1, 10, F_tids) \<mapsto> the (sample_tids 6), (1, 10, F_delta) \<mapsto> delta_image 1 0 6 [(8, [80])] []],
     d_mtime := (\<lambda>_. 200)\<rparr>"

definition next_append :: "daemon \<Rightarrow> daemon" where
  "next_append st = st\<lparr>d_files := (d_files st)((1, 10, F_delta) \<mapsto> delta_image 1 0 6 [(8, [80]), (9, [90])] []),
     d_mtime := (\<lambda>_. 201)\<rparr>"

definition build_lib :: "bool \<Rightarrow> gpu_lib" where
  "build_lib ok = \<lparr>gl_bf_build = \<lambda>_ _ _ _ _ _. ok, gl_bf_search = \<lambda>_ _ _ _. (0, []),
     gl_bf_filtered = \<lambda>_ _ _ _ _. (0, []), gl_cagra_search = \<lambda>_ _ _ _ _ _. (0, []),
     gl_cagra_filtered = \<lambda>_ _ _ _ _ _ _. (0, []), gl_hnsw_load = \<lambda>_ _ _ _. False,
     gl_hnsw_search = \<lambda>_ _ _. (0, []), gl_brute_force = \<lambda>_ _ _ _. None\<rparr>"

text \<open>
  A failed rebuild after a new generation keeps the host rows of the old generation under the
  new generation's mark. If the GPU build fails once after a rebuild of the base, the next append
  takes the incremental path and the copy holds row 7 of the old base in place of row 8: an
  acknowledged row is missing and a foreign one is searched.
\<close>

theorem delta_cache_mixes_generations:
  "let st1 = refresh_delta_cache calm_outside (build_lib False) 0 rebuilt_run;
       st2 = refresh_delta_cache calm_outside (build_lib True) 0 (next_append st1);
       e = g_indexes st2 ! 0
   in e_delta_idx e \<noteq> None \<and> e_delta_generation e = 6 \<and> e_n_delta e = 2 \<and> e_delta_tids e = Some [7, 9] \<and>
      delta_rows (delta_image 1 0 6 [(8, [80]), (9, [90])] []) 1 = Some [(8, [80]), (9, [90])]"
proof -
  define e1 where "e1 = (g_indexes rebuilt_run ! 0)\<lparr>e_delta_idx := None, e_n_delta := 0, e_delta_mtime := 200,
    e_delta_generation := 6\<rparr>"
  have src: "delta_source (delta_image 1 0 6 [(8, [80])] []) (Some (the (sample_tids 6))) e
      = Some ((cuvs_delta_header_init 1 0 6)\<lparr>dh_n_rows := 1\<rparr>)"
    "delta_source (delta_image 1 0 6 [(8, [80]), (9, [90])] []) (Some (the (sample_tids 6))) e
      = Some ((cuvs_delta_header_init 1 0 6)\<lparr>dh_n_rows := 2\<rparr>)" if "e_dim e = 1" "e_metric e = 0" for e
    using that by (subst delta_source_image, simp_all add: sample_tids_def delta_good_def)+
  have two: "delta_read_rows 1 (delta_image 1 0 6 [(8, [80]), (9, [90])] []) 0 2 = Some [(8, [80]), (9, [90])]"
    using delta_image_read [of "[(8, [80]), (9, [90])]" 1 0 6 "[]"] by (simp add: delta_good_def numeral_2_eq_2)
  have one: "delta_read_rows 1 (delta_image 1 0 6 [(8, [80])] []) 0 1 = Some [(8, [80])]"
    using delta_image_read [of "[(8, [80])]" 1 0 6 "[]"] by (simp add: delta_good_def)
  have tail: "delta_read_rows 1 (delta_image 1 0 6 [(8, [80]), (9, [90])] []) 1 1 = Some [(9, [90])]"
    using delta_read_rows_split(2) [of 1 "delta_image 1 0 6 [(8, [80]), (9, [90])] []" 0 1 1] two
    by (simp only: one_add_one add_0) simp
  have st1: "refresh_delta_cache calm_outside (build_lib False) 0 rebuilt_run
      = rebuilt_run\<lparr>g_indexes := [e1], d_live := []\<rparr>"
    using src(1) one
    by (simp add: refresh_delta_cache_def rebuilt_run_def idle_daemon_def zero_entry_def e1_def set_slot_def
      gpu_free_def vram_spare_def delta_install_def build_lib_def calm_outside_def cuvs_delta_header_init_def
      gpu_free_vram_bytes_def delta_gpu_of_def Let_def)
  have st2: "g_indexes (refresh_delta_cache calm_outside (build_lib True) 0
      (next_append (rebuilt_run\<lparr>g_indexes := [e1], d_live := []\<rparr>))) ! 0
    = e1\<lparr>e_delta_mtime := 201, e_delta_idx := Some 2, e_delta_tids := Some [7, 9], e_delta_vecs_host := Some [70, 90],
        e_n_delta := 2, e_delta_n_cached := 2, e_delta_vram_bytes := 24\<rparr>"
    using src(2) tail
    by (simp add: refresh_delta_cache_def rebuilt_run_def idle_daemon_def zero_entry_def e1_def set_slot_def
      gpu_free_def vram_spare_def delta_install_def build_lib_def calm_outside_def cuvs_delta_header_init_def
      gpu_free_vram_bytes_def delta_gpu_of_def Let_def next_append_def gpu_alloc_def)
  show ?thesis
    unfolding Let_def st1 st2 using two delta_source_header(1) [OF src(2), of e1, symmetric]
    by (simp add: e1_def delta_rows_def rebuilt_run_def zero_entry_def)
qed

section \<open>Witnesses\<close>

text \<open>The index of \<open>rebuilt_run\<close> as it is after a load: with no copy.\<close>

definition loaded_run :: daemon where
  "loaded_run = rebuilt_run\<lparr>g_indexes := [(g_indexes rebuilt_run ! 0)\<lparr>e_delta_idx := None, e_delta_tids := None,
     e_delta_vecs_host := None, e_n_delta := 0, e_delta_n_cached := 0, e_delta_generation := 0, e_delta_mtime := 0\<rparr>],
     d_live := []\<rparr>"


text \<open>The same index with an up-to-date host copy of the first of two rows.\<close>

definition grown_run :: daemon where
  "grown_run = next_append (rebuilt_run\<lparr>
     g_indexes := [(g_indexes rebuilt_run ! 0)\<lparr>e_delta_tids := Some [8], e_delta_vecs_host := Some [80],
       e_delta_generation := 6, e_delta_mtime := 200\<rparr>]\<rparr>)"

lemma grown_run_ready:
  "0 < length (g_indexes grown_run)" "d_files grown_run (1, 10, F_delta) = Some (delta_image 1 0 6 [(8, [80]), (9, [90])] [])"
  "(1, 10, F_delta) = (e_db_oid (g_indexes grown_run ! 0), e_index_oid (g_indexes grown_run ! 0), F_delta)"
  "d_mtime grown_run (1, 10, F_delta) \<noteq> e_delta_mtime (g_indexes grown_run ! 0)"
  by (simp_all add: grown_run_def next_append_def rebuilt_run_def zero_entry_def)

theorem delta_cache_same_second_witness:
  "(let st' = refresh_delta_cache calm_outside (build_lib True) 0 grown_run;
        late = st'\<lparr>d_files := (d_files st')((1, 10, F_delta) \<mapsto> [])\<rparr>
    in refresh_delta_cache calm_outside (build_lib True) 0 late = late)"
  unfolding Let_def
  by (rule delta_cache_same_second [OF grown_run_ready(1) refl grown_run_ready(3,2,4) refl refl])

end
