(* ===== verification/Frames.thy ===== *)
theory Frames
  imports Gpu_Cache
begin

text \<open>
  The wire protocol of the daemon (\<open>src/cuvs_ipc.h\<close>): the command frame and the reply
  header with their byte layout, operation and status codes, and the shared-memory objects a frame
  names (\<open>map_shm_readonly\<close> of \<open>src/pg_cuvs_server.c\<close>). A key is the 64 bytes of
  the field; the name it holds is the C string in them.
\<close>

section \<open>Codes\<close>

definition CUVS_PROTO_MAGIC :: u32 where "CUVS_PROTO_MAGIC = 0x50435556"
definition CUVS_PROTO_VERSION :: u32 where "CUVS_PROTO_VERSION = 4"

definition CUVS_STATUS_OOM_FALLBACK :: u32 where "CUVS_STATUS_OOM_FALLBACK = 2"
definition CUVS_STATUS_NOT_FOUND :: u32 where "CUVS_STATUS_NOT_FOUND = 3"
definition CUVS_STATUS_DIM_MISMATCH :: u32 where "CUVS_STATUS_DIM_MISMATCH = 7"
definition CUVS_STATUS_METRIC_MISMATCH :: u32 where "CUVS_STATUS_METRIC_MISMATCH = 8"
definition CUVS_STATUS_STALE :: u32 where "CUVS_STATUS_STALE = 9"
definition CUVS_STATUS_PROTO_MISMATCH :: u32 where "CUVS_STATUS_PROTO_MISMATCH = 12"

lemmas reply_codes = status_codes CUVS_STATUS_OOM_FALLBACK_def CUVS_STATUS_NOT_FOUND_def
  CUVS_STATUS_DIM_MISMATCH_def CUVS_STATUS_METRIC_MISMATCH_def CUVS_STATUS_STALE_def
  CUVS_STATUS_PROTO_MISMATCH_def

section \<open>The command frame\<close>

record CuvsCmdFrame =
  cf_proto_magic :: u32
  cf_proto_version :: u32
  cf_op :: u32
  cf_db_oid :: u32
  cf_index_oid :: u32
  cf_k :: u32
  cf_metric :: u32
  cf_dim :: u32
  cf_n_vecs :: u64
  cf_shm_key :: bytes
  cf_table_oid :: u32
  cf_relfilenode :: u32
  cf_shard_count :: u32
  cf_shard_overfetch :: u32
  cf_parallel_fanout :: u32
  cf_use_cpu_hnsw :: u32
  cf_search_mode :: u32
  cf_bf_precision :: u32
  cf_bf_batch_wait_us :: u32
  cf_n_partials :: u32
  cf_graph_degree :: u32
  cf_intermediate_graph_degree :: u32
  cf_build_algo :: u32
  cf_n_filter_tids :: u32
  cf_filter_shm_key :: bytes
  cf_use_prefilter :: u32
  cf_n_lists :: u32
  cf_pq_bits :: u32
  cf_pq_dim :: u32
  cf_n_probes :: u32
  cf_max_chunk_size :: u32
  cf_cagra_batch_wait_us :: u32
  cf_itopk_size :: u32
  cf_search_width :: u32

text \<open>The frame has 260 bytes of fields; the 64-bit field aligns the struct to 264.\<close>

definition cmd_frame_bytes :: "bytes \<Rightarrow> CuvsCmdFrame \<Rightarrow> bytes" where
  "cmd_frame_bytes pad c =
     concat (map (le_bytes 4) [cf_proto_magic c, cf_proto_version c, cf_op c, cf_db_oid c, cf_index_oid c,
       cf_k c, cf_metric c, cf_dim c])
     @ le_bytes 8 (cf_n_vecs c) @ cf_shm_key c
     @ concat (map (le_bytes 4) [cf_table_oid c, cf_relfilenode c, cf_shard_count c, cf_shard_overfetch c,
       cf_parallel_fanout c, cf_use_cpu_hnsw c, cf_search_mode c, cf_bf_precision c, cf_bf_batch_wait_us c,
       cf_n_partials c, cf_graph_degree c, cf_intermediate_graph_degree c, cf_build_algo c, cf_n_filter_tids c])
     @ cf_filter_shm_key c
     @ concat (map (le_bytes 4) [cf_use_prefilter c, cf_n_lists c, cf_pq_bits c, cf_pq_dim c, cf_n_probes c,
       cf_max_chunk_size c, cf_cagra_batch_wait_us c, cf_itopk_size c, cf_search_width c]) @ pad"

definition cmd_frame_of :: "bytes \<Rightarrow> CuvsCmdFrame" where
  "cmd_frame_of bs = \<lparr>cf_proto_magic = fld 0 4 bs, cf_proto_version = fld 4 4 bs, cf_op = fld 8 4 bs,
     cf_db_oid = fld 12 4 bs, cf_index_oid = fld 16 4 bs, cf_k = fld 20 4 bs, cf_metric = fld 24 4 bs,
     cf_dim = fld 28 4 bs, cf_n_vecs = fld 32 8 bs, cf_shm_key = take 64 (drop 40 bs),
     cf_table_oid = fld 104 4 bs, cf_relfilenode = fld 108 4 bs, cf_shard_count = fld 112 4 bs,
     cf_shard_overfetch = fld 116 4 bs, cf_parallel_fanout = fld 120 4 bs, cf_use_cpu_hnsw = fld 124 4 bs,
     cf_search_mode = fld 128 4 bs, cf_bf_precision = fld 132 4 bs, cf_bf_batch_wait_us = fld 136 4 bs,
     cf_n_partials = fld 140 4 bs, cf_graph_degree = fld 144 4 bs,
     cf_intermediate_graph_degree = fld 148 4 bs, cf_build_algo = fld 152 4 bs,
     cf_n_filter_tids = fld 156 4 bs, cf_filter_shm_key = take 64 (drop 160 bs),
     cf_use_prefilter = fld 224 4 bs, cf_n_lists = fld 228 4 bs, cf_pq_bits = fld 232 4 bs,
     cf_pq_dim = fld 236 4 bs, cf_n_probes = fld 240 4 bs, cf_max_chunk_size = fld 244 4 bs,
     cf_cagra_batch_wait_us = fld 248 4 bs, cf_itopk_size = fld 252 4 bs, cf_search_width = fld 256 4 bs\<rparr>"

section \<open>Replies\<close>

record CuvsReplyHeader =
  rh_status :: u32
  rh_n_results :: u32
  rh_latency_us :: u32
  rh_delta_merged :: u32
  rh_error :: string

type_synonym reply = "CuvsReplyHeader \<times> CuvsResult list"

definition send_error_code :: "u32 \<Rightarrow> string \<Rightarrow> reply" where
  "send_error_code status msg =
    (\<lparr>rh_status = status, rh_n_results = 0, rh_latency_us = 0, rh_delta_merged = 0, rh_error = take 127 msg\<rparr>, [])"

definition send_error :: "string \<Rightarrow> reply" where
  "send_error msg = send_error_code CUVS_STATUS_ERROR msg"

text \<open>The replies every search handler builds inline: a bare status, and the results.\<close>

definition status_reply :: "u32 \<Rightarrow> reply" where
  "status_reply status =
    (\<lparr>rh_status = status, rh_n_results = 0, rh_latency_us = 0, rh_delta_merged = 0, rh_error = ''''\<rparr>, [])"

definition results_reply :: "u32 \<Rightarrow> bool \<Rightarrow> CuvsResult list \<Rightarrow> reply" where
  "results_reply latency merged rs =
    (\<lparr>rh_status = CUVS_STATUS_OK, rh_n_results = of_nat (length rs), rh_latency_us = latency,
      rh_delta_merged = of_bool merged, rh_error = ''''\<rparr>, rs)"

section \<open>Shared memory\<close>

record shm_object =
  so_owner :: u32
  so_bytes :: bytes

type_synonym shm = "bytes \<rightharpoonup> shm_object"

definition c_str :: "bytes \<Rightarrow> bytes" where
  "c_str key = takeWhile (\<lambda>b. b \<noteq> 0) key"

text \<open>\<open>can_map\<close> says whether the system can map the object.\<close>

definition map_shm_readonly :: "(bytes \<Rightarrow> bool) \<Rightarrow> shm \<Rightarrow> u32 \<Rightarrow> bytes \<Rightarrow> nat \<Rightarrow> bytes option" where
  "map_shm_readonly can_map shm expected_uid key n =
    (if c_str key = [] \<or> n = 0 then None
     else case shm (c_str key) of
       None \<Rightarrow> None
     | Some ob \<Rightarrow>
         if so_owner ob \<noteq> expected_uid then None
         else if length (so_bytes ob) < n then None
         else if \<not> can_map (c_str key) then None
         else Some (take n (so_bytes ob)))"

text \<open>
  The query is mapped without a look at the size of its object; the bytes behind the end of the
  last page, where the kernel would kill the daemon, are zero here.
\<close>

definition map_query :: "(bytes \<Rightarrow> bool) \<Rightarrow> shm \<Rightarrow> u32 \<Rightarrow> bytes \<Rightarrow> u32 \<Rightarrow> string + vec" where
  "map_query can_map shm uid key dim =
    (case shm (c_str key) of
       None \<Rightarrow> Inl ''shm_open failed''
     | Some ob \<Rightarrow>
         if so_owner ob \<noteq> uid then Inl ''shm owner mismatch''
         else if \<not> can_map (c_str key) then Inl ''mmap failed''
         else Inr (map le_word (chunks 4 (unat dim)
           (take (4 * unat dim) (so_bytes ob @ replicate (4 * unat dim) 0)))))"

definition tids_of_bytes :: "nat \<Rightarrow> bytes \<Rightarrow> u64 list" where
  "tids_of_bytes n bs = map le_word (chunks 8 n bs)"

section \<open>The frame on the wire\<close>

lemma length_cmd_frame:
  assumes "length (cf_shm_key c) = 64" "length (cf_filter_shm_key c) = 64" "length pad = 4"
  shows "length (cmd_frame_bytes pad c) = 264"
  using assms by (simp add: cmd_frame_bytes_def wire)

text \<open>
  The daemon decodes the 264 bytes of a command frame into the frame that was sent, whatever
  the four padding bytes hold, and the magic and version it checks first are the first eight bytes.
\<close>

theorem cmd_frame_roundtrip:
  assumes "length (cf_shm_key c) = 64" "length (cf_filter_shm_key c) = 64" "length pad = 4"
  shows "cmd_frame_of (cmd_frame_bytes pad c) = c \<and> length (cmd_frame_bytes pad c) = 264 \<and>
    take 8 (cmd_frame_bytes pad c) = le_bytes 4 (cf_proto_magic c) @ le_bytes 4 (cf_proto_version c)"
  using assms by (simp add: cmd_frame_of_def cmd_frame_bytes_def fld_def wire)

definition sample_frame :: CuvsCmdFrame where
  "sample_frame = cmd_frame_of (replicate 260 0)"

lemma sample_frame_keys: "length (cf_shm_key sample_frame) = 64" "length (cf_filter_shm_key sample_frame) = 64"
  by (simp_all add: sample_frame_def cmd_frame_of_def)

theorem cmd_frame_roundtrip_witness:
  "cmd_frame_of (cmd_frame_bytes [1, 2, 3, 4] sample_frame) = sample_frame \<and>
   length (cmd_frame_bytes [1, 2, 3, 4] sample_frame) = 264 \<and>
   take 8 (cmd_frame_bytes [1, 2, 3, 4] sample_frame) =
     le_bytes 4 (cf_proto_magic sample_frame) @ le_bytes 4 (cf_proto_version sample_frame)"
  by (rule cmd_frame_roundtrip [OF sample_frame_keys]) simp

end
