(* ===== verification/Search_Handler.thy ===== *)
theory Search_Handler
  imports Frames Warmup Batch_Group
begin

text \<open>
  The SEARCH command of the daemon, \<open>handle_search\<close> of \<open>src/pg_cuvs_server.c\<close>,
  branch by branch: finding or loading the index, the guards, exact search with the bit-set
  prefilter and the post-filter, the fan-out over shards, the CPU HNSW graph and the CAGRA graph.

  The handler works on the slot of the entry. Where it releases the registry mutex, \<open>en_other\<close>
  is what the other threads make of the state meanwhile. \<open>en_batch\<close> is the answer of the
  batch worker, \<open>None\<close> when its queue is full, and \<open>en_alloc\<close> says which of the
  handler's own allocations succeed. The depth of the over-fetch is computed in doubles;
  \<open>en_want\<close> is that number, and nothing below depends on its value.
\<close>

section \<open>Environment\<close>

record batch_answer =
  ba_status :: u32
  ba_out :: "CuvsResult list"
  ba_delta_merged :: bool
  ba_latency_us :: u32

record search_env =
  en_shm :: shm
  en_can_map :: "bytes \<Rightarrow> bool"
  en_peer_uid :: u32
  en_latency_us :: u32
  en_want :: "int \<Rightarrow> u32 \<Rightarrow> int \<Rightarrow> int"
  en_worker_started :: bool
  en_batch :: "CuvsBatchKey \<Rightarrow> vec \<Rightarrow> int \<Rightarrow> batch_answer option"
  en_other :: "daemon \<Rightarrow> daemon"
  en_alloc :: "string \<Rightarrow> bool"
  en_snapshot_uri :: bool

abbreviation entry_at :: "nat \<Rightarrow> daemon \<Rightarrow> IndexEntry" where
  "entry_at i st \<equiv> g_indexes st ! i"

definition update_entry :: "nat \<Rightarrow> (IndexEntry \<Rightarrow> IndexEntry) \<Rightarrow> daemon \<Rightarrow> daemon" where
  "update_entry i f st = set_slot i (f (entry_at i st)) st"

text \<open>An error that is recorded on the entry, and a success.\<close>

definition refuse :: "u32 \<Rightarrow> string \<Rightarrow> nat \<Rightarrow> daemon \<Rightarrow> reply \<times> daemon" where
  "refuse status msg i st =
    (send_error_code status msg, update_entry i (record_search_stat (d_now st) status 0 (Some msg)) st)"

definition serve ::
  "search_env \<Rightarrow> CuvsCmdFrame \<Rightarrow> u32 \<Rightarrow> bool \<Rightarrow> CuvsResult list \<Rightarrow> nat \<Rightarrow> daemon \<Rightarrow> reply \<times> daemon" where
  "serve en cmd mode merged rs i st =
    (results_reply (en_latency_us en) merged rs,
     update_entry i (\<lambda>e. (record_search_stat (d_now st) CUVS_STATUS_OK (en_latency_us en) None e)
       \<lparr>e_last_requested_k := cf_k cmd, e_last_returned_k := of_nat (length rs), e_last_search_mode := mode\<rparr>) st)"

section \<open>Finding the index\<close>

definition cold_miss ::
  "u32 \<Rightarrow> u32 \<Rightarrow> warmup_ring \<Rightarrow> ColdIndexEntry list \<Rightarrow> warmup_ring \<times> ColdIndexEntry list" where
  "cold_miss db idx q cs =
    (case slot_of (\<lambda>c. c_valid c \<and> c_db_oid c = db \<and> c_index_oid c = idx) cs of
       None \<Rightarrow> (q, cs)
     | Some i \<Rightarrow>
        (let c = (cs ! i)\<lparr>c_cache_miss_count := c_cache_miss_count (cs ! i) + 1\<rparr> in
         if c_warmup_state c = WARMUP_COLD \<or> c_warmup_state c = WARMUP_FAILED
         then (snd (warmup_enqueue \<lparr>j_db_oid = c_db_oid c, j_index_oid = c_index_oid c,
                 j_relfilenode = c_relfilenode c, j_table_oid = c_table_oid c, j_from_cache_miss = 1\<rparr> q),
               cs[i := c\<lparr>c_warmup_state := WARMUP_QUEUED\<rparr>])
         else (q, cs[i := c])))"

definition search_lookup ::
  "outside \<Rightarrow> search_env \<Rightarrow> CuvsCmdFrame \<Rightarrow> warmup_ring \<Rightarrow> daemon \<Rightarrow> (reply + nat) \<times> warmup_ring \<times> daemon" where
  "search_lookup out en cmd q st =
    (let db = cf_db_oid cmd; idx = cf_index_oid cmd in
     case find_index db idx st of
       Some i \<Rightarrow> (Inr i, q, st\<lparr>g_cache_hits := cache_counter_bump (g_cache_hits st) (entry_at i st)\<rparr>)
     | None \<Rightarrow>
        (let (rc, st1) = load_index out db idx st;
             found = (if rc = 0 then find_index db idx st1 else None);
             st2 = (case found of
               Some i \<Rightarrow> st1\<lparr>g_cache_reloads := cache_counter_bump (g_cache_reloads st1) (entry_at i st1),
                   g_cache_misses := cache_counter_bump (g_cache_misses st1) (entry_at i st1)\<rparr>
             | None \<Rightarrow> if rc = 0 then st1
                 else st1\<lparr>g_cache_misses := bump (nat (usable_gpu 0 st1)) (g_cache_misses st1)\<rparr>)
         in case found of
              Some i \<Rightarrow> (Inr i, q, st2)
            | None \<Rightarrow>
               if rc = -2 then (Inl (status_reply CUVS_STATUS_OOM_FALLBACK), q, st2)
               else if en_snapshot_uri en
               then let (q', cs) = cold_miss db idx q (g_cold_indexes st2)
                    in (Inl (status_reply CUVS_STATUS_NOT_FOUND), q', st2\<lparr>g_cold_indexes := cs\<rparr>)
               else (Inl (status_reply CUVS_STATUS_NOT_FOUND), q, st2)))"

section \<open>Exact search\<close>

definition prefilter_ready :: "CuvsCmdFrame \<Rightarrow> IndexEntry \<Rightarrow> bool" where
  "prefilter_ready cmd e \<longleftrightarrow> cf_use_prefilter cmd \<noteq> 0 \<and> 0 < cf_n_filter_tids cmd \<and>
     e_handle e \<noteq> None \<and> e_rev_tids e \<noteq> None \<and> e_rev_item_ids e \<noteq> None"

text \<open>
  Handing the request to the batch worker with the mutex released, or going on with the entry that
  is there afterwards.
\<close>

definition enqueue_or_refind ::
  "search_env \<Rightarrow> CuvsCmdFrame \<Rightarrow> CuvsBatchKey \<Rightarrow> (batch_answer \<Rightarrow> reply) \<Rightarrow> vec \<Rightarrow> daemon
    \<Rightarrow> (reply + nat) \<times> daemon" where
  "enqueue_or_refind en cmd key answer query st =
    (let st1 = en_other en st in
     case (if en_alloc en ''rout'' then en_batch en key query (sint (cf_k cmd)) else None) of
       Some a \<Rightarrow> (Inl (answer a), st1)
     | None \<Rightarrow>
        (case find_index (cf_db_oid cmd) (cf_index_oid cmd) st1 of
           None \<Rightarrow> (Inl (status_reply CUVS_STATUS_NOT_FOUND), st1)
         | Some i \<Rightarrow> (Inr i, st1)))"

definition no_vectors_msg :: string where
  "no_vectors_msg = ''brute_force requested but the .vectors sidecar is missing or stale; REINDEX to enable it''"

definition bf_answer :: "batch_answer \<Rightarrow> reply" where
  "bf_answer a =
    (if ba_status a = CUVS_STATUS_OK then results_reply 0 False (ba_out a)
     else if ba_status a = CUVS_STATUS_NO_VECTORS then send_error_code CUVS_STATUS_NO_VECTORS no_vectors_msg
     else status_reply (ba_status a))"

text \<open>The bit set of excluded rows, and how many bits were cleared.\<close>

definition include_tid :: "u64 list \<Rightarrow> u32 list \<Rightarrow> int \<Rightarrow> u64 \<Rightarrow> u32 list \<times> int \<Rightarrow> u32 list \<times> int" where
  "include_tid rev_tids rev_item_ids nv want acc =
    (case bs_closed rev_tids want 0 (nv - 1) of
       None \<Rightarrow> acc
     | Some mid \<Rightarrow>
        (let iid = sint (rev_item_ids ! mid); w = nat iid div 32 in
         if 0 \<le> iid \<and> iid < nv
         then ((fst acc)[w := fst acc ! w AND NOT (push_bit (nat iid mod 32) 1)], snd acc + 1) else acc))"

definition filter_bitset :: "IndexEntry \<Rightarrow> u64 list \<Rightarrow> u32 list \<times> int" where
  "filter_bitset e flt =
     fold (include_tid (the (e_rev_tids e)) (the (e_rev_item_ids e)) (e_n_vecs e)) flt
       (replicate (nat ((e_n_vecs e + 31) div 32)) 0xFFFFFFFF, 0)"

definition hit_result :: "u64 list \<Rightarrow> gpu_hit \<Rightarrow> CuvsResult" where
  "hit_result tids h = \<lparr>r_tid = tids ! nat (fst h), r_distance = snd h\<rparr>"

definition in_range :: "int \<Rightarrow> gpu_hit \<Rightarrow> bool" where
  "in_range n h \<longleftrightarrow> 0 \<le> fst h \<and> fst h < n"

definition entry_tids :: "IndexEntry \<Rightarrow> u64 list" where
  "entry_tids e = (case e_tids e of None \<Rightarrow> [] | Some ts \<Rightarrow> ts)"

text \<open>
  The prefilter: \<open>None\<close> when it could not search, else the results, whether the CAGRA graph
  gave them, and whether a collapsed answer was searched again.
\<close>

definition prefilter_search ::
  "gpu_lib \<Rightarrow> search_env \<Rightarrow> CuvsCmdFrame \<Rightarrow> vec \<Rightarrow> IndexEntry \<Rightarrow> (CuvsResult list \<times> bool) option \<times> bool" where
  "prefilter_search gl en cmd query e =
    (let k = nat (sint (cf_k cmd)) in
     case map_shm_readonly (en_can_map en) (en_shm en) (en_peer_uid en) (cf_filter_shm_key cmd)
         (8 * unat (cf_n_filter_tids cmd)) of
       None \<Rightarrow> (None, False)
     | Some fb \<Rightarrow>
        if \<not> (en_alloc en ''bitset'' \<and> en_alloc en ''praw'' \<and> en_alloc en ''presults'') then (None, False)
        else
          (let (bits, n_included) = filter_bitset e (tids_of_bytes (unat (cf_n_filter_tids cmd)) fb);
               (rc1, raw1) = (if e_handle e \<noteq> None
                 then gl_cagra_filtered gl (e_handle e) query k bits (e_gpu_device_id e)
                   (cf_itopk_size cmd) (cf_search_width cmd) else (1, []));
               filled = length (filter (\<lambda>h. fst h \<noteq> -1) (take k raw1));
               short = (e_handle e \<noteq> None \<and> rc1 = 0 \<and> int filled < min (int k) n_included \<and> e_main_bf_idx e \<noteq> None);
               used_cagra = (e_handle e \<noteq> None \<and> rc1 = 0 \<and> \<not> short);
               retry = (\<not> used_cagra \<and> e_main_bf_idx e \<noteq> None);
               (rc2, raw2) = (if retry then gl_bf_filtered gl (e_main_bf_idx e) query k bits (delta_gpu_of e)
                 else (if used_cagra then (0, raw1) else (1, [])))
           in ((if rc2 = 0
                then Some (map (hit_result (entry_tids e)) (takeWhile (in_range (e_n_vecs e)) (take k raw2)), used_cagra)
                else None), short)))"

text \<open>How many candidates the post-filter path asks for.\<close>

definition exact_chunk_cap :: "CuvsCmdFrame \<Rightarrow> int" where
  "exact_chunk_cap cmd =
    (if 0 < sint (cf_n_vecs cmd) \<and> sint (cf_n_vecs cmd) \<le> 2147483647 then sint (cf_n_vecs cmd) else 1)"

definition fetch_depth :: "search_env \<Rightarrow> CuvsCmdFrame \<Rightarrow> IndexEntry \<Rightarrow> int" where
  "fetch_depth en cmd e =
    (let k = sint (cf_k cmd);
         bk_target = (if cf_n_filter_tids cmd = 0 then k
           else if 0 < e_main_bf_n e
           then max (k * 4) (min (en_want en k (cf_n_filter_tids cmd) (e_main_bf_n e)) (e_main_bf_n e))
           else k * 4)
     in min (min bk_target (e_main_bf_n e)) (max (exact_chunk_cap cmd) k))"

definition map_filter :: "search_env \<Rightarrow> CuvsCmdFrame \<Rightarrow> u64 list option" where
  "map_filter en cmd =
    (if cf_n_filter_tids cmd = 0 then None
     else case map_shm_readonly (en_can_map en) (en_shm en) (en_peer_uid en) (cf_filter_shm_key cmd)
         (8 * unat (cf_n_filter_tids cmd)) of
       None \<Rightarrow> None
     | Some fb \<Rightarrow> if en_alloc en ''filter_tids''
         then Some (cuvs_u64_sort (tids_of_bytes (unat (cf_n_filter_tids cmd)) fb)) else None)"

definition postfilter_search ::
  "outside \<Rightarrow> gpu_lib \<Rightarrow> search_env \<Rightarrow> CuvsCmdFrame \<Rightarrow> vec \<Rightarrow> nat \<Rightarrow> daemon \<Rightarrow> reply \<times> daemon" where
  "postfilter_search out gl en cmd query i st =
    (let e = entry_at i st; k = nat (sint (cf_k cmd)); bk = fetch_depth en cmd e in
     if \<not> (en_alloc en ''raw'' \<and> en_alloc en ''results'') then (send_error ''malloc failed'', st)
     else let (ret, raw) = (if 0 < bk then gl_bf_search gl (e_main_bf_idx e) query (nat bk) (delta_gpu_of e) else (0, [])) in
       if ret \<noteq> 0
       then (if ret = 2 then refuse CUVS_STATUS_DIM_MISMATCH ''query dim != index dim'' i st
             else refuse CUVS_STATUS_OOM_FALLBACK ''brute_force search failed'' i st)
       else let flt = map_filter en cmd in
         if cuvs_filter_frame_refuses (cf_n_filter_tids cmd) (flt \<noteq> None)
         then refuse CUVS_STATUS_ERROR ''filter TID set unavailable; refusing to return unfiltered rows'' i st
         else let rs = take k (filter (\<lambda>r. case flt of None \<Rightarrow> True | Some ts \<Rightarrow> cuvs_u64_contains ts (r_tid r))
                    (map (hit_result (entry_tids e)) (filter (in_range (e_n_vecs e)) (take (nat bk) raw))))
           in (case flt of
                 Some ts \<Rightarrow>
                   if length rs < k \<and> bk < e_main_bf_n e
                   then (case search_filter_exact (gl_brute_force gl) (o_mem out)
                         (d_files st (e_db_oid e, e_index_oid e, F_vectors)) e query ts k (exact_chunk_cap cmd) of
                       (status, rs') \<Rightarrow>
                         if status \<noteq> CUVS_STATUS_OK
                         then refuse status ''filtered search could not complete exact fallback'' i st
                         else serve en cmd 6 False rs' i st)
                   else serve en cmd 3 False rs i st
               | None \<Rightarrow> serve en cmd 3 False rs i st))"

text \<open>The exact branch of an unsharded index, after the batch worker had its chance.\<close>

definition search_bf ::
  "outside \<Rightarrow> gpu_lib \<Rightarrow> search_env \<Rightarrow> CuvsCmdFrame \<Rightarrow> vec \<Rightarrow> nat \<Rightarrow> daemon \<Rightarrow> reply \<times> daemon" where
  "search_bf out gl en cmd query i st =
    (let st1 = refresh_main_bf_cache out gl (cf_bf_precision cmd) i st; e = entry_at i st1 in
     if e_main_bf_idx e = None \<and> \<not> prefilter_ready cmd e
     then refuse CUVS_STATUS_NO_VECTORS no_vectors_msg i st1
     else
       (let tried = (cf_use_prefilter cmd \<noteq> 0 \<and> 0 < cf_n_filter_tids cmd \<and> e_rev_tids e \<noteq> None \<and> e_rev_item_ids e \<noteq> None);
            (found, short) = (if tried then prefilter_search gl en cmd query e else (None, False));
            st2 = (if short then update_entry i (\<lambda>e. e\<lparr>e_prefilter_fallback_count := e_prefilter_fallback_count e + 1\<rparr>) st1
                   else st1)
        in case found of
             Some (rs, used_cagra) \<Rightarrow> serve en cmd (if used_cagra then 4 else 3) False rs i st2
           | None \<Rightarrow>
              if e_main_bf_idx e = None
              then refuse CUVS_STATUS_NO_VECTORS ''prefilter failed and no brute-force vectors are available'' i st2
              else postfilter_search out gl en cmd query i st2))"

definition search_exact ::
  "outside \<Rightarrow> gpu_lib \<Rightarrow> search_env \<Rightarrow> CuvsCmdFrame \<Rightarrow> vec \<Rightarrow> nat \<Rightarrow> daemon \<Rightarrow> reply \<times> daemon" where
  "search_exact out gl en cmd query i st =
    (if 0 < cf_bf_batch_wait_us cmd \<and> en_worker_started en \<and> \<not> prefilter_ready cmd (entry_at i st)
     then (case enqueue_or_refind en cmd \<lparr>bk_db_oid = cf_db_oid cmd, bk_index_oid = cf_index_oid cmd,
               bk_precision = cf_bf_precision cmd, bk_dim = cf_dim cmd, bk_mode = 1, bk_itopk_size = 0,
               bk_search_width = 0\<rparr> bf_answer query st of
             (Inl r, st1) \<Rightarrow> (r, st1)
           | (Inr j, st1) \<Rightarrow> search_bf out gl en cmd query j st1)
     else search_bf out gl en cmd query i st)"

section \<open>Sharded search\<close>

text \<open>What one shard is asked for: the descriptor taken under the mutex.\<close>

record shard_arg =
  sa_handle :: "handle option"
  sa_bf_idx :: "handle option"
  sa_sk :: nat
  sa_gpu_device_id :: u32
  sa_tid_offset :: int
  sa_n_vecs :: int

definition shard_search_worker ::
  "gpu_lib \<Rightarrow> CuvsCmdFrame \<Rightarrow> bool \<Rightarrow> vec \<Rightarrow> shard_arg \<Rightarrow> int \<times> gpu_hit list" where
  "shard_search_worker gl cmd use_bf query a =
    (if use_bf then gl_bf_search gl (sa_bf_idx a) query (sa_sk a) (sa_gpu_device_id a)
     else gl_cagra_search gl (sa_handle a) query (sa_sk a) (sa_gpu_device_id a) (cf_itopk_size cmd) (cf_search_width cmd))"

definition effective_k :: "CuvsCmdFrame \<Rightarrow> int" where
  "effective_k cmd =
    (let eff_k = sint (cf_k cmd + cf_shard_overfetch cmd) in if eff_k < sint (cf_k cmd) then sint (cf_k cmd) else eff_k)"

definition shard_arg_of :: "int \<Rightarrow> ShardEntry \<Rightarrow> shard_arg" where
  "shard_arg_of eff_k se = \<lparr>sa_handle = se_handle se, sa_bf_idx = se_bf_idx se, sa_sk = nat (min (se_n_vecs se) eff_k),
     sa_gpu_device_id = se_gpu_device_id se, sa_tid_offset = se_tid_offset se, sa_n_vecs = se_n_vecs se\<rparr>"

text \<open>The searches outside the mutex; a shard that is asked for nothing is skipped.\<close>

definition run_shard :: "gpu_lib \<Rightarrow> CuvsCmdFrame \<Rightarrow> bool \<Rightarrow> vec \<Rightarrow> shard_arg \<Rightarrow> int \<times> gpu_hit list" where
  "run_shard gl cmd use_bf query a =
    (if sa_sk a = 0 then (0, []) else shard_search_worker gl cmd use_bf query a)"

definition count_shard :: "shard_arg \<times> int \<times> gpu_hit list \<Rightarrow> ShardEntry \<Rightarrow> ShardEntry" where
  "count_shard r s =
    (if fst (snd r) \<noteq> 0
     then s\<lparr>se_error_count := se_error_count s + 1, se_last_status := CUVS_STATUS_OOM_FALLBACK\<rparr>
     else if 0 < sa_sk (fst r)
     then s\<lparr>se_search_count := se_search_count s + 1, se_last_status := CUVS_STATUS_OK\<rparr> else s)"

definition count_shards :: "(shard_arg \<times> int \<times> gpu_hit list) list \<Rightarrow> ShardEntry list \<Rightarrow> ShardEntry list" where
  "count_shards rs ss = map2 count_shard rs ss @ drop (length rs) ss"

definition shard_candidates :: "IndexEntry \<Rightarrow> shard_arg \<times> int \<times> gpu_hit list \<Rightarrow> CuvsResult list" where
  "shard_candidates e r =
    (let a = fst r in
     map (\<lambda>h. hit_result (entry_tids e) (sa_tid_offset a + fst h, snd h))
       (filter (\<lambda>h. in_range (sa_n_vecs a) h \<and> in_range (e_n_vecs e) (sa_tid_offset a + fst h, snd h))
         (take (sa_sk a) (snd (snd r)))))"

definition delta_hits :: "gpu_lib \<Rightarrow> search_env \<Rightarrow> u32 \<Rightarrow> int \<Rightarrow> vec \<Rightarrow> IndexEntry \<Rightarrow> gpu_hit list option" where
  "delta_hits gl en dev k query e =
    (if e_delta_idx e \<noteq> None \<and> 0 < e_n_delta e \<and> en_alloc en ''draw''
     then let n = nat (min k (e_n_delta e)); (rc, draw) = gl_bf_search gl (e_delta_idx e) query n dev
       in if rc = 0 then Some (take n draw) else None
     else None)"

definition delta_results :: "IndexEntry \<Rightarrow> gpu_hit list \<Rightarrow> CuvsResult list" where
  "delta_results e draw =
    map (hit_result (case e_delta_tids e of None \<Rightarrow> [] | Some ts \<Rightarrow> ts)) (filter (in_range (e_n_delta e)) draw)"

definition bump_merged :: "IndexEntry \<Rightarrow> IndexEntry" where
  "bump_merged e = e\<lparr>e_delta_merged_count := e_delta_merged_count e + 1\<rparr>"

text \<open>Back under the mutex, with the entry found again in slot \<open>i\<close>.\<close>

definition merge_shards ::
  "outside \<Rightarrow> gpu_lib \<Rightarrow> search_env \<Rightarrow> CuvsCmdFrame \<Rightarrow> bool \<Rightarrow> vec \<Rightarrow> (shard_arg \<times> int \<times> gpu_hit list) list
    \<Rightarrow> nat \<Rightarrow> daemon \<Rightarrow> reply \<times> daemon" where
  "merge_shards out gl en cmd use_bf query rs i st =
    (let st1 = update_entry i (\<lambda>e. e\<lparr>e_inflight := (if 0 < e_inflight e then e_inflight e - 1 else e_inflight e),
           e_shards := map_option (count_shards rs) (e_shards e)\<rparr>) st;
         k = nat (sint (cf_k cmd))
     in if list_ex (\<lambda>r. fst (snd r) \<noteq> 0) rs
        then refuse CUVS_STATUS_OOM_FALLBACK ''sharded search failed on a shard; CPU fallback'' i st1
        else if \<not> (en_alloc en ''cand'' \<and> en_alloc en ''out'') then (send_error ''malloc failed'', st1)
        else
          (let base = concat (map (shard_candidates (entry_at i st1)) rs);
               st2 = (if use_bf then st1 else refresh_delta_cache out gl i st1);
               e = entry_at i st2;
               draw = (if use_bf then None else delta_hits gl en (delta_gpu_of e) (sint (cf_k cmd)) query e);
               st3 = (if draw = None then st2 else update_entry i bump_merged st2);
               cand = base @ (case draw of None \<Rightarrow> [] | Some d \<Rightarrow> delta_results e d)
           in serve en cmd (if use_bf then 3 else 0) (draw \<noteq> None) (take k (qsort (delta_cand_cmp (e_metric e)) cand)) i st3))"

definition search_sharded ::
  "outside \<Rightarrow> gpu_lib \<Rightarrow> search_env \<Rightarrow> CuvsCmdFrame \<Rightarrow> vec \<Rightarrow> nat \<Rightarrow> daemon \<Rightarrow> reply \<times> daemon" where
  "search_sharded out gl en cmd query i st =
    (let use_bf = (cf_search_mode cmd = 1) in
     if 0 < cf_n_filter_tids cmd
     then refuse CUVS_STATUS_ERROR ''filtered search is not implemented for sharded indexes'' i st
     else let (ready, st1) = (if use_bf then refresh_shard_bf_caches out gl (cf_bf_precision cmd) i st else (True, st)) in
       if \<not> ready then refuse CUVS_STATUS_NO_VECTORS no_vectors_msg i st1
       else if \<not> (en_alloc en ''args'' \<and> en_alloc en ''threads'') then (send_error ''malloc failed'', st1)
       else
         (let e = entry_at i st1; args = map (shard_arg_of (effective_k cmd)) (shard_list e) in
          if \<not> en_alloc en ''shard out'' then (send_error ''malloc failed'', st1)
          else
            (let st2 = update_entry i (\<lambda>e. e\<lparr>e_inflight := e_inflight e + 1\<rparr>) st1;
                 rs = map (\<lambda>a. (a, run_shard gl cmd use_bf query a)) args;
                 st3 = en_other en st2
             in case find_index (e_db_oid e) (e_index_oid e) st3 of
                  None \<Rightarrow> (send_error_code CUVS_STATUS_OOM_FALLBACK ''sharded index vanished mid-search; CPU fallback'', st3)
                | Some j \<Rightarrow> merge_shards out gl en cmd use_bf query rs j st3)))"

section \<open>Graph search\<close>

text \<open>\<open>Some\<close>: the CPU graph answered; \<open>None\<close>: go on with the GPU.\<close>

definition search_hnsw ::
  "gpu_lib \<Rightarrow> search_env \<Rightarrow> CuvsCmdFrame \<Rightarrow> vec \<Rightarrow> nat \<Rightarrow> daemon \<Rightarrow> reply option \<times> daemon" where
  "search_hnsw gl en cmd query i st =
    (let e0 = entry_at i st; k = nat (sint (cf_k cmd));
         st1 = (if e_hnsw_idx e0 = None \<and> gl_hnsw_load gl (d_files st (e_db_oid e0, e_index_oid e0, F_hnsw))
                   (e_dim e0) (e_metric e0) (e_gpu_device_id e0)
                then let (h, st') = gpu_alloc st in update_entry i (\<lambda>e. e\<lparr>e_hnsw_idx := Some h\<rparr>) st'
                else st);
         e = entry_at i st1
     in if e_hnsw_idx e = None then (None, st1)
        else if \<not> en_alloc en ''hraw'' then (Some (send_error ''malloc failed''), st1)
        else let (rc, hraw) = gl_hnsw_search gl (e_hnsw_idx e) query k in
          if rc \<noteq> 0 then (None, st1)
          else let rs = (if en_alloc en ''hresults''
                 then map (hit_result (entry_tids e)) (filter (in_range (e_n_vecs e)) (take k hraw)) else []);
               (r, st2) = serve en cmd 1 False rs i st1
            in (Some r, st2))"

text \<open>
  \<open>cagra_finish_one\<close>: the results, and whether the pending rows were merged, which also
  counts on the entry.
\<close>

definition cagra_finish_one ::
  "bool \<Rightarrow> IndexEntry \<Rightarrow> gpu_hit list \<Rightarrow> nat \<Rightarrow> gpu_hit list option \<Rightarrow> nat \<Rightarrow> CuvsResult list \<times> bool" where
  "cagra_finish_one alloc e base k draw n_dc =
    (let bs = map (hit_result (entry_tids e)) (filter (in_range (e_n_vecs e)) (take k base)) in
     case draw of
       Some d \<Rightarrow>
         if 0 < n_dc \<and> alloc
         then (take k (qsort (delta_cand_cmp (e_metric e)) (bs @ delta_results e (take n_dc d))), True)
         else (bs, False)
     | None \<Rightarrow> (bs, False))"

definition cagra_answer :: "batch_answer \<Rightarrow> reply" where
  "cagra_answer a =
    (if ba_status a = CUVS_STATUS_OK then results_reply (ba_latency_us a) (ba_delta_merged a) (ba_out a)
     else if ba_status a = CUVS_STATUS_STALE then send_error_code CUVS_STATUS_STALE ''index stale (writes since build)''
     else status_reply (ba_status a))"

definition search_graph ::
  "outside \<Rightarrow> gpu_lib \<Rightarrow> search_env \<Rightarrow> CuvsCmdFrame \<Rightarrow> vec \<Rightarrow> nat \<Rightarrow> daemon \<Rightarrow> reply \<times> daemon" where
  "search_graph out gl en cmd query i st =
    (let e = entry_at i st; k = nat (sint (cf_k cmd)) in
     if \<not> en_alloc en ''raw'' then (send_error ''malloc failed'', st)
     else if e_handle e = None
     then refuse CUVS_STATUS_NO_VECTORS ''index has no CAGRA graph (flat/brute-force only)'' i st
     else let (ret, raw) = gl_cagra_search gl (e_handle e) query k (e_gpu_device_id e) (cf_itopk_size cmd) (cf_search_width cmd) in
       if ret = 2 then refuse CUVS_STATUS_DIM_MISMATCH ''query dim != index dim'' i st
       else if ret \<noteq> 0 then refuse CUVS_STATUS_OOM_FALLBACK ''CAGRA search failed'' i st
       else if \<not> en_alloc en ''results'' then (send_error ''malloc failed'', st)
       else let st1 = refresh_delta_cache out gl i st; e1 = entry_at i st1;
                draw = delta_hits gl en (e_gpu_device_id e1) (sint (cf_k cmd)) query e1;
                n_dc = (if draw = None then 0 else nat (min (sint (cf_k cmd)) (e_n_delta e1)));
                (rs, merged) = cagra_finish_one (en_alloc en ''cand'') e1 raw k draw n_dc;
                st2 = (if merged then update_entry i bump_merged st1 else st1)
         in serve en cmd 0 merged rs i st2)"

definition search_cagra ::
  "outside \<Rightarrow> gpu_lib \<Rightarrow> search_env \<Rightarrow> CuvsCmdFrame \<Rightarrow> vec \<Rightarrow> nat \<Rightarrow> daemon \<Rightarrow> reply \<times> daemon" where
  "search_cagra out gl en cmd query i st =
    (if 0 < cf_cagra_batch_wait_us cmd \<and> en_worker_started en \<and> cf_n_filter_tids cmd = 0 \<and> e_handle (entry_at i st) \<noteq> None
     then (case enqueue_or_refind en cmd \<lparr>bk_db_oid = cf_db_oid cmd, bk_index_oid = cf_index_oid cmd,
               bk_precision = 0, bk_dim = cf_dim cmd, bk_mode = 0, bk_itopk_size = cf_itopk_size cmd,
               bk_search_width = cf_search_width cmd\<rparr> cagra_answer query st of
             (Inl r, st1) \<Rightarrow> (r, st1)
           | (Inr j, st1) \<Rightarrow> search_graph out gl en cmd query j st1)
     else search_graph out gl en cmd query i st)"

section \<open>The handler\<close>

definition metric_msg :: "u32 \<Rightarrow> u32 \<Rightarrow> string" where
  "metric_msg built queried = ''index built with metric '' @ dec_digits (unat built) @ '' but queried with metric ''
     @ dec_digits (unat queried) @ ''; REINDEX required''"

definition dim_msg :: "u32 \<Rightarrow> u32 \<Rightarrow> string" where
  "dim_msg q d = ''query dim '' @ dec_digits (unat q) @ '' does not match index dim '' @ dec_digits (unat d)"

definition search_found ::
  "outside \<Rightarrow> gpu_lib \<Rightarrow> search_env \<Rightarrow> CuvsCmdFrame \<Rightarrow> nat \<Rightarrow> daemon \<Rightarrow> reply \<times> daemon" where
  "search_found out gl en cmd i st0 =
    (let st = update_entry i (\<lambda>e. e\<lparr>e_last_search := d_now st0\<rparr>) st0; e = entry_at i st in
     if e_stale e then refuse CUVS_STATUS_STALE ''index stale (writes since build)'' i st
     else if cf_metric cmd \<noteq> e_metric e
     then refuse CUVS_STATUS_METRIC_MISMATCH (metric_msg (e_metric e) (cf_metric cmd)) i st
     else case map_query (en_can_map en) (en_shm en) (en_peer_uid en) (cf_shm_key cmd) (cf_dim cmd) of
       Inl msg \<Rightarrow> (send_error msg, st)
     | Inr query \<Rightarrow>
        if cf_dim cmd \<noteq> e_dim e then refuse CUVS_STATUS_DIM_MISMATCH (dim_msg (cf_dim cmd) (e_dim e)) i st
        else if (cf_search_mode cmd = 1 \<or> e_is_flat e) \<and> \<not> is_sharded e then search_exact out gl en cmd query i st
        else if is_sharded e then search_sharded out gl en cmd query i st
        else if cf_use_cpu_hnsw cmd \<noteq> 0
        then (case search_hnsw gl en cmd query i st of
                (Some r, st1) \<Rightarrow> (r, st1)
              | (None, st1) \<Rightarrow> search_cagra out gl en cmd query i st1)
        else search_cagra out gl en cmd query i st)"

definition handle_search ::
  "outside \<Rightarrow> gpu_lib \<Rightarrow> search_env \<Rightarrow> CuvsCmdFrame \<Rightarrow> warmup_ring \<times> daemon \<Rightarrow> reply \<times> warmup_ring \<times> daemon" where
  "handle_search out gl en cmd s =
    (case search_lookup out en cmd (fst s) (snd s) of
       (Inl r, q, st) \<Rightarrow> (r, q, st)
     | (Inr i, q, st) \<Rightarrow> (case search_found out gl en cmd i st of (r, st1) \<Rightarrow> (r, q, st1)))"

end
