(* ===== verification/Batch_Worker.thy ===== *)
theory Batch_Worker
  imports Search_Inv
begin

text \<open>
  The micro-batch worker of the daemon (\<open>src/pg_cuvs_server.c\<close>): one coalesced exact or
  CAGRA search for a group of requests (\<open>bf_batch_run_group\<close>,
  \<open>cagra_batch_run_group\<close>), the pass over all groups (\<open>batch_process_locked\<close>), and
  the queue between the connection threads and the worker thread with its wake-ups and shutdown
  (\<open>batch_worker_thread\<close>, \<open>batch_fail_all_locked\<close>).
\<close>

section \<open>Requests\<close>

record CuvsBatchRequest =
  rq_key :: CuvsBatchKey
  rq_query :: vec
  rq_k :: int
  rq_wait_us :: u32
  rq_out :: "CuvsResult list"
  rq_status :: u32
  rq_delta_merged :: bool
  rq_latency_us :: u32
  rq_done :: bool

text \<open>What the batch kernels answer: a return code and one row of candidates per query.\<close>

record batch_lib =
  bl_bf_batch :: "handle option \<Rightarrow> vec list \<Rightarrow> nat \<Rightarrow> u32 \<Rightarrow> int \<times> gpu_hit list list"
  bl_cagra_batch :: "handle option \<Rightarrow> vec list \<Rightarrow> nat \<Rightarrow> u32 \<Rightarrow> u32 \<Rightarrow> u32 \<Rightarrow> int \<times> gpu_hit list list"

definition find_or_load :: "outside \<Rightarrow> u32 \<Rightarrow> u32 \<Rightarrow> daemon \<Rightarrow> nat option \<times> daemon" where
  "find_or_load out db idx st =
    (case find_index db idx st of
       Some i \<Rightarrow> (Some i, st)
     | None \<Rightarrow> let (rc, st1) = load_index out db idx st
        in if rc = 0 then (find_index db idx st1, st1) else (None, st1))"

definition fail_request :: "u32 \<Rightarrow> CuvsBatchRequest \<Rightarrow> CuvsBatchRequest" where
  "fail_request status r = r\<lparr>rq_status := status, rq_out := []\<rparr>"

definition max_k :: "CuvsBatchRequest list \<Rightarrow> int" where
  "max_k rs = foldl max 0 (map rq_k rs)"

text \<open>The statistics every request of a group leaves on the entry, and the group's own.\<close>

definition group_stats ::
  "u32 \<Rightarrow> (IndexEntry \<Rightarrow> IndexEntry) \<Rightarrow> u32 \<Rightarrow> CuvsBatchRequest list \<Rightarrow> nat \<Rightarrow> daemon \<Rightarrow> daemon" where
  "group_stats latency f mode rs i st =
    update_entry i (\<lambda>e. (f (((\<lambda>e. record_search_stat (d_now st) CUVS_STATUS_OK latency None e) ^^ length rs) e))
      \<lparr>e_last_search_mode := mode, e_last_requested_k := of_int (rq_k (hd rs)),
       e_last_returned_k := of_nat (length (rq_out (hd rs)))\<rparr>) st"

definition group_failed ::
  "u32 \<Rightarrow> nat \<Rightarrow> CuvsBatchRequest list \<Rightarrow> daemon \<Rightarrow> CuvsBatchRequest list \<times> daemon" where
  "group_failed status i rs st =
    (map (fail_request status) rs, update_entry i (record_search_stat (d_now st) status 0 None) st)"

section \<open>One group\<close>

definition bf_request :: "u32 \<Rightarrow> IndexEntry \<Rightarrow> int \<Rightarrow> gpu_hit list \<Rightarrow> CuvsBatchRequest \<Rightarrow> CuvsBatchRequest" where
  "bf_request latency e kk row r =
    r\<lparr>rq_out := map (hit_result (entry_tids e)) (filter (in_range (e_n_vecs e)) (take (nat (min (rq_k r) kk)) row)),
      rq_status := CUVS_STATUS_OK\<rparr>"

definition bf_batch_run_group ::
  "outside \<Rightarrow> gpu_lib \<Rightarrow> batch_lib \<Rightarrow> search_env \<Rightarrow> CuvsBatchRequest list \<Rightarrow> daemon
    \<Rightarrow> CuvsBatchRequest list \<times> daemon" where
  "bf_batch_run_group out gl bl en rs st =
    (if rs = [] then (rs, st)
     else let key = rq_key (hd rs) in
       case find_or_load out (bk_db_oid key) (bk_index_oid key) st of
         (None, st1) \<Rightarrow> (map (fail_request CUVS_STATUS_NOT_FOUND) rs, st1)
       | (Some i, st1) \<Rightarrow>
          if e_stale (entry_at i st1) then group_failed CUVS_STATUS_STALE i rs st1
          else let st2 = refresh_main_bf_cache out gl (bk_precision key) i st1; e = entry_at i st2 in
            if e_main_bf_idx e = None then group_failed CUVS_STATUS_NO_VECTORS i rs st2
            else let kk = min (max_k rs) (e_n_vecs e) in
              if \<not> (en_alloc en ''queries'' \<and> en_alloc en ''raw'')
              then (map (fail_request CUVS_STATUS_OOM_FALLBACK) rs, st2)
              else (case bl_bf_batch bl (e_main_bf_idx e) (map rq_query rs) (nat kk) (delta_gpu_of e) of
                 (ret, raw) \<Rightarrow>
                   if ret \<noteq> 0 then group_failed CUVS_STATUS_OOM_FALLBACK i rs st2
                   else let rs' = map2 (bf_request (en_latency_us en) e kk) raw rs in
                     (rs', group_stats (en_latency_us en) (\<lambda>e. e\<lparr>e_bf_batch_count := e_bf_batch_count e + 1\<rparr>) 3 rs' i st2)))"

text \<open>One request of a CAGRA group; \<open>draw\<close> is its row of the delta search.\<close>

definition cagra_request ::
  "search_env \<Rightarrow> IndexEntry \<Rightarrow> nat \<Rightarrow> gpu_hit list \<times> gpu_hit list option \<Rightarrow> CuvsBatchRequest \<Rightarrow> CuvsBatchRequest" where
  "cagra_request en e n_dc rows r =
    (let (out, merged) = cagra_finish_one (en_alloc en ''cand'') e (fst rows) (nat (rq_k r)) (snd rows)
           (min n_dc (nat (rq_k r)))
     in r\<lparr>rq_out := out, rq_delta_merged := merged, rq_latency_us := en_latency_us en, rq_status := CUVS_STATUS_OK\<rparr>)"

definition cagra_delta_rows ::
  "batch_lib \<Rightarrow> search_env \<Rightarrow> CuvsBatchRequest list \<Rightarrow> IndexEntry \<Rightarrow> nat \<times> gpu_hit list option list" where
  "cagra_delta_rows bl en rs e =
    (if e_delta_idx e \<noteq> None \<and> 0 < e_n_delta e \<and> en_alloc en ''draw''
     then let n_dc = nat (min (max_k rs) (e_n_delta e)) in
       (case bl_bf_batch bl (e_delta_idx e) (map rq_query rs) n_dc (e_gpu_device_id e) of
          (rc, draw) \<Rightarrow> if rc = 0 then (n_dc, map (\<lambda>d. Some (take n_dc d)) draw) else (0, replicate (length rs) None))
     else (0, replicate (length rs) None))"

definition cagra_batch_run_group ::
  "outside \<Rightarrow> gpu_lib \<Rightarrow> batch_lib \<Rightarrow> search_env \<Rightarrow> CuvsBatchRequest list \<Rightarrow> daemon
    \<Rightarrow> CuvsBatchRequest list \<times> daemon" where
  "cagra_batch_run_group out gl bl en rs st =
    (if rs = [] then (rs, st)
     else let key = rq_key (hd rs) in
       case find_or_load out (bk_db_oid key) (bk_index_oid key) st of
         (None, st1) \<Rightarrow> (map (fail_request CUVS_STATUS_NOT_FOUND) rs, st1)
       | (Some i, st1) \<Rightarrow>
          let e = entry_at i st1 in
          if e_stale e then group_failed CUVS_STATUS_STALE i rs st1
          else if e_handle e = None then group_failed CUVS_STATUS_NO_VECTORS i rs st1
          else if \<not> (en_alloc en ''queries'' \<and> en_alloc en ''raw'')
          then (map (fail_request CUVS_STATUS_OOM_FALLBACK) rs, st1)
          else (case bl_cagra_batch bl (e_handle e) (map rq_query rs) (nat (max_k rs)) (e_gpu_device_id e)
                (bk_itopk_size key) (bk_search_width key) of
             (ret, raw) \<Rightarrow>
               if ret \<noteq> 0 then group_failed CUVS_STATUS_OOM_FALLBACK i rs st1
               else let st2 = refresh_delta_cache out gl i st1; e2 = entry_at i st2;
                        (n_dc, draws) = cagra_delta_rows bl en rs e2;
                        rs' = map2 (cagra_request en e2 n_dc) (zip raw draws) rs;
                        merged = length (filter rq_delta_merged rs')
                 in (rs', group_stats (en_latency_us en)
                      (\<lambda>e. e\<lparr>e_delta_merged_count := e_delta_merged_count e + of_nat merged,
                             e_cagra_batch_count := e_cagra_batch_count e + 1\<rparr>) 0 rs' i st2)))"

section \<open>One pass over the queue\<close>

definition group_members :: "nat \<Rightarrow> ('a \<times> nat) list \<Rightarrow> 'a list" where
  "group_members g bs = map fst (filter (\<lambda>b. snd b = g) bs)"

text \<open>Writing the results of group \<open>g\<close> back to the requests they belong to.\<close>

fun put_back :: "nat \<Rightarrow> 'a list \<Rightarrow> ('a \<times> nat) list \<Rightarrow> ('a \<times> nat) list" where
  "put_back g (r # rs) ((b, i) # bs) = (if i = g then (r, i) # put_back g rs bs else (b, i) # put_back g (r # rs) bs)"
| "put_back g rs bs = bs"

definition run_group ::
  "outside \<Rightarrow> gpu_lib \<Rightarrow> batch_lib \<Rightarrow> search_env \<Rightarrow> nat \<Rightarrow> (CuvsBatchRequest \<times> nat) list \<times> daemon
    \<Rightarrow> (CuvsBatchRequest \<times> nat) list \<times> daemon" where
  "run_group out gl bl en g s =
    (let rs = group_members g (fst s);
         (rs', st') = (if rs \<noteq> [] \<and> bk_mode (rq_key (hd rs)) = 0
           then cagra_batch_run_group out gl bl en rs (snd s)
           else bf_batch_run_group out gl bl en rs (snd s))
     in (put_back g rs' (fst s), st'))"

definition batch_process_locked ::
  "outside \<Rightarrow> gpu_lib \<Rightarrow> batch_lib \<Rightarrow> search_env \<Rightarrow> CuvsBatchRequest list \<Rightarrow> daemon
    \<Rightarrow> CuvsBatchRequest list \<times> daemon" where
  "batch_process_locked out gl bl en batch st =
    (let (gid, ng) = cuvs_batch_group (map rq_key batch);
         (done, st') = fold (run_group out gl bl en) [0..<ng] (zip batch gid, st)
     in (map (\<lambda>b. (fst b)\<lparr>rq_done := True\<rparr>) done, st'))"

section \<open>What a request gets\<close>

text \<open>A request with its answer: nothing but the answer has changed, and it fits the caller's buffer.\<close>

definition answers :: "CuvsBatchRequest \<Rightarrow> CuvsBatchRequest \<Rightarrow> bool" where
  "answers r' r \<longleftrightarrow> rq_k r' = rq_k r \<and> rq_key r' = rq_key r \<and> rq_query r' = rq_query r \<and> length (rq_out r') \<le> nat (rq_k r)"

lemma answers_fail [simp]: "answers (fail_request status r) r"
  by (simp add: answers_def fail_request_def)

lemma answers_bf: "answers (bf_request latency e kk row r) r"
proof -
  have "length (filter (in_range (e_n_vecs e)) (take (nat (min (rq_k r) kk)) row)) \<le> nat (min (rq_k r) kk)"
    by (rule order_trans [OF length_filter_le]) simp
  also have "\<dots> \<le> nat (rq_k r)" by (rule nat_mono) simp
  finally show ?thesis by (simp add: answers_def bf_request_def)
qed

lemma answers_cagra: "answers (cagra_request en e n_dc rows r) r"
  using cagra_finish_one_bound [of "en_alloc en ''cand''" e "fst rows" "nat (rq_k r)" "snd rows" "min n_dc (nat (rq_k r))"]
  by (auto simp: answers_def cagra_request_def Let_def split: prod.split)

text \<open>A group's answers stand in the order of its requests.\<close>

definition in_order :: "CuvsBatchRequest list \<Rightarrow> CuvsBatchRequest list \<Rightarrow> bool" where
  "in_order rs' rs \<longleftrightarrow> length rs' \<le> length rs \<and> (\<forall>j < length rs'. answers (rs' ! j) (rs ! j))"

lemma in_order_Nil [simp]: "in_order [] rs"
  by (simp add: in_order_def)

lemma in_order_Cons: "in_order (r' # rs') (r # rs) \<longleftrightarrow> answers r' r \<and> in_order rs' rs"
  by (auto simp: in_order_def All_less_Suc2)

lemma in_order_fail [simp]: "in_order (map (fail_request status) rs) rs"
  by (simp add: in_order_def)

lemma in_order_map2: "(\<And>x r. answers (f x r) r) \<Longrightarrow> in_order (map2 f xs rs) rs"
  by (simp add: in_order_def)

lemma in_order_bf: "in_order (fst (bf_batch_run_group out gl bl en rs st)) rs"
  by (auto simp: bf_batch_run_group_def group_failed_def Let_def intro!: in_order_map2 answers_bf split: option.split prod.split)

lemma in_order_cagra: "in_order (fst (cagra_batch_run_group out gl bl en rs st)) rs"
  by (auto simp: cagra_batch_run_group_def group_failed_def Let_def intro!: in_order_map2 answers_cagra split: option.split prod.split)

text \<open>The slots of a batch after some groups: the requests, answered or as they came.\<close>

definition kept :: "(CuvsBatchRequest \<times> nat) list \<Rightarrow> (CuvsBatchRequest \<times> nat) list \<Rightarrow> bool" where
  "kept bs' bs \<longleftrightarrow> list_all2 (\<lambda>b' b. answers (fst b') (fst b) \<or> b' = b) bs' bs"

lemma put_back_kept: "in_order rs' (group_members g bs) \<Longrightarrow> kept (put_back g rs' bs) bs"
proof (induction bs arbitrary: rs')
  case (Cons b bs)
  then show ?case
    by (cases b; cases rs')
      (auto simp: kept_def group_members_def in_order_Cons list_all2_refl)
qed (cases rs'; simp add: kept_def)

lemma kept_trans: "kept xs ys \<Longrightarrow> kept ys zs \<Longrightarrow> kept xs zs"
  unfolding kept_def list_all2_conv_all_nth answers_def by (metis (no_types, lifting))

lemma run_group_kept: "kept (fst (run_group out gl bl en g s)) (fst s)"
  by (auto simp: run_group_def Let_def case_prod_beta intro!: put_back_kept in_order_bf in_order_cagra)

lemma run_groups_kept: "kept (fst (fold (run_group out gl bl en) gs s)) (fst s)"
proof (induction gs arbitrary: s)
  case (Cons g gs)
  show ?case using kept_trans [OF Cons.IH run_group_kept] by simp
qed (simp add: kept_def list_all2_refl)

lemma batch_group_length: "cuvs_batch_group keys = (gs, n) \<Longrightarrow> length gs = length keys"
  using batch_group_loop_grouped [of "[]" 0 keys gs n] by (simp add: cuvs_batch_group_def grouped_def)

text \<open>The worker answers every request with at most the number of rows it asked for.\<close>

lemma batch_process_bound:
  assumes "j < length batch" "rq_out (batch ! j) = []"
  shows "length (rq_out (fst (batch_process_locked out gl bl en batch st) ! j)) \<le> nat (rq_k (batch ! j))"
proof -
  obtain gid ng where g: "cuvs_batch_group (map rq_key batch) = (gid, ng)" by force
  have l: "length gid = length batch" using batch_group_length [of "map rq_key batch"] g by simp
  let ?done = "fst (fold (run_group out gl bl en) [0..<ng] (zip batch gid, st))"
  have "kept ?done (zip batch gid)" using run_groups_kept [of out gl bl en "[0..<ng]" "(zip batch gid, st)"] by simp
  then have "length ?done = length batch" "answers (fst (?done ! j)) (batch ! j) \<or> fst (?done ! j) = batch ! j"
    using assms(1) l by (auto simp: kept_def list_all2_conv_all_nth)
  then show ?thesis
    using assms l by (auto simp: batch_process_locked_def g case_prod_beta Let_def answers_def)
qed

text \<open>
  What the handler waits for: its request, with an empty buffer, somewhere in a batch the worker
  takes from the queue.
\<close>

definition worker_answer :: "CuvsBatchRequest \<Rightarrow> batch_answer" where
  "worker_answer r = \<lparr>ba_status = rq_status r, ba_out = rq_out r, ba_delta_merged = rq_delta_merged r, ba_latency_us = rq_latency_us r\<rparr>"

definition answered_by_worker :: "search_env \<Rightarrow> bool" where
  "answered_by_worker en \<longleftrightarrow>
    (\<forall>key query k a. en_batch en key query k = Some a \<longrightarrow>
      (\<exists>out gl bl en' batch st j. j < length batch \<and> rq_key (batch ! j) = key \<and> rq_query (batch ! j) = query \<and>
        rq_k (batch ! j) = k \<and> rq_out (batch ! j) = [] \<and>
        a = worker_answer (fst (batch_process_locked out gl bl en' batch st) ! j)))"

lemma worker_answer_bound: "answered_by_worker en \<Longrightarrow> en_batch en key query k = Some a \<Longrightarrow> length (ba_out a) \<le> nat k"
  unfolding answered_by_worker_def by (fastforce simp: worker_answer_def dest: batch_process_bound)

lemma enqueue_bound:
  assumes "answered_by_worker en" "enqueue_or_refind en cmd key answer query st = (Inl r, st')"
    and "\<And>a. length (snd (answer a)) \<le> length (ba_out a)"
  shows "length (snd r) \<le> nat (sint (cf_k cmd))"
  using assms(2) order_trans [OF assms(3) worker_answer_bound [OF assms(1)]]
  by (auto simp: enqueue_or_refind_def Let_def status_reply_def split: option.splits if_splits)

lemma search_exact_bound:
  "answered_by_worker en \<Longrightarrow> length (snd (fst (search_exact out gl en cmd query i st))) \<le> nat (sint (cf_k cmd))"
  unfolding search_exact_def
  by (auto simp: search_bf_bound dest: enqueue_bound split: prod.split sum.split)
    (auto simp: bf_answer_def results_reply_def send_error_code_def status_reply_def dest!: enqueue_bound)

lemma search_cagra_bound:
  "answered_by_worker en \<Longrightarrow> length (snd (fst (search_cagra out gl en cmd query i st))) \<le> nat (sint (cf_k cmd))"
  unfolding search_cagra_def
  by (auto simp: search_graph_bound split: prod.split sum.split)
    (auto simp: cagra_answer_def results_reply_def send_error_code_def status_reply_def dest!: enqueue_bound)


section \<open>Exact searches together\<close>

text \<open>Row \<open>j\<close> of a brute-force batch holds the exact nearest rows of query \<open>j\<close>.\<close>

definition exact_rows :: "IndexEntry \<Rightarrow> (vec \<Rightarrow> nat \<Rightarrow> u32) \<Rightarrow> nat \<Rightarrow> vec list \<Rightarrow> int \<times> gpu_hit list list \<Rightarrow> bool" where
  "exact_rows e dist k qs r \<longleftrightarrow> fst r = 0 \<and> length (snd r) = length qs \<and>
    (\<forall>j < length qs. exact_hits (e_metric e) (dist (qs ! j)) (length (entry_tids e)) k (snd r ! j))"

text \<open>The \<open>k\<close> nearest rows of an index, nearest first.\<close>

definition nearest_rows :: "IndexEntry \<Rightarrow> (nat \<Rightarrow> u32) \<Rightarrow> nat \<Rightarrow> CuvsResult list \<Rightarrow> bool" where
  "nearest_rows e d k row \<longleftrightarrow>
    map (near_key (e_metric e)) row = take k (sort (map (\<lambda>j. dist_key (e_metric e) (d j)) [0..<length (entry_tids e)])) \<and>
    (\<forall>c \<in> set row. \<exists>j < length (entry_tids e). c = \<lparr>r_tid = entry_tids e ! j, r_distance = d j\<rparr>)"

lemma hits_nearest:
  assumes "e_n_vecs e = int (length (entry_tids e))" "exact_hits (e_metric e) d (length (entry_tids e)) m hits" "k \<le> m"
  shows "nearest_rows e d k (map (hit_result (entry_tids e)) (filter (in_range (e_n_vecs e)) (take k hits)))"
proof -
  obtain ids where ids: "hits = map (\<lambda>i. (int i, d i)) ids" "set ids \<subseteq> {..<length (entry_tids e)}"
    "map (\<lambda>i. dist_key (e_metric e) (d i)) ids = take m (sort (map (\<lambda>i. dist_key (e_metric e) (d i)) [0..<length (entry_tids e)]))"
    using assms(2) by (auto simp: exact_hits_def)
  have "filter (in_range (e_n_vecs e)) (take k hits) = map (\<lambda>i. (int i, d i)) (take k ids)"
    using ids(1,2) assms(1) by (auto simp: take_map filter_id_conv in_range_def dest!: in_set_takeD)
  moreover have "map (\<lambda>i. dist_key (e_metric e) (d i)) (take k ids)
      = take k (sort (map (\<lambda>i. dist_key (e_metric e) (d i)) [0..<length (entry_tids e)]))"
    using assms(3) by (simp add: take_map [symmetric] ids(3) min_absorb1)
  ultimately show ?thesis
    using ids(2) by (auto simp: nearest_rows_def near_key_dist hit_result_def comp_def dest!: in_set_takeD)
qed

lemma foldl_max_ge:
  fixes xs :: "int list"
  shows "a \<le> foldl max a xs" "x \<in> set xs \<Longrightarrow> x \<le> foldl max a xs"
proof -
  have g: "a \<le> foldl max a xs" for a and xs :: "int list"
  proof (induction xs arbitrary: a)
    case (Cons x xs)
    from Cons.IH [of "max a x"] show ?case by simp
  qed simp
  then show "a \<le> foldl max a xs" .
  show "x \<in> set xs \<Longrightarrow> x \<le> foldl max a xs"
  proof (induction xs arbitrary: a)
    case (Cons y ys)
    then show ?case using g [of "max a y" ys] by (cases "x = y") auto
  qed simp
qed

lemma max_k_ge: "r \<in> set rs \<Longrightarrow> rq_k r \<le> max_k rs"
  by (simp add: max_k_def foldl_max_ge(2))

text \<open>
  C21. Exact searches answered together are answered as if alone. A group of coalesced brute-force
  requests is searched once, for the largest \<open>k\<close> of the group; where the library's batch is
  exact, every request gets exactly its own \<open>k\<close> nearest rows of the index (or all), nearest
  first, whatever its neighbours in the group ask for.
\<close>

theorem bf_batch_exact:
  assumes "bf_batch_run_group out gl bl en rs st = (rs', st')" "j < length rs" "0 \<le> rq_k (rs ! j)"
    and "find_or_load out (bk_db_oid (rq_key (hd rs))) (bk_index_oid (rq_key (hd rs))) st = (Some i, st1)"
    and "\<not> e_stale (entry_at i st1)" "e = entry_at i (refresh_main_bf_cache out gl (bk_precision (rq_key (hd rs))) i st1)"
    and "e_main_bf_idx e \<noteq> None" "en_alloc en ''queries''" "en_alloc en ''raw''" "e_n_vecs e = int (length (entry_tids e))"
    and "\<forall>k \<le> length (entry_tids e). exact_rows e dist k (map rq_query rs)
      (bl_bf_batch bl (e_main_bf_idx e) (map rq_query rs) k (delta_gpu_of e))"
  shows "rq_status (rs' ! j) = CUVS_STATUS_OK \<and> rq_k (rs' ! j) = rq_k (rs ! j) \<and>
    nearest_rows e (dist (rq_query (rs ! j))) (min (nat (rq_k (rs ! j))) (length (entry_tids e))) (rq_out (rs' ! j))"
proof -
  let ?n = "length (entry_tids e)" and ?k = "rq_k (rs ! j)"
  let ?kk = "min (max_k rs) (e_n_vecs e)"
  have ne: "rs \<noteq> []" using assms(2) by auto
  have km: "?k \<le> max_k rs" by (rule max_k_ge) (simp add: assms(2))
  have kk: "nat ?kk \<le> ?n" using assms(10) by auto
  have x: "exact_rows e dist (nat ?kk) (map rq_query rs) (bl_bf_batch bl (e_main_bf_idx e) (map rq_query rs) (nat ?kk) (delta_gpu_of e))"
    using assms(11) kk by blast
  obtain raw where raw: "bl_bf_batch bl (e_main_bf_idx e) (map rq_query rs) (nat ?kk) (delta_gpu_of e) = (0, raw)"
    "length raw = length rs" "exact_hits (e_metric e) (dist (rq_query (rs ! j))) ?n (nat ?kk) (raw ! j)"
    using x assms(2) by (cases "bl_bf_batch bl (e_main_bf_idx e) (map rq_query rs) (nat ?kk) (delta_gpu_of e)") (auto simp: exact_rows_def)
  have "rs' = map2 (bf_request (en_latency_us en) e ?kk) raw rs"
    using assms(1,5,7-9) ne unfolding bf_batch_run_group_def Let_def assms(4) prod.case option.case assms(6) [symmetric] raw(1)
    by (simp del: not_None_eq)
  then have r: "rs' ! j = bf_request (en_latency_us en) e ?kk (raw ! j) (rs ! j)" using assms(2) raw(2) by simp
  have "nat (min ?k ?kk) = min (nat ?k) ?n" using km assms(3,10) by (auto simp: min_def nat_le_iff)
  moreover have "nat (min ?k ?kk) \<le> nat ?kk" by (intro nat_mono min.cobounded2)
  ultimately show ?thesis
    using hits_nearest [OF assms(10) raw(3)] by (simp add: r bf_request_def)
qed

section \<open>Witnesses\<close>

definition sample_request :: "u32 \<Rightarrow> vec \<Rightarrow> int \<Rightarrow> CuvsBatchRequest" where
  "sample_request mode query k = \<lparr>rq_key = \<lparr>bk_db_oid = 1, bk_index_oid = 10, bk_precision = 0, bk_dim = 1, bk_mode = mode,
       bk_itopk_size = 0, bk_search_width = 0\<rparr>, rq_query = query, rq_k = k, rq_wait_us = 100, rq_out = [],
     rq_status = CUVS_STATUS_ERROR, rq_delta_merged = False, rq_latency_us = 0, rq_done = False\<rparr>"

text \<open>Two queries that see the three rows of \<open>search_run\<close> in opposite orders.\<close>

definition mirror_dist :: "vec \<Rightarrow> nat \<Rightarrow> u32" where
  "mirror_dist q j = (if q = [0] then row_dist j else row_dist (2 - j))"

definition mirror_lib :: batch_lib where
  "mirror_lib = \<lparr>bl_bf_batch = \<lambda>_ qs k _. (0, map (\<lambda>q. map (\<lambda>i. (int i, mirror_dist q i))
       (take k (sort_key (\<lambda>i. dist_key 0 (mirror_dist q i)) [0..<3]))) qs),
     bl_cagra_batch = \<lambda>_ qs _ _ _ _. (0, map (\<lambda>_. []) qs)\<rparr>"

text \<open>The index of \<open>search_run\<close> with its exact copy resident and up to date.\<close>

definition bf_run :: daemon where
  "bf_run = search_run\<lparr>g_indexes := [(g_indexes search_run ! 0)\<lparr>e_main_bf_idx := Some 2, e_main_bf_n := 3\<rparr>],
     d_files := (\<lambda>_. None)((1, 10, F_vectors) \<mapsto> []), d_live := [1, 2], d_next := 3\<rparr>"

lemma bf_run_entry: "find_index 1 10 bf_run = Some 0" "refresh_main_bf_cache out gl 0 0 bf_run = bf_run"
  by (simp_all add: bf_run_def search_run_def idle_daemon_def zero_entry_def find_index_def entry_is_def live_entries_def
      refresh_main_bf_cache_def)

lemma sorted_exact_hits:
  "exact_hits metric d n k (map (\<lambda>i. (int i, d i)) (take k (sort_key (\<lambda>i. dist_key metric (d i)) [0..<n])))"
proof -
  let ?ids = "take k (sort_key (\<lambda>i. dist_key metric (d i)) [0..<n])"
  let ?g = "\<lambda>i. dist_key metric (d i)"
  have "set ?ids \<subseteq> {..<n}" by (auto dest!: in_set_takeD)
  moreover have "map ?g (sort_key ?g [0..<n]) = sort (map ?g [0..<n])"
    by (intro properties_for_sort [symmetric]) simp_all
  then have "map ?g ?ids = take k (sort (map ?g [0..<n]))" by (simp flip: take_map)
  ultimately show ?thesis unfolding exact_hits_def by blast
qed

lemma mirror_exact:
  assumes "length (entry_tids e) = 3" "e_metric e = 0"
  shows "exact_rows e mirror_dist k qs (bl_bf_batch mirror_lib h qs k dev)"
proof -
  have r: "bl_bf_batch mirror_lib h qs k dev = (0, map (\<lambda>q. map (\<lambda>i. (int i, mirror_dist q i))
      (take k (sort_key (\<lambda>i. dist_key 0 (mirror_dist q i)) [0..<3]))) qs)"
    by (simp only: mirror_lib_def batch_lib.simps)
  have "exact_hits 0 (mirror_dist (qs ! j)) 3 k (map (\<lambda>q. map (\<lambda>i. (int i, mirror_dist q i))
      (take k (sort_key (\<lambda>i. dist_key 0 (mirror_dist q i)) [0..<3]))) qs ! j)" if "j < length qs" for j
    unfolding nth_map [OF that] by (rule sorted_exact_hits)
  then show ?thesis unfolding exact_rows_def r fst_conv snd_conv assms by (simp only: length_map) blast
qed

lemma bf_run_fields:
  "entry_tids (entry_at 0 bf_run) = [10, 20, 30]" "e_n_vecs (entry_at 0 bf_run) = 3" "e_metric (entry_at 0 bf_run) = 0"
  "\<not> e_stale (entry_at 0 bf_run)" "e_main_bf_idx (entry_at 0 bf_run) = Some 2"
  by (simp_all add: bf_run_def search_run_def entry_tids_def zero_entry_def)

theorem bf_batch_exact_witness:
  "map (near_key 0) (rq_out (fst (bf_batch_run_group calm_outside honest_lib mirror_lib sample_env
     [sample_request 1 [0] 2, sample_request 1 [1] 1] bf_run) ! 1)) = [4]"
proof -
  let ?rs = "[sample_request 1 [0] 2, sample_request 1 [1] 1]"
  let ?e = "entry_at 0 bf_run"
  obtain rs' st' where b: "bf_batch_run_group calm_outside honest_lib mirror_lib sample_env ?rs bf_run = (rs', st')" by force
  have j: "1 < length ?rs" "0 \<le> rq_k (?rs ! 1)" "rq_query (?rs ! 1) = [1]" "rq_k (?rs ! 1) = 1"
    by (simp_all add: sample_request_def)
  have f: "find_or_load calm_outside (bk_db_oid (rq_key (hd ?rs))) (bk_index_oid (rq_key (hd ?rs))) bf_run = (Some 0, bf_run)"
    by (simp add: find_or_load_def sample_request_def bf_run_entry)
  have e: "?e = entry_at 0 (refresh_main_bf_cache calm_outside honest_lib (bk_precision (rq_key (hd ?rs))) 0 bf_run)"
    by (simp add: sample_request_def bf_run_entry)
  have n: "e_main_bf_idx ?e \<noteq> None" "e_n_vecs ?e = int (length (entry_tids ?e))" "length (entry_tids ?e) = 3"
    by (simp_all add: bf_run_fields)
  have a: "en_alloc sample_env s" for s by (simp add: sample_env_def)
  have x: "\<forall>k \<le> length (entry_tids ?e). exact_rows ?e mirror_dist k (map rq_query ?rs)
      (bl_bf_batch mirror_lib (e_main_bf_idx ?e) (map rq_query ?rs) k (delta_gpu_of ?e))"
    using mirror_exact [OF n(3) bf_run_fields(3)] by blast
  have r: "nearest_rows ?e (mirror_dist [1]) 1 (rq_out (rs' ! 1))"
    using bf_batch_exact [OF b j(1,2) f bf_run_fields(4) e n(1) a a n(2) x] unfolding j(3,4) n(3) by simp
  have d: "map (\<lambda>j. dist_key 0 (mirror_dist [1] j)) [0..<3] = [6, 4, 9]"
    by (simp add: mirror_dist_def row_dist_def upt_rec dist_key_def CUVS_METRIC_IP_def f32_key_def f32_mag_def)
  have "map (near_key 0) (rq_out (rs' ! 1)) = take 1 (sort [6, 4, 9])"
    using r unfolding nearest_rows_def n(3) bf_run_fields(3) d by blast
  then show ?thesis unfolding b by simp
qed

text \<open>A daemon whose worker is up, answering a search that asks for one row in a batch of its own.\<close>

definition worker_env :: search_env where
  "worker_env = sample_env\<lparr>en_worker_started := True, en_batch := \<lambda>key query k.
     Some (worker_answer (fst (batch_process_locked calm_outside honest_lib mirror_lib sample_env
       [(sample_request 1 query k)\<lparr>rq_key := key\<rparr>] bf_run) ! 0))\<rparr>"

lemma worker_env_answers: "answered_by_worker worker_env"
  unfolding answered_by_worker_def
proof (intro allI impI)
  fix key query k a
  assume "en_batch worker_env key query k = Some a"
  then show "\<exists>out gl bl en' batch st j. j < length batch \<and> rq_key (batch ! j) = key \<and> rq_query (batch ! j) = query \<and>
      rq_k (batch ! j) = k \<and> rq_out (batch ! j) = [] \<and> a = worker_answer (fst (batch_process_locked out gl bl en' batch st) ! j)"
    by (intro exI [of _ calm_outside] exI [of _ honest_lib] exI [of _ mirror_lib] exI [of _ sample_env]
        exI [of _ "[(sample_request 1 query k)\<lparr>rq_key := key\<rparr>]"] exI [of _ bf_run] exI [of _ 0])
      (simp add: worker_env_def sample_request_def)
qed


theorem bf_batch_ignores_filter_witness:
  "search_exact calm_outside honest_lib worker_env (filter_frame\<lparr>cf_bf_batch_wait_us := 50, cf_use_prefilter := 0\<rparr>) [0] 0 search_run
    = search_exact calm_outside honest_lib worker_env (filter_frame\<lparr>cf_bf_batch_wait_us := 50, cf_n_filter_tids := 0,
        cf_filter_shm_key := [], cf_use_prefilter := 0\<rparr>) [0] 0 search_run"
proof -
  let ?cmd = "filter_frame\<lparr>cf_bf_batch_wait_us := 50, cf_use_prefilter := 0\<rparr>"
  have b: "0 < cf_bf_batch_wait_us ?cmd" "en_worker_started worker_env" "\<not> prefilter_ready ?cmd (entry_at 0 search_run)"
    "en_alloc worker_env ''rout''"
    by (simp_all add: worker_env_def sample_env_def prefilter_ready_def)
  obtain a where a: "en_batch worker_env \<lparr>bk_db_oid = cf_db_oid ?cmd, bk_index_oid = cf_index_oid ?cmd,
      bk_precision = cf_bf_precision ?cmd, bk_dim = cf_dim ?cmd, bk_mode = 1, bk_itopk_size = 0, bk_search_width = 0\<rparr> [0]
      (sint (cf_k ?cmd)) = Some a"
    by (simp add: worker_env_def)
  show ?thesis using bf_batch_ignores_filter [OF b a] by simp
qed

end
