(* ===== verification/Batch_Queue.thy ===== *)
theory Batch_Queue
  imports Prelude
begin

text \<open>
  The queue between the connection threads and the batch worker of \<open>src/pg_cuvs_server.c\<close>,
  as a state machine whose steps are the critical sections under \<open>g_batch_mtx\<close>: a producer
  enqueues, the worker wakes up, sleeps out the window, takes the whole queue, and reports it done;
  SIGTERM sets the shutdown flag, which the worker sees at the head of its loop. Requests are
  numbers. What the worker computes for them is in \<open>Batch_Worker\<close>.
\<close>

section \<open>Steps\<close>

definition CUVS_BATCH_MAX :: nat where "CUVS_BATCH_MAX = 256"

datatype worker_phase = Waiting | Window | Processing "nat list" | Exited

record batch_state =
  g_batch_queue :: "nat list"
  g_shutdown :: bool
  bw_phase :: worker_phase
  bw_served :: "nat list"
  bw_failed :: "nat list"

datatype batch_event = Enqueue nat | Sigterm | Worker

text \<open>A producer: on a full queue it goes on without the worker.\<close>

definition batch_enqueue :: "nat \<Rightarrow> batch_state \<Rightarrow> batch_state" where
  "batch_enqueue r s =
    (if length (g_batch_queue s) < CUVS_BATCH_MAX then s\<lparr>g_batch_queue := g_batch_queue s @ [r]\<rparr> else s)"

definition batch_fail_all_locked :: "batch_state \<Rightarrow> batch_state" where
  "batch_fail_all_locked s = s\<lparr>bw_failed := bw_failed s @ g_batch_queue s, g_batch_queue := []\<rparr>"

text \<open>The worker from one point where it holds the mutex to the next.\<close>

definition batch_worker_step :: "batch_state \<Rightarrow> batch_state" where
  "batch_worker_step s =
    (case bw_phase s of
       Waiting \<Rightarrow>
         if g_shutdown s then (batch_fail_all_locked s)\<lparr>bw_phase := Exited\<rparr>
         else if g_batch_queue s = [] then s else s\<lparr>bw_phase := Window\<rparr>
     | Window \<Rightarrow> s\<lparr>bw_phase := Processing (g_batch_queue s), g_batch_queue := []\<rparr>
     | Processing rs \<Rightarrow> s\<lparr>bw_phase := Waiting, bw_served := bw_served s @ rs\<rparr>
     | Exited \<Rightarrow> s)"

definition batch_step :: "batch_event \<Rightarrow> batch_state \<Rightarrow> batch_state" where
  "batch_step ev s =
    (case ev of
       Enqueue r \<Rightarrow> batch_enqueue r s
     | Sigterm \<Rightarrow> s\<lparr>g_shutdown := True\<rparr>
     | Worker \<Rightarrow> batch_worker_step s)"

definition batch_run :: "batch_event list \<Rightarrow> batch_state \<Rightarrow> batch_state" where
  "batch_run evs s = fold batch_step evs s"

definition batch_start :: batch_state where
  "batch_start = \<lparr>g_batch_queue = [], g_shutdown = False, bw_phase = Waiting, bw_served = [], bw_failed = []\<rparr>"

lemma batch_run_simps [simp]:
  "batch_run [] s = s" "batch_run (ev # evs) s = batch_run evs (batch_step ev s)"
  by (simp_all add: batch_run_def)

text \<open>
  The reachable states, each with the requests it has accepted so far, in the order of their arrival:
  a producer's request is accepted when the queue has room, and not otherwise.
\<close>

inductive batch_reach :: "nat list \<Rightarrow> batch_state \<Rightarrow> bool" where
  start: "batch_reach [] batch_start"
| enqueue: "batch_reach acc s \<Longrightarrow> length (g_batch_queue s) < CUVS_BATCH_MAX \<Longrightarrow> batch_reach (acc @ [r]) (batch_step (Enqueue r) s)"
| full: "batch_reach acc s \<Longrightarrow> length (g_batch_queue s) = CUVS_BATCH_MAX \<Longrightarrow> batch_reach acc (batch_step (Enqueue r) s)"
| sigterm: "batch_reach acc s \<Longrightarrow> batch_reach acc (batch_step Sigterm s)"
| worker: "batch_reach acc s \<Longrightarrow> batch_reach acc (batch_step Worker s)"

section \<open>Every accepted request is in one place\<close>

definition in_flight :: "batch_state \<Rightarrow> nat list" where
  "in_flight s = (case bw_phase s of Processing rs \<Rightarrow> rs | _ \<Rightarrow> [])"

text \<open>The places a request can be in, the furthest on first.\<close>

definition places :: "batch_state \<Rightarrow> nat list" where
  "places s = bw_served s @ bw_failed s @ in_flight s @ g_batch_queue s"

lemma batch_fail_all_fields [simp]:
  "places (batch_fail_all_locked s\<lparr>bw_phase := Exited\<rparr>) = bw_served s @ bw_failed s @ g_batch_queue s"
  "bw_failed (batch_fail_all_locked s) = bw_failed s @ g_batch_queue s" "g_batch_queue (batch_fail_all_locked s) = []"
  "bw_served (batch_fail_all_locked s) = bw_served s"
  by (simp_all add: batch_fail_all_locked_def places_def in_flight_def)

text \<open>Requests are failed only when the worker exits, and then nothing is being processed any more.\<close>

definition failed_late :: "batch_state \<Rightarrow> bool" where
  "failed_late s \<longleftrightarrow> bw_phase s = Exited \<or> bw_failed s = []"

lemma batch_step_invariant:
  assumes "failed_late s" "length (g_batch_queue s) \<le> CUVS_BATCH_MAX"
  shows "failed_late (batch_step ev s)" "length (g_batch_queue (batch_step ev s)) \<le> CUVS_BATCH_MAX"
  using assms
  by (auto simp: batch_step_def batch_enqueue_def batch_worker_step_def failed_late_def
      split: batch_event.split worker_phase.split)

lemma worker_keeps_places: "failed_late s \<Longrightarrow> places (batch_worker_step s) = places s"
  by (auto simp: batch_worker_step_def failed_late_def places_def in_flight_def split: worker_phase.split)

lemma reach_invariant: "batch_reach acc s \<Longrightarrow> failed_late s \<and> length (g_batch_queue s) \<le> CUVS_BATCH_MAX"
proof (induction rule: batch_reach.induct)
  case start
  then show ?case by (simp add: batch_start_def failed_late_def)
qed (simp_all add: batch_step_invariant)

text \<open>Every run is covered by the reachable states.\<close>

lemma reach_run: "batch_reach acc s \<Longrightarrow> \<exists>acc'. batch_reach acc' (batch_run evs s)"
proof (induction evs arbitrary: acc s)
  case (Cons ev evs)
  have "length (g_batch_queue s) \<le> CUVS_BATCH_MAX" using reach_invariant [OF Cons.prems] by simp
  then have "\<exists>acc'. batch_reach acc' (batch_step ev s)"
    using Cons.prems by (cases ev) (auto simp: le_less intro: batch_reach.intros)
  then show ?case using Cons.IH by auto
qed auto

text \<open>
  C19. No request is lost, duplicated or overtaken between the connection threads and the worker. In
  every reachable state the requests accepted so far, in their order of arrival, are exactly those
  served, then those failed at the shutdown, then those being processed, then those in the queue;
  and the queue stays within its array.
\<close>

theorem batch_one_place:
  assumes "batch_reach acc s"
  shows "bw_served s @ bw_failed s @ in_flight s @ g_batch_queue s = acc \<and> length (g_batch_queue s) \<le> CUVS_BATCH_MAX"
proof -
  have "places s = acc" using assms
  proof (induction rule: batch_reach.induct)
    case start
    then show ?case by (simp add: batch_start_def places_def in_flight_def)
  next
    case (worker acc s)
    then show ?case using worker_keeps_places [of s] reach_invariant [OF worker.hyps] by (simp add: batch_step_def)
  qed (simp_all add: batch_step_def batch_enqueue_def places_def in_flight_def)
  then show ?thesis using reach_invariant [OF assms] by (simp add: places_def)
qed

theorem batch_one_place_witness:
  "\<exists>s. batch_reach [5, 6] s \<and> bw_served s @ bw_failed s @ in_flight s @ g_batch_queue s = [5, 6] \<and> in_flight s = [5]"
proof -
  let ?a = "batch_step Worker (batch_step Worker (batch_step (Enqueue 5) batch_start))"
  have q: "length (g_batch_queue batch_start) < CUVS_BATCH_MAX" "length (g_batch_queue ?a) < CUVS_BATCH_MAX"
    by (simp_all add: batch_start_def batch_step_def batch_enqueue_def batch_worker_step_def CUVS_BATCH_MAX_def)
  have r: "batch_reach ([5] @ [6]) (batch_step (Enqueue 6) ?a)"
    using batch_reach.enqueue [OF batch_reach.worker [OF batch_reach.worker [OF batch_reach.enqueue [OF start q(1)]]] q(2)] by simp
  have "in_flight (batch_step (Enqueue 6) ?a) = [5]"
    by (simp add: in_flight_def batch_start_def batch_step_def batch_enqueue_def batch_worker_step_def CUVS_BATCH_MAX_def)
  then show ?thesis using r batch_one_place [OF r] by auto
qed

section \<open>No request waits for ever\<close>

text \<open>How many worker steps a queued request has to wait at most.\<close>

definition worker_distance :: "nat \<Rightarrow> batch_state \<Rightarrow> nat" where
  "worker_distance r s =
    (if r \<in> set (bw_served s) \<union> set (bw_failed s) then 0
     else case bw_phase s of
       Processing rs \<Rightarrow> if r \<in> set rs then 1 else 4
     | Window \<Rightarrow> 2
     | Waiting \<Rightarrow> 3
     | Exited \<Rightarrow> 0)"

definition accepted :: "nat \<Rightarrow> batch_state \<Rightarrow> bool" where
  "accepted r s \<longleftrightarrow> r \<in> set (places s) \<and> (bw_phase s = Exited \<longrightarrow> r \<in> set (bw_served s) \<union> set (bw_failed s))"

lemma accepted_step:
  assumes "accepted r s"
  shows "accepted r (batch_step ev s) \<and> worker_distance r (batch_step ev s) \<le> worker_distance r s - (if ev = Worker then 1 else 0)"
proof (cases ev)
  case (Enqueue x)
  then show ?thesis
    using assms by (auto simp: batch_step_def batch_enqueue_def accepted_def places_def in_flight_def worker_distance_def split: worker_phase.splits)
next
  case Sigterm
  then show ?thesis
    using assms by (auto simp: batch_step_def accepted_def places_def in_flight_def worker_distance_def)
next
  case Worker
  then show ?thesis
    using assms
    by (cases "bw_phase s")
      (auto simp: batch_step_def batch_worker_step_def batch_fail_all_locked_def accepted_def places_def in_flight_def worker_distance_def)
qed

lemma accepted_run:
  "accepted r s \<Longrightarrow> accepted r (batch_run evs s) \<and>
    worker_distance r (batch_run evs s) \<le> worker_distance r s - length (filter (\<lambda>e. e = Worker) evs)"
proof (induction evs arbitrary: s)
  case (Cons ev evs)
  have a: "accepted r (batch_step ev s)"
    "worker_distance r (batch_step ev s) \<le> worker_distance r s - (if ev = Worker then 1 else 0)"
    using accepted_step [OF Cons.prems] by auto
  have "worker_distance r (batch_run evs (batch_step ev s))
      \<le> worker_distance r (batch_step ev s) - length (filter (\<lambda>e. e = Worker) evs)"
    using Cons.IH [OF a(1)] by simp
  then show ?case using a Cons.IH [OF a(1)] by (auto split: if_splits)
qed simp

text \<open>
  C20. No producer waits for ever. A request that got into the queue while the worker was alive is
  answered (served, or failed by the shutdown) after at most four further steps of the worker,
  whatever other requests and signals come in between.
\<close>

theorem batch_liveness:
  assumes "r \<in> set (g_batch_queue s)" "bw_phase s \<noteq> Exited" "4 \<le> length (filter (\<lambda>e. e = Worker) evs)"
  shows "r \<in> set (bw_served (batch_run evs s)) \<union> set (bw_failed (batch_run evs s))"
proof -
  have a: "accepted r s" using assms(1,2) by (simp add: accepted_def places_def in_flight_def)
  have "worker_distance r s \<le> 4" by (simp add: worker_distance_def split: worker_phase.split)
  then have "worker_distance r (batch_run evs s) = 0" "accepted r (batch_run evs s)"
    using accepted_run [OF a, of evs] assms(3) by auto
  then show ?thesis
    by (auto simp: worker_distance_def accepted_def split: worker_phase.splits if_splits)
qed

theorem batch_liveness_witness:
  "5 \<in> set (bw_served (batch_run [Worker, Enqueue 6, Worker, Worker, Sigterm, Worker] (batch_step (Enqueue 5) batch_start)))
     \<union> set (bw_failed (batch_run [Worker, Enqueue 6, Worker, Worker, Sigterm, Worker] (batch_step (Enqueue 5) batch_start)))"
  by (rule batch_liveness) (simp_all add: batch_step_def batch_enqueue_def batch_start_def CUVS_BATCH_MAX_def)

text \<open>
  The shutdown does not close the queue. A request that is enqueued after the worker has exited
  is accepted but never answered, whatever happens: its connection thread waits for ever.
\<close>

theorem batch_late_request_hangs:
  assumes "bw_phase s = Exited" "r \<notin> set (bw_served s) \<union> set (bw_failed s)"
  shows "r \<notin> set (bw_served (batch_run evs (batch_step (Enqueue r) s))) \<union> set (bw_failed (batch_run evs (batch_step (Enqueue r) s)))"
proof -
  have "bw_phase (batch_run evs t) = Exited \<and> bw_served (batch_run evs t) = bw_served t \<and>
      bw_failed (batch_run evs t) = bw_failed t" if "bw_phase t = Exited" for t
    using that
  proof (induction evs arbitrary: t)
    case (Cons ev evs)
    have "bw_phase (batch_step ev t) = Exited \<and> bw_served (batch_step ev t) = bw_served t \<and>
      bw_failed (batch_step ev t) = bw_failed t"
      using Cons.prems by (cases ev) (simp_all add: batch_step_def batch_enqueue_def batch_worker_step_def)
    then show ?case using Cons.IH [of "batch_step ev t"] by simp
  qed simp
  from this [of "batch_step (Enqueue r) s"] show ?thesis
    using assms by (simp add: batch_step_def batch_enqueue_def)
qed

theorem batch_late_request_hangs_witness:
  "5 \<notin> set (bw_served (batch_run [Worker, Worker, Sigterm] (batch_step (Enqueue 5) (batch_run [Sigterm, Worker] batch_start))))
     \<union> set (bw_failed (batch_run [Worker, Worker, Sigterm] (batch_step (Enqueue 5) (batch_run [Sigterm, Worker] batch_start))))"
  by (rule batch_late_request_hangs)
    (simp_all add: batch_step_def batch_worker_step_def batch_fail_all_locked_def batch_start_def)

end
