(* ===== verification/Build.thy ===== *)
theory Build
  imports Search_Handler
begin

text \<open>
  Building a CAGRA index: \<open>handle_build\<close>, \<open>handle_build_multi\<close> and the commit
  they share, \<open>finish_build_commit\<close>, of \<open>src/pg_cuvs_server.c\<close>. The corpus comes
  as one mapping or as the partial mappings of a parallel build. The GPU build itself runs without
  the registry mutex; \<open>bn_meanwhile\<close> is what the other threads make of the state in each
  such window. A build that runs out of VRAM evicts and tries again, which need not end while other
  threads load indexes, so the handlers are partial: \<open>None\<close> is a build that never answers.

  The directory a build names is taken to be the daemon's own.
\<close>

section \<open>Parameters\<close>

definition CUVS_STATUS_BUILD_FAILED :: u32 where "CUVS_STATUS_BUILD_FAILED = 5"
definition CUVS_STATUS_PERSIST_FAILED :: u32 where "CUVS_STATUS_PERSIST_FAILED = 6"
definition CUVS_BUILD_MAX_PARTIALS :: nat where "CUVS_BUILD_MAX_PARTIALS = 256"

lemmas build_codes = reply_codes CUVS_STATUS_BUILD_FAILED_def CUVS_STATUS_PERSIST_FAILED_def

datatype build_result = Built | Build_oom | Build_error

text \<open>The GPU library: a build sees the handles that occupy the GPU.\<close>

record build_lib =
  bd_cagra_build :: "handle list \<Rightarrow> u32 list \<Rightarrow> nat \<Rightarrow> CuvsCmdFrame \<Rightarrow> int \<Rightarrow> build_result"
  bd_cagra_build_multi :: "handle list \<Rightarrow> (u64 \<times> u32 list) list \<Rightarrow> nat \<Rightarrow> CuvsCmdFrame \<Rightarrow> int \<Rightarrow> build_result"
  bd_hnsw_serialize :: "handle \<Rightarrow> bytes option"

record CuvsPartialDesc =
  pd_shm_name :: bytes
  pd_n_vecs :: u64

text \<open>What a build receives and what the system answers.\<close>

record build_env =
  bn_dir_ok :: bool
  bn_memfd :: "bytes option"
  bn_map_memfd :: bool
  bn_shm :: shm
  bn_uid :: u32
  bn_can_map :: "bytes \<Rightarrow> bool"
  bn_alloc :: "string \<Rightarrow> bool"
  bn_descs :: "CuvsPartialDesc list option"
  bn_meanwhile :: "nat \<Rightarrow> daemon \<Rightarrow> daemon"

definition oom_reply :: "string \<Rightarrow> reply" where
  "oom_reply msg = send_error_code CUVS_STATUS_OOM_FALLBACK msg"

section \<open>The payload\<close>

definition SIZE_MAX :: u64 where "SIZE_MAX = -1"

definition check_payload :: "int \<Rightarrow> string \<Rightarrow> string \<Rightarrow> CuvsCmdFrame \<Rightarrow> string option" where
  "check_payload least msg overflow cmd =
    (if sint (cf_n_vecs cmd) < least \<or> cf_dim cmd = 0 then Some msg
     else let per_vec = ucast (cf_dim cmd) * 4 + 8 :: u64 in
       if cf_n_vecs cmd > SIZE_MAX div per_vec then Some overflow else None)"

text \<open>
  The corpus: \<open>n * dim\<close> floats, then \<open>n\<close> TIDs. A mapping is not checked against the
  size of its object; what lies behind its end is zero here.
\<close>

definition split_corpus :: "nat \<Rightarrow> nat \<Rightarrow> bytes \<Rightarrow> u32 list \<times> u64 list" where
  "split_corpus n dim bs =
    (let vec_bytes = n * dim * 4; total = vec_bytes + n * 8;
         mem = take total (bs @ replicate total 0)
     in (map le_word (chunks 4 (n * dim) (take vec_bytes mem)), tids_of_bytes n (drop vec_bytes mem)))"

definition map_corpus :: "build_env \<Rightarrow> CuvsCmdFrame \<Rightarrow> string + u32 list \<times> u64 list" where
  "map_corpus bn cmd =
    (let corpus = split_corpus (unat (cf_n_vecs cmd)) (unat (cf_dim cmd)) in
     case bn_memfd bn of
       Some bs \<Rightarrow> if bn_map_memfd bn then Inr (corpus bs) else Inl ''mmap failed''
     | None \<Rightarrow>
        (case bn_shm bn (c_str (cf_shm_key cmd)) of
           None \<Rightarrow> Inl ''shm_open failed''
         | Some ob \<Rightarrow>
             if so_owner ob \<noteq> bn_uid bn then Inl ''shm owner mismatch''
             else if \<not> bn_can_map bn (c_str (cf_shm_key cmd)) then Inl ''mmap failed''
             else Inr (corpus (so_bytes ob))))"

text \<open>The smallest positive budget of the usable GPUs, 0 when all are unlimited.\<close>

definition least_budget :: "daemon \<Rightarrow> u64" where
  "least_budget st =
    fold (\<lambda>i budget. let b = g_max_vram_per_gpu st ! nat (usable_gpu i st)
        in if 0 < b \<and> (budget = 0 \<or> b < budget) then b else budget) [0..<n_usable_gpus st] 0"

definition resolve_shards :: "CuvsCmdFrame \<Rightarrow> daemon \<Rightarrow> int" where
  "resolve_shards cmd st =
    (if cf_shard_count cmd \<noteq> 0 then sint (cf_shard_count cmd)
     else cuvs_auto_shard_count (sint (cf_n_vecs cmd)) (sint (cf_dim cmd)) (least_budget st)
       (int (n_usable_gpus st)) (int CUVS_SHARDS_MAX))"

section \<open>Admission and the GPU build\<close>

definition pending_add :: "int \<Rightarrow> u64 \<Rightarrow> daemon \<Rightarrow> daemon" where
  "pending_add dev x st = st\<lparr>g_pending_build_vram :=
     (g_pending_build_vram st)[nat dev := g_pending_build_vram st ! nat dev + x]\<rparr>"

definition build_needed :: "CuvsCmdFrame \<Rightarrow> u64" where
  "build_needed cmd = estimate_vram_bytes (sint (cf_n_vecs cmd)) (sint (cf_dim cmd)) (sint (cf_graph_degree cmd))"

text \<open>Under the mutex: choose a GPU, make room, reserve.\<close>

definition build_admit :: "outside \<Rightarrow> (int \<Rightarrow> string) \<Rightarrow> CuvsCmdFrame \<Rightarrow> daemon \<Rightarrow> (string + int) \<times> daemon" where
  "build_admit out exhausted cmd st =
    (let needed = build_needed cmd; target_gpu = pick_gpu_for_index out needed st in
     if target_gpu < 0 then (Inl ''index too large for any GPU VRAM budget'', st)
     else let (rc, st1) = ensure_vram out needed target_gpu st in
       if rc < 0 then (Inl (exhausted target_gpu), st1)
       else (Inr target_gpu, pending_add target_gpu needed st1))"

type_synonym build_attempt = "daemon \<Rightarrow> handle option \<times> bool \<times> daemon"

definition gpu_attempt :: "(handle list \<Rightarrow> build_result) \<Rightarrow> build_attempt" where
  "gpu_attempt f st =
    (case f (d_live st) of
       Built \<Rightarrow> let (h, st1) = gpu_alloc st in (Some h, False, st1)
     | Build_oom \<Rightarrow> (None, True, st)
     | Build_error \<Rightarrow> (None, False, st))"

definition cuvs_cagra_build :: "build_lib \<Rightarrow> u32 list \<Rightarrow> nat \<Rightarrow> CuvsCmdFrame \<Rightarrow> int \<Rightarrow> build_attempt" where
  "cuvs_cagra_build bd vecs n cmd dev = gpu_attempt (\<lambda>live. bd_cagra_build bd live vecs n cmd dev)"

definition cuvs_cagra_build_multi ::
  "build_lib \<Rightarrow> (u64 \<times> u32 list) list \<Rightarrow> nat \<Rightarrow> CuvsCmdFrame \<Rightarrow> int \<Rightarrow> build_attempt" where
  "cuvs_cagra_build_multi bd parts n cmd dev = gpu_attempt (\<lambda>live. bd_cagra_build_multi bd live parts n cmd dev)"

text \<open>Build, and while it runs out of VRAM evict one index and try again.\<close>

partial_function (option) build_retry ::
  "build_attempt \<Rightarrow> outside \<Rightarrow> (nat \<Rightarrow> daemon \<Rightarrow> daemon) \<Rightarrow> int \<Rightarrow> nat \<Rightarrow> daemon \<Rightarrow> (handle option \<times> daemon) option" where
  "build_retry attempt out meanwhile dev r st =
    (let (h, oom, st1) = attempt (meanwhile (2 * r) st); st2 = meanwhile (2 * r + 1) st1 in
     if h \<noteq> None \<or> \<not> oom then Some (h, st2)
     else let (freed, st3) = evict_lru out dev st2 in
       if freed = 0 then Some (None, st3) else build_retry attempt out meanwhile dev (Suc r) st3)"

section \<open>Persisting\<close>

text \<open>The \<open>.vectors\<close> sidecar under its temporary name; a failure drops a prior sidecar.\<close>

definition stage_vectors ::
  "outside \<Rightarrow> u32 \<Rightarrow> u32 \<Rightarrow> (wfile \<Rightarrow> int \<times> wfile) \<Rightarrow> daemon \<Rightarrow> bool \<times> daemon" where
  "stage_vectors out db idx write st =
    (let tmp = (db, idx, F_vectors_tmp); final = (db, idx, F_vectors) in
     case o_tids_room out tmp of
       None \<Rightarrow> (False, st\<lparr>d_files := (d_files st)(final := None)\<rparr>)
     | Some r \<Rightarrow>
        (let (rc, f) = write \<lparr>written = [], room = r\<rparr> in
         if rc = 0 \<and> o_sync_ok out tmp then (True, st\<lparr>d_files := (d_files st)(tmp \<mapsto> written f)\<rparr>)
         else (False, st\<lparr>d_files := (d_files st)(tmp := None, final := None)\<rparr>)))"

definition unlink_files :: "u32 \<Rightarrow> u32 \<Rightarrow> suffix list \<Rightarrow> daemon \<Rightarrow> daemon" where
  "unlink_files db idx xs st = st\<lparr>d_files := fold (\<lambda>x fs. fs((db, idx, x) := None)) xs (d_files st)\<rparr>"

definition rename_file :: "u32 \<Rightarrow> u32 \<Rightarrow> suffix \<Rightarrow> suffix \<Rightarrow> daemon \<Rightarrow> daemon" where
  "rename_file db idx a b st =
    st\<lparr>d_files := (d_files st)((db, idx, b) := d_files st (db, idx, a), (db, idx, a) := None)\<rparr>"

text \<open>From the temporary files to the second rename; on failure only temporary names are removed,
  unless it was the second rename that failed.\<close>

definition persist_build :: "outside \<Rightarrow> CuvsCmdFrame \<Rightarrow> handle \<Rightarrow> u64 list \<Rightarrow> daemon \<Rightarrow> bool \<times> daemon" where
  "persist_build out cmd h tids st =
    (let db = cf_db_oid cmd; idx = cf_index_oid cmd;
         fail = (\<lambda>s. (False, unlink_files db idx [F_cagra_tmp, F_tids_tmp, F_vectors_tmp] s));
         (rc, st1) = write_tids_atomic out (db, idx, F_tids_tmp) (sint (cf_n_vecs cmd)) (cf_dim cmd) (cf_metric cmd) tids st
     in if rc \<noteq> 0 then fail st1
        else case o_serialize out h of
          None \<Rightarrow> fail st1
        | Some img \<Rightarrow>
           (let st2 = st1\<lparr>d_files := (d_files st1)((db, idx, F_cagra_tmp) \<mapsto> img)\<rparr> in
            if \<not> o_sync_ok out (db, idx, F_cagra_tmp) then fail st2
            else if \<not> o_rename_ok out (db, idx, F_tids) then fail st2
            else let st3 = rename_file db idx F_tids_tmp F_tids st2 in
              if \<not> o_rename_ok out (db, idx, F_cagra) then fail (unlink_files db idx [F_tids] st3)
              else (True, rename_file db idx F_cagra_tmp F_cagra st3)))"

definition commit_vectors :: "outside \<Rightarrow> u32 \<Rightarrow> u32 \<Rightarrow> bool \<Rightarrow> daemon \<Rightarrow> daemon" where
  "commit_vectors out db idx staged st =
    (if \<not> staged then st
     else if \<not> o_rename_ok out (db, idx, F_vectors) then unlink_files db idx [F_vectors_tmp, F_vectors] st
     else rename_file db idx F_vectors_tmp F_vectors st)"

definition unlink_manifest :: "u32 \<Rightarrow> u32 \<Rightarrow> daemon \<Rightarrow> daemon" where
  "unlink_manifest db idx st =
    (let st1 = unlink_files db idx [F_stale, F_shards] st
     in st1\<lparr>d_files := unlink_shards db idx 0 CUVS_SHARDS_MAX (d_files st1)\<rparr>)"

definition save_hnsw :: "build_lib \<Rightarrow> CuvsCmdFrame \<Rightarrow> handle \<Rightarrow> daemon \<Rightarrow> daemon" where
  "save_hnsw bd cmd h st =
    (if cf_use_cpu_hnsw cmd = 0 then st
     else case bd_hnsw_serialize bd h of
       None \<Rightarrow> st
     | Some img \<Rightarrow> st\<lparr>d_files := (d_files st)((cf_db_oid cmd, cf_index_oid cmd, F_hnsw) \<mapsto> img)\<rparr>)"

section \<open>The registry\<close>

text \<open>Replacing a resident entry in place. The resident exact index is not released.\<close>

definition swap_entry ::
  "outside \<Rightarrow> CuvsCmdFrame \<Rightarrow> handle \<Rightarrow> u64 list \<Rightarrow> int \<Rightarrow> u64 \<Rightarrow> nat \<Rightarrow> daemon \<Rightarrow> daemon" where
  "swap_entry out cmd h tids target_gpu needed i st =
    (let e = entry_at i st;
         (e1, st1) = (if is_sharded e then free_index_shards e st else (e, gpu_free (e_handle e) st));
         e2 = e1\<lparr>e_rev_tids := None, e_rev_item_ids := None, e_shard_count := 0, e_shards := None,
           e_gpu_device_id := dev_word target_gpu, e_dim := cf_dim cmd, e_metric := cf_metric cmd,
           e_n_vecs := sint (cf_n_vecs cmd), e_handle := Some h, e_tids := Some tids,
           e_vram_bytes := needed, e_last_search := d_now st, e_valid := True, e_stale := False,
           e_stale_since := 0\<rparr>;
         (e3, st2) = free_delta_cache e2 st1;
         st3 = gpu_free (e_ivfpq_handle e3) (gpu_free (e_hnsw_idx e3) st2);
         e4 = reset_entry_stats (e3\<lparr>e_hnsw_idx := None, e_ivfpq_handle := None, e_last_search_mode := 0\<rparr>);
         e5 = e4\<lparr>e_graph_degree := sint (cf_graph_degree cmd), e_n_extended := 0,
           e_compact_count := e_compact_count e4 + 1, e_last_compact_at := d_now st\<rparr>
     in set_slot i (build_rev_tid_map out e5) st3)"

text \<open>The entry of a first build, in the slot behind the entries in use.\<close>

definition built_entry ::
  "outside \<Rightarrow> CuvsCmdFrame \<Rightarrow> handle \<Rightarrow> u64 list \<Rightarrow> int \<Rightarrow> u64 \<Rightarrow> daemon \<Rightarrow> IndexEntry" where
  "built_entry out cmd h tids target_gpu needed st =
    (let e = (g_indexes st ! g_n_indexes st)\<lparr>e_db_oid := cf_db_oid cmd, e_index_oid := cf_index_oid cmd,
           e_dim := cf_dim cmd, e_metric := cf_metric cmd, e_n_vecs := sint (cf_n_vecs cmd),
           e_handle := Some h, e_tids := Some tids, e_vram_bytes := needed, e_last_search := d_now st,
           e_valid := True, e_stale := False, e_stale_since := 0,
           e_delta_idx := None, e_delta_tids := None, e_n_delta := 0, e_delta_generation := 0,
           e_delta_mtime := 0, e_delta_vram_bytes := 0, e_delta_vecs_host := None, e_delta_n_cached := 0,
           e_main_bf_idx := None, e_main_bf_n := 0, e_main_bf_vram_bytes := 0, e_main_bf_mtime := 0,
           e_main_bf_generation := 0, e_bf_precision := 0, e_warmup_state := WARMUP_HOT,
           e_gpu_device_id := dev_word target_gpu, e_shard_count := 0, e_shards := None,
           e_hnsw_idx := None, e_ivfpq_handle := None, e_ivfpq_n_vecs := 0, e_ivfpq_vram_bytes := 0,
           e_last_search_mode := 0, e_n_extended := 0, e_compact_count := 0, e_last_compact_at := 0,
           e_rev_tids := None, e_rev_item_ids := None\<rparr>
     in (reset_entry_stats (build_rev_tid_map out e))\<lparr>e_graph_degree := sint (cf_graph_degree cmd)\<rparr>)"

definition install_build ::
  "outside \<Rightarrow> CuvsCmdFrame \<Rightarrow> handle \<Rightarrow> u64 list \<Rightarrow> int \<Rightarrow> u64 \<Rightarrow> daemon \<Rightarrow> daemon" where
  "install_build out cmd h tids target_gpu needed st =
    (case find_index (cf_db_oid cmd) (cf_index_oid cmd) st of
       Some i \<Rightarrow> swap_entry out cmd h tids target_gpu needed i st
     | None \<Rightarrow>
        (let st1 = (if length (g_indexes st) \<le> g_n_indexes st then snd (evict_lru out target_gpu st) else st)
         in if length (g_indexes st1) \<le> g_n_indexes st1 then gpu_free (Some h) st1
            else register_entry (built_entry out cmd h tids target_gpu needed st1) st1))"

definition finish_build_commit ::
  "outside \<Rightarrow> build_lib \<Rightarrow> CuvsCmdFrame \<Rightarrow> handle \<Rightarrow> u64 list \<Rightarrow> int \<Rightarrow> u64 \<Rightarrow> bool \<Rightarrow> daemon \<Rightarrow> reply \<times> daemon" where
  "finish_build_commit out bd cmd h tids target_gpu needed staged st =
    (let db = cf_db_oid cmd; idx = cf_index_oid cmd; (ok, st1) = persist_build out cmd h tids st in
     if \<not> ok then (send_error_code CUVS_STATUS_PERSIST_FAILED ''disk persistence failed'', gpu_free (Some h) st1)
     else let st2 = save_hnsw bd cmd h (unlink_manifest db idx (commit_vectors out db idx staged st1))
       in (status_reply CUVS_STATUS_OK, install_build out cmd h tids target_gpu needed st2))"

end
