(* ===== verification/Build_Sharded.thy ===== *)
theory Build_Sharded
  imports Build
begin

text \<open>
  The sharded build (\<open>build_sharded\<close>), the build of one artifact, and the two handlers that
  choose between them, \<open>handle_build\<close> and \<open>handle_build_multi\<close> of
  \<open>src/pg_cuvs_server.c\<close>. A sharded build keeps the registry mutex from its first shard to
  its last; nothing is reserved for the shards already built.
\<close>

section \<open>Building the shards\<close>

definition rows_of_shard :: "nat \<Rightarrow> nat \<Rightarrow> nat \<Rightarrow> nat" where
  "rows_of_shard n sc i = n div sc + (if i < n mod sc then 1 else 0)"

definition built_shard :: "nat \<Rightarrow> handle \<Rightarrow> nat \<Rightarrow> nat \<Rightarrow> int \<Rightarrow> u64 \<Rightarrow> ShardEntry" where
  "built_shard i h off n dev needed = zero_shard\<lparr>se_shard_id := of_nat i, se_handle := Some h,
     se_tid_offset := int off, se_n_vecs := int n, se_gpu_device_id := dev_word dev,
     se_vram_bytes := needed, se_valid := True\<rparr>"

definition built_record :: "CuvsCmdFrame \<Rightarrow> nat \<Rightarrow> nat \<Rightarrow> nat \<Rightarrow> int \<Rightarrow> u32 \<Rightarrow> CuvsShardRecord" where
  "built_record cmd i off n dev crc = \<lparr>sr_shard_id = of_nat i, sr_gpu_device_id = dev_word dev,
     sr_tid_offset = of_nat off, sr_n_vecs = of_nat n, sr_dim = cf_dim cmd, sr_metric = cf_metric cmd,
     sr_artifact_crc32 = crc, sr_reserved = 0\<rparr>"

text \<open>The loop over the shards still to build; \<open>off\<close> is the first row of the next.\<close>

primrec build_shards ::
  "outside \<Rightarrow> build_lib \<Rightarrow> CuvsCmdFrame \<Rightarrow> u32 list \<Rightarrow> nat \<Rightarrow> nat list \<Rightarrow> ShardEntry list \<Rightarrow> CuvsShardRecord list
    \<Rightarrow> nat \<Rightarrow> daemon \<Rightarrow> bool \<times> ShardEntry list \<times> CuvsShardRecord list \<times> daemon" where
  "build_shards out bd cmd vecs sc [] shards recs off st = (True, shards, recs, st)"
| "build_shards out bd cmd vecs sc (i # is) shards recs off st =
    (let n = rows_of_shard (unat (cf_n_vecs cmd)) sc i; dim = unat (cf_dim cmd);
         needed = estimate_vram_bytes (int n) (sint (cf_dim cmd)) (sint (cf_graph_degree cmd));
         tmp = (cf_db_oid cmd, cf_index_oid cmd, F_shard_tmp i);
         (place, st1) = place_shard out i needed st
     in case place of
       None \<Rightarrow> (False, shards, recs, st1)
     | Some dev \<Rightarrow>
        (case cuvs_cagra_build bd (take (n * dim) (drop (off * dim) vecs)) n cmd dev st1 of (h, oom, st2) \<Rightarrow>
           (case h of
              None \<Rightarrow> (False, shards, recs, st2)
            | Some g \<Rightarrow>
               (let shards' = shards @ [built_shard i g off n dev needed] in
                case o_serialize out g of
                  None \<Rightarrow> (False, shards', recs, st2)
                | Some img \<Rightarrow>
                   (let st3 = st2\<lparr>d_files := (d_files st2)(tmp \<mapsto> img)\<rparr> in
                    if \<not> o_sync_ok out tmp then (False, shards', recs, st3)
                    else case crc32_file (d_files st3 tmp) of
                      None \<Rightarrow> (False, shards', recs, st3)
                    | Some crc \<Rightarrow> build_shards out bd cmd vecs sc is shards'
                        (recs @ [built_record cmd i off n dev crc]) (off + n) st3)))))"

section \<open>Committing the artifacts\<close>

definition free_built :: "ShardEntry list \<Rightarrow> daemon \<Rightarrow> daemon" where
  "free_built shards st = fold (\<lambda>s. gpu_free (se_handle s)) shards st"

text \<open>The global \<open>.tids\<close> and the manifest under their temporary names.\<close>

definition stage_manifest ::
  "outside \<Rightarrow> CuvsCmdFrame \<Rightarrow> u64 list \<Rightarrow> CuvsShardRecord list \<Rightarrow> daemon \<Rightarrow> bool \<times> daemon" where
  "stage_manifest out cmd tids recs st =
    (let db = cf_db_oid cmd; idx = cf_index_oid cmd;
         base_crc = cuvs_crc32 (concat (map (le_bytes 8) tids));
         (rc, st1) = write_tids_atomic out (db, idx, F_tids_tmp) (sint (cf_n_vecs cmd)) (cf_dim cmd) (cf_metric cmd) tids st
     in if rc \<noteq> 0 then (False, st1)
        else case o_tids_room out (db, idx, F_shards_tmp) of
          None \<Rightarrow> (False, unlink_files db idx [F_tids_tmp] st1)
        | Some r \<Rightarrow>
           (let (rc2, f) = cuvs_shards_write \<lparr>written = [], room = r\<rparr> (of_nat (length recs)) (cf_n_vecs cmd)
                  (cf_dim cmd) (cf_metric cmd) base_crc recs in
            if rc2 = 0 \<and> o_sync_ok out (db, idx, F_shards_tmp)
            then (True, st1\<lparr>d_files := (d_files st1)((db, idx, F_shards_tmp) \<mapsto> written f)\<rparr>)
            else (False, unlink_files db idx [F_shards_tmp, F_tids_tmp] st1)))"

primrec rename_shards :: "outside \<Rightarrow> u32 \<Rightarrow> u32 \<Rightarrow> nat \<Rightarrow> nat \<Rightarrow> daemon \<Rightarrow> nat \<times> daemon" where
  "rename_shards out db idx j 0 st = (j, st)"
| "rename_shards out db idx j (Suc n) st =
    (if \<not> o_rename_ok out (db, idx, F_shard j) then (j, st)
     else rename_shards out db idx (Suc j) n (rename_file db idx (F_shard_tmp j) (F_shard j) st))"

text \<open>The renames, the manifest last; on a failure nothing of the index is left, old or new.\<close>

definition commit_sharded :: "outside \<Rightarrow> u32 \<Rightarrow> u32 \<Rightarrow> nat \<Rightarrow> daemon \<Rightarrow> bool \<times> daemon" where
  "commit_sharded out db idx sc st =
    (let (renamed, st1) = rename_shards out db idx 0 sc st;
         fail = (\<lambda>s. (False, unlink_files db idx (map F_shard [0..<renamed] @
           [F_tids, F_shards, F_tids_tmp, F_shards_tmp, F_vectors_tmp] @ map F_shard_tmp [renamed..<sc]) s))
     in if renamed < sc then fail st1
        else if \<not> o_rename_ok out (db, idx, F_tids) then fail st1
        else let st2 = rename_file db idx F_tids_tmp F_tids st1 in
          if \<not> o_rename_ok out (db, idx, F_shards) then fail st2
          else (True, rename_file db idx F_shards_tmp F_shards st2))"

definition clear_legacy :: "u32 \<Rightarrow> u32 \<Rightarrow> nat \<Rightarrow> daemon \<Rightarrow> daemon" where
  "clear_legacy db idx sc st =
    (let st1 = unlink_files db idx [F_stale, F_cagra] st
     in st1\<lparr>d_files := unlink_shards db idx sc (CUVS_SHARDS_MAX - sc) (d_files st1)\<rparr>)"

section \<open>The sharded build\<close>

definition sharded_fields ::
  "CuvsCmdFrame \<Rightarrow> u64 list \<Rightarrow> ShardEntry list \<Rightarrow> int \<Rightarrow> IndexEntry \<Rightarrow> IndexEntry" where
  "sharded_fields cmd tids shards now e =
     reset_entry_stats (e\<lparr>e_db_oid := cf_db_oid cmd, e_index_oid := cf_index_oid cmd, e_dim := cf_dim cmd,
       e_metric := cf_metric cmd, e_n_vecs := sint (cf_n_vecs cmd), e_handle := None, e_tids := Some tids,
       e_vram_bytes := 0, e_last_search := now, e_valid := True, e_stale := False, e_stale_since := 0,
       e_delta_idx := None, e_delta_tids := None, e_n_delta := 0, e_delta_generation := 0,
       e_delta_mtime := 0, e_delta_vram_bytes := 0, e_delta_vecs_host := None, e_delta_n_cached := 0,
       e_main_bf_idx := None, e_main_bf_n := 0, e_main_bf_vram_bytes := 0, e_main_bf_mtime := 0,
       e_main_bf_generation := 0, e_bf_precision := 0, e_warmup_state := WARMUP_HOT,
       e_gpu_device_id := 0xFFFFFFFF, e_shard_count := int (length shards), e_shards := Some shards,
       e_inflight := 0\<rparr>)"

definition install_sharded ::
  "outside \<Rightarrow> CuvsCmdFrame \<Rightarrow> u64 list \<Rightarrow> ShardEntry list \<Rightarrow> daemon \<Rightarrow> daemon" where
  "install_sharded out cmd tids shards st =
    (case find_index (cf_db_oid cmd) (cf_index_oid cmd) st of
       Some i \<Rightarrow>
        (let (e1, st1) = free_delta_cache (entry_at i st) st;
             (e2, st2) = (if is_sharded e1 then free_index_shards e1 st1 else (e1, gpu_free (e_handle e1) st1))
         in set_slot i (sharded_fields cmd tids shards (d_now st) e2) st2)
     | None \<Rightarrow>
        (let st1 = (if length (g_indexes st) \<le> g_n_indexes st then snd (evict_lru out (usable_gpu 0 st) st) else st)
         in if length (g_indexes st1) \<le> g_n_indexes st1 then free_built shards st1
            else register_entry (sharded_fields cmd tids shards (d_now st) zero_entry) st1))"

definition clamp_shards :: "int \<Rightarrow> int \<Rightarrow> int" where
  "clamp_shards shard_count n_vecs =
    (let sc = (if shard_count > int CUVS_SHARDS_MAX then int CUVS_SHARDS_MAX else shard_count)
     in if sc > n_vecs div 2 then n_vecs div 2 else sc)"

definition build_sharded ::
  "outside \<Rightarrow> build_lib \<Rightarrow> build_env \<Rightarrow> CuvsCmdFrame \<Rightarrow> u32 list \<Rightarrow> u64 list \<Rightarrow> int \<Rightarrow> daemon \<Rightarrow> reply \<times> daemon" where
  "build_sharded out bd bn cmd vecs tids shard_count st =
    (let db = cf_db_oid cmd; idx = cf_index_oid cmd; sci = clamp_shards shard_count (sint (cf_n_vecs cmd)); sc = nat sci in
     if sci < 2
     then (send_error_code CUVS_STATUS_BUILD_FAILED ''shard_count too high for corpus (need >= 2 vectors per shard)'', st)
     else if \<not> bn_alloc bn ''sharded'' then (send_error_code CUVS_STATUS_BUILD_FAILED ''sharded build alloc failed'', st)
     else let (ok, shards, recs, st1) = build_shards out bd cmd vecs sc [0..<sc] [] [] 0 st in
       if \<not> ok
       then (send_error_code CUVS_STATUS_BUILD_FAILED ''sharded build failed'',
             unlink_files db idx (map F_shard_tmp [0..<Suc (length recs)]) (free_built shards st1))
       else let base_gen = cuvs_crc32 (concat (map (le_bytes 8) tids));
                (staged, st2) = stage_vectors out db idx
                  (\<lambda>f. cuvs_vectors_write f (cf_n_vecs cmd) (cf_dim cmd) (cf_metric cmd) base_gen vecs) st1;
                (persisted, st3) = stage_manifest out cmd tids recs st2
         in if \<not> persisted
            then (send_error_code CUVS_STATUS_PERSIST_FAILED ''sharded persist failed'',
                  unlink_files db idx (map F_shard_tmp [0..<sc] @ [F_vectors_tmp]) (free_built shards st3))
            else let (committed, st4) = commit_sharded out db idx sc st3 in
              if \<not> committed
              then (send_error_code CUVS_STATUS_PERSIST_FAILED ''sharded commit rename failed'', free_built shards st4)
              else (status_reply CUVS_STATUS_OK,
                    install_sharded out cmd tids shards (clear_legacy db idx sc (commit_vectors out db idx staged st4))))"

section \<open>The build of one artifact\<close>

text \<open>
  \<open>attempt\<close> is the GPU build on a device and \<open>write\<close> the writer of the
  \<open>.vectors\<close> sidecar of a generation; they differ between the two handlers, as do the
  texts of two errors. \<open>tids_ok\<close> is the allocation of the TID array.
\<close>

definition build_single ::
  "outside \<Rightarrow> build_lib \<Rightarrow> build_env \<Rightarrow> CuvsCmdFrame \<Rightarrow> (int \<Rightarrow> build_attempt) \<Rightarrow> (u32 \<Rightarrow> wfile \<Rightarrow> int \<times> wfile)
    \<Rightarrow> (int \<Rightarrow> string) \<Rightarrow> string \<Rightarrow> bool \<Rightarrow> u64 list \<Rightarrow> daemon \<Rightarrow> (reply \<times> daemon) option" where
  "build_single out bd bn cmd attempt write exhausted failed tids_ok tids st =
    (case build_admit out exhausted cmd st of
       (Inl msg, st1) \<Rightarrow> Some (oom_reply msg, st1)
     | (Inr gpu, st1) \<Rightarrow>
        (case build_retry (attempt gpu) out (bn_meanwhile bn) gpu 0 st1 of
           None \<Rightarrow> None
         | Some (ho, st2) \<Rightarrow>
            (let st3 = pending_add gpu (- build_needed cmd) st2 in
             case ho of
               None \<Rightarrow> Some (send_error_code CUVS_STATUS_BUILD_FAILED failed, st3)
             | Some h \<Rightarrow>
                if \<not> tids_ok then Some (send_error_code CUVS_STATUS_BUILD_FAILED ''malloc tids failed'', gpu_free (Some h) st3)
                else let gen = cuvs_crc32 (concat (map (le_bytes 8) tids));
                         (staged, st4) = stage_vectors out (cf_db_oid cmd) (cf_index_oid cmd) (write gen) st3
                  in Some (finish_build_commit out bd cmd h tids gpu (build_needed cmd) staged st4))))"

section \<open>Several partials\<close>

definition partial_prefix :: bytes where
  "partial_prefix = map (\<lambda>c. of_nat (of_char c)) ''/pg_cuvs_bld_''"

primrec check_descs :: "u64 \<Rightarrow> CuvsPartialDesc list \<Rightarrow> string + u64" where
  "check_descs tot [] = Inr tot"
| "check_descs tot (d # ds) =
    (if sint (pd_n_vecs d) < 0 then Inl ''negative partial n_vecs''
     else if pd_n_vecs d = 0 then check_descs tot ds
     else if take 13 (pd_shm_name d) \<noteq> partial_prefix then Inl ''partial shm name not /pg_cuvs_bld_*''
     else check_descs (tot + pd_n_vecs d) ds)"

type_synonym corpus_part = "u64 \<times> u32 list \<times> u64 list"

primrec map_partials :: "build_env \<Rightarrow> CuvsCmdFrame \<Rightarrow> CuvsPartialDesc list \<Rightarrow> string + corpus_part list" where
  "map_partials bn cmd [] = Inr []"
| "map_partials bn cmd (d # ds) =
    (if pd_n_vecs d = 0 then map_partials bn cmd ds
     else let plen = pd_n_vecs d * (ucast (cf_dim cmd) * 4) + pd_n_vecs d * 8 :: u64 in
       case bn_shm bn (c_str (pd_shm_name d)) of
         None \<Rightarrow> Inl ''shm_open partial failed''
       | Some ob \<Rightarrow>
           if so_owner ob \<noteq> bn_uid bn then Inl ''shm owner mismatch (partial)''
           else if of_nat (length (so_bytes ob)) \<noteq> plen then Inl ''partial size mismatch''
           else if \<not> bn_can_map bn (c_str (pd_shm_name d)) then Inl ''mmap partial failed''
           else (case map_partials bn cmd ds of
                   Inl e \<Rightarrow> Inl e
                 | Inr ps \<Rightarrow> Inr ((pd_n_vecs d, split_corpus (unat (pd_n_vecs d)) (unat (cf_dim cmd)) (so_bytes ob)) # ps)))"

definition too_large_msg :: string where
  "too_large_msg = ''index too large for GPU VRAM even when fully sharded''"

definition handle_build_multi ::
  "outside \<Rightarrow> build_lib \<Rightarrow> build_env \<Rightarrow> CuvsCmdFrame \<Rightarrow> daemon \<Rightarrow> (reply \<times> daemon) option" where
  "handle_build_multi out bd bn cmd st =
    (if cf_n_partials cmd = 0 \<or> CUVS_BUILD_MAX_PARTIALS < unat (cf_n_partials cmd)
     then Some (send_error ''invalid n_partials'', st)
     else if \<not> bn_alloc bn ''partials'' then Some (send_error ''malloc (partial bookkeeping) failed'', st)
     else case bn_descs bn of
       None \<Rightarrow> Some (send_error ''recv partial descriptors failed'', st)
     | Some ds \<Rightarrow>
        (case check_descs 0 ds of
           Inl e \<Rightarrow> Some (send_error e, st)
         | Inr tot \<Rightarrow>
            if tot \<noteq> cf_n_vecs cmd then Some (send_error ''partial n_vecs sum != corpus size'', st)
            else case map_partials bn cmd ds of
              Inl e \<Rightarrow> Some (send_error e, st)
            | Inr ps \<Rightarrow>
               if ps = [] then Some (send_error ''no non-empty partials'', st)
               else if \<not> bn_alloc bn ''tids'' then Some (send_error ''malloc tids failed'', st)
               else let parts = map (\<lambda>(n, vs, ts). (n, vs)) ps; tids = concat (map (\<lambda>(n, vs, ts). ts) ps);
                        sc = resolve_shards cmd st
                 in if cf_shard_count cmd = 0 \<and> sc = 0 then Some (oom_reply too_large_msg, st)
                    else if 2 \<le> sc then
                      (if \<not> bn_alloc bn ''merged'' then Some (send_error ''mmap merged corpus failed'', st)
                       else Some (build_sharded out bd bn cmd (concat (map snd parts)) tids sc st))
                    else build_single out bd bn cmd (cuvs_cagra_build_multi bd parts (unat (cf_n_vecs cmd)) cmd)
                      (\<lambda>gen f. cuvs_vectors_write_multi f parts (cf_dim cmd) (cf_metric cmd) gen)
                      (\<lambda>_. ''VRAM exhausted after eviction'') ''cuvs_cagra_build_multi failed'' True tids st))"

section \<open>The handler\<close>

definition exhausted_msg :: "int \<Rightarrow> string" where
  "exhausted_msg gpu = ''VRAM exhausted on GPU '' @ dec_digits (nat gpu) @ '' after eviction''"

definition handle_build ::
  "outside \<Rightarrow> build_lib \<Rightarrow> build_env \<Rightarrow> CuvsCmdFrame \<Rightarrow> daemon \<Rightarrow> (reply \<times> daemon) option" where
  "handle_build out bd bn cmd st =
    (if \<not> bn_dir_ok bn then Some (send_error ''recv index_dir failed'', st)
     else case check_payload 2 ''CAGRA build needs at least 2 vectors'' ''build payload size overflow'' cmd of
       Some e \<Rightarrow> Some (send_error e, st)
     | None \<Rightarrow>
        if 0 < cf_n_partials cmd then handle_build_multi out bd bn cmd st
        else case map_corpus bn cmd of
          Inl e \<Rightarrow> Some (send_error e, st)
        | Inr (vecs, tids) \<Rightarrow>
           (let sc = resolve_shards cmd st in
            if cf_shard_count cmd = 0 \<and> sc = 0 then Some (oom_reply too_large_msg, st)
            else if 2 \<le> sc then Some (build_sharded out bd bn cmd vecs tids sc st)
            else build_single out bd bn cmd (cuvs_cagra_build bd vecs (unat (cf_n_vecs cmd)) cmd)
              (\<lambda>gen f. cuvs_vectors_write f (cf_n_vecs cmd) (cf_dim cmd) (cf_metric cmd) gen vecs)
              exhausted_msg ''cuvs_cagra_build failed'' (bn_alloc bn ''tids'') tids st))"

end
