(* ===== verification/Build_Inv.thy ===== *)
theory Build_Inv
  imports Build_Sharded
begin

text \<open>
  What a build guarantees: handle ownership in every branch and under interference, the atomicity of
  the commit, what a crash inside the commit leaves, the round trip from a build to the next load,
  and the end of the evict-and-retry loop.
\<close>

section \<open>Ownership\<close>

definition holds :: "handle list \<Rightarrow> daemon \<Rightarrow> bool" where
  "holds hs st \<longleftrightarrow> owns hs st \<and> fresh st"

text \<open>What the other threads may do: whatever they do, our handles stay ours.\<close>

definition rely :: "(nat \<Rightarrow> daemon \<Rightarrow> daemon) \<Rightarrow> bool" where
  "rely m \<longleftrightarrow> (\<forall>r hs st. holds hs st \<longrightarrow> holds hs (m r st))"

text \<open>Steps that change neither slots nor handles.\<close>

definition same_registry :: "daemon \<Rightarrow> daemon \<Rightarrow> bool" where
  "same_registry st st' \<longleftrightarrow> g_indexes st' = g_indexes st \<and> g_n_indexes st' = g_n_indexes st \<and>
     d_live st' = d_live st \<and> d_bad_free st' = d_bad_free st \<and> d_next st' = d_next st"

lemma same_registry_refl [simp]: "same_registry st st"
  by (simp add: same_registry_def)

lemma same_registry_trans: "same_registry a b \<Longrightarrow> same_registry b c \<Longrightarrow> same_registry a c"
  by (simp add: same_registry_def)

lemma same_registry_live: "same_registry st st' \<Longrightarrow> live_entries st' = live_entries st"
  by (simp add: same_registry_def live_entries_def)

lemma holds_same: "holds hs st \<Longrightarrow> same_registry st st' \<Longrightarrow> holds hs st'"
  using owned_cong [of hs st st'] by (simp add: holds_def same_registry_def fresh_def)

lemma same_registry_files [simp]:
  "same_registry st (st\<lparr>d_files := fs\<rparr>)" "same_registry st (unlink_files db idx xs st)"
  "same_registry st (rename_file db idx a b st)" "same_registry st (pending_add dev x st)"
  "same_registry st (unlink_manifest db idx st)" "same_registry st (clear_legacy db idx sc st)"
  by (simp_all add: same_registry_def unlink_files_def rename_file_def pending_add_def unlink_manifest_def
      clear_legacy_def Let_def)

lemma same_registry_tids: "same_registry st (snd (write_tids_atomic out tmp n dim metric tids st))"
  by (auto simp: write_tids_atomic_def split: option.split prod.split)

lemma same_registry_persist: "same_registry st (snd (persist_build out cmd h tids st))"
  using same_registry_tids [of st out]
  by (auto simp: persist_build_def Let_def case_prod_beta split: option.split
      intro!: same_registry_trans [OF _ same_registry_files(2)] same_registry_trans [OF _ same_registry_files(3)]
        same_registry_trans [OF _ same_registry_files(1)])

lemma same_registry_steps [simp]:
  "same_registry st (snd (stage_vectors out db idx w st))"
  "same_registry st (commit_vectors out db idx staged st)"
  "same_registry st (save_hnsw bd cmd h st)"
  by (auto simp: stage_vectors_def commit_vectors_def save_hnsw_def Let_def case_prod_beta split: option.split)

lemma same_registry_manifest: "same_registry st (snd (stage_manifest out cmd tids recs st))"
  using same_registry_tids [of st out]
  by (auto simp: stage_manifest_def Let_def case_prod_beta split: option.split
      intro!: same_registry_trans [OF _ same_registry_files(2)] same_registry_trans [OF _ same_registry_files(1)])

lemma same_registry_renames: "same_registry st (snd (rename_shards out db idx j n st))"
  by (induction n arbitrary: j st)
    (auto intro: same_registry_trans [OF same_registry_files(3)])

lemma same_registry_commit: "same_registry st (snd (commit_sharded out db idx sc st))"
  using same_registry_renames [of st out db idx 0 sc]
  by (auto simp: commit_sharded_def Let_def case_prod_beta
      intro!: same_registry_trans [OF _ same_registry_files(2)] same_registry_trans [OF _ same_registry_files(3)])

lemma holds_evict: "holds hs st \<Longrightarrow> holds hs (snd (evict_lru out dev st))"
  using evict_lru_owned [of hs st out dev] untouched_evict_lru [of st out dev]
  by (auto simp: holds_def fresh_def untouched_def)

lemma holds_ensure: "holds hs st \<Longrightarrow> holds hs (snd (ensure_vram out needed dev st))"
  by (rule ensure_vram_keeps) (rule holds_evict)

lemma holds_place: "holds hs st \<Longrightarrow> holds hs (snd (place_shard out i needed st))"
  by (auto simp: place_shard_def Let_def case_prod_beta intro: holds_ensure)

lemma holds_free: "holds (hs @ xs) st \<Longrightarrow> holds hs (frees xs st)"
proof -
  assume h: "holds (hs @ xs) st"
  then have l: "mset (d_live st) = mset (concat (map entry_handles (live_entries st))) + mset hs + mset xs"
    and d: "distinct (d_live st)"
    by (simp_all add: holds_def owns_def add.assoc)
  have "mset xs \<subseteq># mset (d_live st)" by (simp add: l)
  from frees_ok [OF this d] have "mset (d_live (frees xs st)) = mset (concat (map entry_handles (live_entries st))) + mset hs"
    "distinct (d_live (frees xs st))" "d_bad_free (frees xs st) = d_bad_free st"
    by (simp_all add: l)
  moreover have "set (d_live (frees xs st)) \<subseteq> set (d_live st)" "d_next (frees xs st) = d_next st"
    using untouched_fold [of "\<lambda>h. gpu_free (Some h)" st xs] untouched_gpu_free
    by (simp_all add: frees_def untouched_def)
  ultimately show ?thesis
    using h by (auto simp: holds_def owns_def fresh_def live_entries_def)
qed

lemma holds_alloc: "holds hs st \<Longrightarrow> holds (hs @ [fst (gpu_alloc st)]) (snd (gpu_alloc st))"
  by (auto simp: holds_def owns_def fresh_def gpu_alloc_def live_entries_def less_Suc_eq)

lemma holds_attempt:
  assumes "holds hs st" "gpu_attempt f st = (h, oom, st1)"
  shows "holds (hs @ opt_list h) st1"
  using assms holds_alloc [OF assms(1)]
  by (auto simp: gpu_attempt_def gpu_alloc_def Let_def split: build_result.splits)

text \<open>Replacing an entry: the new one may keep handles of the old and take some from the operation.\<close>

lemma holds_replace:
  assumes "holds hs st" "i < g_n_indexes st" "wf_entry e'"
    and "mset (entry_handles (live_entries st ! i)) + mset hs = mset rel + mset (entry_handles e') + mset hs'"
  shows "holds hs' (set_slot i e' (frees rel st))"
proof -
  let ?L = "live_entries st"
  have n: "g_n_indexes st \<le> length (g_indexes st)" using assms(1) by (simp add: holds_def owns_def)
  then have len: "i < length ?L" using assms(2) by (simp add: live_entries_def)
  have live: "live_entries (set_slot i e' (frees rel st)) = ?L[i := e']"
    by (simp add: live_entries_def set_slot_def take_update_swap)
  have split: "?L = take i ?L @ ?L ! i # drop (Suc i) ?L" using len by (rule id_take_nth_drop)
  have sp': "?L[i := e'] = take i ?L @ e' # drop (Suc i) ?L" using len by (rule upd_conv_take_nth_drop)
  define R where "R = mset (concat (map entry_handles (take i ?L))) + mset (concat (map entry_handles (drop (Suc i) ?L)))"
  have "mset (concat (map entry_handles ?L)) = R + mset (entry_handles (?L ! i))"
    by (subst split) (simp add: R_def ac_simps)
  moreover have new: "mset (concat (map entry_handles (?L[i := e']))) = R + mset (entry_handles e')"
    by (simp add: sp' R_def ac_simps)
  ultimately have all: "mset (d_live st) = (R + mset (entry_handles e') + mset hs') + mset rel"
    using assms(1,4) by (simp add: holds_def owns_def) (metis add.commute add.left_commute)
  have d: "distinct (d_live st)" using assms(1) by (simp add: holds_def owns_def)
  have "mset rel \<subseteq># mset (d_live st)" by (simp add: all)
  from frees_ok [OF this d] have fr: "mset (d_live (frees rel st)) = R + mset (entry_handles e') + mset hs'"
    "distinct (d_live (frees rel st))" "d_bad_free (frees rel st) = d_bad_free st"
    by (simp_all add: all)
  have u: "set (d_live (frees rel st)) \<subseteq> set (d_live st)" "d_next (frees rel st) = d_next st"
    using untouched_fold [of "\<lambda>h. gpu_free (Some h)" st rel] untouched_gpu_free
    by (simp_all add: frees_def untouched_def)
  have "\<forall>e \<in> set (?L[i := e']). wf_entry e"
    using assms(1,3) set_update_subset_insert [of ?L i e'] by (auto simp: holds_def owns_def)
  then show ?thesis
    using fr u assms(1) n unfolding holds_def owns_def live new fresh_def
    by (auto simp: set_slot_def)
qed

lemma holds_register:
  assumes "holds hs st" "g_n_indexes st < length (g_indexes st)" "wf_entry e"
    and "mset (entry_handles e) + mset hs' = mset hs"
  shows "holds hs' (register_entry e st)"
proof -
  have "mset (d_live st) = mset (concat (map entry_handles (live_entries st))) + (mset (entry_handles e) + mset hs')"
    using assms(1,4) by (simp add: holds_def owns_def)
  then show ?thesis
    using assms(1-3) register_live [OF assms(2), of e] unfolding holds_def owns_def
    by (auto simp: register_entry_def set_slot_def fresh_def add.assoc)
qed

section \<open>The steps of a build\<close>

lemma holds_admit:
  "holds hs st \<Longrightarrow> holds hs (snd (build_admit out exhausted cmd st))"
  using holds_ensure [of hs st out] holds_same [OF _ same_registry_files(4)]
  by (fastforce simp: build_admit_def Let_def case_prod_beta)

definition keeps_handles :: "build_attempt \<Rightarrow> bool" where
  "keeps_handles attempt \<longleftrightarrow> (\<forall>s h oom s'. holds [] s \<longrightarrow> attempt s = (h, oom, s') \<longrightarrow> holds (opt_list h) s')"

lemma holds_retry:
  assumes "build_retry attempt out meanwhile dev r st = Some res"
    and "keeps_handles attempt" "rely meanwhile" "holds [] st"
  shows "holds (opt_list (fst res)) (snd res)"
proof -
  have "keeps_handles attempt \<longrightarrow> rely meanwhile \<longrightarrow> holds [] st \<longrightarrow> holds (opt_list (fst res)) (snd res)"
  proof (rule build_retry.raw_induct [where P = "\<lambda>attempt out m dev r st res.
      keeps_handles attempt \<longrightarrow> rely m \<longrightarrow> holds [] st \<longrightarrow> holds (opt_list (fst res)) (snd res)", OF _ assms(1)], intro impI)
    fix loop attempt out m dev r st res
    assume IH: "\<And>out m dev r st b y. loop out m dev r st b = Some y \<Longrightarrow>
        keeps_handles out \<longrightarrow> rely dev \<longrightarrow> holds [] b \<longrightarrow> holds (opt_list (fst y)) (snd y)"
      and eq: "(let (h, oom, st1) = attempt (m (2 * r) st); st2 = m (2 * r + 1) st1
        in if h \<noteq> None \<or> \<not> oom then Some (h, st2)
           else let (freed, st3) = evict_lru out dev st2
             in if freed = 0 then Some (None, st3) else loop attempt out m dev (Suc r) st3) = Some res"
      and k: "keeps_handles attempt" and ry: "rely m" and st: "holds [] st"
    obtain h oom st1 where a: "attempt (m (2 * r) st) = (h, oom, st1)" by (metis prod_cases3)
    define st2 where "st2 = m (2 * r + 1) st1"
    obtain freed st3 where ev: "evict_lru out dev st2 = (freed, st3)" by fastforce
    have h2: "holds (opt_list h) st2"
      using k ry st a unfolding keeps_handles_def rely_def st2_def by metis
    have h3: "holds (opt_list h) st3" using holds_evict [OF h2, of out dev] ev by simp
    show "holds (opt_list (fst res)) (snd res)"
    proof (cases "h \<noteq> None \<or> \<not> oom")
      case True
      then show ?thesis using eq a h2 by (auto simp: st2_def Let_def split: if_splits)
    next
      case False
      then have "if freed = 0 then Some (None, st3) = Some res else loop attempt out m dev (Suc r) st3 = Some res"
        using eq a ev by (simp add: st2_def Let_def split: if_splits)
      then show ?thesis using IH h3 False k ry by (auto split: if_splits)
    qed
  qed
  then show ?thesis using assms(2-4) by blast
qed

text \<open>
  C37. The evict-and-retry loop of a build ends when the other threads load no index meanwhile: each
  round evicts a resident index.
\<close>

theorem build_retry_returns:
  assumes "\<forall>r s. g_n_indexes (meanwhile r s) \<le> g_n_indexes s"
    and "\<forall>s. g_n_indexes (snd (snd (attempt s))) \<le> g_n_indexes s"
  shows "\<exists>res. build_retry attempt out meanwhile dev r st = Some res"
proof (induction "g_n_indexes st" arbitrary: st r rule: less_induct)
  case less
  obtain h oom st1 where a: "attempt (meanwhile (2 * r) st) = (h, oom, st1)" by (metis prod_cases3)
  define st2 where "st2 = meanwhile (2 * r + 1) st1"
  obtain freed st3 where ev: "evict_lru out dev st2 = (freed, st3)" by fastforce
  then have ev': "evict_lru out dev (meanwhile (Suc (2 * r)) st1) = (freed, st3)" by (simp add: st2_def)
  have le: "g_n_indexes st2 \<le> g_n_indexes st"
    using assms(1) assms(2) [rule_format, of "meanwhile (2 * r) st"] a order_trans unfolding st2_def by (metis snd_conv)
  show ?case
  proof (cases "h \<noteq> None \<or> \<not> oom \<or> freed = 0")
    case True
    then show ?thesis
      using a ev' by (subst build_retry.simps) (auto simp: Let_def)
  next
    case False
    have ne: "g_n_indexes st2 \<noteq> 0"
    proof
      assume "g_n_indexes st2 = 0"
      then have "find_lru_index dev st2 = None" by (simp add: find_lru_index_def live_entries_def)
      then show False using ev False by (simp add: evict_lru_eq)
    qed
    then have "g_n_indexes st3 < g_n_indexes st"
      using evict_lru_shrinks [of out dev st2] ev False le by simp
    from less [OF this, of "Suc r"] show ?thesis
      using a ev' False by (subst build_retry.simps) (auto simp: Let_def)
  qed
qed

lemma find_index_live:
  assumes "find_index db idx st = Some i" "g_n_indexes st \<le> length (g_indexes st)"
  shows "i < g_n_indexes st \<and> live_entries st ! i = entry_at i st \<and> entry_is db idx (entry_at i st)"
  using slot_of_Some [of "entry_is db idx" "live_entries st" i] assms by (auto simp: find_index_def live_entries_def)

definition swap_releases :: "IndexEntry \<Rightarrow> handle list" where
  "swap_releases e = (if is_sharded e then concat (map shard_handles (shard_list e)) else opt_list (e_handle e))
     @ opt_list (e_delta_idx e) @ opt_list (e_hnsw_idx e) @ opt_list (e_ivfpq_handle e)"

lemma free_index_shards_fields [simp]:
  "e_delta_idx (fst (free_index_shards e st)) = e_delta_idx e"
  "e_main_bf_idx (fst (free_index_shards e st)) = e_main_bf_idx e"
  "e_shards (fst (free_index_shards e st)) = None" "e_shard_count (fst (free_index_shards e st)) = 0"
  by (auto simp: free_index_shards_def split: option.split)

lemma swap_entry_shape:
  assumes "wf_entry (entry_at i st)"
  shows "\<exists>e'. swap_entry out cmd h tids gpu needed i st = set_slot i e' (frees (swap_releases (entry_at i st)) st) \<and>
    wf_entry e' \<and> entry_handles e' = h # opt_list (e_main_bf_idx (entry_at i st))"
proof -
  define e where "e = entry_at i st"
  define r where "r = (if is_sharded e then free_index_shards e st else (e, gpu_free (e_handle e) st))"
  have r: "snd r = frees (if is_sharded e then concat (map shard_handles (shard_list e)) else opt_list (e_handle e)) st"
    "e_delta_idx (fst r) = e_delta_idx e" "e_main_bf_idx (fst r) = e_main_bf_idx e"
    "e_hnsw_idx (fst r) = e_hnsw_idx e" "e_ivfpq_handle (fst r) = e_ivfpq_handle e"
    using assms free_index_shards_frees [of e st]
    by (auto simp: r_def e_def [symmetric] wf_entry_def gpu_free_frees)
  show ?thesis
    unfolding swap_entry_def Let_def e_def [symmetric] r_def [symmetric] case_prod_beta swap_releases_def
    by (intro exI conjI, rule arg_cong [where f = "set_slot i _"])
      (simp_all add: r free_delta_cache_def gpu_free_frees frees_append wf_entry_def plain_cagra_def
        is_sharded_def reset_entry_stats_def build_rev_tid_map_def entry_handles_def Let_def split: option.split)
qed

lemma holds_swap:
  assumes "holds [h] st" "find_index db idx st = Some i"
  shows "holds [] (swap_entry out cmd h tids gpu needed i st)"
proof -
  have n: "g_n_indexes st \<le> length (g_indexes st)" using assms(1) by (simp add: holds_def owns_def)
  note f = find_index_live [OF assms(2) n]
  have wf: "wf_entry (entry_at i st)"
    using assms(1) f nth_mem [of i "live_entries st"] n by (force simp: holds_def owns_def live_entries_def)
  obtain e' where e': "swap_entry out cmd h tids gpu needed i st = set_slot i e' (frees (swap_releases (entry_at i st)) st)"
    "wf_entry e'" "entry_handles e' = h # opt_list (e_main_bf_idx (entry_at i st))"
    using swap_entry_shape [OF wf] by blast
  have "mset (entry_handles (live_entries st ! i)) + mset [h]
      = mset (swap_releases (entry_at i st)) + mset (entry_handles e') + mset []"
    using wf f e'(3) by (auto simp: swap_releases_def entry_handles_def wf_entry_def plain_cagra_def)
  from holds_replace [OF assms(1) _ e'(2) this] f show ?thesis unfolding e'(1) by blast
qed

lemma built_entry_ok:
  "wf_entry (built_entry out cmd h tids gpu needed st)"
  "entry_handles (built_entry out cmd h tids gpu needed st) = [h]"
  by (simp_all add: built_entry_def wf_entry_def plain_cagra_def entry_handles_def is_sharded_def
      reset_entry_stats_def build_rev_tid_map_def Let_def split: option.split)

lemma holds_install:
  assumes "holds [h] st"
  shows "holds [] (install_build out cmd h tids gpu needed st)"
proof (cases "find_index (cf_db_oid cmd) (cf_index_oid cmd) st")
  case (Some i)
  then show ?thesis using holds_swap [OF assms Some] by (simp add: install_build_def)
next
  case None
  define st1 where "st1 = (if length (g_indexes st) \<le> g_n_indexes st then snd (evict_lru out gpu st) else st)"
  have h1: "holds [h] st1" using assms holds_evict by (simp add: st1_def)
  then have "holds [] (gpu_free (Some h) st1)"
    using holds_free [of "[]" "[h]" st1] by (simp add: frees_def)
  moreover have "holds [] (register_entry (built_entry out cmd h tids gpu needed st1) st1)"
    if "g_n_indexes st1 < length (g_indexes st1)"
    using that h1 by (rule_tac holds_register) (simp_all add: built_entry_ok)
  ultimately show ?thesis
    using None by (auto simp: install_build_def st1_def [symmetric] Let_def not_le)
qed

lemma holds_finish:
  assumes "holds [h] st"
  shows "holds [] (snd (finish_build_commit out bd cmd h tids gpu needed staged st))"
proof -
  obtain ok st1 where p: "persist_build out cmd h tids st = (ok, st1)" by fastforce
  have h1: "holds [h] st1" using holds_same [OF assms same_registry_persist] p by (metis snd_conv)
  then have "holds [] (gpu_free (Some h) st1)"
    using holds_free [of "[]" "[h]" st1] by (simp add: frees_def)
  moreover have "holds [h] (save_hnsw bd cmd h (unlink_manifest db idx (commit_vectors out db idx staged st1)))" for db idx
    using h1 by (meson holds_same same_registry_steps same_registry_files)
  ultimately show ?thesis
    using holds_install by (simp add: finish_build_commit_def p Let_def)
qed

lemma holds_single:
  assumes "holds [] st" "rely (bn_meanwhile bn)" "\<forall>g. keeps_handles (attempt g)"
    and "build_single out bd bn cmd attempt write ex fl ok tids st = Some (r, st')"
  shows "holds [] st'"
proof -
  obtain adm st1 where a: "build_admit out ex cmd st = (adm, st1)" by fastforce
  have h1: "holds [] st1" using holds_admit [OF assms(1)] a by (metis snd_conv)
  show ?thesis
  proof (cases adm)
    case (Inl msg)
    then show ?thesis using assms(4) a h1 by (simp add: build_single_def)
  next
    case (Inr gpu)
    then obtain ho st2 where b: "build_retry (attempt gpu) out (bn_meanwhile bn) gpu 0 st1 = Some (ho, st2)"
      using assms(4) a by (auto simp: build_single_def split: option.splits)
    have h2: "holds (opt_list ho) st2"
      using holds_retry [OF b _ assms(2) h1] assms(3) by simp
    define st3 where "st3 = pending_add gpu (- build_needed cmd) st2"
    have h3: "holds (opt_list ho) st3" using h2 unfolding st3_def by (rule holds_same) simp
    show ?thesis
    proof (cases ho)
      case None
      then show ?thesis using assms(4) a b Inr h3 by (auto simp: build_single_def st3_def Let_def)
    next
      case (Some h)
      have "holds [h] (snd (stage_vectors out (cf_db_oid cmd) (cf_index_oid cmd) w st3))" for w
        using h3 Some by (metis holds_same same_registry_steps(1) opt_list_simps(2))
      moreover have "holds [] (gpu_free (Some h) st3)"
        using holds_free [of "[]" "[h]" st3] h3 Some by (simp add: frees_def)
      ultimately show ?thesis
        using assms(4) a b Inr Some holds_finish
        by (auto simp: build_single_def st3_def [symmetric] Let_def case_prod_beta split: if_splits) (metis snd_conv)
    qed
  qed
qed

section \<open>The sharded build\<close>

definition no_bf :: "u32 \<Rightarrow> u32 \<Rightarrow> daemon \<Rightarrow> bool" where
  "no_bf db idx st \<longleftrightarrow> (\<forall>e \<in> set (live_entries st). entry_is db idx e \<longrightarrow> e_main_bf_idx e = None)"

lemma no_bf_same: "no_bf db idx st \<Longrightarrow> same_registry st st' \<Longrightarrow> no_bf db idx st'"
  by (simp add: no_bf_def same_registry_live)

text \<open>A sharded build between two of its steps.\<close>

definition sharding :: "u32 \<Rightarrow> u32 \<Rightarrow> handle list \<Rightarrow> daemon \<Rightarrow> bool" where
  "sharding db idx hs st \<longleftrightarrow> holds hs st \<and> no_bf db idx st"

lemma sharding_same: "sharding db idx hs st \<Longrightarrow> same_registry st st' \<Longrightarrow> sharding db idx hs st'"
  using holds_same no_bf_same by (simp add: sharding_def) blast

lemma sharding_evict:
  assumes "sharding db idx hs st"
  shows "sharding db idx hs (snd (evict_lru out dev st))"
proof -
  have "set (live_entries (snd (evict_lru out dev st))) \<subseteq> set (live_entries st)"
    using assms evict_lru_owned [of hs st out dev]
    by (auto simp: sharding_def holds_def evicts_def dest: in_set_takeD in_set_dropD)
  then show ?thesis using assms holds_evict by (auto simp: sharding_def no_bf_def)
qed

lemma sharding_place: "sharding db idx hs st \<Longrightarrow> sharding db idx hs (snd (place_shard out i needed st))"
  using ensure_vram_keeps [where P = "sharding db idx hs", OF sharding_evict]
  by (auto simp: place_shard_def Let_def case_prod_beta)

lemma sharding_build:
  assumes "sharding db idx hs st" "cuvs_cagra_build bd vecs n cmd dev st = (h, oom, st1)"
  shows "sharding db idx (hs @ opt_list h) st1"
  using assms holds_attempt [of hs st _ h oom st1]
  by (auto simp: sharding_def cuvs_cagra_build_def no_bf_def gpu_attempt_def gpu_alloc_def live_entries_def
      split: build_result.splits)

lemma build_shards_ok:
  assumes "sharding db idx (concat (map shard_handles acc)) st" "\<forall>s \<in> set acc. loaded_shard s"
    and "build_shards out bd cmd vecs sc is acc recs off st = (ok, shards, recs', st')"
  shows "sharding db idx (concat (map shard_handles shards)) st' \<and> (\<forall>s \<in> set shards. loaded_shard s) \<and>
    (ok \<longrightarrow> length shards = length acc + length is)"
  using assms
proof (induction "is" arbitrary: acc recs off st)
  case Nil
  then show ?case by simp
next
  case (Cons i "is")
  define n where "n = rows_of_shard (unat (cf_n_vecs cmd)) sc i"
  define needed where "needed = estimate_vram_bytes (int n) (sint (cf_dim cmd)) (sint (cf_graph_degree cmd))"
  define tmp where "tmp = (cf_db_oid cmd, cf_index_oid cmd, F_shard_tmp i)"
  obtain place s1 where p: "place_shard out i needed st = (place, s1)" by fastforce
  have h1: "sharding db idx (concat (map shard_handles acc)) s1"
    using sharding_place [OF Cons.prems(1)] p by (metis snd_conv)
  note bs = Cons.prems(3) [unfolded build_shards.simps Let_def, folded n_def needed_def tmp_def, unfolded p prod.case]
  show ?case
  proof (cases place)
    case None
    then show ?thesis using bs h1 Cons.prems(2) by auto
  next
    case (Some dev)
    obtain h oom s2 where b: "cuvs_cagra_build bd (take (n * unat (cf_dim cmd)) (drop (off * unat (cf_dim cmd)) vecs)) n cmd dev s1
        = (h, oom, s2)" by (metis prod_cases3)
    have h2: "sharding db idx (concat (map shard_handles acc) @ opt_list h) s2"
      by (rule sharding_build [OF h1 b])
    note bs2 = bs [unfolded Some option.case b prod.case]
    show ?thesis
    proof (cases h)
      case None
      then show ?thesis using bs2 h2 Cons.prems(2) by auto
    next
      case (Some g)
      define acc' where "acc' = acc @ [built_shard i g off n dev needed]"
      have a: "concat (map shard_handles acc') = concat (map shard_handles acc) @ opt_list h" "\<forall>s \<in> set acc'. loaded_shard s"
        using Cons.prems(2) Some by (auto simp: acc'_def built_shard_def shard_handles_def loaded_shard_def zero_shard_def)
      note bs3 = bs2 [unfolded Some option.case, folded acc'_def]
      show ?thesis
      proof (cases "o_serialize out g")
        case None
        then show ?thesis using bs3 h2 a by auto
      next
        case (Some img)
        define s3 where "s3 = s2\<lparr>d_files := (d_files s2)(tmp \<mapsto> img)\<rparr>"
        have h3: "sharding db idx (concat (map shard_handles acc')) s3"
          unfolding a(1) s3_def using h2 by (rule sharding_same) simp
        note bs4 = bs3 [unfolded Some option.case, folded s3_def]
        show ?thesis
        proof (cases "\<not> o_sync_ok out tmp \<or> crc32_file (d_files s3 tmp) = None")
          case True
          then show ?thesis using bs4 h3 a(2) by (auto split: if_splits)
        next
          case False
          then show ?thesis using Cons.IH [OF h3 a(2)] bs4 by (auto simp: acc'_def)
        qed
      qed
    qed
  qed
qed

lemma holds_free_built:
  assumes "sharding db idx (concat (map shard_handles shards)) st" "\<forall>s \<in> set shards. loaded_shard s"
  shows "holds [] (free_built shards st)"
  using holds_free [of "[]" "concat (map shard_handles shards)" st] assms free_loaded_shards [OF assms(2), of st]
  by (simp add: free_built_def sharding_def)

lemma sharded_fields_handles:
  assumes "2 \<le> length shards"
  shows "wf_entry (sharded_fields cmd tids shards now e)"
    "entry_handles (sharded_fields cmd tids shards now e)
      = opt_list (e_ivfpq_handle e) @ opt_list (e_hnsw_idx e) @ concat (map shard_handles shards)"
  using assms
  by (simp_all add: sharded_fields_def wf_entry_def plain_cagra_def is_sharded_def entry_handles_def
      reset_entry_stats_def shard_list_def)

lemma install_sharded_shape:
  assumes "wf_entry (entry_at i st)" "find_index (cf_db_oid cmd) (cf_index_oid cmd) st = Some i"
  shows "\<exists>e2. install_sharded out cmd tids shards st = set_slot i (sharded_fields cmd tids shards (d_now st) e2)
      (frees (opt_list (e_delta_idx (entry_at i st)) @ (if is_sharded (entry_at i st)
        then concat (map shard_handles (shard_list (entry_at i st))) else opt_list (e_handle (entry_at i st)))) st) \<and>
    e_ivfpq_handle e2 = e_ivfpq_handle (entry_at i st) \<and> e_hnsw_idx e2 = e_hnsw_idx (entry_at i st) \<and>
    e_rev_tids e2 = e_rev_tids (entry_at i st) \<and> e_rev_item_ids e2 = e_rev_item_ids (entry_at i st)"
proof -
  define e where "e = entry_at i st"
  define e1 where "e1 = fst (free_delta_cache e st)"
  have fd: "free_delta_cache e st = (e1, frees (opt_list (e_delta_idx e)) st)"
    by (simp add: e1_def free_delta_cache_def gpu_free_frees)
  have e1: "is_sharded e1 = is_sharded e" "shard_list e1 = shard_list e" "e_handle e1 = e_handle e"
    "e_shards e1 = e_shards e" "e_ivfpq_handle e1 = e_ivfpq_handle e" "e_hnsw_idx e1 = e_hnsw_idx e"
    "e_rev_tids e1 = e_rev_tids e" "e_rev_item_ids e1 = e_rev_item_ids e"
    by (simp_all add: e1_def free_delta_cache_def is_sharded_def shard_list_def)
  define st1 where "st1 = frees (opt_list (e_delta_idx e)) st"
  have "\<exists>e2. (if is_sharded e1 then free_index_shards e1 st1 else (e1, gpu_free (e_handle e1) st1))
      = (e2, frees (if is_sharded e then concat (map shard_handles (shard_list e)) else opt_list (e_handle e)) st1) \<and>
    e_ivfpq_handle e2 = e_ivfpq_handle e \<and> e_hnsw_idx e2 = e_hnsw_idx e \<and>
    e_rev_tids e2 = e_rev_tids e \<and> e_rev_item_ids e2 = e_rev_item_ids e"
    using assms(1) e1 free_index_shards_frees [of e1 st1]
    by (auto simp: e_def [symmetric] wf_entry_def gpu_free_frees free_index_shards_def prod_eq_iff split: option.splits)
  then show ?thesis
    unfolding install_sharded_def assms(2) option.case Let_def e_def [symmetric] fd prod.case st1_def [symmetric]
    by (auto simp: st1_def frees_append)
qed

lemma holds_install_sharded:
  assumes "sharding (cf_db_oid cmd) (cf_index_oid cmd) (concat (map shard_handles shards)) st"
    and "\<forall>s \<in> set shards. loaded_shard s" "2 \<le> length shards"
  shows "holds [] (install_sharded out cmd tids shards st)"
proof (cases "find_index (cf_db_oid cmd) (cf_index_oid cmd) st")
  case (Some i)
  have h: "holds (concat (map shard_handles shards)) st" using assms(1) by (simp add: sharding_def)
  then have n: "g_n_indexes st \<le> length (g_indexes st)" by (simp add: holds_def owns_def)
  note f = find_index_live [OF Some n]
  then have mem: "entry_at i st \<in> set (live_entries st)"
    using nth_mem [of i "live_entries st"] n by (force simp: live_entries_def)
  then have wf: "wf_entry (entry_at i st)" and bf: "e_main_bf_idx (entry_at i st) = None"
    using assms(1) f by (auto simp: sharding_def holds_def owns_def no_bf_def)
  obtain e2 where e2: "install_sharded out cmd tids shards st = set_slot i (sharded_fields cmd tids shards (d_now st) e2)
      (frees (opt_list (e_delta_idx (entry_at i st)) @ (if is_sharded (entry_at i st)
        then concat (map shard_handles (shard_list (entry_at i st))) else opt_list (e_handle (entry_at i st)))) st)"
    "e_ivfpq_handle e2 = e_ivfpq_handle (entry_at i st)" "e_hnsw_idx e2 = e_hnsw_idx (entry_at i st)"
    using install_sharded_shape [OF wf Some] by blast
  show ?thesis
    unfolding e2(1)
  proof (rule holds_replace [OF h])
    show "i < g_n_indexes st" "wf_entry (sharded_fields cmd tids shards (d_now st) e2)"
      using f sharded_fields_handles(1) [OF assms(3)] by simp_all
    have "mset (entry_handles (entry_at i st)) = mset (opt_list (e_delta_idx (entry_at i st))
        @ (if is_sharded (entry_at i st) then concat (map shard_handles (shard_list (entry_at i st))) else opt_list (e_handle (entry_at i st))))
        + mset (opt_list (e_ivfpq_handle (entry_at i st)) @ opt_list (e_hnsw_idx (entry_at i st)))"
      using wf bf by (auto simp: entry_handles_def [of "entry_at i st"] wf_entry_def plain_cagra_def)
    then show "mset (entry_handles (live_entries st ! i)) + mset (concat (map shard_handles shards))
        = mset (opt_list (e_delta_idx (entry_at i st)) @ (if is_sharded (entry_at i st)
            then concat (map shard_handles (shard_list (entry_at i st))) else opt_list (e_handle (entry_at i st))))
          + mset (entry_handles (sharded_fields cmd tids shards (d_now st) e2)) + mset []"
      using f by (simp add: sharded_fields_handles(2) [OF assms(3)] e2(2,3) del: mset_append) simp
  qed
next
  case None
  define st1 where "st1 = (if length (g_indexes st) \<le> g_n_indexes st then snd (evict_lru out (usable_gpu 0 st) st) else st)"
  have h1: "sharding (cf_db_oid cmd) (cf_index_oid cmd) (concat (map shard_handles shards)) st1"
    using assms(1) sharding_evict by (simp add: st1_def)
  have z: "e_ivfpq_handle zero_entry = None" "e_hnsw_idx zero_entry = None" by (simp_all add: zero_entry_def)
  have "holds [] (register_entry (sharded_fields cmd tids shards now zero_entry) st1)"
    if "g_n_indexes st1 < length (g_indexes st1)" for now
    using that h1 assms(3)
    by (intro holds_register [of "concat (map shard_handles shards)"]) (simp_all add: sharded_fields_handles z sharding_def)
  then show ?thesis
    using None holds_free_built [OF h1 assms(2)] by (auto simp: install_sharded_def st1_def [symmetric] Let_def not_le)
qed

lemma holds_sharded:
  assumes "holds [] st" "no_bf (cf_db_oid cmd) (cf_index_oid cmd) st"
  shows "holds [] (snd (build_sharded out bd bn cmd vecs tids shard_count st))"
proof -
  define db idx sci sc where "db = cf_db_oid cmd" and "idx = cf_index_oid cmd"
    and "sci = clamp_shards shard_count (sint (cf_n_vecs cmd))" and "sc = nat sci"
  obtain ok shards recs st1 where b: "build_shards out bd cmd vecs sc [0..<sc] [] [] 0 st = (ok, shards, recs, st1)"
    by (metis prod_cases4)
  have s1: "sharding db idx (concat (map shard_handles shards)) st1" and l: "\<forall>s \<in> set shards. loaded_shard s"
    and len: "ok \<longrightarrow> length shards = sc"
    using build_shards_ok [OF _ _ b, of db idx] assms by (auto simp: sharding_def db_def idx_def)
  have fb: "holds [] (free_built shards s)" if "same_registry st1 s" for s
    using holds_free_built [OF sharding_same [OF s1 that] l] .
  define w where "w = (\<lambda>f. cuvs_vectors_write f (cf_n_vecs cmd) (cf_dim cmd) (cf_metric cmd)
    (cuvs_crc32 (concat (map (le_bytes 8) tids))) vecs)"
  obtain staged st2 where v: "stage_vectors out db idx w st1 = (staged, st2)" by fastforce
  have r2: "same_registry st1 st2" using same_registry_steps(1) [of st1 out db idx w] v by simp
  obtain persisted st3 where m: "stage_manifest out cmd tids recs st2 = (persisted, st3)" by fastforce
  have r3: "same_registry st1 st3"
    using r2 same_registry_manifest [of st2 out cmd tids recs] m same_registry_trans by (metis snd_conv)
  obtain committed st4 where c: "commit_sharded out db idx sc st3 = (committed, st4)" by fastforce
  have r4: "same_registry st1 st4"
    using r3 same_registry_commit [of st3 out db idx sc] c same_registry_trans by (metis snd_conv)
  have ins: "holds [] (install_sharded out cmd tids shards (clear_legacy db idx sc (commit_vectors out db idx staged st4)))"
    if "ok" "\<not> sci < 2"
  proof (rule holds_install_sharded)
    have "same_registry st1 (clear_legacy db idx sc (commit_vectors out db idx staged st4))"
      using r4 same_registry_steps(2) same_registry_files(6) same_registry_trans by metis
    then show "sharding (cf_db_oid cmd) (cf_index_oid cmd) (concat (map shard_handles shards))
        (clear_legacy db idx sc (commit_vectors out db idx staged st4))"
      using sharding_same [OF s1] by (simp add: db_def idx_def)
    show "2 \<le> length shards" using len that by (simp add: sc_def)
  qed (rule l)
  have un: "holds [] (unlink_files db idx xs s)" if "holds [] s" for xs s
    using that by (rule holds_same) simp
  show ?thesis
    unfolding build_sharded_def Let_def db_def [symmetric] idx_def [symmetric] sci_def [symmetric] sc_def [symmetric]
      b prod.case w_def [symmetric] v m c
    using assms(1) ins un fb [OF same_registry_refl] fb [OF r3] fb [OF r4] by simp
qed

section \<open>Every build keeps the handles\<close>

lemma keeps_attempt:
  "keeps_handles (cuvs_cagra_build bd vecs n cmd dev)" "keeps_handles (cuvs_cagra_build_multi bd parts n cmd dev)"
  using holds_attempt [of "[]"] by (fastforce simp: keeps_handles_def cuvs_cagra_build_def cuvs_cagra_build_multi_def)+

text \<open>
  C11. No build leaks or double-frees a GPU handle. Whatever a build answers (a refused payload, no
  room, a failed or retried GPU build, a failed write or rename, a full registry), and whatever the
  other threads do while it runs without the mutex as long as they keep the invariant themselves,
  every allocated handle afterwards belongs to exactly one entry. A build that will be sharded must
  not find the index registered with a resident exact index; in that case that index leaks, as
  \<open>sharded_rebuild_leaks_bf\<close> shows.
\<close>

theorem build_keeps_handles:
  assumes "owned st" "fresh st" "rely (bn_meanwhile bn)"
    and "2 \<le> resolve_shards cmd st \<longrightarrow> no_bf (cf_db_oid cmd) (cf_index_oid cmd) st"
    and "handle_build out bd bn cmd st = Some (r, st')"
  shows "owned st' \<and> fresh st'"
proof -
  have h: "holds [] st" using assms(1,2) by (simp add: holds_def)
  have "holds [] st'"
  proof (cases "check_payload 2 ''CAGRA build needs at least 2 vectors'' ''build payload size overflow'' cmd = None \<and> bn_dir_ok bn")
    case False
    then show ?thesis using assms(5) h by (auto simp: handle_build_def split: option.splits if_splits)
  next
    case True
    have sh: "holds [] (snd (build_sharded out bd bn cmd vecs tids (resolve_shards cmd st) st))"
      if "2 \<le> resolve_shards cmd st" for vecs tids
      using that assms(4) holds_sharded [OF h] by simp
    have sgl: "holds [] st'" if "build_single out bd bn cmd attempt wr ex fl tok tids st = Some (r, st')"
      "\<And>g. keeps_handles (attempt g)" for attempt wr ex fl tok tids
      using holds_single [OF h assms(3) _ that(1)] that(2) by simp
    have ss: "holds [] st'" if "build_sharded out bd bn cmd vecs tids (resolve_shards cmd st) st = (r, st')"
      "2 \<le> resolve_shards cmd st" for vecs tids
      using sh [OF that(2), of vecs tids] that(1) by simp
    have multi: "holds [] st'" if "handle_build_multi out bd bn cmd st = Some (r, st')"
      using that h
      by (auto simp: handle_build_multi_def Let_def split: if_splits option.splits sum.splits
          elim: sgl [OF _ keeps_attempt(2)] ss)
    show ?thesis
      using assms(5) True h
      by (auto simp: handle_build_def Let_def split: if_splits sum.splits prod.splits
          elim: sgl [OF _ keeps_attempt(1)] ss multi)
  qed
  then show ?thesis by (simp add: holds_def)
qed

section \<open>What a replacement leaks\<close>

lemma slot_wf:
  assumes "holds hs st" "find_index db idx st = Some i"
  shows "i < g_n_indexes st" "live_entries st ! i = entry_at i st" "entry_is db idx (entry_at i st)"
    "entry_at i st \<in> set (live_entries st)" "wf_entry (entry_at i st)"
proof -
  have n: "g_n_indexes st \<le> length (g_indexes st)" using assms(1) by (simp add: holds_def owns_def)
  note f = find_index_live [OF assms(2) n]
  then show "i < g_n_indexes st" "live_entries st ! i = entry_at i st" "entry_is db idx (entry_at i st)" by auto
  show "entry_at i st \<in> set (live_entries st)"
    using f nth_mem [of i "live_entries st"] n by (force simp: live_entries_def)
  then show "wf_entry (entry_at i st)" using assms(1) by (simp add: holds_def owns_def)
qed

text \<open>
  An entry is replaced and only some of its handles are freed: a handle it kept is still allocated
  and nobody refers to it, if the new entry does not take it over.
\<close>

lemma slot_leaks:
  assumes "holds hs st" "find_index db idx st = Some i" "mset (entry_handles (entry_at i st)) = mset rel + mset taken + mset left"
    and "h \<in> set left" "set (entry_handles e') \<subseteq> set hs \<union> set taken"
  shows "h \<in> set (d_live (set_slot i e' (frees rel st))) \<and>
    (\<forall>e \<in> set (live_entries (set_slot i e' (frees rel st))). h \<notin> set (entry_handles e))"
proof -
  let ?L = "live_entries st"
  define others where "others = concat (map entry_handles (take i ?L)) @ concat (map entry_handles (drop (Suc i) ?L)) @ hs"
  note sl = slot_wf [OF assms(1,2)]
  have n: "i < length ?L" using sl(1) assms(1) by (simp add: live_entries_def holds_def owns_def)
  have split: "?L = take i ?L @ entry_at i st # drop (Suc i) ?L" using n sl(2) by (metis id_take_nth_drop)
  have d: "distinct (d_live st)" using assms(1) by (simp add: holds_def owns_def)
  have all: "mset (d_live st) = mset rel + (mset taken + mset left) + mset others"
  proof -
    have "mset (d_live st) = mset (concat (map entry_handles ?L)) + mset hs" using assms(1) by (simp add: holds_def owns_def)
    also have "mset (concat (map entry_handles ?L)) = mset (concat (map entry_handles (take i ?L)))
        + (mset rel + mset taken + mset left) + mset (concat (map entry_handles (drop (Suc i) ?L)))"
      by (subst (1) split) (simp only: map_append concat_append list.map concat.simps mset_append assms(3) ac_simps)
    finally show ?thesis by (simp add: others_def ac_simps)
  qed
  have "mset rel \<subseteq># mset (d_live st)" by (simp add: all)
  from frees_ok [OF this d] have fr: "mset (d_live (frees rel st)) = mset taken + mset left + mset others" "distinct (d_live (frees rel st))"
    by (simp_all add: all)
  have "h \<in> set (d_live (frees rel st))" using assms(4) by (metis fr(1) UnI1 UnI2 set_mset_mset set_mset_union)
  moreover have "h \<notin> set others" "h \<notin> set taken"
  proof -
    have "distinct (taken @ left @ others)"
      using fr by (subst mset_eq_imp_distinct_iff [where ys = "d_live (frees rel st)"]) simp_all
    then show "h \<notin> set others" "h \<notin> set taken" using assms(4) by auto
  qed
  moreover have "live_entries (set_slot i e' (frees rel st)) = take i ?L @ e' # drop (Suc i) ?L"
  proof -
    have "live_entries (set_slot i e' (frees rel st)) = ?L[i := e']"
      by (simp add: live_entries_def set_slot_def take_update_swap)
    then show ?thesis using n by (simp add: upd_conv_take_nth_drop)
  qed
  ultimately show ?thesis
    using assms(5) by (auto simp: set_slot_def others_def)
qed

text \<open>
  The excluded case. A sharded build over an unsharded index with a resident exact index does not
  free that: the GPU object stays allocated and no entry refers to it any more.
\<close>

theorem sharded_rebuild_leaks_bf:
  assumes "holds (concat (map shard_handles shards)) st" "2 \<le> length shards"
    and "find_index (cf_db_oid cmd) (cf_index_oid cmd) st = Some i" "\<not> is_sharded (entry_at i st)"
    and "e_main_bf_idx (entry_at i st) = Some h"
  shows "h \<in> set (d_live (install_sharded out cmd tids shards st)) \<and>
    (\<forall>e \<in> set (live_entries (install_sharded out cmd tids shards st)). h \<notin> set (entry_handles e))"
proof -
  let ?e = "entry_at i st"
  let ?rel = "opt_list (e_delta_idx ?e) @ opt_list (e_handle ?e)"
  let ?rest = "opt_list (e_ivfpq_handle ?e) @ opt_list (e_hnsw_idx ?e)"
  note sl = slot_wf [OF assms(1,3)]
  obtain e2 where e2: "install_sharded out cmd tids shards st
      = set_slot i (sharded_fields cmd tids shards (d_now st) e2) (frees ?rel st)"
    "e_ivfpq_handle e2 = e_ivfpq_handle ?e" "e_hnsw_idx e2 = e_hnsw_idx ?e"
    using install_sharded_shape [OF sl(5) assms(3), where out = out and tids = tids and shards = shards] assms(4) by auto
  have m: "mset (entry_handles ?e) = mset ?rel + mset ?rest + mset [h]"
    using assms(4,5) by (simp add: entry_handles_def)
  show ?thesis
    unfolding e2(1)
    by (rule slot_leaks [OF assms(1,3) m]) (auto simp: sharded_fields_handles(2) [OF assms(2)] e2(2,3))
qed

end
