(* ===== verification/Build_Commit.thy ===== *)
theory Build_Commit
  imports Build_Inv
begin

text \<open>
  The commit of a build on disk: what it leaves when it succeeds and when it fails, what a crash in
  the middle of it leaves, and what the next load makes of either.
\<close>

section \<open>Files\<close>

lemma tids_written:
  assumes "write_tids_atomic out tmp n dim metric tids st = (rc, st1)"
  shows "rc = 0 \<and> (\<exists>f. st1 = st\<lparr>d_files := (d_files st)(tmp \<mapsto> f)\<rparr> \<and>
      (\<exists>g r. cuvs_tids_write \<lparr>written = [], room = r\<rparr> (of_int n) dim metric tids = (0, g) \<and> f = written g)) \<or>
    rc = -1 \<and> (st1 = st \<or> st1 = st\<lparr>d_files := (d_files st)(tmp := None)\<rparr>)"
  using assms
  by (auto simp: write_tids_atomic_def case_prod_beta split: option.splits if_splits) (metis prod.collapse)

text \<open>The image of a \<open>.tids\<close> file that a build writes.\<close>

definition tids_image :: "CuvsCmdFrame \<Rightarrow> u64 list \<Rightarrow> bytes \<Rightarrow> bool" where
  "tids_image cmd tids f \<longleftrightarrow>
    (\<exists>g r. cuvs_tids_write \<lparr>written = [], room = r\<rparr> (cf_n_vecs cmd) (cf_dim cmd) (cf_metric cmd) tids = (0, g) \<and> f = written g)"

definition corpus_ok :: "outside \<Rightarrow> CuvsCmdFrame \<Rightarrow> u64 list \<Rightarrow> bool" where
  "corpus_ok out cmd tids \<longleftrightarrow> length tids = unat (cf_n_vecs cmd) \<and> 0 < sint (cf_n_vecs cmd) \<and>
     sint (cf_n_vecs cmd) \<le> CUVS_TIDS_MAX_VECS \<and> cf_dim cmd \<noteq> 0 \<and> o_mem out (8 * length tids)"

lemma tids_image_reads:
  assumes "tids_image cmd tids f" "corpus_ok out cmd tids"
  shows "\<exists>hdr. cuvs_tids_read (o_mem out) f = Some (hdr, tids) \<and> th_n_vecs hdr = cf_n_vecs cmd \<and>
    th_dim hdr = cf_dim cmd \<and> th_metric hdr = cf_metric cmd"
proof -
  obtain g r where "cuvs_tids_write \<lparr>written = [], room = r\<rparr> (cf_n_vecs cmd) (cf_dim cmd) (cf_metric cmd) tids = (0, g)"
    "f = written g"
    using assms(1) by (auto simp: tids_image_def)
  then show ?thesis
    using tids_write_read [of tids "cf_n_vecs cmd" 0 "\<lparr>written = [], room = r\<rparr>" "o_mem out" "cf_dim cmd" "cf_metric cmd" g "[]"]
      assms(2) by (auto simp: corpus_ok_def)
qed

text \<open>The operations of a commit that succeeds.\<close>

datatype dir_op = Create suffix bytes | Rename suffix suffix

primrec run_dir_op :: "u32 \<Rightarrow> u32 \<Rightarrow> dir_op \<Rightarrow> (fkey \<rightharpoonup> bytes) \<Rightarrow> (fkey \<rightharpoonup> bytes)" where
  "run_dir_op db idx (Create x bs) fs = fs((db, idx, x) \<mapsto> bs)"
| "run_dir_op db idx (Rename a b) fs = fs((db, idx, b) := fs (db, idx, a), (db, idx, a) := None)"

definition commit_ops :: "bytes \<Rightarrow> bytes \<Rightarrow> dir_op list" where
  "commit_ops f img = [Create F_tids_tmp f, Create F_cagra_tmp img, Rename F_tids_tmp F_tids, Rename F_cagra_tmp F_cagra]"

text \<open>The files when the daemon dies after \<open>k\<close> of them.\<close>

definition crash_files :: "nat \<Rightarrow> u32 \<Rightarrow> u32 \<Rightarrow> bytes \<Rightarrow> bytes \<Rightarrow> (fkey \<rightharpoonup> bytes) \<Rightarrow> (fkey \<rightharpoonup> bytes)" where
  "crash_files k db idx f img fs = fold (run_dir_op db idx) (take k (commit_ops f img)) fs"

lemma persist_build_outcome:
  assumes "persist_build out cmd h tids st = (ok, st1)"
  defines "db \<equiv> cf_db_oid cmd" and "idx \<equiv> cf_index_oid cmd"
  shows "if ok then \<exists>f img. tids_image cmd tids f \<and> o_serialize out h = Some img \<and>
      st1 = st\<lparr>d_files := crash_files 4 db idx f img (d_files st)\<rparr>
    else (\<forall>k. (\<forall>x \<in> {F_cagra_tmp, F_tids_tmp, F_vectors_tmp, F_tids}. k \<noteq> (db, idx, x)) \<longrightarrow> d_files st1 k = d_files st k) \<and>
      (d_files st1 (db, idx, F_tids) = d_files st (db, idx, F_tids) \<or>
        \<not> o_rename_ok out (db, idx, F_cagra) \<and> d_files st1 (db, idx, F_tids) = None)"
proof -
  obtain rc s where w: "write_tids_atomic out (db, idx, F_tids_tmp) (sint (cf_n_vecs cmd)) (cf_dim cmd) (cf_metric cmd) tids st = (rc, s)"
    by fastforce
  note pb = assms(1) [unfolded persist_build_def Let_def, folded db_def idx_def, unfolded w prod.case]
  from tids_written [OF w] consider
      f where "rc = 0" "s = st\<lparr>d_files := (d_files st)((db, idx, F_tids_tmp) \<mapsto> f)\<rparr>" "tids_image cmd tids f"
    | "rc = -1" "s = st \<or> s = st\<lparr>d_files := (d_files st)((db, idx, F_tids_tmp) := None)\<rparr>"
    by (auto simp: tids_image_def)
  then show ?thesis
  proof cases
    case 2
    then have st1: "\<not> ok" "st1 = unlink_files db idx [F_cagra_tmp, F_tids_tmp, F_vectors_tmp] s" using pb by simp_all
    have "d_files s k = d_files st k" if "k \<noteq> (db, idx, F_tids_tmp)" for k using 2 that by auto
    then show ?thesis by (simp add: st1 unlink_files_def)
  next
    case (1 f)
    show ?thesis
    proof (cases "o_serialize out h")
      case None
      then have "\<not> ok" "st1 = unlink_files db idx [F_cagra_tmp, F_tids_tmp, F_vectors_tmp] s" using pb 1 by simp_all
      then show ?thesis by (simp add: 1 unlink_files_def)
    next
      case (Some img)
      show ?thesis
      proof (cases "o_sync_ok out (db, idx, F_cagra_tmp) \<and> o_rename_ok out (db, idx, F_tids) \<and> o_rename_ok out (db, idx, F_cagra)")
        case True
        then have "ok" "st1 = st\<lparr>d_files := crash_files 4 db idx f img (d_files st)\<rparr>"
          using pb 1 Some by (simp_all add: rename_file_def crash_files_def commit_ops_def)
        then show ?thesis using 1 Some by auto
      next
        case False
        define s2 where "s2 = s\<lparr>d_files := (d_files s)((db, idx, F_cagra_tmp) \<mapsto> img)\<rparr>"
        define s3 where "s3 = rename_file db idx F_tids_tmp F_tids s2"
        have "\<not> ok \<and> (st1 = unlink_files db idx [F_cagra_tmp, F_tids_tmp, F_vectors_tmp] s2 \<or>
            \<not> o_rename_ok out (db, idx, F_cagra) \<and>
            st1 = unlink_files db idx [F_cagra_tmp, F_tids_tmp, F_vectors_tmp] (unlink_files db idx [F_tids] s3))"
          using pb False Some 1(1) by (auto simp: s2_def s3_def split: if_splits)
        then show ?thesis
          by (elim conjE disjE) (simp_all add: 1(2) s2_def s3_def unlink_files_def rename_file_def)
      qed
    qed
  qed
qed

lemma crash_files_early:
  "crash_files 0 db idx f img fs = fs"
  "crash_files 1 db idx f img fs = fs((db, idx, F_tids_tmp) \<mapsto> f)"
  "crash_files 2 db idx f img fs = fs((db, idx, F_tids_tmp) \<mapsto> f, (db, idx, F_cagra_tmp) \<mapsto> img)"
  by (simp_all add: crash_files_def commit_ops_def)

lemma crash_files_renamed:
  "crash_files 3 db idx f img fs = fs((db, idx, F_tids_tmp) := None, (db, idx, F_cagra_tmp) \<mapsto> img, (db, idx, F_tids) \<mapsto> f)"
proof -
  have "take 3 (commit_ops f img) = [Create F_tids_tmp f, Create F_cagra_tmp img, Rename F_tids_tmp F_tids]"
    by (simp add: commit_ops_def)
  then show ?thesis by (auto simp: crash_files_def)
qed

lemma crash_files_done:
  assumes "4 \<le> k"
  shows "crash_files k db idx f img fs = fs((db, idx, F_tids_tmp) := None, (db, idx, F_cagra_tmp) := None,
     (db, idx, F_tids) \<mapsto> f, (db, idx, F_cagra) \<mapsto> img)"
proof -
  have "take k (commit_ops f img) = commit_ops f img" using assms by (intro take_all) (simp add: commit_ops_def)
  then show ?thesis by (intro ext) (simp add: crash_files_def commit_ops_def)
qed

section \<open>The files an eviction writes\<close>

lemma save_index_files:
  "(e_db_oid e, e_index_oid e) \<noteq> (db, idx) \<Longrightarrow> d_files (snd (save_index out e st)) (db, idx, x) = d_files st (db, idx, x)"
  by (auto simp: save_index_def write_tids_atomic_def Let_def split: option.splits prod.splits)

lemma evict_lru_files:
  assumes "find_index db idx st = None" "g_n_indexes st \<le> length (g_indexes st)"
  shows "d_files (snd (evict_lru out dev st)) (db, idx, x) = d_files st (db, idx, x)"
proof (cases "find_lru_index dev st")
  case None
  then show ?thesis by (simp add: evict_lru_eq)
next
  case (Some i)
  note f = find_lru_Some [OF Some assms(2)]
  have "live_entries st ! i \<in> set (live_entries st)"
    using f assms(2) by (intro nth_mem) (simp add: live_entries_def)
  then have "\<not> entry_is db idx (live_entries st ! i)" "e_valid (live_entries st ! i)"
    using assms(1) f by (simp_all add: find_index_def slot_of_None evictable_def)
  then have ne: "(e_db_oid (g_indexes st ! i), e_index_oid (g_indexes st ! i)) \<noteq> (db, idx)"
    using f unfolding entry_is_def by simp
  have gf: "d_files (gpu_free h s) = d_files s" for h s by (simp add: gpu_free_def split: option.split)
  have rel: "d_files (snd (release_entry e s)) = d_files s" for e s
    by (simp add: release_entry_def free_delta_cache_def free_main_bf_cache_def free_index_shards_def gf fold_keeps Let_def
        split: option.split)
  have fin: "d_files (evict_finish dev i e s) = d_files s" for e s
    by (simp add: evict_finish_def gf compact_slots_def set_slot_def Let_def)
  show ?thesis
    using ne Some by (simp add: evict_lru_eq Let_def rel fin save_index_files)
qed

lemma files_of_frees [simp]: "d_files (frees hs st) = d_files st"
proof -
  have "d_files (gpu_free h s) = d_files s" for h s by (simp add: gpu_free_def split: option.split)
  then show ?thesis by (simp add: frees_def fold_keeps)
qed

section \<open>A commit that fails, and one that succeeds\<close>

lemma commit_tail_files:
  defines "after db idx staged out bd cmd h s \<equiv> d_files (save_hnsw bd cmd h (unlink_manifest db idx (commit_vectors out db idx staged s)))"
  shows "after db idx staged out bd cmd h s (db, idx, F_tids) = d_files s (db, idx, F_tids)"
    "after db idx staged out bd cmd h s (db, idx, F_cagra) = d_files s (db, idx, F_cagra)"
    "after db idx staged out bd cmd h s (db, idx, F_shards) = None"
    "after db idx staged out bd cmd h s (db, idx, F_stale) = None"
proof -
  have u: "unlink_shards db idx i n fs (db, idx, x) = fs (db, idx, x)" if "x \<in> {F_tids, F_cagra, F_shards, F_stale}" for i n fs x
    using that by (intro unlink_shards_nonshard) auto
  show "after db idx staged out bd cmd h s (db, idx, F_tids) = d_files s (db, idx, F_tids)"
    "after db idx staged out bd cmd h s (db, idx, F_cagra) = d_files s (db, idx, F_cagra)"
    "after db idx staged out bd cmd h s (db, idx, F_shards) = None"
    "after db idx staged out bd cmd h s (db, idx, F_stale) = None"
    by (simp_all add: after_def save_hnsw_def unlink_manifest_def commit_vectors_def unlink_files_def rename_file_def u Let_def
        split: option.split)
qed

lemma install_build_files:
  assumes "g_n_indexes st \<le> length (g_indexes st)" "\<forall>e \<in> set (live_entries st). wf_entry e"
  shows "d_files (install_build out cmd h tids gpu needed st) (cf_db_oid cmd, cf_index_oid cmd, x)
    = d_files st (cf_db_oid cmd, cf_index_oid cmd, x)"
proof (cases "find_index (cf_db_oid cmd) (cf_index_oid cmd) st")
  case (Some i)
  note f = find_index_live [OF Some assms(1)]
  then have "entry_at i st \<in> set (live_entries st)"
    using nth_mem [of i "live_entries st"] assms(1) by (force simp: live_entries_def)
  then have "\<exists>e' xs. swap_entry out cmd h tids gpu needed i st = set_slot i e' (frees xs st)"
    using swap_entry_shape [where i = i and st = st] assms(2) by blast
  then show ?thesis using Some by (auto simp: install_build_def set_slot_def)
next
  case None
  have gf: "d_files (gpu_free h s) = d_files s" for h s by (simp add: gpu_free_def split: option.split)
  show ?thesis
    using None evict_lru_files [OF None assms(1)]
    by (simp add: install_build_def Let_def gf register_entry_def set_slot_def)
qed

lemma finish_ok:
  assumes "finish_build_commit out bd cmd h tids gpu needed staged st = (r, st')" "rh_status (fst r) = CUVS_STATUS_OK"
    and "holds [h] st"
  defines "db \<equiv> cf_db_oid cmd" and "idx \<equiv> cf_index_oid cmd"
  shows "\<exists>f img. tids_image cmd tids f \<and> o_serialize out h = Some img \<and> d_files st' (db, idx, F_tids) = Some f \<and>
    d_files st' (db, idx, F_cagra) = Some img \<and> d_files st' (db, idx, F_shards) = None \<and> d_files st' (db, idx, F_stale) = None"
proof -
  obtain ok st1 where p: "persist_build out cmd h tids st = (ok, st1)" by fastforce
  have ok: "ok" using assms(1,2) p by (auto simp: finish_build_commit_def send_error_code_def build_codes Let_def split: if_splits)
  then obtain f img where f: "tids_image cmd tids f" "o_serialize out h = Some img"
    "st1 = st\<lparr>d_files := crash_files 4 db idx f img (d_files st)\<rparr>"
    using persist_build_outcome [OF p] by (auto simp: db_def idx_def)
  define st2 where "st2 = save_hnsw bd cmd h (unlink_manifest db idx (commit_vectors out db idx staged st1))"
  have st': "st' = install_build out cmd h tids gpu needed st2"
    using assms(1) p ok by (simp add: finish_build_commit_def st2_def db_def idx_def Let_def)
  have "holds [h] st2"
    using holds_same [OF assms(3) same_registry_persist [of st out cmd h tids]] p unfolding st2_def
    by (metis holds_same same_registry_steps(2,3) same_registry_files(5) snd_conv)
  then have "d_files st' (db, idx, x) = d_files st2 (db, idx, x)" for x
    unfolding st' db_def idx_def by (intro install_build_files) (auto simp: holds_def owns_def)
  then show ?thesis
    using f commit_tail_files [where db = db and idx = idx] by (auto simp: st2_def crash_files_done)
qed


section \<open>The next load\<close>

text \<open>A daemon with room for the index of a \<open>.tids\<close> header and a library that accepts its graph.\<close>

definition room_for :: "outside \<Rightarrow> CuvsTidsHeader \<Rightarrow> bytes \<Rightarrow> daemon \<Rightarrow> bool" where
  "room_for out hdr img st \<longleftrightarrow>
    (let needed = estimate_vram_bytes (sint (th_n_vecs hdr)) (sint (th_dim hdr)) 64; gpu = pick_gpu_for_index out needed st
     in 0 \<le> gpu \<and> ensure_vram out needed gpu st = (0, st) \<and> o_cagra_ok out img (th_dim hdr) gpu \<and>
        g_n_indexes st < length (g_indexes st))"

lemma load_graph_on_disk:
  assumes "d_files st (db, idx, F_tids) = Some f" "cuvs_tids_read (o_mem out) f = Some (hdr, tids)" "th_dim hdr \<noteq> 0"
    and "d_files st (db, idx, F_shards) = None" "d_files st (db, idx, F_cagra) = Some img" "room_for out hdr img st"
  shows "\<exists>st' e. load_index out db idx st = (0, st') \<and> live_entries st' = live_entries st @ [e] \<and>
    describes db idx hdr tids (d_files st (db, idx, F_stale) \<noteq> None) e \<and> e_handle e = Some (d_next st) \<and>
    d_files st' = d_files st"
proof -
  define needed gpu where "needed = estimate_vram_bytes (sint (th_n_vecs hdr)) (sint (th_dim hdr)) 64"
    and "gpu = pick_gpu_for_index out needed st"
  define s where "s = snd (gpu_alloc st)"
  define e where "e = graph_entry out db idx hdr tids gpu needed (Some (d_next st)) None s"
  have r: "0 \<le> gpu" "ensure_vram out needed gpu st = (0, st)" "o_cagra_ok out img (th_dim hdr) gpu"
    "g_n_indexes st < length (g_indexes st)"
    using assms(6) by (simp_all add: room_for_def Let_def needed_def gpu_def)
  have d: "cuvs_cagra_deserialize out (db, idx, F_cagra) (th_dim hdr) gpu st = (Some (d_next st), s)"
    using assms(5) r(3) by (simp add: cuvs_cagra_deserialize_def s_def gpu_alloc_def)
  have s: "g_n_indexes s = g_n_indexes st" "g_indexes s = g_indexes st" "d_files s = d_files st"
    by (simp_all add: s_def gpu_alloc_def)
  have g: "load_graph out db idx hdr tids st = (0, register_entry e s)"
    unfolding load_graph_def Let_def needed_def [symmetric] gpu_def [symmetric] r(2) prod.case d
    using r s by (simp add: e_def)
  have l: "load_index out db idx st = (0, register_entry e s)"
    unfolding load_index_def assms(1,2) option.case prod.case load_index_sharded_def assms(4)
    using assms(3,5) g by simp
  have "live_entries (register_entry e s) = live_entries s @ [e]" using r(4) s by (intro register_live) simp
  moreover have "live_entries s = live_entries st" by (simp add: live_entries_def s)
  moreover have "describes db idx hdr tids (d_files st (db, idx, F_stale) \<noteq> None) e" "e_handle e = Some (d_next st)"
    by (simp_all add: e_def graph_entry_def entry_parts s)
  ultimately show ?thesis using l by (auto simp: register_entry_def set_slot_def s)
qed

text \<open>
  C10. What a build committed survives a restart. Once a build has answered success, any daemon that
  finds its files loads the index: with room on a GPU and a library that accepts the graph the load
  succeeds and registers an entry with the rows, the dimension, the metric and the very TIDs of the
  build, not stale.
\<close>

theorem build_survives_restart:
  assumes "finish_build_commit out bd cmd h tids gpu needed staged st = (r, st1)" "rh_status (fst r) = CUVS_STATUS_OK"
    and "holds [h] st" "corpus_ok out cmd tids" "db = cf_db_oid cmd" "idx = cf_index_oid cmd"
    and "\<And>x. d_files st2 (db, idx, x) = d_files st1 (db, idx, x)"
    and "\<And>hdr img. th_n_vecs hdr = cf_n_vecs cmd \<Longrightarrow> th_dim hdr = cf_dim cmd \<Longrightarrow> o_serialize out h = Some img
      \<Longrightarrow> room_for out hdr img st2"
  shows "\<exists>st3 e. load_index out db idx st2 = (0, st3) \<and> live_entries st3 = live_entries st2 @ [e] \<and>
    entry_is db idx e \<and> e_tids e = Some tids \<and> e_n_vecs e = sint (cf_n_vecs cmd) \<and> e_dim e = cf_dim cmd \<and>
    e_metric e = cf_metric cmd \<and> \<not> e_stale e"
proof -
  obtain f img where f: "tids_image cmd tids f" "o_serialize out h = Some img" "d_files st1 (db, idx, F_tids) = Some f"
    "d_files st1 (db, idx, F_cagra) = Some img" "d_files st1 (db, idx, F_shards) = None" "d_files st1 (db, idx, F_stale) = None"
    using finish_ok [OF assms(1-3)] unfolding assms(5,6) by blast
  obtain hdr where hdr: "cuvs_tids_read (o_mem out) f = Some (hdr, tids)" "th_n_vecs hdr = cf_n_vecs cmd"
    "th_dim hdr = cf_dim cmd" "th_metric hdr = cf_metric cmd"
    using tids_image_reads [OF f(1) assms(4)] by blast
  have nz: "th_dim hdr \<noteq> 0" using assms(4) hdr(3) by (simp add: corpus_ok_def)
  show ?thesis
    using load_graph_on_disk [of st2 db idx f out hdr tids img] f(3-6) hdr nz assms(8) [OF hdr(2,3) f(2)]
    by (auto simp: assms(7) describes_def)
qed

text \<open>
  A crash between the two renames mixes two builds. At every other point of the commit the next
  start finds the pair of \<open>.tids\<close> and \<open>.cagra\<close> of the old build or of the new one;
  between them it finds the new TIDs with the old graph, nothing ties the two files to each other,
  and the load registers them as a healthy index: the rows the old graph finds are answered with the
  TIDs of the new build.
\<close>

theorem build_crash_mixes:
  assumes "persist_build out cmd h tids st = (True, st1)" "corpus_ok out cmd tids"
    and "db = cf_db_oid cmd" "idx = cf_index_oid cmd"
    and "d_files st (db, idx, F_cagra) = Some old" "d_files st (db, idx, F_shards) = None"
    and "d_files st (db, idx, F_stale) = None"
  shows "\<exists>f img. d_files st1 = crash_files 4 db idx f img (d_files st) \<and> o_serialize out h = Some img \<and>
    (\<forall>k. let fs = crash_files k db idx f img (d_files st) in
      (fs (db, idx, F_tids), fs (db, idx, F_cagra)) =
        (if k < 3 then (d_files st (db, idx, F_tids), Some old) else if k = 3 then (Some f, Some old) else (Some f, Some img))) \<and>
    (\<forall>st2. d_files st2 = crash_files 3 db idx f img (d_files st) \<longrightarrow>
      (\<forall>hdr. th_n_vecs hdr = cf_n_vecs cmd \<longrightarrow> th_dim hdr = cf_dim cmd \<longrightarrow> room_for out hdr old st2) \<longrightarrow>
      (\<exists>st3 e. load_index out db idx st2 = (0, st3) \<and> live_entries st3 = live_entries st2 @ [e] \<and>
        e_tids e = Some tids \<and> \<not> e_stale e \<and> d_files st3 (db, idx, F_cagra) = Some old))"
proof -
  obtain f img where f: "tids_image cmd tids f" "o_serialize out h = Some img"
    "st1 = st\<lparr>d_files := crash_files 4 db idx f img (d_files st)\<rparr>"
    using persist_build_outcome [OF assms(1)] by (auto simp: assms(3,4))
  obtain hdr where hdr: "cuvs_tids_read (o_mem out) f = Some (hdr, tids)" "th_n_vecs hdr = cf_n_vecs cmd"
    "th_dim hdr = cf_dim cmd"
    using tids_image_reads [OF f(1) assms(2)] by blast
  have nz: "th_dim hdr \<noteq> 0" using assms(2) hdr(3) by (simp add: corpus_ok_def)
  have pairs: "(crash_files k db idx f img (d_files st) (db, idx, F_tids), crash_files k db idx f img (d_files st) (db, idx, F_cagra)) =
      (if k < 3 then (d_files st (db, idx, F_tids), Some old) else if k = 3 then (Some f, Some old) else (Some f, Some img))" for k
  proof -
    consider "k = 0" | "k = 1" | "k = 2" | "k = 3" | "4 \<le> k" by linarith
    then show ?thesis by cases (simp_all only: crash_files_early crash_files_renamed crash_files_done, simp_all add: assms(5))
  qed
  have "\<exists>st3 e. load_index out db idx st2 = (0, st3) \<and> live_entries st3 = live_entries st2 @ [e] \<and>
      e_tids e = Some tids \<and> \<not> e_stale e \<and> d_files st3 (db, idx, F_cagra) = Some old"
    if s2: "d_files st2 = crash_files 3 db idx f img (d_files st)" and room: "room_for out hdr old st2" for st2
    using load_graph_on_disk [of st2 db idx f out hdr tids old] s2 hdr nz room assms(5-7)
    by (auto simp: crash_files_renamed describes_def)
  then show ?thesis
    using f(2,3) pairs hdr(2,3) by (intro exI [of _ f] exI [of _ img]) (simp add: Let_def)
qed

end
