(* ===== verification/Build_Witness.thy ===== *)
theory Build_Witness
  imports Build_Commit Search_Inv
begin

text \<open>
  Concrete builds of two rows, into an empty daemon and over an older graph on disk: the instances
  at which the properties of builds are evaluated.
\<close>

section \<open>Witnesses\<close>

definition build_frame :: CuvsCmdFrame where
  "build_frame = sample_frame\<lparr>cf_db_oid := 1, cf_index_oid := 12, cf_n_vecs := 2, cf_dim := 1, cf_shard_count := 1\<rparr>"

lemma build_frame_fields [simp]:
  "cf_db_oid build_frame = 1" "cf_index_oid build_frame = 12" "cf_n_vecs build_frame = 2" "cf_dim build_frame = 1"
  "cf_shard_count build_frame = 1" "cf_use_cpu_hnsw build_frame = 0" "cf_n_partials build_frame = 0"
  "cf_graph_degree build_frame = 0" "cf_metric build_frame = 0"
  by (simp_all add: build_frame_def sample_frame_def cmd_frame_of_def fld_def le_word_replicate_0)

definition plain_build :: build_lib where
  "plain_build = \<lparr>bd_cagra_build = \<lambda>_ _ _ _ _. Built, bd_cagra_build_multi = \<lambda>_ _ _ _ _. Built, bd_hnsw_serialize = \<lambda>_. None\<rparr>"

definition quiet_build :: build_env where
  "quiet_build = \<lparr>bn_dir_ok = True, bn_memfd = Some (replicate 8 0 @ [7, 0, 0, 0, 0, 0, 0, 0, 8, 0, 0, 0, 0, 0, 0, 0]),
     bn_map_memfd = True, bn_shm = Map.empty, bn_uid = 0, bn_can_map = \<lambda>_. True, bn_alloc = \<lambda>_. True,
     bn_descs = None, bn_meanwhile = \<lambda>_ st. st\<rparr>"

definition empty_run :: daemon where
  "empty_run = idle_daemon\<lparr>g_max_vram_per_gpu := replicate 16 0\<rparr>"

text \<open>The same while a build holds its new handle 1, over an older graph on disk.\<close>

definition committing :: daemon where
  "committing = empty_run\<lparr>d_live := [1], d_next := 2, d_files := [(1, 12, F_cagra) \<mapsto> [9]]\<rparr>"

lemma committing_ok: "holds [1] committing" "holds [] empty_run"
  by (simp_all add: holds_def owns_def fresh_def committing_def empty_run_def idle_daemon_def live_entries_def)

lemma sample_corpus: "corpus_ok calm_outside build_frame [7, 8]"
  by (simp add: corpus_ok_def calm_outside_def CUVS_TIDS_MAX_VECS_def)

lemma sample_write:
  "write_tids_atomic calm_outside tmp 2 1 0 [7, 8] st = (rc, st1) \<Longrightarrow> rc = 0"
  using tids_write_read [of "[7, 8]" 2 _ "\<lparr>written = [], room = 1000\<rparr>" "\<lambda>_. True" 1 0 _ "[]"]
  by (fastforce simp: write_tids_atomic_def calm_outside_def CUVS_TIDS_MAX_VECS_def split: prod.splits if_splits)

lemma sample_persist: "fst (persist_build calm_outside build_frame 1 [7, 8] st)"
proof -
  obtain rc s where w: "write_tids_atomic calm_outside (1, 12, F_tids_tmp) 2 1 0 [7, 8] st = (rc, s)" by fastforce
  then have "rc = 0" by (rule sample_write)
  then show ?thesis using w by (simp add: persist_build_def calm_outside_def Let_def)
qed

lemma sample_finish:
  "rh_status (fst (fst (finish_build_commit calm_outside bd build_frame 1 [7, 8] gpu needed staged st))) = CUVS_STATUS_OK"
  using sample_persist [of st]
  by (auto simp: finish_build_commit_def status_reply_def Let_def split: prod.split)

lemma sample_room:
  assumes "th_n_vecs hdr = cf_n_vecs build_frame" "th_dim hdr = cf_dim build_frame"
  shows "room_for calm_outside hdr img (empty_run\<lparr>d_files := fs\<rparr>)"
  using assms
  by (simp add: room_for_def pick_gpu_for_index_def pick_gpu_step_def n_usable_gpus_def usable_gpu_def upt_rec
      empty_run_def idle_daemon_def gpu_free_vram_bytes_def calm_outside_def ensure_vram_def evict_to_free.simps
      estimate_vram_bytes_def Let_def)


theorem build_survives_restart_witness:
  "\<exists>r st1 st3 e. finish_build_commit calm_outside plain_build build_frame 1 [7, 8] 0 520 False committing = (r, st1) \<and>
    load_index calm_outside 1 12 (empty_run\<lparr>d_files := d_files st1\<rparr>) = (0, st3) \<and> live_entries st3 = [e] \<and>
    e_tids e = Some [7, 8] \<and> e_n_vecs e = 2 \<and> \<not> e_stale e"
proof -
  obtain r st1 where f: "finish_build_commit calm_outside plain_build build_frame 1 [7, 8] 0 520 False committing = (r, st1)"
    by fastforce
  have ok: "rh_status (fst r) = CUVS_STATUS_OK" using sample_finish [of plain_build 0 520 False committing] f by simp
  have "live_entries (empty_run\<lparr>d_files := d_files st1\<rparr>) = []"
    by (simp add: live_entries_def empty_run_def idle_daemon_def)
  then show ?thesis
    using build_survives_restart [OF f ok committing_ok(1) sample_corpus, of 1 12 "empty_run\<lparr>d_files := d_files st1\<rparr>"]
      sample_room f by auto
qed

theorem build_crash_mixes_witness:
  "\<exists>f st3 e. load_index calm_outside 1 12 (empty_run\<lparr>d_files := crash_files 3 1 12 f [1, 2, 3] (d_files committing)\<rparr>) = (0, st3) \<and>
    live_entries st3 = [e] \<and> e_tids e = Some [7, 8] \<and> d_files st3 (1, 12, F_cagra) = Some [9]"
proof -
  obtain st1 where p: "persist_build calm_outside build_frame 1 [7, 8] committing = (True, st1)"
    using sample_persist [of committing] by (metis (full_types) prod.collapse)
  have fs: "d_files committing (1, 12, F_cagra) = Some [9]" "d_files committing (1, 12, F_shards) = None"
    "d_files committing (1, 12, F_stale) = None"
    by (simp_all add: committing_def)
  have l: "live_entries (empty_run\<lparr>d_files := x\<rparr>) = []" for x
    by (simp add: live_entries_def empty_run_def idle_daemon_def)
  obtain f img where m: "o_serialize calm_outside 1 = Some img"
    "\<forall>st2. d_files st2 = crash_files 3 1 12 f img (d_files committing) \<longrightarrow>
      (\<forall>hdr. th_n_vecs hdr = cf_n_vecs build_frame \<longrightarrow> th_dim hdr = cf_dim build_frame \<longrightarrow> room_for calm_outside hdr [9] st2) \<longrightarrow>
      (\<exists>st3 e. load_index calm_outside 1 12 st2 = (0, st3) \<and> live_entries st3 = live_entries st2 @ [e] \<and>
        e_tids e = Some [7, 8] \<and> \<not> e_stale e \<and> d_files st3 (1, 12, F_cagra) = Some [9])"
    using build_crash_mixes [OF p sample_corpus _ _ fs] by auto
  have "img = [1, 2, 3]" using m(1) by (simp add: calm_outside_def)
  then show ?thesis
    using m(2) [rule_format, of "empty_run\<lparr>d_files := crash_files 3 1 12 f img (d_files committing)\<rparr>"] sample_room l
    by auto
qed

lemma quiet_fields [simp]:
  "bn_dir_ok quiet_build" "bn_memfd quiet_build \<noteq> None" "bn_map_memfd quiet_build" "bn_meanwhile quiet_build = (\<lambda>_ st. st)"
  "bn_alloc quiet_build s"
  by (simp_all add: quiet_build_def)

lemma sample_build_returns: "handle_build calm_outside plain_build quiet_build build_frame empty_run \<noteq> None"
proof -
  have r: "build_retry (cuvs_cagra_build plain_build vecs n build_frame gpu) calm_outside (\<lambda>_ st. st) gpu 0 st \<noteq> None" for vecs n gpu st
    by (subst build_retry.simps) (simp add: cuvs_cagra_build_def gpu_attempt_def plain_build_def gpu_alloc_def del: not_None_eq)
  have "build_single calm_outside plain_build quiet_build build_frame
      (cuvs_cagra_build plain_build vecs n build_frame) w ex fl ok tids empty_run \<noteq> None" for vecs n w ex fl ok tids
    using r by (simp add: build_single_def Let_def del: not_None_eq split: prod.split sum.split option.split)
  then show ?thesis
    using quiet_fields(2)
    by (simp add: handle_build_def check_payload_def map_corpus_def resolve_shards_def SIZE_MAX_def Let_def
        del: not_None_eq split: prod.split option.split)
qed

theorem build_keeps_handles_witness:
  "\<exists>r st'. handle_build calm_outside plain_build quiet_build build_frame empty_run = Some (r, st') \<and> owned st' \<and> fresh st'"
proof -
  obtain r st' where b: "handle_build calm_outside plain_build quiet_build build_frame empty_run = Some (r, st')"
    using sample_build_returns by fastforce
  have "owned empty_run" "fresh empty_run" "rely (bn_meanwhile quiet_build)" "\<not> 2 \<le> resolve_shards build_frame empty_run"
    using committing_ok(2) by (simp_all add: holds_def rely_def quiet_build_def resolve_shards_def)
  then show ?thesis using build_keeps_handles [OF _ _ _ _ b] b by blast
qed

text \<open>An unsharded index with its exact copy resident, and two shards just built for it.\<close>

definition exact_run :: daemon where
  "exact_run = idle_daemon\<lparr>
     g_indexes := [zero_entry\<lparr>e_db_oid := 1, e_index_oid := 12, e_dim := 1, e_n_vecs := 2, e_tids := Some [7, 8],
       e_valid := True, e_handle := Some 1, e_main_bf_idx := Some 2, e_main_bf_n := 2\<rparr>],
     g_n_indexes := 1, d_live := [1, 2, 3, 4], d_next := 5\<rparr>"

definition new_shards :: "ShardEntry list" where
  "new_shards = [zero_shard\<lparr>se_handle := Some 3, se_valid := True\<rparr>, zero_shard\<lparr>se_handle := Some 4, se_valid := True\<rparr>]"

theorem sharded_rebuild_leaks_bf_witness:
  "2 \<in> set (d_live (install_sharded calm_outside build_frame [7, 8] new_shards exact_run)) \<and>
   filter (\<lambda>e. 2 \<in> set (entry_handles e)) (live_entries (install_sharded calm_outside build_frame [7, 8] new_shards exact_run)) = []"
proof -
  have h: "holds (concat (map shard_handles new_shards)) exact_run"
    by (simp add: holds_def owns_def fresh_def exact_run_def new_shards_def idle_daemon_def live_entries_def entry_handles_def
        wf_entry_def plain_cagra_def is_sharded_def shard_handles_def zero_entry_def zero_shard_def)
  have f: "find_index (cf_db_oid build_frame) (cf_index_oid build_frame) exact_run = Some 0"
    "\<not> is_sharded (entry_at 0 exact_run)" "e_main_bf_idx (entry_at 0 exact_run) = Some 2" "2 \<le> length new_shards"
    by (simp_all add: find_index_def exact_run_def idle_daemon_def live_entries_def entry_is_def is_sharded_def zero_entry_def
        new_shards_def)
  show ?thesis using sharded_rebuild_leaks_bf [OF h f(4,1-3)] by (auto simp: filter_empty_conv)
qed

theorem build_retry_returns_witness:
  "\<exists>res. build_retry (\<lambda>st. (None, True, st)) calm_outside (\<lambda>_ st. st) 0 0 two_cagra = Some res"
  by (rule build_retry_returns) simp_all

end
