(* ===== verification/Search_Stream.thy ===== *)
theory Search_Stream
  imports Batch_Worker Build_Witness
begin

text \<open>
  The two exact searches of \<open>src/pg_cuvs_server.c\<close> that need no resident exact index: the
  streaming filtered search (\<open>handle_search_stream_bf\<close>), which gathers the whitelisted rows
  from the \<open>.vectors\<close> file, and the search of a corpus the backend sends along
  (\<open>handle_search_bf_transient\<close>), which must not evict anything.
\<close>

section \<open>Streaming filtered search\<close>

definition stream_found ::
  "outside \<Rightarrow> gpu_lib \<Rightarrow> search_env \<Rightarrow> CuvsCmdFrame \<Rightarrow> nat \<Rightarrow> daemon \<Rightarrow> reply \<times> daemon" where
  "stream_found out gl en cmd i st =
    (let e = entry_at i st; k = nat (max 1 (sint (cf_k cmd))) in
     if e_stale e then refuse CUVS_STATUS_STALE ''index stale (writes since build)'' i st
     else if e_rev_tids e = None \<or> e_rev_item_ids e = None \<or> e_n_vecs e \<le> 0 then (status_reply CUVS_STATUS_NO_VECTORS, st)
     else if cf_metric cmd \<noteq> e_metric e then (status_reply CUVS_STATUS_METRIC_MISMATCH, st)
     else if cf_dim cmd \<noteq> e_dim e then (status_reply CUVS_STATUS_DIM_MISMATCH, st)
     else case map_query (en_can_map en) (en_shm en) (en_peer_uid en) (cf_shm_key cmd) (cf_dim cmd) of
       Inl msg \<Rightarrow> (send_error msg, st)
     | Inr query \<Rightarrow>
        (let flt = (if 0 < cf_n_filter_tids cmd
               then map_shm_readonly (en_can_map en) (en_shm en) (en_peer_uid en) (cf_filter_shm_key cmd)
                 (unat (cf_n_filter_tids cmd) * 8) else None) in
         if cuvs_filter_frame_refuses (cf_n_filter_tids cmd) (flt \<noteq> None) then (status_reply CUVS_STATUS_NO_VECTORS, st)
         else let ts = (case flt of None \<Rightarrow> [] | Some fb \<Rightarrow> tids_of_bytes (unat (cf_n_filter_tids cmd)) fb);
                  (status, rs) = (if en_alloc en ''sorted'' \<and> en_alloc en ''top''
                    then search_filter_exact (gl_brute_force gl) (o_mem out) (d_files st (e_db_oid e, e_index_oid e, F_vectors))
                      e query (cuvs_u64_sort ts) k (exact_chunk_cap cmd)
                    else (CUVS_STATUS_ERROR, []))
           in if status = CUVS_STATUS_ERROR then refuse CUVS_STATUS_ERROR ''stream_bf failed'' i st
              else if status \<noteq> CUVS_STATUS_OK then (status_reply status, st)
              else serve en cmd 6 False rs i st))"

definition handle_search_stream_bf ::
  "outside \<Rightarrow> gpu_lib \<Rightarrow> search_env \<Rightarrow> CuvsCmdFrame \<Rightarrow> daemon \<Rightarrow> reply \<times> daemon" where
  "handle_search_stream_bf out gl en cmd st =
    (case find_or_load out (cf_db_oid cmd) (cf_index_oid cmd) st of
       (None, st1) \<Rightarrow> (status_reply CUVS_STATUS_NOT_FOUND, st1)
     | (Some i, st1) \<Rightarrow> stream_found out gl en cmd i (update_entry i (\<lambda>e. e\<lparr>e_last_search := d_now st1\<rparr>) st1))"

section \<open>Search of a transient corpus\<close>

text \<open>\<open>bn\<close> brings the corpus: a descriptor, or an object that the filter key names.\<close>

definition transient_corpus :: "build_env \<Rightarrow> CuvsCmdFrame \<Rightarrow> string + u32 list \<times> u64 list" where
  "transient_corpus bn cmd =
    (let corpus = split_corpus (unat (cf_n_vecs cmd)) (unat (cf_dim cmd)) in
     case bn_memfd bn of
       Some bs \<Rightarrow> if bn_map_memfd bn then Inr (corpus bs) else Inl ''corpus mmap failed''
     | None \<Rightarrow>
        (case bn_shm bn (c_str (cf_filter_shm_key cmd)) of
           None \<Rightarrow> Inl ''corpus shm_open failed''
         | Some ob \<Rightarrow>
             if so_owner ob \<noteq> bn_uid bn then Inl ''corpus shm owner mismatch''
             else if \<not> bn_can_map bn (c_str (cf_filter_shm_key cmd)) then Inl ''corpus mmap failed''
             else Inr (corpus (so_bytes ob))))"

definition transient_admits :: "outside \<Rightarrow> u64 \<Rightarrow> daemon \<Rightarrow> int option" where
  "transient_admits out needed st =
    (let dev = pick_gpu_for_index out needed st in
     if dev < 0 \<or> (0 < g_max_vram_per_gpu st ! nat dev \<and> total_vram_used dev st + needed > g_max_vram_per_gpu st ! nat dev)
       \<or> needed > gpu_free_vram_bytes out dev st then None else Some dev)"

definition corpus_rows :: "nat \<Rightarrow> u32 list \<Rightarrow> vec list" where
  "corpus_rows dim vecs = map (\<lambda>i. take dim (drop (i * dim) vecs)) [0..<length vecs div dim]"

definition transient_too_large :: "u64 \<Rightarrow> string" where
  "transient_too_large needed = ''transient BF corpus '' @ dec_digits (unat needed div 1048576)
     @ '' MB exceeds free GPU VRAM; reduce the WHERE selectivity, build a flat index, or use a cagra/ivfpq index''"

definition handle_search_bf_transient ::
  "outside \<Rightarrow> gpu_lib \<Rightarrow> search_env \<Rightarrow> build_env \<Rightarrow> CuvsCmdFrame \<Rightarrow> daemon \<Rightarrow> reply \<times> daemon" where
  "handle_search_bf_transient out gl en bn cmd st =
    (if \<not> bn_dir_ok bn then (send_error ''recv corpus frame failed'', st)
     else case check_payload 1 ''transient BF needs >= 1 vector'' ''transient BF payload overflow'' cmd of
       Some msg \<Rightarrow> (send_error msg, st)
     | None \<Rightarrow>
        (case transient_corpus bn cmd of
           Inl msg \<Rightarrow> (send_error msg, st)
         | Inr (vecs, tids) \<Rightarrow>
            (case map_query (en_can_map en) (en_shm en) (en_peer_uid en) (cf_shm_key cmd) (cf_dim cmd) of
               Inl msg \<Rightarrow> (send_error (''query '' @ msg), st)
             | Inr query \<Rightarrow>
                (let k = max 1 (sint (cf_k cmd)); n = sint (cf_n_vecs cmd); sk = min k (to_c_int (cf_n_vecs cmd));
                     needed = cf_n_vecs cmd * ucast (cf_dim cmd) * 4
                 in case transient_admits out needed st of
                      None \<Rightarrow> (oom_reply (transient_too_large needed), st)
                    | Some dev \<Rightarrow>
                       (case (if sk < 0 \<or> \<not> en_alloc en ''res'' then None
                              else gl_brute_force gl (corpus_rows (unat (cf_dim cmd)) vecs) query (nat sk) (cf_metric cmd)) of
                          None \<Rightarrow> (send_error ''transient BF search failed'', st)
                        | Some res \<Rightarrow>
                            (results_reply (en_latency_us en) False
                              (map (hit_result tids) (filter (in_range n) (take (nat sk) res))), st))))))"

section \<open>Whitelists\<close>

text \<open>Results come only out of one call of the streaming search.\<close>

lemma stream_found_results:
  assumes "snd (fst (stream_found out gl en cmd i st)) = rs" "rs \<noteq> []"
  shows "\<not> e_stale (entry_at i st) \<and> cf_metric cmd = e_metric (entry_at i st) \<and> cf_dim cmd = e_dim (entry_at i st) \<and>
    (\<exists>vectors query ts. search_filter_exact (gl_brute_force gl) (o_mem out) vectors (entry_at i st) query (cuvs_u64_sort ts)
        (nat (max 1 (sint (cf_k cmd)))) (exact_chunk_cap cmd) = (CUVS_STATUS_OK, rs) \<and> set ts \<subseteq> whitelist en cmd)"
proof -
  define e where "e = entry_at i st"
  define flt where "flt = (if 0 < cf_n_filter_tids cmd then map_shm_readonly (en_can_map en) (en_shm en) (en_peer_uid en)
    (cf_filter_shm_key cmd) (unat (cf_n_filter_tids cmd) * 8) else None)"
  define ts where "ts = (case flt of None \<Rightarrow> [] | Some fb \<Rightarrow> tids_of_bytes (unat (cf_n_filter_tids cmd)) fb)"
  have w: "set ts \<subseteq> whitelist en cmd"
    by (auto simp: ts_def flt_def whitelist_def mult.commute split: option.splits if_splits)
  note d = assms(1) [unfolded stream_found_def Let_def, folded e_def flt_def ts_def]
  have g: "\<not> e_stale e" "cf_metric cmd = e_metric e" "cf_dim cmd = e_dim e"
    using d assms(2) by (auto split: if_splits)
  obtain query where q: "map_query (en_can_map en) (en_shm en) (en_peer_uid en) (cf_shm_key cmd) (cf_dim cmd) = Inr query"
    using d assms(2) by (auto split: if_splits sum.splits)
  obtain status rs' where s: "(if en_alloc en ''sorted'' \<and> en_alloc en ''top''
      then search_filter_exact (gl_brute_force gl) (o_mem out) (d_files st (e_db_oid e, e_index_oid e, F_vectors))
        e query (cuvs_u64_sort ts) (nat (max 1 (sint (cf_k cmd)))) (exact_chunk_cap cmd)
      else (CUVS_STATUS_ERROR, [])) = (status, rs')" by fastforce
  have "status = CUVS_STATUS_OK" "rs' = rs"
    using d assms(2) unfolding q sum.case s prod.case by (auto split: if_splits)
  then have "search_filter_exact (gl_brute_force gl) (o_mem out) (d_files st (e_db_oid e, e_index_oid e, F_vectors))
        e query (cuvs_u64_sort ts) (nat (max 1 (sint (cf_k cmd)))) (exact_chunk_cap cmd) = (CUVS_STATUS_OK, rs)"
    using s assms(2) by (auto split: if_splits)
  then show ?thesis using g w unfolding e_def by blast
qed

text \<open>
  Tenant isolation on the streaming path: a streaming search answers only rows of the whitelist,
  at most \<open>k\<close> of them (one for a \<open>k\<close> below one), and none from a stale index or one
  of another metric or dimension; a whitelist that cannot be mapped gives no rows.
\<close>

theorem stream_search_isolated:
  assumes "handle_search_stream_bf out gl en cmd st = ((hdr, rs), st')"
    and "find_or_load out (cf_db_oid cmd) (cf_index_oid cmd) st = (Some i, st1)"
    and "i < length (g_indexes st1)" "entry_ok (entry_at i st1)"
  shows "r_tid ` set rs \<subseteq> whitelist en cmd \<and> length rs \<le> nat (max 1 (sint (cf_k cmd))) \<and>
    (rs \<noteq> [] \<longrightarrow> \<not> e_stale (entry_at i st1) \<and> cf_metric cmd = e_metric (entry_at i st1) \<and> cf_dim cmd = e_dim (entry_at i st1))"
proof (cases "rs = []")
  case False
  define st2 where "st2 = update_entry i (\<lambda>e. e\<lparr>e_last_search := d_now st1\<rparr>) st1"
  have e: "e_stale (entry_at i st2) = e_stale (entry_at i st1)" "e_metric (entry_at i st2) = e_metric (entry_at i st1)"
    "e_dim (entry_at i st2) = e_dim (entry_at i st1)" "entry_ok (entry_at i st2)"
    using assms(3,4) by (simp_all add: st2_def entry_ok_def entry_tids_def)
  have r: "snd (fst (stream_found out gl en cmd i st2)) = rs"
    using assms(1,2) by (simp add: handle_search_stream_bf_def st2_def)
  obtain vectors query ts where s: "search_filter_exact (gl_brute_force gl) (o_mem out) vectors (entry_at i st2) query
      (cuvs_u64_sort ts) (nat (max 1 (sint (cf_k cmd)))) (exact_chunk_cap cmd) = (CUVS_STATUS_OK, rs)" "set ts \<subseteq> whitelist en cmd"
    using stream_found_results [OF r False] by blast
  have "length (snd (search_filter_exact (gl_brute_force gl) (o_mem out) vectors (entry_at i st2) query
      (cuvs_u64_sort ts) (nat (max 1 (sint (cf_k cmd)))) (exact_chunk_cap cmd))) \<le> nat (max 1 (sint (cf_k cmd)))"
    by (rule search_filter_exact_bound) simp
  then show ?thesis
    using s search_filter_exact_sound [OF e(4) s(1)] stream_found_results [OF r False] e(1-3)
    by (auto simp: set_cuvs_u64_sort)
qed simp

lemma transient_corpus_size:
  assumes "transient_corpus bn cmd = Inr (vecs, tids)"
  shows "length vecs = unat (cf_n_vecs cmd) * unat (cf_dim cmd)"
  using assms
  by (auto simp: transient_corpus_def split_corpus_def Let_def length_chunks split: option.splits if_splits)

lemma take_int_min:
  assumes "length xs = l"
  shows "take (nat (min a (int l))) xs = take (nat a) xs"
proof (cases "a \<le> int l")
  case False
  then have "min a (int l) = int l" "l \<le> nat a" by simp_all
  then show ?thesis by (simp add: assms)
qed (simp add: min_def)

lemma exact_bf_hits:
  assumes "exact_bf dist bf query metric" "bf rows query k metric = Some res" "k \<le> length rows" "length rows = nat n"
  shows "\<exists>ids. map (hit_result tids) (filter (in_range n) (take k res))
      = map (\<lambda>i. \<lparr>r_tid = tids ! i, r_distance = dist (rows ! i)\<rparr>) ids \<and> set ids \<subseteq> {..<length rows} \<and>
    map (\<lambda>i. dist_key metric (dist (rows ! i))) ids = take k (sort (map (\<lambda>v. dist_key metric (dist v)) rows))"
proof -
  obtain ids where res: "res = map (\<lambda>i. (int i, dist (rows ! i))) ids" and ids: "set ids \<subseteq> {..<length rows}"
    and keys: "map (\<lambda>i. dist_key metric (dist (rows ! i))) ids = take k (sort (map (\<lambda>v. dist_key metric (dist v)) rows))"
    using assms(1-3) unfolding exact_bf_def by fastforce
  have len: "length ids = k"
    using arg_cong [OF keys, of length] assms(3) by simp
  have "filter (in_range n) (take k res) = res"
    using ids assms(4) by (force simp: res len in_range_def intro!: filter_True)
  then show ?thesis
    using ids keys by (intro exI [of _ ids]) (simp add: res hit_result_def)
qed

text \<open>
  C32. A transient search is exact and never evicts. It leaves the daemon's state as it is; it answers
  only if the corpus fits into the budget and the free memory of the chosen GPU next to everything
  resident, and then with rows of the corpus, the \<open>min k n\<close> nearest to the query the
  frame's shared object holds, nearest first. The brute-force search of the GPU library has to be
  exact: \<open>dist q v\<close> is the distance it computes between query \<open>q\<close> and row
  \<open>v\<close>.
\<close>

theorem transient_search_exact:
  assumes "handle_search_bf_transient out gl en bn cmd st = ((hdr, rs), st')"
    and "transient_corpus bn cmd = Inr (vecs, tids)" "cf_n_vecs cmd < 2 ^ 31"
    and "\<And>query. exact_bf (dist query) (gl_brute_force gl) query (cf_metric cmd)"
  shows "st' = st \<and> (rh_status hdr \<noteq> CUVS_STATUS_OK \<and> rs = [] \<or>
    (\<exists>query dev ids. map_query (en_can_map en) (en_shm en) (en_peer_uid en) (cf_shm_key cmd) (cf_dim cmd) = Inr query \<and>
      0 \<le> dev \<and> cf_n_vecs cmd * ucast (cf_dim cmd) * 4 \<le> gpu_free_vram_bytes out dev st \<and>
      (g_max_vram_per_gpu st ! nat dev = 0 \<or>
        total_vram_used dev st + cf_n_vecs cmd * ucast (cf_dim cmd) * 4 \<le> g_max_vram_per_gpu st ! nat dev) \<and>
      (let rows = corpus_rows (unat (cf_dim cmd)) vecs in
        rs = map (\<lambda>i. \<lparr>r_tid = tids ! i, r_distance = dist query (rows ! i)\<rparr>) ids \<and> set ids \<subseteq> {..<length rows} \<and>
        map (\<lambda>i. dist_key (cf_metric cmd) (dist query (rows ! i))) ids
          = take (nat (max 1 (sint (cf_k cmd)))) (sort (map (\<lambda>v. dist_key (cf_metric cmd) (dist query v)) rows)))))"
proof -
  let ?n = "cf_n_vecs cmd" and ?dim = "unat (cf_dim cmd)"
  define rows where "rows = corpus_rows ?dim vecs"
  define sk where "sk = min (max 1 (sint (cf_k cmd))) (to_c_int ?n)"
  have n: "sint ?n = int (unat ?n)" "to_c_int ?n = int (unat ?n)"
  proof -
    have s: "unat ?n < 2 ^ 31"
      using assms(3) by (simp add: word_less_nat_alt)
    then show "to_c_int ?n = int (unat ?n)"
      by (rule to_c_int_small)
    show "sint ?n = int (unat ?n)"
      using s by (simp add: sint_of_unat)
  qed
  have same: "st' = st"
    using assms(1,2) by (auto simp: handle_search_bf_transient_def Let_def split: if_splits option.splits sum.splits)
  show ?thesis
  proof (cases "rh_status hdr \<noteq> CUVS_STATUS_OK \<and> rs = []")
    case False
    have pay: "check_payload 1 ''transient BF needs >= 1 vector'' ''transient BF payload overflow'' cmd = None"
      using assms(1) False
      by (auto simp: handle_search_bf_transient_def send_error_def send_error_code_def build_codes split: if_splits option.splits)
    then have pos: "0 < sint ?n" "cf_dim cmd \<noteq> 0"
      by (auto simp: check_payload_def split: if_splits)
    note d = assms(1) [unfolded handle_search_bf_transient_def pay option.case assms(2) sum.case Let_def, folded sk_def rows_def]
    have ok: "bn_dir_ok bn"
      using d False by (auto simp: send_error_def send_error_code_def build_codes split: if_splits)
    obtain query where q: "map_query (en_can_map en) (en_shm en) (en_peer_uid en) (cf_shm_key cmd) (cf_dim cmd) = Inr query"
      using d False ok by (cases "map_query (en_can_map en) (en_shm en) (en_peer_uid en) (cf_shm_key cmd) (cf_dim cmd)")
        (auto simp: send_error_def send_error_code_def build_codes)
    note d2 = d [unfolded q sum.case if_not_P [OF not_not [THEN iffD2, OF ok]]]
    obtain dev where ad: "transient_admits out (?n * ucast (cf_dim cmd) * 4) st = Some dev"
      using d2 False by (cases "transient_admits out (?n * ucast (cf_dim cmd) * 4) st")
        (auto simp: oom_reply_def send_error_code_def build_codes)
    note d3 = d2 [unfolded ad option.case]
    obtain res where bf: "gl_brute_force gl rows query (nat sk) (cf_metric cmd) = Some res" "\<not> sk < 0"
      and rs: "rs = map (hit_result tids) (filter (in_range (sint ?n)) (take (nat sk) res))"
      using d3 False
      by (auto simp: rows_def send_error_def send_error_code_def results_reply_def build_codes split: if_splits option.splits)
    have len: "length rows = unat ?n"
      using transient_corpus_size [OF assms(2)] pos(2) by (simp add: rows_def corpus_rows_def unat_eq_0)
    have sk: "nat sk \<le> length rows"
      using n(2) by (simp add: len sk_def nat_le_iff)
    have m: "take (nat sk) xs = take (nat (max 1 (sint (cf_k cmd)))) xs" if "length xs = length rows" for xs :: "int list"
      unfolding sk_def n(2) by (rule take_int_min) (simp add: that len)
    have dev: "0 \<le> dev" "?n * ucast (cf_dim cmd) * 4 \<le> gpu_free_vram_bytes out dev st" "g_max_vram_per_gpu st ! nat dev = 0 \<or>
        total_vram_used dev st + ?n * ucast (cf_dim cmd) * 4 \<le> g_max_vram_per_gpu st ! nat dev"
      using ad by (auto simp: transient_admits_def Let_def word_neq_0_conv not_less split: if_splits)
    have "length rows = nat (sint ?n)"
      by (simp add: len n(1))
    from exact_bf_hits [OF assms(4) bf(1) sk this, of tids]
    obtain ids where "rs = map (\<lambda>i. \<lparr>r_tid = tids ! i, r_distance = dist query (rows ! i)\<rparr>) ids" "set ids \<subseteq> {..<length rows}"
      "map (\<lambda>i. dist_key (cf_metric cmd) (dist query (rows ! i))) ids
        = take (nat (max 1 (sint (cf_k cmd)))) (sort (map (\<lambda>v. dist_key (cf_metric cmd) (dist query v)) rows))"
      unfolding rs by (auto simp: m)
    then show ?thesis
      using same dev q unfolding Let_def rows_def [symmetric] by blast
  qed (use same in blast)
qed

section \<open>Concrete searches\<close>

theorem stream_search_isolated_witness:
  "\<exists>hdr rs st'. handle_search_stream_bf calm_outside honest_lib sample_env filter_frame search_run = ((hdr, rs), st') \<and>
    r_tid ` set rs \<subseteq> whitelist sample_env filter_frame \<and> length rs \<le> 1"
proof -
  obtain hdr rs st' where h: "handle_search_stream_bf calm_outside honest_lib sample_env filter_frame search_run = ((hdr, rs), st')"
    by (metis prod.collapse)
  have f: "find_or_load calm_outside (cf_db_oid filter_frame) (cf_index_oid filter_frame) search_run = (Some 0, search_run)"
    by (simp add: find_or_load_def filter_frame_def find_index_def entry_is_def search_run_def idle_daemon_def
        live_entries_def zero_entry_def)
  have k: "nat (max 1 (sint (cf_k filter_frame))) = 1" and l: "0 < length (g_indexes search_run)"
    by (simp_all add: filter_frame_def search_run_def)
  show ?thesis
    using stream_search_isolated [OF h f l search_run_ok] h k by auto
qed

definition transient_frame :: CuvsCmdFrame where
  "transient_frame = build_frame\<lparr>cf_shm_key := key_of 1, cf_k := 1\<rparr>"

text \<open>A library that searches exactly, with a distance that depends on the query.\<close>

definition query_dist :: "vec \<Rightarrow> vec \<Rightarrow> u32" where
  "query_dist q v = (if q = [0] then sample_dist v else 100 - sample_dist v)"

definition exact_lib :: gpu_lib where
  "exact_lib = honest_lib\<lparr>gl_brute_force := \<lambda>rows q. sorting_bf (query_dist q) rows q\<rparr>"

lemma exact_lib_exact: "exact_bf (query_dist query) (gl_brute_force exact_lib) query metric"
  using sorting_bf_exact [of "query_dist query" query metric] by (simp add: exact_lib_def exact_bf_def)

theorem transient_search_exact_witness:
  "\<exists>hdr rs. handle_search_bf_transient calm_outside exact_lib sample_env quiet_build
      transient_frame empty_run = ((hdr, rs), empty_run) \<and> length rs \<le> 1 \<and> r_tid ` set rs \<subseteq> {7, 8}"
proof -
  obtain hdr rs st' where h: "handle_search_bf_transient calm_outside exact_lib sample_env quiet_build transient_frame empty_run = ((hdr, rs), st')"
    by (metis prod.collapse)
  have f: "cf_n_vecs transient_frame = 2" "cf_dim transient_frame = 1" "cf_k transient_frame = 1" "cf_metric transient_frame = 0"
    by (simp_all add: transient_frame_def)
  have c: "transient_corpus quiet_build transient_frame = Inr ([0, 0], [7, 8])"
    by code_simp
  have n: "cf_n_vecs transient_frame < 2 ^ 31" by (simp add: f)
  have bf: "exact_bf (query_dist query) (gl_brute_force exact_lib) query (cf_metric transient_frame)" for query
    by (rule exact_lib_exact)
  let ?R = "corpus_rows (unat (cf_dim transient_frame)) [0, 0]" and ?m = "cf_metric transient_frame"
  have rows: "length ?R = 2" and k: "nat (max 1 (sint (cf_k transient_frame))) = 1"
    by (simp_all add: f corpus_rows_def)
  have ans: "length xs \<le> 1 \<and> r_tid ` set xs \<subseteq> {7, 8}"
    if "xs = map (\<lambda>i. \<lparr>r_tid = [7, 8] ! i, r_distance = d i\<rparr>) ids" "set ids \<subseteq> {..<2}" "map g ids = take 1 ks"
    for xs d ids ks and g :: "nat \<Rightarrow> int"
  proof -
    have "length ids \<le> 1"
      using arg_cong [OF that(3), of length] by simp
    moreover have "[7, 8 :: u64] ! i \<in> {7, 8}" if "i < 2" for i
      using that by (cases i) auto
    ultimately show ?thesis using that(1,2) by fastforce
  qed
  have "st' = empty_run \<and> length rs \<le> 1 \<and> r_tid ` set rs \<subseteq> {7, 8}"
  proof (cases "rs = []")
    case False
    then obtain q ids where "rs = map (\<lambda>i. \<lparr>r_tid = [7, 8] ! i, r_distance = query_dist q (?R ! i)\<rparr>) ids"
      "set ids \<subseteq> {..<2}" "map (\<lambda>i. dist_key ?m (query_dist q (?R ! i))) ids = take 1 (sort (map (\<lambda>v. dist_key ?m (query_dist q v)) ?R))"
      using transient_search_exact [OF h c n bf] unfolding Let_def rows k by blast
    from ans [OF this] show ?thesis using transient_search_exact [OF h c n bf] by simp
  qed (use transient_search_exact [OF h c n bf] in simp)
  then show ?thesis using h by auto
qed

end
