(* ===== verification/Ipc_Socket.thy ===== *)
theory Ipc_Socket
  imports Search_Stream
begin

text \<open>
  The socket layer both sides of the daemon's socket use: \<open>send_all\<close>, \<open>recv_all\<close> and
  \<open>recv_all_interruptible\<close> (\<open>src/cuvs_ipc.c\<close>, the first two again in
  \<open>src/pg_cuvs_server.c\<close>), the transfer of a descriptor (\<open>cuvs_fd_send\<close>,
  \<open>cuvs_fd_recv\<close> of \<open>src/cuvs_build_corpus.c\<close>) and the bytes of a reply. A script says
  what each system call answers; a run that needs more answers than the script has is \<open>None\<close>, a
  call that does not return.
\<close>

section \<open>Reading and writing\<close>

text \<open>One \<open>read\<close> or \<open>write\<close>: it moves at most so many bytes, is interrupted, or fails.\<close>

datatype io = Io_upto nat | Io_eintr | Io_fail

fun send_all :: "bytes \<Rightarrow> io list \<Rightarrow> (int \<times> bytes \<times> io list) option" where
  "send_all [] ios = Some (0, [], ios)"
| "send_all (b # bs) [] = None"
| "send_all (b # bs) (Io_fail # ios) = Some (-1, [], ios)"
| "send_all (b # bs) (Io_eintr # ios) = send_all (b # bs) ios"
| "send_all (b # bs) (Io_upto n # ios) =
    (if n = 0 then Some (-1, [], ios)
     else case send_all (drop n (b # bs)) ios of
       None \<Rightarrow> None
     | Some (rc, sent, ios') \<Rightarrow> Some (rc, take n (b # bs) @ sent, ios'))"

text \<open>\<open>inp\<close> is what the peer sends before it closes: the bytes, and what is left of them.\<close>

fun recv_all :: "nat \<Rightarrow> bytes \<Rightarrow> io list \<Rightarrow> (int \<times> bytes \<times> bytes \<times> io list) option" where
  "recv_all 0 inp ios = Some (0, [], inp, ios)"
| "recv_all (Suc l) inp [] = None"
| "recv_all (Suc l) inp (Io_fail # ios) = Some (-1, [], inp, ios)"
| "recv_all (Suc l) inp (Io_eintr # ios) = recv_all (Suc l) inp ios"
| "recv_all (Suc l) inp (Io_upto n # ios) =
    (let m = min n (min (Suc l) (length inp)) in
     if m = 0 then Some (-1, [], inp, ios)
     else case recv_all (Suc l - m) (drop m inp) ios of
       None \<Rightarrow> None
     | Some (rc, got, rest, ios') \<Rightarrow> Some (rc, take m inp @ got, rest, ios'))"

section \<open>Waiting for the reply\<close>

text \<open>
  What one turn of the polling loop meets: readable and then an answer of \<open>read\<close>, a signal, a
  slice of 250 ms without data at a time on the clock, or an error of \<open>poll\<close>. The flags say
  whether the callback reports a cancel.
\<close>

datatype turn = Readable io | Signal bool | Slice bool int | Poll_fail

text \<open>The result is 0 for a full read, 1 for a cancel and -1 for an error, the end or the deadline.\<close>

fun recv_all_interruptible ::
  "int \<Rightarrow> int \<Rightarrow> nat \<Rightarrow> bytes \<Rightarrow> turn list \<Rightarrow> (int \<times> bytes \<times> bytes) option" where
  "recv_all_interruptible start timeout 0 inp ts = Some (0, [], inp)"
| "recv_all_interruptible start timeout (Suc l) inp [] = None"
| "recv_all_interruptible start timeout (Suc l) inp (Poll_fail # ts) = Some (-1, [], inp)"
| "recv_all_interruptible start timeout (Suc l) inp (Signal cancel # ts) =
    (if cancel then Some (1, [], inp) else recv_all_interruptible start timeout (Suc l) inp ts)"
| "recv_all_interruptible start timeout (Suc l) inp (Slice cancel now # ts) =
    (if cancel then Some (1, [], inp)
     else if now - start \<ge> timeout then Some (-1, [], inp)
     else recv_all_interruptible start timeout (Suc l) inp ts)"
| "recv_all_interruptible start timeout (Suc l) inp (Readable Io_fail # ts) = Some (-1, [], inp)"
| "recv_all_interruptible start timeout (Suc l) inp (Readable Io_eintr # ts) =
    recv_all_interruptible start timeout (Suc l) inp ts"
| "recv_all_interruptible start timeout (Suc l) inp (Readable (Io_upto n) # ts) =
    (let m = min n (min (Suc l) (length inp)) in
     if m = 0 then Some (-1, [], inp)
     else case recv_all_interruptible start timeout (Suc l - m) (drop m inp) ts of
       None \<Rightarrow> None
     | Some (rc, got, rest) \<Rightarrow> Some (rc, take m inp @ got, rest))"

section \<open>Passing a descriptor\<close>

text \<open>One \<open>sendmsg\<close>, repeated while interrupted; a short one is an error.\<close>

fun cuvs_fd_send :: "bytes \<Rightarrow> io list \<Rightarrow> (int \<times> bytes \<times> io list) option" where
  "cuvs_fd_send payload [] = None"
| "cuvs_fd_send payload (Io_eintr # ios) = cuvs_fd_send payload ios"
| "cuvs_fd_send payload (Io_fail # ios) = Some (-1, [], ios)"
| "cuvs_fd_send payload (Io_upto n # ios) =
    Some (if length payload \<le> n then 0 else -1, take n payload, ios)"

text \<open>
  \<open>fds\<close> are the descriptors the kernel installs with the first bytes, \<open>trunc\<close> its mark
  that some did not fit. The first is kept, the others are closed.
\<close>

record fd_recv =
  fr_rc :: int
  fr_data :: bytes
  fr_fd :: "nat option"
  fr_closed :: "nat list"
  fr_rest :: bytes
  fr_ios :: "io list"

fun cuvs_fd_recv :: "nat \<Rightarrow> nat list \<Rightarrow> bool \<Rightarrow> bytes \<Rightarrow> io list \<Rightarrow> fd_recv option" where
  "cuvs_fd_recv l fds trunc inp [] = None"
| "cuvs_fd_recv l fds trunc inp (Io_eintr # ios) = cuvs_fd_recv l fds trunc inp ios"
| "cuvs_fd_recv l fds trunc inp (Io_fail # ios) =
    Some \<lparr>fr_rc = -1, fr_data = [], fr_fd = None, fr_closed = [], fr_rest = inp, fr_ios = ios\<rparr>"
| "cuvs_fd_recv l fds trunc inp (Io_upto n # ios) =
    (let m = min n (min l (length inp)) in
     if m = 0 then Some \<lparr>fr_rc = -1, fr_data = [], fr_fd = None, fr_closed = [], fr_rest = inp, fr_ios = ios\<rparr>
     else if trunc then Some \<lparr>fr_rc = -1, fr_data = take m inp, fr_fd = None, fr_closed = fds, fr_rest = drop m inp, fr_ios = ios\<rparr>
     else case recv_all (l - m) (drop m inp) ios of
       None \<Rightarrow> None
     | Some (rc, got, rest, ios') \<Rightarrow>
         Some (if rc = 0
           then \<lparr>fr_rc = 0, fr_data = take m inp @ got, fr_fd = (if fds = [] then None else Some (hd fds)),
             fr_closed = tl fds, fr_rest = rest, fr_ios = ios'\<rparr>
           else \<lparr>fr_rc = -1, fr_data = take m inp @ got, fr_fd = None, fr_closed = tl fds @ take 1 fds,
             fr_rest = rest, fr_ios = ios'\<rparr>))"

section \<open>Framing\<close>

lemma send_all_sent:
  "send_all bs ios = Some (rc, sent, ios') \<Longrightarrow> prefix sent bs \<and> (rc = 0 \<longrightarrow> sent = bs) \<and> (rc = 0 \<or> rc = -1)"
proof (induction bs ios arbitrary: sent rule: send_all.induct)
  case (5 b bs n ios)
  show ?case
  proof (cases "n = 0")
    case False
    then obtain s where s: "send_all (drop n (b # bs)) ios = Some (rc, s, ios')" "sent = take n (b # bs) @ s"
      using 5(2) by (auto split: option.splits)
    show ?thesis
      using 5(1) [OF False s(1)] s(2) append_take_drop_id [of n "b # bs"] by (metis same_prefix_prefix)
  qed (use 5(2) in auto)
qed (auto split: if_splits option.splits)

lemma recv_all_got:
  "recv_all l inp ios = Some (rc, got, rest, ios') \<Longrightarrow>
    got @ rest = inp \<and> length got \<le> l \<and> (rc = 0 \<longrightarrow> length got = l) \<and> (rc = 0 \<or> rc = -1)"
proof (induction l inp ios arbitrary: got rule: recv_all.induct)
  case (5 l inp n ios)
  define m where "m = min n (min (Suc l) (length inp))"
  show ?case
  proof (cases "m = 0")
    case False
    then obtain g where g: "recv_all (Suc l - m) (drop m inp) ios = Some (rc, g, rest, ios')" "got = take m inp @ g"
      using 5(2) by (auto simp: m_def [symmetric] Let_def split: option.splits)
    have "m \<le> Suc l" "m \<le> length inp" by (simp_all add: m_def)
    then show ?thesis
      using 5(1) [OF m_def False g(1)] g(2) by (auto simp: append_take_drop_id)
  qed (use 5(2) in \<open>auto simp: m_def [symmetric] Let_def\<close>)
qed (auto split: if_splits option.splits)

text \<open>Enough answers that move bytes, none that fails: the call returns.\<close>

definition moving :: "nat \<Rightarrow> io list \<Rightarrow> bool" where
  "moving l ios \<longleftrightarrow> Io_fail \<notin> set ios \<and> Io_upto 0 \<notin> set ios \<and> l \<le> length (filter (\<lambda>io. io \<noteq> Io_eintr) ios)"

lemma moving_simps [simp]:
  "moving l (Io_eintr # ios) \<longleftrightarrow> moving l ios"
  "moving (Suc l) [] \<longleftrightarrow> False"
  "moving l (Io_fail # ios) \<longleftrightarrow> False"
  "moving (Suc l) (Io_upto n # ios) \<longleftrightarrow> 0 < n \<and> moving l ios"
  "moving 0 ios \<longleftrightarrow> Io_fail \<notin> set ios \<and> Io_upto 0 \<notin> set ios"
  by (auto simp: moving_def)

lemma moving_mono: "moving l ios \<Longrightarrow> k \<le> l \<Longrightarrow> moving k ios"
  by (simp add: moving_def)

lemma send_all_returns: "moving (length bs) ios \<Longrightarrow> \<exists>ios'. send_all bs ios = Some (0, bs, ios')"
proof (induction bs ios rule: send_all.induct)
  case (5 b bs n ios)
  then have n: "n \<noteq> 0" and m: "moving (length bs) ios" by simp_all
  obtain ios' where "send_all (drop n (b # bs)) ios = Some (0, drop n (b # bs), ios')"
    using 5(1) [OF n] moving_mono [OF m] n by (cases n) auto
  then show ?case using n append_take_drop_id [of n "b # bs"] by simp
qed auto

lemma recv_all_returns:
  "moving l ios \<Longrightarrow> l \<le> length inp \<Longrightarrow> \<exists>ios'. recv_all l inp ios = Some (0, take l inp, drop l inp, ios')"
proof (induction l inp ios rule: recv_all.induct)
  case (5 l inp n ios)
  define m where "m = min n (min (Suc l) (length inp))"
  have m: "m \<noteq> 0" "m \<le> Suc l" and mv: "moving l ios"
    using 5(2,3) by (auto simp: m_def)
  obtain ios' where r: "recv_all (Suc l - m) (drop m inp) ios
      = Some (0, take (Suc l - m) (drop m inp), drop (Suc l - m) (drop m inp), ios')"
    using 5(1) [OF m_def m(1) moving_mono [OF mv]] m diff_le_mono [OF 5(3), of m] diff_le_self [of l "m - 1"] by (cases m) auto
  have "take m inp @ take (Suc l - m) (drop m inp) = take (Suc l) inp"
    using m(2) by (metis le_add_diff_inverse take_add)
  moreover have "drop (Suc l - m) (drop m inp) = drop (Suc l) inp"
    using m(2) by simp
  ultimately show ?case
    using r m(1) by (simp add: m_def [symmetric] Let_def)
qed auto

lemma interruptible_got:
  "recv_all_interruptible start timeout l inp ts = Some (rc, got, rest) \<Longrightarrow>
    got @ rest = inp \<and> length got \<le> l \<and> (rc = 0 \<longrightarrow> length got = l) \<and> rc \<in> {0, 1, -1}"
proof (induction start timeout l inp ts arbitrary: got rule: recv_all_interruptible.induct)
  case (8 start timeout l inp n ts)
  define m where "m = min n (min (Suc l) (length inp))"
  show ?case
  proof (cases "m = 0")
    case False
    then obtain g where g: "recv_all_interruptible start timeout (Suc l - m) (drop m inp) ts = Some (rc, g, rest)" "got = take m inp @ g"
      using 8(2) by (auto simp: m_def [symmetric] Let_def split: option.splits)
    have "m \<le> Suc l" "m \<le> length inp" by (simp_all add: m_def)
    then show ?thesis
      using 8(1) [OF m_def False g(1)] g(2) by (auto simp: append_take_drop_id)
  qed (use 8(2) in \<open>auto simp: m_def [symmetric] Let_def\<close>)
qed (auto split: if_splits option.splits)

text \<open>The turns before the first that reports a cancel or is silent after the deadline, and the end.\<close>

fun ends_wait :: "int \<Rightarrow> int \<Rightarrow> turn \<Rightarrow> bool" where
  "ends_wait start timeout (Signal cancel) = cancel"
| "ends_wait start timeout (Slice cancel now) = (cancel \<or> now - start \<ge> timeout)"
| "ends_wait start timeout (Readable io) = (io = Io_fail \<or> io = Io_upto 0)"
| "ends_wait start timeout Poll_fail = True"

lemma interruptible_ends:
  "\<exists>x \<in> set ts. ends_wait start timeout x \<Longrightarrow> recv_all_interruptible start timeout l inp ts \<noteq> None"
proof (induction start timeout l inp ts rule: recv_all_interruptible.induct)
  case (8 start timeout l inp n ts)
  then show ?case by (cases "min n (min (Suc l) (length inp)) = 0") (auto simp: Let_def split: option.split)
qed (auto simp: Let_def split: option.split)

text \<open>
  C38. The wait for a reply is bounded and cancelable. Over any sequence of turns of the polling loop,
  in any mixture of data, signals and silent slices, the call has returned once some turn reports a
  cancel or a silent slice ends past the deadline; it reports a full read only with every byte of the
  reply in order, and otherwise it has read a prefix of it.
\<close>

theorem reply_wait_bounded:
  assumes "\<exists>x \<in> set ts. ends_wait start timeout x"
  shows "\<exists>rc got rest. recv_all_interruptible start timeout l inp ts = Some (rc, got, rest) \<and>
    got @ rest = inp \<and> (rc = 0 \<and> got = take l inp \<and> length got = l \<or> (rc = 1 \<or> rc = -1) \<and> length got \<le> l)"
proof -
  obtain rc got rest where r: "recv_all_interruptible start timeout l inp ts = Some (rc, got, rest)"
    using interruptible_ends [OF assms] by (metis option.exhaust prod.collapse)
  have g: "got @ rest = inp" "length got \<le> l" "rc = 0 \<longrightarrow> length got = l" "rc \<in> {0, 1, -1}"
    using interruptible_got [OF r] by auto
  then have "rc = 0 \<Longrightarrow> got = take l inp" by auto
  then show ?thesis using r g by blast
qed

theorem reply_wait_bounded_witness:
  "\<exists>rc got rest. recv_all_interruptible 100 30 3 [1, 2, 3] [Readable (Io_upto 2), Slice False 110, Slice False 130] = Some (rc, got, rest) \<and>
    got @ rest = [1, 2, 3] \<and> rc = -1"
proof -
  have "\<exists>x \<in> set [Readable (Io_upto 2), Slice False 110, Slice False 130]. ends_wait 100 30 x" by simp
  from reply_wait_bounded [OF this, of 3 "[1, 2, 3]"] show ?thesis by (auto simp: eval_nat_numeral)
qed

text \<open>
  Framing over a byte stream. However the system splits the transfers, interrupts them and lets
  them meet, a receiver that asks for as many bytes as the sender's call was given gets exactly those
  bytes and leaves what follows; and with enough answers that move bytes both calls do return.
\<close>

theorem framing:
  assumes "moving (length bs) out_ios" "moving (length bs) in_ios"
  shows "(\<exists>ios. send_all bs out_ios = Some (0, bs, ios)) \<and>
    (\<exists>ios. recv_all (length bs) (bs @ later) in_ios = Some (0, bs, later, ios))"
  using send_all_returns [OF assms(1)] recv_all_returns [OF assms(2), of "bs @ later"] by simp

theorem framing_witness:
  "(\<exists>ios. send_all [1, 2, 3] [Io_eintr, Io_upto 1, Io_upto 7, Io_upto 2] = Some (0, [1, 2, 3], ios)) \<and>
    (\<exists>ios. recv_all 3 ([1, 2, 3] @ [9]) [Io_upto 2, Io_eintr, Io_upto 9, Io_upto 1] = Some (0, [1, 2, 3], [9], ios))"
  using framing [of "[1, 2, 3]" "[Io_eintr, Io_upto 1, Io_upto 7, Io_upto 2]" "[Io_upto 2, Io_eintr, Io_upto 9, Io_upto 1]" "[9]"]
  by (simp add: eval_nat_numeral)

text \<open>
  No descriptor leaks. Whatever descriptors a peer attaches, when the call returns each of them is
  either the one handed to the caller, only on success, or closed, exactly once; and a success
  delivers the whole payload.
\<close>

theorem fd_recv_no_leak:
  assumes "cuvs_fd_recv l fds trunc inp ios = Some r"
  shows "(\<exists>installed. (installed = [] \<or> installed = fds) \<and>
      mset (fr_closed r) + (case fr_fd r of None \<Rightarrow> {#} | Some fd \<Rightarrow> {#fd#}) = mset installed) \<and>
    (fr_rc r = 0 \<and> length (fr_data r) = l \<and> fr_data r @ fr_rest r = inp \<or> fr_rc r = -1 \<and> fr_fd r = None)"
  using assms
proof (induction l fds trunc inp ios rule: cuvs_fd_recv.induct)
  case (4 l fds trunc inp n ios)
  define m where "m = min n (min l (length inp))"
  have le: "m \<le> l" "m \<le> length inp" by (simp_all add: m_def)
  show ?case
  proof (cases "m = 0 \<or> trunc")
    case True
    then show ?thesis using 4 by (auto simp: m_def [symmetric] Let_def split: if_splits)
  next
    case False
    then obtain rc got rest ios' where g: "recv_all (l - m) (drop m inp) ios = Some (rc, got, rest, ios')"
      and r: "r = (if rc = 0
           then \<lparr>fr_rc = 0, fr_data = take m inp @ got, fr_fd = (if fds = [] then None else Some (hd fds)),
             fr_closed = tl fds, fr_rest = rest, fr_ios = ios'\<rparr>
           else \<lparr>fr_rc = -1, fr_data = take m inp @ got, fr_fd = None, fr_closed = tl fds @ take 1 fds,
             fr_rest = rest, fr_ios = ios'\<rparr>)"
      using 4 by (auto simp: m_def [symmetric] Let_def split: option.splits)
    have g2: "got @ rest = drop m inp" "rc = 0 \<Longrightarrow> length got = l - m"
      using recv_all_got [OF g] by auto
    have fds: "mset (tl fds) + (case if fds = [] then None else Some (hd fds) of None \<Rightarrow> {#} | Some fd \<Rightarrow> {#fd#}) = mset fds"
      "mset (tl fds) + mset (take 1 fds) = mset fds"
      by (cases fds; simp)+
    have "mset (fr_closed r) + (case fr_fd r of None \<Rightarrow> {#} | Some fd \<Rightarrow> {#fd#}) = mset fds"
      using r fds by (cases "rc = 0") auto
    moreover have "fr_rc r = 0 \<and> length (fr_data r) = l \<and> fr_data r @ fr_rest r = inp \<or> fr_rc r = -1 \<and> fr_fd r = None"
      using r g2 le append_take_drop_id [of m inp] by (cases "rc = 0") auto
    ultimately show ?thesis by blast
  qed
qed auto

theorem fd_recv_no_leak_witness:
  "\<exists>r. cuvs_fd_recv 3 [5, 6, 8] False [1, 2, 3] [Io_eintr, Io_upto 2, Io_upto 2] = Some r \<and>
    mset (fr_closed r) + (case fr_fd r of None \<Rightarrow> {#} | Some fd \<Rightarrow> {#fd#}) = {#5, 6, 8#} \<and> fr_data r = [1, 2, 3]"
proof -
  obtain r where r: "cuvs_fd_recv 3 [5, 6, 8] False [1, 2, 3] [Io_eintr, Io_upto 2, Io_upto 2] = Some r"
    by (simp add: eval_nat_numeral)
  then have "fr_rc r = 0" "fr_closed r \<noteq> []" by (auto simp: eval_nat_numeral)
  then show ?thesis
    using fd_recv_no_leak [OF r] r by (auto simp: eval_nat_numeral)
qed

end
