(* ===== verification/Ipc_Client.thy ===== *)
theory Ipc_Client
  imports Ipc_Socket
begin

text \<open>
  The backend's side of the daemon protocol (\<open>src/cuvs_ipc.c\<close>): connecting, the shared-memory
  objects that carry a request, and one function per call. A call is given what the system answers
  (\<open>ipc_env\<close>) and what the daemon replies to a request (\<open>peer\<close>); its result is what it
  returns and the shared memory it leaves, or \<open>None\<close> when it never returns.
\<close>

section \<open>Connecting\<close>

record conn_env =
  ce_socket :: bool
  ce_lstat :: "(bool \<times> int) option"
  ce_connect :: bool
  ce_peer :: "int option"

text \<open>
  \<open>g_expected_daemon_uid\<close> is -1 when any daemon will do. \<open>ce_lstat\<close> says whether the path
  is a socket and whose, \<open>ce_peer\<close> who accepted the connection.
\<close>

definition uds_connect_ex :: "int \<Rightarrow> bytes \<Rightarrow> conn_env \<Rightarrow> bool" where
  "uds_connect_ex g_expected_daemon_uid path ce \<longleftrightarrow>
    ce_socket ce \<and>
    (g_expected_daemon_uid < 0 \<or> path = [] \<or> ce_lstat ce = Some (True, g_expected_daemon_uid)) \<and>
    ce_connect ce \<and>
    (g_expected_daemon_uid < 0 \<or> ce_peer ce = Some g_expected_daemon_uid)"

section \<open>Keys\<close>

definition c_bytes :: "string \<Rightarrow> bytes" where
  "c_bytes s = map of_char s"

definition hex_digit :: "nat \<Rightarrow> char" where
  "hex_digit n = ''0123456789abcdef'' ! n"

definition hex2 :: "u8 \<Rightarrow> string" where
  "hex2 b = [hex_digit (unat b div 16), hex_digit (unat b mod 16)]"

text \<open>\<open>rnd\<close> are the eight random bytes, if the system delivers them.\<close>

definition make_shm_key :: "nat \<Rightarrow> nat \<Rightarrow> bytes option \<Rightarrow> bytes option" where
  "make_shm_key pid seq rnd =
    map_option (\<lambda>r. c_bytes (''/pg_cuvs_'' @ dec_digits pid @ ''_'' @ dec_digits seq @ ''_'' @ concat (map hex2 r))) rnd"

text \<open>\<open>strncpy\<close> into a field of 64 bytes of a zeroed frame.\<close>

definition key_field :: "bytes \<Rightarrow> bytes" where
  "key_field key = (let k = take 63 (c_str key) in k @ replicate (64 - length k) 0)"

section \<open>The system\<close>

text \<open>
  \<open>ie_key i\<close> is what the \<open>i\<close>-th \<open>make_shm_key\<close> of the call delivers and
  \<open>ie_stack i\<close> what its buffer holds before. \<open>ie_open\<close> and \<open>ie_size\<close> say whether an
  object can be created, and sized and mapped. \<open>ie_pad\<close> are the padding bytes of the frame.
  \<open>ie_reply_fd\<close> are the descriptors that come with a reply, of the objects \<open>ie_fd_obj\<close>.
\<close>

record ipc_env =
  ie_uid :: u32
  ie_expected :: int
  ie_path :: bytes
  ie_conn :: conn_env
  ie_key :: "nat \<Rightarrow> bytes option"
  ie_stack :: "nat \<Rightarrow> bytes"
  ie_open :: "bytes \<Rightarrow> bool"
  ie_size :: "bytes \<Rightarrow> bool"
  ie_alloc :: bool
  ie_itopk :: u32
  ie_width :: u32
  ie_pad :: bytes
  ie_send :: "io list"
  ie_fd_send :: "io list"
  ie_wait :: "turn list"
  ie_start :: int
  ie_recv :: "io list"
  ie_reply_fd :: "nat list"
  ie_trunc :: bool
  ie_fd_obj :: "nat \<Rightarrow> shm_object"
  ie_map :: bool

text \<open>What the daemon answers to the bytes of a request and the object passed along with it.\<close>

type_synonym peer = "shm \<Rightarrow> bytes \<Rightarrow> bytes option \<Rightarrow> bytes"

definition connects :: "ipc_env \<Rightarrow> bool" where
  "connects env = uds_connect_ex (ie_expected env) (ie_path env) (ie_conn env)"

section \<open>Shared memory\<close>

definition shm_unlink :: "bytes \<Rightarrow> shm \<Rightarrow> shm" where
  "shm_unlink key s = s(c_str key := None)"

text \<open>Creating an object with contents: \<open>O_CREAT | O_EXCL\<close>, \<open>ftruncate\<close>, \<open>mmap\<close>, copy.\<close>

definition shm_write :: "ipc_env \<Rightarrow> bytes \<Rightarrow> bytes \<Rightarrow> shm \<Rightarrow> bool \<times> shm" where
  "shm_write env key bs s =
    (if s (c_str key) \<noteq> None \<or> \<not> ie_open env key then (False, s)
     else if \<not> ie_size env key then (False, shm_unlink key s)
     else (True, s(c_str key \<mapsto> \<lparr>so_owner = ie_uid env, so_bytes = bs\<rparr>)))"

definition float_bytes :: "u32 list \<Rightarrow> bytes" where
  "float_bytes vs = concat (map (le_bytes 4) vs)"

definition shm_write_query :: "ipc_env \<Rightarrow> bytes \<Rightarrow> vec \<Rightarrow> shm \<Rightarrow> bool \<times> shm" where
  "shm_write_query env key query s = shm_write env key (float_bytes query) s"

definition shm_write_query_batch :: "ipc_env \<Rightarrow> bytes \<Rightarrow> vec list \<Rightarrow> u32 \<Rightarrow> shm \<Rightarrow> bool \<times> shm" where
  "shm_write_query_batch env key queries dim s =
    shm_write env key (le_bytes 4 (of_nat (length queries) :: u32) @ le_bytes 4 dim @ float_bytes (concat queries)) s"

definition shm_write_build_payload :: "ipc_env \<Rightarrow> bytes \<Rightarrow> vec list \<Rightarrow> u64 list \<Rightarrow> shm \<Rightarrow> bool \<times> shm" where
  "shm_write_build_payload env key vecs tids s =
    shm_write env key (float_bytes (concat vecs) @ concat (map (le_bytes 8) tids)) s"

definition shm_write_filter :: "ipc_env \<Rightarrow> bytes \<Rightarrow> u64 list \<Rightarrow> shm \<Rightarrow> bool \<times> shm" where
  "shm_write_filter env key tids s = shm_write env key (concat (map (le_bytes 8) (cuvs_u64_sort tids))) s"

section \<open>Frames and replies\<close>

definition zero_frame :: CuvsCmdFrame where
  "zero_frame = cmd_frame_of (replicate 264 0)"

definition CUVS_OP_SEARCH :: u32 where "CUVS_OP_SEARCH = 1"
definition CUVS_OP_SEARCH_BATCH :: u32 where "CUVS_OP_SEARCH_BATCH = 10"

definition stamp :: "ipc_env \<Rightarrow> CuvsCmdFrame \<Rightarrow> CuvsCmdFrame" where
  "stamp env cmd =
    (let c = cmd\<lparr>cf_proto_magic := CUVS_PROTO_MAGIC, cf_proto_version := CUVS_PROTO_VERSION\<rparr> in
     if cf_op cmd = CUVS_OP_SEARCH \<or> cf_op cmd = CUVS_OP_SEARCH_BATCH
     then c\<lparr>cf_itopk_size := ie_itopk env, cf_search_width := ie_width env\<rparr> else c)"

definition send_cmd :: "ipc_env \<Rightarrow> CuvsCmdFrame \<Rightarrow> (int \<times> bytes \<times> io list) option" where
  "send_cmd env cmd = send_all (cmd_frame_bytes (ie_pad env) (stamp env cmd)) (ie_send env)"

text \<open>The reply header has 144 bytes, a result 16 with four of padding.\<close>

definition reply_header_bytes :: "CuvsReplyHeader \<Rightarrow> bytes" where
  "reply_header_bytes h = le_bytes 4 (rh_status h) @ le_bytes 4 (rh_n_results h) @ le_bytes 4 (rh_latency_us h)
     @ le_bytes 4 (rh_delta_merged h) @ take 127 (c_bytes (rh_error h)) @ replicate (128 - min 127 (length (rh_error h))) 0"

definition reply_header_of :: "bytes \<Rightarrow> CuvsReplyHeader" where
  "reply_header_of bs = \<lparr>rh_status = fld 0 4 bs, rh_n_results = fld 4 4 bs, rh_latency_us = fld 8 4 bs,
     rh_delta_merged = fld 12 4 bs, rh_error = map (\<lambda>b. char_of (unat b)) (c_str (drop 16 bs))\<rparr>"

definition result_bytes :: "CuvsResult \<Rightarrow> bytes" where
  "result_bytes r = le_bytes 8 (r_tid r) @ le_bytes 4 (r_distance r) @ replicate 4 0"

definition result_of :: "bytes \<Rightarrow> CuvsResult" where
  "result_of bs = \<lparr>r_tid = fld 0 8 bs, r_distance = fld 8 4 bs\<rparr>"

definition reply_bytes :: "reply \<Rightarrow> bytes" where
  "reply_bytes r = reply_header_bytes (fst r) @ concat (map result_bytes (snd r))"

interpretation result_codec: codec result_bytes result_of 16
  by unfold_locales (simp_all add: result_bytes_def result_of_def fld_def wire)

lemma length_reply_header [simp, wire]: "length (reply_header_bytes h) = 144"
  by (simp add: reply_header_bytes_def c_bytes_def wire)

lemma reply_header_fields [simp]:
  "rh_status (reply_header_of (reply_header_bytes h)) = rh_status h"
  "rh_n_results (reply_header_of (reply_header_bytes h)) = rh_n_results h"
  "rh_latency_us (reply_header_of (reply_header_bytes h)) = rh_latency_us h"
  "rh_delta_merged (reply_header_of (reply_header_bytes h)) = rh_delta_merged h"
  by (simp_all add: reply_header_of_def reply_header_bytes_def fld_def wire)

section \<open>Calls\<close>

text \<open>What a call hands back; \<open>io_n\<close> is the count it stores, \<open>io_results\<close> what it wrote.\<close>

record ipc_out =
  io_rc :: u32
  io_n :: int
  io_results :: "CuvsResult list"
  io_latency :: u32
  io_merged :: u32
  io_error :: string

definition ipc_fail :: "u32 \<Rightarrow> ipc_out" where
  "ipc_fail rc = \<lparr>io_rc = rc, io_n = 0, io_results = [], io_latency = 0, io_merged = 0, io_error = []\<rparr>"

definition CUVS_STATUS_UNAVAILABLE :: u32 where "CUVS_STATUS_UNAVAILABLE = 4"
definition CUVS_STATUS_CANCELED :: u32 where "CUVS_STATUS_CANCELED = 11"

lemmas ipc_codes = build_codes CUVS_STATUS_UNAVAILABLE_def CUVS_STATUS_CANCELED_def

text \<open>Waiting for the header, then reading the results, of which at most \<open>k\<close> are stored.\<close>

definition await_results :: "ipc_env \<Rightarrow> int \<Rightarrow> bytes \<Rightarrow> ipc_out option" where
  "await_results env k inp =
    (case recv_all_interruptible (ie_start env) 30 144 inp (ie_wait env) of
       None \<Rightarrow> None
     | Some (wr, hb, rest) \<Rightarrow>
        if wr = 1 then Some (ipc_fail CUVS_STATUS_CANCELED)
        else if wr < 0 then Some (ipc_fail CUVS_STATUS_ERROR)
        else let hdr = reply_header_of hb; n = sint (rh_n_results hdr);
                 o0 = (ipc_fail (rh_status hdr))\<lparr>io_latency := rh_latency_us hdr, io_merged := rh_delta_merged hdr, io_error := rh_error hdr\<rparr>
          in if rh_status hdr \<noteq> CUVS_STATUS_OK \<or> rh_n_results hdr = 0 then Some o0
             else if n < 0 \<or> \<not> ie_alloc env then Some (o0\<lparr>io_rc := CUVS_STATUS_ERROR\<rparr>)
             else case recv_all (nat n * 16) rest (ie_recv env) of
               None \<Rightarrow> None
             | Some (rc, rb, _) \<Rightarrow>
                 if rc < 0 then Some (o0\<lparr>io_rc := CUVS_STATUS_ERROR\<rparr>)
                 else let n_write = min n k
                   in Some (o0\<lparr>io_n := n_write, io_results := take (nat n_write) (map result_of (chunks 16 (nat n) rb))\<rparr>))"

text \<open>A call that carries one query: search, and search of an IVF-PQ index.\<close>

definition query_call ::
  "ipc_env \<Rightarrow> peer \<Rightarrow> vec \<Rightarrow> CuvsCmdFrame \<Rightarrow> shm \<Rightarrow> (ipc_out \<times> shm) option" where
  "query_call env peer query cmd s =
    (case ie_key env 0 of
       None \<Rightarrow> Some (ipc_fail CUVS_STATUS_ERROR, shm_unlink (ie_stack env 0) s)
     | Some key \<Rightarrow>
        (let (ok, s1) = shm_write_query env key query s; finish = (\<lambda>r. (r, shm_unlink key s1)) in
         if \<not> ok then Some (finish (ipc_fail CUVS_STATUS_ERROR))
         else if \<not> connects env then Some (finish (ipc_fail CUVS_STATUS_UNAVAILABLE))
         else case send_cmd env (cmd\<lparr>cf_shm_key := key_field key\<rparr>) of
           None \<Rightarrow> None
         | Some (rc, req, _) \<Rightarrow>
             if rc < 0 then Some (finish (ipc_fail CUVS_STATUS_ERROR))
             else map_option finish (await_results env (sint (cf_k cmd)) (peer s1 req None))))"

text \<open>The arguments of \<open>cuvs_ipc_search\<close> that go into the frame.\<close>

record search_args =
  sa_db_oid :: u32
  sa_index_oid :: u32
  sa_k :: u32
  sa_metric :: u32
  sa_shard_overfetch :: u32
  sa_parallel_fanout :: bool
  sa_use_cpu_hnsw :: u32
  sa_search_mode :: u32
  sa_bf_precision :: u32
  sa_bf_batch_wait_us :: u32
  sa_cagra_batch_wait_us :: u32

definition search_frame :: "search_args \<Rightarrow> u32 \<Rightarrow> CuvsCmdFrame" where
  "search_frame a dim = zero_frame\<lparr>cf_op := CUVS_OP_SEARCH, cf_db_oid := sa_db_oid a, cf_index_oid := sa_index_oid a,
     cf_k := sa_k a, cf_metric := sa_metric a, cf_dim := dim, cf_n_vecs := 0, cf_shard_overfetch := sa_shard_overfetch a,
     cf_parallel_fanout := of_bool (sa_parallel_fanout a), cf_use_cpu_hnsw := sa_use_cpu_hnsw a,
     cf_search_mode := sa_search_mode a, cf_bf_precision := sa_bf_precision a,
     cf_bf_batch_wait_us := sa_bf_batch_wait_us a, cf_cagra_batch_wait_us := sa_cagra_batch_wait_us a\<rparr>"

text \<open>It reports \<open>delta_merged\<close> as a truth value.\<close>

definition cuvs_ipc_search ::
  "ipc_env \<Rightarrow> peer \<Rightarrow> search_args \<Rightarrow> vec \<Rightarrow> shm \<Rightarrow> (ipc_out \<times> shm) option" where
  "cuvs_ipc_search env peer a query s =
    map_option (\<lambda>(r, s'). (r\<lparr>io_merged := of_bool (io_merged r \<noteq> 0)\<rparr>, s'))
      (query_call env peer query (search_frame a (of_nat (length query))) s)"

definition CUVS_OP_SEARCH_IVFPQ :: u32 where "CUVS_OP_SEARCH_IVFPQ = 12"

definition cuvs_ipc_search_ivfpq ::
  "ipc_env \<Rightarrow> peer \<Rightarrow> u32 \<Rightarrow> u32 \<Rightarrow> vec \<Rightarrow> u32 \<Rightarrow> u32 \<Rightarrow> u32 \<Rightarrow> shm \<Rightarrow> (ipc_out \<times> shm) option" where
  "cuvs_ipc_search_ivfpq env peer db_oid index_oid query k metric n_probes s =
    query_call env peer query (zero_frame\<lparr>cf_op := CUVS_OP_SEARCH_IVFPQ, cf_db_oid := db_oid,
      cf_index_oid := index_oid, cf_k := k, cf_metric := metric, cf_dim := of_nat (length query), cf_n_probes := n_probes\<rparr>) s"

section \<open>Calls with a filter\<close>

text \<open>
  A query and a whitelist, in two objects. On the early exits the second key is not set yet, and
  what the buffer happens to hold is unlinked.
\<close>

definition filter_call ::
  "ipc_env \<Rightarrow> peer \<Rightarrow> vec \<Rightarrow> u64 list \<Rightarrow> CuvsCmdFrame \<Rightarrow> shm \<Rightarrow> (ipc_out \<times> shm) option" where
  "filter_call env peer query tids cmd s =
    (case ie_key env 0 of
       None \<Rightarrow> Some (ipc_fail CUVS_STATUS_ERROR, shm_unlink (ie_stack env 1) (shm_unlink (ie_stack env 0) s))
     | Some key \<Rightarrow>
        (let (ok, s1) = shm_write_query env key query s in
         if \<not> ok then Some (ipc_fail CUVS_STATUS_ERROR, shm_unlink (ie_stack env 1) (shm_unlink key s1))
         else case ie_key env 1 of
           None \<Rightarrow> Some (ipc_fail CUVS_STATUS_ERROR, shm_unlink (ie_stack env 1) (shm_unlink key s1))
         | Some fkey \<Rightarrow>
            (let (fok, s2) = shm_write_filter env fkey tids s1;
                 finish = (\<lambda>r. (r, shm_unlink fkey (shm_unlink key s2)))
             in if \<not> fok then Some (finish (ipc_fail CUVS_STATUS_ERROR))
                else if \<not> connects env then Some (finish (ipc_fail CUVS_STATUS_UNAVAILABLE))
                else case send_cmd env (cmd\<lparr>cf_shm_key := key_field key, cf_filter_shm_key := key_field fkey\<rparr>) of
                  None \<Rightarrow> None
                | Some (rc, req, _) \<Rightarrow>
                    if rc < 0 then Some (finish (ipc_fail CUVS_STATUS_ERROR))
                    else map_option finish (await_results env (sint (cf_k cmd)) (peer s2 req None)))))"

definition cuvs_ipc_search_filtered ::
  "ipc_env \<Rightarrow> peer \<Rightarrow> u32 \<Rightarrow> u32 \<Rightarrow> vec \<Rightarrow> u32 \<Rightarrow> u32 \<Rightarrow> u32 \<Rightarrow> u32 \<Rightarrow> u64 list option \<Rightarrow> u32 \<Rightarrow> int \<Rightarrow> shm
    \<Rightarrow> (ipc_out \<times> shm) option" where
  "cuvs_ipc_search_filtered env peer db_oid index_oid query k metric mode precision filter_tids use_prefilter cap s =
    (let cmd = zero_frame\<lparr>cf_op := CUVS_OP_SEARCH, cf_db_oid := db_oid, cf_index_oid := index_oid, cf_k := k,
           cf_metric := metric, cf_dim := of_nat (length query), cf_n_vecs := of_int (max 1 cap), cf_search_mode := mode,
           cf_bf_precision := precision\<rparr>
     in case filter_tids of
          Some (t # ts) \<Rightarrow> filter_call env peer query (t # ts)
            (cmd\<lparr>cf_n_filter_tids := of_nat (length (t # ts)), cf_use_prefilter := use_prefilter\<rparr>) s
        | _ \<Rightarrow> query_call env peer query cmd s)"

definition CUVS_OP_SEARCH_STREAM_BF :: u32 where "CUVS_OP_SEARCH_STREAM_BF = 19"

definition cuvs_ipc_search_stream_bf ::
  "ipc_env \<Rightarrow> peer \<Rightarrow> u32 \<Rightarrow> u32 \<Rightarrow> vec \<Rightarrow> u32 \<Rightarrow> u32 \<Rightarrow> u64 list \<Rightarrow> int \<Rightarrow> shm \<Rightarrow> (ipc_out \<times> shm) option" where
  "cuvs_ipc_search_stream_bf env peer db_oid index_oid query k metric filter_tids cap s =
    (if filter_tids = [] then Some (ipc_fail CUVS_STATUS_NO_VECTORS, s)
     else filter_call env peer query filter_tids (zero_frame\<lparr>cf_op := CUVS_OP_SEARCH_STREAM_BF, cf_db_oid := db_oid,
       cf_index_oid := index_oid, cf_k := k, cf_metric := metric, cf_dim := of_nat (length query),
       cf_n_vecs := of_int (max 1 cap), cf_search_mode := 1, cf_n_filter_tids := of_nat (length filter_tids)\<rparr>) s)"

end
