(* ===== verification/Search_Batch.thy ===== *)
theory Search_Batch
  imports Batch_Worker Ipc_Client
begin

text \<open>
  The SEARCH_BATCH command of the daemon (\<open>handle_search_batch\<close>,
  \<open>src/pg_cuvs_server.c\<close>): several queries in one request, answered by one dispatch of the
  GPU library, or shard by shard; and the object the answer is handed over in.
\<close>

section \<open>Handing over an object\<close>

text \<open>
  The name made of random bytes, and whether the system creates, sizes, reopens and maps the
  object. The name is gone before the reply is sent; what is passed along is the object.
\<close>

record reply_env =
  re_uid :: u32
  re_key :: "bytes option"
  re_open :: bool
  re_size :: bool
  re_reopen :: bool
  re_map :: bool

definition hand_over :: "reply_env \<Rightarrow> string \<Rightarrow> bytes \<Rightarrow> shm \<Rightarrow> (string + bytes \<times> shm_object) \<times> shm" where
  "hand_over re what bs s =
    (case re_key re of
       None \<Rightarrow> (Inl ''csprng failed'', s)
     | Some key \<Rightarrow>
        if s (c_str key) \<noteq> None \<or> \<not> re_open re then (Inl (''shm_open failed for '' @ what), s)
        else let s1 = s(c_str key \<mapsto> \<lparr>so_owner = re_uid re, so_bytes = []\<rparr>) in
          if \<not> re_size re then (Inl (''ftruncate failed for '' @ what), shm_unlink key s1)
          else if \<not> re_reopen re then (Inl (''shm_open(RDONLY) failed for '' @ what), shm_unlink key s1)
          else let s2 = shm_unlink key s1 in
            if \<not> re_map re then (Inl (''mmap failed for '' @ what), s2)
            else (Inr (key, \<lparr>so_owner = re_uid re, so_bytes = bs\<rparr>), s2))"

text \<open>No name is left behind, whatever fails.\<close>

lemma hand_over_leaves_nothing: "snd (hand_over re what bs s) = s"
  by (auto simp: hand_over_def shm_unlink_def Let_def fun_upd_idem split: option.splits)

section \<open>The request\<close>

text \<open>Finding or loading the index; a failure is a bare status.\<close>

definition batch_lookup :: "outside \<Rightarrow> CuvsCmdFrame \<Rightarrow> daemon \<Rightarrow> (u32 + nat) \<times> daemon" where
  "batch_lookup out cmd st =
    (case find_index (cf_db_oid cmd) (cf_index_oid cmd) st of
       Some i \<Rightarrow> (Inr i, st\<lparr>g_cache_hits := cache_counter_bump (g_cache_hits st) (entry_at i st)\<rparr>)
     | None \<Rightarrow>
        (let (rc, st1) = load_index out (cf_db_oid cmd) (cf_index_oid cmd) st in
         case (if rc = 0 then find_index (cf_db_oid cmd) (cf_index_oid cmd) st1 else None) of
           None \<Rightarrow> (Inl (if rc = -2 then CUVS_STATUS_OOM_FALLBACK else CUVS_STATUS_NOT_FOUND), st1)
         | Some i \<Rightarrow> (Inr i, st1\<lparr>g_cache_reloads := cache_counter_bump (g_cache_reloads st1) (entry_at i st1),
             g_cache_misses := cache_counter_bump (g_cache_misses st1) (entry_at i st1)\<rparr>)))"

text \<open>The queries behind the two counts of the object, which are not read; its size is not checked.\<close>

definition map_queries :: "(bytes \<Rightarrow> bool) \<Rightarrow> shm \<Rightarrow> u32 \<Rightarrow> bytes \<Rightarrow> nat \<Rightarrow> nat \<Rightarrow> string + vec list" where
  "map_queries can_map shm uid key q dim =
    (case shm (c_str key) of
       None \<Rightarrow> Inl ''shm_open failed for batch queries''
     | Some ob \<Rightarrow>
         if so_owner ob \<noteq> uid then Inl ''shm owner mismatch for batch queries''
         else if \<not> can_map (c_str key) then Inl ''mmap failed for batch queries''
         else let total = 8 + q * (4 * dim) in
           Inr (map (\<lambda>row. map le_word (chunks 4 dim row)) (chunks (4 * dim) q (drop 8 (take total (so_bytes ob @ replicate total 0))))))"

section \<open>The search\<close>

definition FLT_MAX :: u32 where "FLT_MAX = 0x7F7FFFFF"

text \<open>A hit outside of the index becomes TID 0.\<close>

definition batch_hit :: "IndexEntry \<Rightarrow> gpu_hit \<Rightarrow> CuvsResult" where
  "batch_hit e h = \<lparr>r_tid = (if in_range (e_n_vecs e) h then entry_tids e ! nat (fst h) else 0), r_distance = snd h\<rparr>"

definition batch_unsharded ::
  "batch_lib \<Rightarrow> CuvsCmdFrame \<Rightarrow> bool \<Rightarrow> nat \<Rightarrow> vec list \<Rightarrow> IndexEntry \<Rightarrow> CuvsResult list list option" where
  "batch_unsharded bl cmd use_bf kk queries e =
    (let (ret, raw) = (if use_bf then bl_bf_batch bl (e_main_bf_idx e) queries kk (delta_gpu_of e)
           else bl_cagra_batch bl (e_handle e) queries kk (e_gpu_device_id e) (cf_itopk_size cmd) (cf_search_width cmd))
     in if ret \<noteq> 0 then None else Some (map (map (batch_hit e)) raw))"

text \<open>One query over the shards, in turn; too few candidates are padded.\<close>

definition batch_row ::
  "gpu_lib \<Rightarrow> CuvsCmdFrame \<Rightarrow> bool \<Rightarrow> nat \<Rightarrow> IndexEntry \<Rightarrow> vec \<Rightarrow> CuvsResult list option" where
  "batch_row gl cmd use_bf kk e query =
    (let rs = map (\<lambda>a. (a, run_shard gl cmd use_bf query a)) (map (shard_arg_of (effective_k cmd)) (shard_list e)) in
     if list_ex (\<lambda>r. fst (snd r) \<noteq> 0) rs then None
     else let cand = take kk (qsort (delta_cand_cmp (e_metric e)) (concat (map (shard_candidates e) rs)))
       in Some (cand @ replicate (kk - length cand) \<lparr>r_tid = 0, r_distance = FLT_MAX\<rparr>))"

definition batch_results ::
  "gpu_lib \<Rightarrow> batch_lib \<Rightarrow> search_env \<Rightarrow> CuvsCmdFrame \<Rightarrow> bool \<Rightarrow> nat \<Rightarrow> vec list \<Rightarrow> IndexEntry \<Rightarrow> CuvsResult list list option" where
  "batch_results gl bl en cmd use_bf kk queries e =
    (if \<not> is_sharded e
     then (if en_alloc en ''raw'' then batch_unsharded bl cmd use_bf kk queries e else None)
     else (if en_alloc en ''sraw'' \<and> en_alloc en ''cand'' then those (map (batch_row gl cmd use_bf kk e) queries) else None))"

section \<open>The handler\<close>

definition batch_object :: "nat \<Rightarrow> nat \<Rightarrow> CuvsResult list list \<Rightarrow> bytes" where
  "batch_object q kk rows = le_bytes 4 (of_nat q :: u32) @ le_bytes 4 (of_nat kk :: u32)
     @ concat (map (le_bytes 8) (map r_tid (concat rows))) @ concat (map (le_bytes 4) (map r_distance (concat rows)))"

type_synonym object_reply = "CuvsReplyHeader \<times> shm_object option"

definition plain :: "reply \<Rightarrow> object_reply" where "plain r = (fst r, None)"

text \<open>The resident copies an exact search needs.\<close>

definition batch_caches :: "outside \<Rightarrow> gpu_lib \<Rightarrow> CuvsCmdFrame \<Rightarrow> bool \<Rightarrow> nat \<Rightarrow> daemon \<Rightarrow> bool \<times> daemon" where
  "batch_caches out gl cmd use_bf i st =
    (if \<not> use_bf then (True, st)
     else if is_sharded (entry_at i st) then refresh_shard_bf_caches out gl (cf_bf_precision cmd) i st
     else let st1 = refresh_main_bf_cache out gl (cf_bf_precision cmd) i st in (e_main_bf_idx (entry_at i st1) \<noteq> None, st1))"

text \<open>The index is in slot \<open>i\<close>, its guards passed and the queries mapped.\<close>

definition batch_serve ::
  "outside \<Rightarrow> gpu_lib \<Rightarrow> batch_lib \<Rightarrow> search_env \<Rightarrow> reply_env \<Rightarrow> CuvsCmdFrame \<Rightarrow> nat \<Rightarrow> vec list \<Rightarrow> nat \<Rightarrow> daemon
    \<Rightarrow> object_reply \<times> daemon" where
  "batch_serve out gl bl en re cmd kk queries i st =
    (let use_bf = (cf_search_mode cmd = 1 \<or> e_is_flat (entry_at i st)); (ready, st1) = batch_caches out gl cmd use_bf i st
     in if \<not> ready then map_prod plain id (refuse CUVS_STATUS_NO_VECTORS no_vectors_msg i st1)
        else if \<not> en_alloc en ''out'' then (plain (send_error ''malloc failed''), st1)
        else case batch_results gl bl en cmd use_bf kk queries (entry_at i st1) of
          None \<Rightarrow> map_prod plain id (refuse CUVS_STATUS_OOM_FALLBACK ''batch search failed on the GPU; retry on CPU'' i st1)
        | Some rows \<Rightarrow>
           (let st2 = update_entry i (\<lambda>e. (record_search_stat (d_now st) CUVS_STATUS_OK (en_latency_us en) None e)
                  \<lparr>e_last_requested_k := cf_k cmd, e_last_returned_k := of_nat kk, e_last_search_mode := (if use_bf then 3 else 0)\<rparr>) st1
            in case fst (hand_over re ''batch reply'' (batch_object (length queries) kk rows) (en_shm en)) of
                 Inl msg \<Rightarrow> (plain (send_error msg), st2)
               | Inr (key, ob) \<Rightarrow>
                   ((\<lparr>rh_status = CUVS_STATUS_OK, rh_n_results = of_nat (length queries), rh_latency_us = en_latency_us en,
                      rh_delta_merged = of_nat kk, rh_error = take 127 (map (\<lambda>b. char_of (unat b)) key)\<rparr>, Some ob), st2)))"

definition batch_found ::
  "outside \<Rightarrow> gpu_lib \<Rightarrow> batch_lib \<Rightarrow> search_env \<Rightarrow> reply_env \<Rightarrow> CuvsCmdFrame \<Rightarrow> nat \<Rightarrow> daemon \<Rightarrow> object_reply \<times> daemon" where
  "batch_found out gl bl en re cmd i st0 =
    (let st = update_entry i (\<lambda>e. e\<lparr>e_last_search := d_now st0\<rparr>) st0; e = entry_at i st;
         q = unat (ucast (cf_n_vecs cmd) :: u32); kk = min (sint (cf_k cmd)) (e_n_vecs e)
     in if e_stale e then map_prod plain id (refuse CUVS_STATUS_STALE ''index stale (writes since build)'' i st)
        else if cf_metric cmd \<noteq> e_metric e
        then map_prod plain id (refuse CUVS_STATUS_METRIC_MISMATCH (metric_msg (e_metric e) (cf_metric cmd)) i st)
        else if cf_dim cmd \<noteq> e_dim e
        then map_prod plain id (refuse CUVS_STATUS_DIM_MISMATCH (dim_msg (cf_dim cmd) (e_dim e)) i st)
        else if q = 0 \<or> kk \<le> 0 then (plain (send_error_code CUVS_STATUS_ERROR ''empty batch or empty index''), st)
        else case map_queries (en_can_map en) (en_shm en) (en_peer_uid en) (cf_shm_key cmd) q (unat (cf_dim cmd)) of
          Inl msg \<Rightarrow> (plain (send_error msg), st)
        | Inr queries \<Rightarrow> batch_serve out gl bl en re cmd (nat kk) queries i st)"

definition handle_search_batch ::
  "outside \<Rightarrow> gpu_lib \<Rightarrow> batch_lib \<Rightarrow> search_env \<Rightarrow> reply_env \<Rightarrow> CuvsCmdFrame \<Rightarrow> daemon \<Rightarrow> object_reply \<times> daemon" where
  "handle_search_batch out gl bl en re cmd st =
    (case batch_lookup out cmd st of
       (Inl status, st1) \<Rightarrow> (plain (status_reply status), st1)
     | (Inr i, st1) \<Rightarrow> batch_found out gl bl en re cmd i st1)"

end
