(* ===== verification/Batch_Search_Props.thy ===== *)
theory Batch_Search_Props
  imports Search_Batch
begin

text \<open>
  What a batch of queries gets: the daemon reads the queries the client wrote, and every query has its
  exact answer where the library's are exact.
\<close>

section \<open>The rows of a batch\<close>

text \<open>What the batch kernels document: one row of \<open>k\<close> slots per query.\<close>

definition batch_honours :: "batch_lib \<Rightarrow> bool" where
  "batch_honours bl \<longleftrightarrow>
     (\<forall>h qs k dev raw. bl_bf_batch bl h qs k dev = (0, raw) \<longrightarrow> length raw = length qs \<and> (\<forall>row \<in> set raw. length row = k)) \<and>
     (\<forall>h qs k dev it sw raw. bl_cagra_batch bl h qs k dev it sw = (0, raw) \<longrightarrow> length raw = length qs \<and> (\<forall>row \<in> set raw. length row = k))"

lemma length_those: "those xs = Some ys \<Longrightarrow> length ys = length xs \<and> (\<forall>i < length xs. xs ! i = Some (ys ! i))"
  by (induction xs arbitrary: ys) (auto split: option.splits simp: nth_Cons split: nat.splits)

lemma batch_row_length: "batch_row gl cmd use_bf kk e query = Some row \<Longrightarrow> length row = kk"
  by (auto simp: batch_row_def Let_def min_def split: if_splits)

lemma batch_results_shape:
  assumes "batch_honours bl" "batch_results gl bl en cmd use_bf kk queries e = Some rows"
  shows "length rows = length queries \<and> (\<forall>row \<in> set rows. length row = kk)"
proof (cases "is_sharded e")
  case True
  then have "those (map (batch_row gl cmd use_bf kk e) queries) = Some rows"
    using assms(2) by (auto simp: batch_results_def split: if_splits)
  from length_those [OF this] have "length rows = length queries" "\<forall>i < length queries. batch_row gl cmd use_bf kk e (queries ! i) = Some (rows ! i)" by auto
  then show ?thesis by (metis batch_row_length in_set_conv_nth)
next
  case False
  then show ?thesis
    using assms by (auto simp: batch_results_def batch_unsharded_def batch_honours_def split: if_splits prod.splits)
qed

section \<open>The request\<close>

lemma c_str_key_field: "length (c_str key) < 64 \<Longrightarrow> c_str (key_field key) = c_str key"
proof -
  assume "length (c_str key) < 64"
  moreover have "\<forall>b \<in> set (c_str key). b \<noteq> 0" unfolding c_str_def by (auto dest: set_takeWhileD)
  ultimately show ?thesis
    by (simp add: key_field_def Let_def c_str_def [of "_ @ _"] takeWhile_append2)
qed

lemma length_key_field [simp]: "length (key_field key) = 64"
  by (simp add: key_field_def Let_def)

lemma map_queries_written:
  assumes "s (c_str key) = Some \<lparr>so_owner = uid, so_bytes = le_bytes 4 (n :: u32) @ le_bytes 4 (d :: u32) @ float_bytes (concat queries)\<rparr>"
    and "can_map (c_str key)" "\<forall>q \<in> set queries. length q = dim"
  shows "map_queries can_map s uid key (length queries) dim = Inr queries"
proof -
  let ?rows = "map (\<lambda>q. float_bytes q) queries"
  have len: "length (float_bytes q) = 4 * dim" if "q \<in> set queries" for q
    using that assms(3) u32_codec.length_concat_enc [of q] by (simp add: float_bytes_def)
  have fc: "float_bytes (concat queries) = concat ?rows" by (induction queries) (simp_all add: float_bytes_def)
  have cl: "length (concat ?rows) = length queries * (4 * dim)" using len by (simp add: concat_map_const_length)
  have ch: "chunks (4 * dim) (length queries) (concat ?rows) = ?rows"
    using len by (induction queries) auto
  have "map (\<lambda>row. map le_word (chunks 4 dim row)) ?rows = queries"
  proof -
    have "map le_word (chunks 4 dim (float_bytes q)) = q" if "q \<in> set queries" for q
      using u32_codec.chunks_concat_enc [of q] that assms(3) by (auto simp: float_bytes_def)
    then show ?thesis by (simp add: map_idI)
  qed
  then show ?thesis using assms(1,2) ch by (simp add: map_queries_def fc cl Let_def)
qed

section \<open>Exact answers\<close>

text \<open>
  The library answers each query with its exact nearest rows: in one dispatch, or shard by shard
  where the shards partition the index.
\<close>

definition exact_batch_lib ::
  "gpu_lib \<Rightarrow> batch_lib \<Rightarrow> CuvsCmdFrame \<Rightarrow> bool \<Rightarrow> nat \<Rightarrow> vec list \<Rightarrow> IndexEntry \<Rightarrow> (vec \<Rightarrow> nat \<Rightarrow> u32) \<Rightarrow> bool" where
  "exact_batch_lib gl bl cmd use_bf kk queries e dist \<longleftrightarrow>
    (if is_sharded e
     then \<forall>q \<in> set queries.
       let rs = map (\<lambda>a. (a, run_shard gl cmd use_bf q a)) (map (shard_arg_of (effective_k cmd)) (shard_list e))
       in concat (map (\<lambda>r. shard_rows (fst r)) rs) = [0..<length (entry_tids e)] \<and> (\<forall>r \<in> set rs. exact_shard (e_metric e) (dist q) kk r)
     else \<exists>raw. (if use_bf then bl_bf_batch bl (e_main_bf_idx e) queries kk (delta_gpu_of e)
         else bl_cagra_batch bl (e_handle e) queries kk (e_gpu_device_id e) (cf_itopk_size cmd) (cf_search_width cmd)) = (0, raw) \<and>
       length raw = length queries \<and>
       (\<forall>i < length queries. exact_hits (e_metric e) (dist (queries ! i)) (length (entry_tids e)) kk (raw ! i)))"

lemma nearest_rows_length: "nearest_rows e d kk row \<Longrightarrow> kk \<le> length (entry_tids e) \<Longrightarrow> length row = kk"
  by (auto simp: nearest_rows_def dest!: arg_cong [where f = length])

lemma batch_row_nearest:
  assumes "e_n_vecs e = int (length (entry_tids e))" "kk \<le> length (entry_tids e)" "\<forall>j. \<not> f32_nan (d j)"
    and "rs = map (\<lambda>a. (a, run_shard gl cmd use_bf q a)) (map (shard_arg_of (effective_k cmd)) (shard_list e))"
    and "concat (map (\<lambda>r. shard_rows (fst r)) rs) = [0..<length (entry_tids e)]" "\<forall>r \<in> set rs. exact_shard (e_metric e) d kk r"
  shows "\<exists>row. batch_row gl cmd use_bf kk e q = Some row \<and> nearest_rows e d kk row"
proof -
  let ?cand = "take kk (qsort (delta_cand_cmp (e_metric e)) (concat (map (shard_candidates e) rs)))"
  note m = merged_candidates_exact [OF assms(1,5,6,3)]
  have "set ?cand \<subseteq> set (concat (map (shard_candidates e) rs))" by (rule set_take_qsort)
  then have n: "nearest_rows e d kk ?cand" using m unfolding nearest_rows_def by blast
  have "\<not> list_ex (\<lambda>r. fst (snd r) \<noteq> 0) rs" using assms(6) by (auto simp: list_ex_iff exact_shard_def Let_def)
  then have "batch_row gl cmd use_bf kk e q = Some ?cand"
    using nearest_rows_length [OF n assms(2)] unfolding batch_row_def assms(4) [symmetric] Let_def by simp
  then show ?thesis using n by blast
qed

lemma batch_hits_nearest:
  assumes "e_n_vecs e = int (length (entry_tids e))" "exact_hits (e_metric e) d (length (entry_tids e)) kk hits"
  shows "nearest_rows e d kk (map (batch_hit e) hits)"
proof -
  obtain ids where ids: "hits = map (\<lambda>i. (int i, d i)) ids" "set ids \<subseteq> {..<length (entry_tids e)}"
    "map (\<lambda>i. dist_key (e_metric e) (d i)) ids = take kk (sort (map (\<lambda>i. dist_key (e_metric e) (d i)) [0..<length (entry_tids e)]))"
    using assms(2) by (auto simp: exact_hits_def)
  have "map (batch_hit e) hits = map (\<lambda>i. \<lparr>r_tid = entry_tids e ! i, r_distance = d i\<rparr>) ids"
    using ids(1,2) assms(1) by (auto simp: batch_hit_def in_range_def)
  then show ?thesis using ids(2,3) by (auto simp: nearest_rows_def near_key_dist comp_def)
qed

lemma those_Some: "\<forall>i < length xs. xs ! i = Some (ys ! i) \<Longrightarrow> length ys = length xs \<Longrightarrow> those xs = Some ys"
proof (induction xs arbitrary: ys)
  case (Cons x xs)
  then obtain y zs where "ys = y # zs" by (cases ys) auto
  then show ?case using Cons.IH [of zs] Cons.prems by force
qed simp

text \<open>
  A batch is answered like its queries one by one: where the library is exact, every query of a
  batch gets its own \<open>K\<close> nearest rows of the index, nearest first, sharded or not.
\<close>

theorem batch_search_exact:
  assumes "exact_batch_lib gl bl cmd use_bf kk queries e dist" "e_n_vecs e = int (length (entry_tids e))"
    and "kk \<le> length (entry_tids e)" "\<forall>q j. \<not> f32_nan (dist q j)" "\<forall>s. en_alloc en s"
  shows "\<exists>rows. batch_results gl bl en cmd use_bf kk queries e = Some rows \<and> length rows = length queries \<and>
    (\<forall>i < length queries. nearest_rows e (dist (queries ! i)) kk (rows ! i))"
proof (cases "is_sharded e")
  case True
  have "\<exists>row. batch_row gl cmd use_bf kk e (queries ! i) = Some row \<and> nearest_rows e (dist (queries ! i)) kk row"
    if "i < length queries" for i
    using assms(1,4) True that nth_mem [OF that]
    by (intro batch_row_nearest [OF assms(2,3) _ refl]) (auto simp: exact_batch_lib_def Let_def)
  then obtain f where f: "\<And>i. i < length queries \<Longrightarrow>
      batch_row gl cmd use_bf kk e (queries ! i) = Some (f i) \<and> nearest_rows e (dist (queries ! i)) kk (f i)" by metis
  let ?rows = "map f [0..<length queries]"
  have "those (map (batch_row gl cmd use_bf kk e) queries) = Some ?rows"
    by (rule those_Some) (use f in simp_all)
  then show ?thesis using True f assms(5) by (intro exI [of _ ?rows]) (simp add: batch_results_def)
next
  case False
  then obtain raw where raw: "(if use_bf then bl_bf_batch bl (e_main_bf_idx e) queries kk (delta_gpu_of e)
      else bl_cagra_batch bl (e_handle e) queries kk (e_gpu_device_id e) (cf_itopk_size cmd) (cf_search_width cmd)) = (0, raw)"
    "length raw = length queries" "\<forall>i < length queries. exact_hits (e_metric e) (dist (queries ! i)) (length (entry_tids e)) kk (raw ! i)"
    using assms(1) by (auto simp: exact_batch_lib_def)
  then show ?thesis
    using False assms(5) batch_hits_nearest [OF assms(2)]
    by (intro exI [of _ "map (map (batch_hit e)) raw"]) (simp add: batch_results_def batch_unsharded_def)
qed

section \<open>Witness\<close>

text \<open>Two queries at once, answered from the exact copy of \<open>bf_run\<close>.\<close>

theorem batch_search_exact_witness:
  "\<exists>rows. batch_results honest_lib mirror_lib sample_env filter_frame True 2 [[0], [1]] (entry_at 0 bf_run) = Some rows \<and>
    map (near_key 0) (rows ! 1) = [4, 6]"
proof -
  let ?e = "entry_at 0 bf_run"
  have e: "e_n_vecs ?e = int (length (entry_tids ?e))" "length (entry_tids ?e) = 3" "2 \<le> length (entry_tids ?e)" "\<not> is_sharded ?e"
    by (simp_all add: bf_run_fields) (simp add: bf_run_def search_run_def zero_entry_def is_sharded_def)
  have "exact_rows ?e mirror_dist 2 [[0], [1]] (bl_bf_batch mirror_lib (e_main_bf_idx ?e) [[0], [1]] 2 (delta_gpu_of ?e))"
    by (rule mirror_exact [OF e(2) bf_run_fields(3)])
  then have x: "exact_batch_lib honest_lib mirror_lib filter_frame True 2 [[0], [1]] ?e mirror_dist"
    using e(4) by (cases "bl_bf_batch mirror_lib (e_main_bf_idx ?e) [[0], [1]] 2 (delta_gpu_of ?e)")
      (auto simp: exact_batch_lib_def exact_rows_def)
  have n: "\<forall>q j. \<not> f32_nan (mirror_dist q j)" by (simp add: mirror_dist_def row_dist_def f32_nan_def f32_mag_def)
  have a: "\<forall>s. en_alloc sample_env s" by (simp add: sample_env_def)
  obtain rows where r: "batch_results honest_lib mirror_lib sample_env filter_frame True 2 [[0], [1]] ?e = Some rows"
    "nearest_rows ?e (mirror_dist [1]) 2 (rows ! 1)"
    using batch_search_exact [OF x e(1,3) n a] by (metis One_nat_def length_Cons lessI list.size(3) nth_Cons_0 nth_Cons_Suc)
  have d: "map (\<lambda>j. dist_key 0 (mirror_dist [1] j)) [0..<3] = [6, 4, 9]"
    by (simp add: mirror_dist_def row_dist_def upt_rec dist_key_def CUVS_METRIC_IP_def f32_key_def f32_mag_def)
  have "map (near_key 0) (rows ! 1) = take 2 (sort [6, 4, 9])"
    using r(2) unfolding nearest_rows_def e(2) bf_run_fields(3) d by blast
  then show ?thesis using r(1) by simp
qed

end
