(* ===== verification/Ipc_Calls.thy ===== *)
theory Ipc_Calls
  imports Ipc_Client
begin

text \<open>
  The other calls of \<open>src/cuvs_ipc.c\<close>: batches of queries, builds and extensions with their
  corpus, administration and statistics; and the tiers of a corpus
  (\<open>src/cuvs_build_corpus.c\<close>).
\<close>

section \<open>Calls that bring back a status\<close>

definition status_call :: "ipc_env \<Rightarrow> peer \<Rightarrow> CuvsCmdFrame \<Rightarrow> shm \<Rightarrow> u32 option" where
  "status_call env peer cmd s =
    (if \<not> connects env then Some CUVS_STATUS_UNAVAILABLE
     else case send_cmd env cmd of
       None \<Rightarrow> None
     | Some (rc, req, _) \<Rightarrow>
         if rc < 0 then Some CUVS_STATUS_ERROR
         else case recv_all 144 (peer s req None) (ie_recv env) of
           None \<Rightarrow> None
         | Some (r, hb, _) \<Rightarrow> Some (if r < 0 then CUVS_STATUS_ERROR else rh_status (reply_header_of hb)))"

definition index_frame :: "u32 \<Rightarrow> u32 \<Rightarrow> u32 \<Rightarrow> CuvsCmdFrame" where
  "index_frame op db_oid index_oid = zero_frame\<lparr>cf_op := op, cf_db_oid := db_oid, cf_index_oid := index_oid\<rparr>"

definition cuvs_ipc_mark_stale :: "ipc_env \<Rightarrow> peer \<Rightarrow> u32 \<Rightarrow> u32 \<Rightarrow> shm \<Rightarrow> u32 option" where
  "cuvs_ipc_mark_stale env peer db_oid index_oid s = status_call env peer (index_frame 4 db_oid index_oid) s"

definition cuvs_ipc_drop :: "ipc_env \<Rightarrow> peer \<Rightarrow> u32 \<Rightarrow> u32 \<Rightarrow> shm \<Rightarrow> u32 option" where
  "cuvs_ipc_drop env peer db_oid index_oid s = status_call env peer (index_frame 7 db_oid index_oid) s"

definition cuvs_ipc_set_vram_budget :: "ipc_env \<Rightarrow> peer \<Rightarrow> u64 \<Rightarrow> shm \<Rightarrow> u32 option" where
  "cuvs_ipc_set_vram_budget env peer budget_bytes s =
    status_call env peer (zero_frame\<lparr>cf_op := 15, cf_n_vecs := budget_bytes\<rparr>) s"

definition cuvs_ipc_eat_vram :: "ipc_env \<Rightarrow> peer \<Rightarrow> u64 \<Rightarrow> u32 \<Rightarrow> shm \<Rightarrow> u32 option" where
  "cuvs_ipc_eat_vram env peer leave_bytes device_id s =
    status_call env peer (zero_frame\<lparr>cf_op := 16, cf_n_vecs := leave_bytes, cf_dim := device_id\<rparr>) s"

definition cuvs_ipc_free_vram :: "ipc_env \<Rightarrow> peer \<Rightarrow> u32 \<Rightarrow> shm \<Rightarrow> u32 option" where
  "cuvs_ipc_free_vram env peer device_id s = status_call env peer (zero_frame\<lparr>cf_op := 17, cf_dim := device_id\<rparr>) s"

definition cuvs_ipc_inject_extend_oom :: "ipc_env \<Rightarrow> peer \<Rightarrow> int \<Rightarrow> shm \<Rightarrow> u32 option" where
  "cuvs_ipc_inject_extend_oom env peer enable s =
    status_call env peer (zero_frame\<lparr>cf_op := 18, cf_dim := of_bool (enable \<noteq> 0)\<rparr>) s"

definition cuvs_ipc_inject_build_oom :: "ipc_env \<Rightarrow> peer \<Rightarrow> int \<Rightarrow> shm \<Rightarrow> u32 option" where
  "cuvs_ipc_inject_build_oom env peer n_fail s =
    status_call env peer (zero_frame\<lparr>cf_op := 20, cf_dim := of_int (max 0 n_fail)\<rparr>) s"

section \<open>Calls that bring back rows\<close>

text \<open>The rows are kept as their bytes: 368, 80 and 64 for the three kinds of statistics.\<close>

record stats_out =
  so_rc :: u32
  so_rows :: "bytes list"

definition stats_header :: "ipc_env \<Rightarrow> peer \<Rightarrow> CuvsCmdFrame \<Rightarrow> shm \<Rightarrow> (u32 + CuvsReplyHeader \<times> bytes \<times> io list) option" where
  "stats_header env peer cmd s =
    (if \<not> connects env then Some (Inl CUVS_STATUS_UNAVAILABLE)
     else case send_cmd env cmd of
       None \<Rightarrow> None
     | Some (rc, req, _) \<Rightarrow>
         if rc < 0 then Some (Inl CUVS_STATUS_ERROR)
         else case recv_all 144 (peer s req None) (ie_recv env) of
           None \<Rightarrow> None
         | Some (r, hb, rest, ios) \<Rightarrow>
             Some (if r < 0 then Inl CUVS_STATUS_ERROR else Inr (reply_header_of hb, rest, ios)))"

text \<open>All rows into one buffer, of which the caller's \<open>max\<close> are copied.\<close>

definition cuvs_ipc_stats :: "ipc_env \<Rightarrow> peer \<Rightarrow> u32 \<Rightarrow> u32 \<Rightarrow> nat \<Rightarrow> shm \<Rightarrow> stats_out option" where
  "cuvs_ipc_stats env peer db_oid index_oid max_rows s =
    (case stats_header env peer (index_frame 3 db_oid index_oid) s of
       None \<Rightarrow> None
     | Some (Inl rc) \<Rightarrow> Some \<lparr>so_rc = rc, so_rows = []\<rparr>
     | Some (Inr (hdr, rest, ios)) \<Rightarrow>
         if rh_status hdr \<noteq> CUVS_STATUS_OK \<or> rh_n_results hdr = 0 then Some \<lparr>so_rc = rh_status hdr, so_rows = []\<rparr>
         else if sint (rh_n_results hdr) < 0 \<or> \<not> ie_alloc env then Some \<lparr>so_rc = CUVS_STATUS_ERROR, so_rows = []\<rparr>
         else let n = unat (rh_n_results hdr) in
           case recv_all (n * 368) rest ios of
             None \<Rightarrow> None
           | Some (r, bs, _) \<Rightarrow>
               Some (if r < 0 then \<lparr>so_rc = CUVS_STATUS_ERROR, so_rows = []\<rparr>
                 else \<lparr>so_rc = CUVS_STATUS_OK, so_rows = take max_rows (chunks 368 n bs)\<rparr>))"

text \<open>One row after the other.\<close>

fun recv_rows :: "nat \<Rightarrow> nat \<Rightarrow> bytes \<Rightarrow> io list \<Rightarrow> (bytes list option) option" where
  "recv_rows w 0 inp ios = Some (Some [])"
| "recv_rows w (Suc n) inp ios =
    (case recv_all w inp ios of
       None \<Rightarrow> None
     | Some (r, bs, rest, ios') \<Rightarrow>
         if r < 0 then Some None
         else map_option (map_option (\<lambda>rows. bs # rows)) (recv_rows w n rest ios'))"

definition cuvs_ipc_shard_stats :: "ipc_env \<Rightarrow> peer \<Rightarrow> u32 \<Rightarrow> u32 \<Rightarrow> nat \<Rightarrow> shm \<Rightarrow> stats_out option" where
  "cuvs_ipc_shard_stats env peer db_oid index_oid max_rows s =
    (case stats_header env peer (index_frame 6 db_oid index_oid) s of
       None \<Rightarrow> None
     | Some (Inl rc) \<Rightarrow> Some \<lparr>so_rc = rc, so_rows = []\<rparr>
     | Some (Inr (hdr, rest, ios)) \<Rightarrow>
         if rh_status hdr \<noteq> CUVS_STATUS_OK \<or> rh_n_results hdr = 0 then Some \<lparr>so_rc = rh_status hdr, so_rows = []\<rparr>
         else case recv_rows 64 (nat (sint (rh_n_results hdr))) rest ios of
           None \<Rightarrow> None
         | Some None \<Rightarrow> Some \<lparr>so_rc = CUVS_STATUS_ERROR, so_rows = []\<rparr>
         | Some (Some rows) \<Rightarrow> Some \<lparr>so_rc = CUVS_STATUS_OK, so_rows = take max_rows rows\<rparr>)"

text \<open>Into the caller's array, then the rows behind it are read away whatever becomes of them.\<close>

fun drain_rows :: "nat \<Rightarrow> nat \<Rightarrow> bytes \<Rightarrow> io list \<Rightarrow> unit option" where
  "drain_rows w 0 inp ios = Some ()"
| "drain_rows w (Suc n) inp ios =
    (case recv_all w inp ios of None \<Rightarrow> None | Some (r, bs, rest, ios') \<Rightarrow> drain_rows w n rest ios')"

definition cuvs_ipc_cache_stats :: "ipc_env \<Rightarrow> peer \<Rightarrow> nat \<Rightarrow> shm \<Rightarrow> stats_out option" where
  "cuvs_ipc_cache_stats env peer max_rows s =
    (case stats_header env peer (zero_frame\<lparr>cf_op := 5\<rparr>) s of
       None \<Rightarrow> None
     | Some (Inl rc) \<Rightarrow> Some \<lparr>so_rc = rc, so_rows = []\<rparr>
     | Some (Inr (hdr, rest, ios)) \<Rightarrow>
         if rh_status hdr \<noteq> CUVS_STATUS_OK \<or> rh_n_results hdr = 0 then Some \<lparr>so_rc = rh_status hdr, so_rows = []\<rparr>
         else let nres = nat (sint (rh_n_results hdr)); n = min nres max_rows in
           case recv_all (n * 80) rest ios of
             None \<Rightarrow> None
           | Some (r, bs, rest', ios') \<Rightarrow>
              (case drain_rows 80 (nres - n) rest' ios' of
                 None \<Rightarrow> None
               | Some _ \<Rightarrow> Some (if r < 0 then \<lparr>so_rc = CUVS_STATUS_ERROR, so_rows = []\<rparr>
                   else \<lparr>so_rc = rh_status hdr, so_rows = chunks 80 n bs\<rparr>)))"

section \<open>Tiers of a corpus\<close>

datatype CorpusKind = CORPUS_NONE | CORPUS_MEMFD | CORPUS_SHM | CORPUS_HEAP

record CuvsBuildCorpus =
  co_kind :: CorpusKind
  co_fd :: bool
  co_name :: bytes
  co_base :: "bytes option"

text \<open>
  The state of the process and what its system answers: whether \<open>memfd_create\<close> was tried and
  works, the tier a test forces, the outcomes of the system calls, and the shared memory.
\<close>

datatype sys_result = Sys_ok | Sys_unsupported | Sys_failed

record corpus_env =
  cv_memfd :: sys_result
  cv_memfd_map :: bool
  cv_name :: "bytes option"
  cv_shm_open :: bool
  cv_shm_map :: bool
  cv_uid :: u32

record corpus_state =
  g_memfd_probed :: bool
  g_memfd_ok :: bool
  g_forced :: CorpusKind
  cp_shm :: shm

definition no_corpus :: CuvsBuildCorpus where
  "no_corpus = \<lparr>co_kind = CORPUS_NONE, co_fd = False, co_name = [], co_base = None\<rparr>"

definition open_memfd :: "corpus_env \<Rightarrow> nat \<Rightarrow> CuvsBuildCorpus \<Rightarrow> sys_result \<times> CuvsBuildCorpus" where
  "open_memfd cv n c =
    (if cv_memfd cv \<noteq> Sys_ok then (cv_memfd cv, c)
     else if \<not> cv_memfd_map cv then (Sys_failed, c)
     else (Sys_ok, c\<lparr>co_kind := CORPUS_MEMFD, co_fd := True, co_base := Some (replicate n 0)\<rparr>))"

definition open_shm :: "corpus_env \<Rightarrow> nat \<Rightarrow> CuvsBuildCorpus \<Rightarrow> corpus_state \<Rightarrow> bool \<times> CuvsBuildCorpus \<times> corpus_state" where
  "open_shm cv n c cs =
    (case cv_name cv of
       None \<Rightarrow> (False, c, cs)
     | Some name \<Rightarrow>
        if cp_shm cs (c_str name) \<noteq> None \<or> \<not> cv_shm_open cv then (False, c, cs)
        else if \<not> cv_shm_map cv then (False, c, cs\<lparr>cp_shm := shm_unlink name (cp_shm cs)\<rparr>)
        else (True, c\<lparr>co_kind := CORPUS_SHM, co_fd := True, co_base := Some (replicate n 0), co_name := take 63 name\<rparr>,
              cs\<lparr>cp_shm := (cp_shm cs)(c_str name \<mapsto> \<lparr>so_owner = cv_uid cv, so_bytes = replicate n 0\<rparr>)\<rparr>))"

definition cuvs_corpus_open :: "corpus_env \<Rightarrow> nat \<Rightarrow> corpus_state \<Rightarrow> int \<times> CuvsBuildCorpus \<times> corpus_state" where
  "cuvs_corpus_open cv n cs =
    (case g_forced cs of
       CORPUS_MEMFD \<Rightarrow> (case open_memfd cv n no_corpus of (r, c) \<Rightarrow> (if r = Sys_ok then 0 else -1, c, cs))
     | CORPUS_SHM \<Rightarrow> (case open_shm cv n no_corpus cs of (ok, c, cs1) \<Rightarrow> (if ok then 0 else -1, c, cs1))
     | CORPUS_HEAP \<Rightarrow> (0, no_corpus\<lparr>co_kind := CORPUS_HEAP\<rparr>, cs)
     | CORPUS_NONE \<Rightarrow>
        (let try = \<not> g_memfd_probed cs \<or> g_memfd_ok cs; (r, c) = open_memfd cv n no_corpus in
         if try \<and> r = Sys_ok then (0, c, cs\<lparr>g_memfd_probed := True, g_memfd_ok := True\<rparr>)
         else let cs1 = (if try \<and> r = Sys_unsupported then cs\<lparr>g_memfd_probed := True, g_memfd_ok := False\<rparr> else cs);
                  (ok, c2, cs2) = open_shm cv n no_corpus cs1
           in if ok then (0, c2, cs2)
              else (0, no_corpus\<lparr>co_kind := CORPUS_HEAP\<rparr>, cs2)))"

text \<open>
  Resizing unmaps, sizes and maps again; a failure leaves the corpus without its mapping. Growing
  adds zeros, as the system does. \<open>contents\<close> is what the object behind the descriptor holds
  when an earlier failure has left it unmapped.
\<close>

definition resized :: "nat \<Rightarrow> bytes \<Rightarrow> bytes" where
  "resized n bs = take n bs @ replicate (n - length bs) 0"

definition cuvs_corpus_resize ::
  "bool \<Rightarrow> bool \<Rightarrow> bytes \<Rightarrow> nat \<Rightarrow> CuvsBuildCorpus \<Rightarrow> int \<times> CuvsBuildCorpus" where
  "cuvs_corpus_resize sized mappable contents n c =
    (if co_kind c = CORPUS_HEAP \<or> co_kind c = CORPUS_NONE then (0, c)
     else if \<not> co_fd c then (-1, c)
     else if n = (case co_base c of None \<Rightarrow> 0 | Some bs \<Rightarrow> length bs) then (0, c)
     else if \<not> sized \<or> \<not> mappable then (-1, c\<lparr>co_base := None\<rparr>)
     else (0, c\<lparr>co_base := Some (resized n (case co_base c of None \<Rightarrow> contents | Some bs \<Rightarrow> bs))\<rparr>))"

text \<open>Closing; the object of a named tier goes with it.\<close>

definition cuvs_corpus_close :: "CuvsBuildCorpus \<Rightarrow> corpus_state \<Rightarrow> CuvsBuildCorpus \<times> corpus_state" where
  "cuvs_corpus_close c cs =
    (no_corpus,
     if co_kind c = CORPUS_SHM \<and> co_name c \<noteq> [] then cs\<lparr>cp_shm := shm_unlink (co_name c) (cp_shm cs)\<rparr> else cs)"

text \<open>Handing the name to another process leaves the object.\<close>

definition cuvs_corpus_detach :: "CuvsBuildCorpus \<Rightarrow> nat \<Rightarrow> corpus_state \<Rightarrow> bytes \<times> CuvsBuildCorpus \<times> corpus_state" where
  "cuvs_corpus_detach c name_len cs =
    (if co_kind c = CORPUS_SHM \<and> co_name c \<noteq> [] \<and> 0 < name_len then (take (name_len - 1) (co_name c), no_corpus, cs)
     else let (c', cs') = cuvs_corpus_close c cs in ([], c', cs'))"

text \<open>
  The reaper: the objects of the prefix that are old enough and whose lock nobody holds. An object
  is given with its age and whether its owner still holds the lock.
\<close>

record dev_shm_entry =
  de_name :: bytes
  de_age :: "int option"
  de_openable :: bool
  de_locked :: bool

definition BLD_PREFIX :: bytes where "BLD_PREFIX = c_bytes ''pg_cuvs_bld_''"

definition orphaned :: "int \<Rightarrow> dev_shm_entry \<Rightarrow> bool" where
  "orphaned min_age d \<longleftrightarrow>
    take (length BLD_PREFIX) (de_name d) = BLD_PREFIX \<and>
    (case de_age d of Some a \<Rightarrow> \<not> a < min_age | None \<Rightarrow> True) \<and> de_openable d \<and> \<not> de_locked d"

definition cuvs_corpus_reap_orphans :: "bool \<Rightarrow> int \<Rightarrow> dev_shm_entry list \<Rightarrow> nat \<times> dev_shm_entry list" where
  "cuvs_corpus_reap_orphans do_unlink min_age ds =
    (length (filter (orphaned min_age) ds), if do_unlink then filter (\<lambda>d. \<not> orphaned min_age d) ds else ds)"

section \<open>Builds\<close>

definition dir_field :: "bytes \<Rightarrow> bytes" where
  "dir_field dir = (let d = take 255 (c_str dir) in d @ replicate (256 - length d) 0)"

text \<open>
  The frame, the 256 bytes of the directory with the descriptor, further bytes, then the status.
\<close>

definition dir_call ::
  "ipc_env \<Rightarrow> peer \<Rightarrow> CuvsCmdFrame \<Rightarrow> bytes \<Rightarrow> bytes option \<Rightarrow> bytes \<Rightarrow> shm \<Rightarrow> u32 option" where
  "dir_call env peer cmd dir fd extra s =
    (case send_cmd env cmd of
       None \<Rightarrow> None
     | Some (rc, req, ios) \<Rightarrow>
         if rc < 0 then Some CUVS_STATUS_ERROR
         else case cuvs_fd_send (dir_field dir) (ie_fd_send env) of
           None \<Rightarrow> None
         | Some (rc2, dreq, ios2) \<Rightarrow>
             if rc2 < 0 then Some CUVS_STATUS_ERROR
             else case send_all extra ios2 of
               None \<Rightarrow> None
             | Some (rc3, mreq, _) \<Rightarrow>
                 if rc3 < 0 then Some CUVS_STATUS_ERROR
                 else case recv_all 144 (peer s (req @ dreq @ mreq) fd) (ie_recv env) of
                   None \<Rightarrow> None
                 | Some (r, hb, _) \<Rightarrow> Some (if r < 0 then CUVS_STATUS_ERROR else rh_status (reply_header_of hb)))"

text \<open>A call whose corpus is copied into an object of its own, and that object removed afterwards.\<close>

definition payload_call ::
  "ipc_env \<Rightarrow> peer \<Rightarrow> vec list \<Rightarrow> u64 list \<Rightarrow> CuvsCmdFrame \<Rightarrow> bytes \<Rightarrow> shm \<Rightarrow> (u32 \<times> shm) option" where
  "payload_call env peer vecs tids cmd dir s =
    (case ie_key env 0 of
       None \<Rightarrow> Some (CUVS_STATUS_ERROR, s)
     | Some key \<Rightarrow>
        (let (ok, s1) = shm_write_build_payload env key vecs tids s in
         if \<not> ok then Some (CUVS_STATUS_ERROR, s1)
         else if \<not> connects env then Some (CUVS_STATUS_UNAVAILABLE, shm_unlink key s1)
         else map_option (\<lambda>rc. (rc, shm_unlink key s1))
           (dir_call env peer (cmd\<lparr>cf_shm_key := key_field key\<rparr>) dir None [] s1)))"

text \<open>A corpus that the caller has staged already, or else the copy.\<close>

definition corpus_call ::
  "ipc_env \<Rightarrow> peer \<Rightarrow> CuvsBuildCorpus \<Rightarrow> vec list \<Rightarrow> u64 list \<Rightarrow> CuvsCmdFrame \<Rightarrow> bytes \<Rightarrow> shm \<Rightarrow> (u32 \<times> shm) option" where
  "corpus_call env peer corpus vecs tids cmd dir s =
    (case co_kind corpus of
       CORPUS_MEMFD \<Rightarrow>
         if \<not> connects env then Some (CUVS_STATUS_UNAVAILABLE, s)
         else map_option (\<lambda>rc. (rc, s)) (dir_call env peer (cmd\<lparr>cf_shm_key := key_field []\<rparr>) dir (co_base corpus) [] s)
     | CORPUS_SHM \<Rightarrow>
         if \<not> connects env then Some (CUVS_STATUS_UNAVAILABLE, s)
         else map_option (\<lambda>rc. (rc, s)) (dir_call env peer (cmd\<lparr>cf_shm_key := key_field (co_name corpus)\<rparr>) dir None [] s)
     | _ \<Rightarrow> payload_call env peer vecs tids cmd dir s)"

text \<open>The arguments of a build that go into the frame.\<close>

record build_args =
  ba_db_oid :: u32
  ba_index_oid :: u32
  ba_n_vecs :: u64
  ba_dim :: u32
  ba_metric :: u32
  ba_table_oid :: u32
  ba_relfilenode :: u32
  ba_shard_count :: u32
  ba_use_cpu_hnsw :: u32
  ba_graph_degree :: u32
  ba_intermediate_graph_degree :: u32
  ba_build_algo :: u32

definition build_frame_of :: "u32 \<Rightarrow> build_args \<Rightarrow> CuvsCmdFrame" where
  "build_frame_of op a = zero_frame\<lparr>cf_op := op, cf_db_oid := ba_db_oid a, cf_index_oid := ba_index_oid a,
     cf_metric := ba_metric a, cf_dim := ba_dim a, cf_n_vecs := ba_n_vecs a, cf_table_oid := ba_table_oid a,
     cf_relfilenode := ba_relfilenode a\<rparr>"

definition graph_params :: "build_args \<Rightarrow> CuvsCmdFrame \<Rightarrow> CuvsCmdFrame" where
  "graph_params a c = c\<lparr>cf_shard_count := ba_shard_count a, cf_use_cpu_hnsw := ba_use_cpu_hnsw a,
     cf_graph_degree := ba_graph_degree a, cf_intermediate_graph_degree := ba_intermediate_graph_degree a,
     cf_build_algo := ba_build_algo a\<rparr>"

definition cuvs_ipc_build ::
  "ipc_env \<Rightarrow> peer \<Rightarrow> CuvsBuildCorpus \<Rightarrow> vec list \<Rightarrow> u64 list \<Rightarrow> build_args \<Rightarrow> bytes \<Rightarrow> shm \<Rightarrow> (u32 \<times> shm) option" where
  "cuvs_ipc_build env peer corpus vecs tids a dir s =
    corpus_call env peer corpus vecs tids (graph_params a (build_frame_of 2 a)) dir s"

definition cuvs_ipc_build_flat ::
  "ipc_env \<Rightarrow> peer \<Rightarrow> CuvsBuildCorpus \<Rightarrow> vec list \<Rightarrow> u64 list \<Rightarrow> build_args \<Rightarrow> bytes \<Rightarrow> shm \<Rightarrow> (u32 \<times> shm) option" where
  "cuvs_ipc_build_flat env peer corpus vecs tids a dir s =
    corpus_call env peer corpus vecs tids ((build_frame_of 21 a)\<lparr>cf_shard_count := 1\<rparr>) dir s"

definition desc_bytes :: "CuvsPartialDesc \<Rightarrow> bytes" where
  "desc_bytes d = key_field (pd_shm_name d) @ le_bytes 8 (pd_n_vecs d)"

definition cuvs_ipc_build_multi ::
  "ipc_env \<Rightarrow> peer \<Rightarrow> CuvsPartialDesc list \<Rightarrow> build_args \<Rightarrow> bytes \<Rightarrow> shm \<Rightarrow> u32 option" where
  "cuvs_ipc_build_multi env peer partials a dir s =
    (if partials = [] then Some CUVS_STATUS_ERROR
     else if \<not> connects env then Some CUVS_STATUS_UNAVAILABLE
     else dir_call env peer ((graph_params a (build_frame_of 2 a))\<lparr>cf_n_partials := of_nat (length partials)\<rparr>)
       dir None (concat (map desc_bytes partials)) s)"

definition cuvs_ipc_build_ivfpq ::
  "ipc_env \<Rightarrow> peer \<Rightarrow> vec list \<Rightarrow> u64 list \<Rightarrow> build_args \<Rightarrow> u32 \<Rightarrow> u32 \<Rightarrow> u32 \<Rightarrow> bytes \<Rightarrow> shm \<Rightarrow> (u32 \<times> shm) option" where
  "cuvs_ipc_build_ivfpq env peer vecs tids a n_lists pq_bits pq_dim dir s =
    payload_call env peer vecs tids
      ((build_frame_of 11 a)\<lparr>cf_n_lists := n_lists, cf_pq_bits := pq_bits, cf_pq_dim := pq_dim\<rparr>) dir s"

definition cuvs_ipc_extend ::
  "ipc_env \<Rightarrow> peer \<Rightarrow> u32 \<Rightarrow> u32 \<Rightarrow> vec list \<Rightarrow> u64 list \<Rightarrow> u32 \<Rightarrow> u32 \<Rightarrow> bytes \<Rightarrow> shm \<Rightarrow> (u32 \<times> shm) option" where
  "cuvs_ipc_extend env peer db_oid index_oid vecs tids dim max_chunk_size dir s =
    payload_call env peer vecs tids ((index_frame 13 db_oid index_oid)\<lparr>cf_dim := dim,
      cf_n_vecs := of_nat (length tids), cf_max_chunk_size := max_chunk_size\<rparr>) dir s"

definition cuvs_ipc_compact :: "ipc_env \<Rightarrow> peer \<Rightarrow> u32 \<Rightarrow> u32 \<Rightarrow> bytes \<Rightarrow> shm \<Rightarrow> u32 option" where
  "cuvs_ipc_compact env peer db_oid index_oid dir s =
    (if \<not> connects env then Some CUVS_STATUS_UNAVAILABLE
     else dir_call env peer (index_frame 14 db_oid index_oid) dir None [] s)"

section \<open>Replies in an object\<close>

text \<open>The kernel's word for who accepted the connection, against the owner of the object.\<close>

definition shm_check_daemon_owner :: "ipc_env \<Rightarrow> shm_object \<Rightarrow> bool" where
  "shm_check_daemon_owner env ob \<longleftrightarrow> ce_peer (ie_conn env) = Some (uint (so_owner ob))"

text \<open>A mapping of \<open>n\<close> bytes, not checked against the size of the object; zero behind its end.\<close>

definition mapped :: "nat \<Rightarrow> shm_object \<Rightarrow> bytes" where
  "mapped n ob = take n (so_bytes ob @ replicate n 0)"

record batch_out =
  bo_rc :: u32
  bo_k :: u32
  bo_latency :: u32
  bo_tids :: "u64 list"
  bo_dists :: "u32 list"

definition batch_fail :: "u32 \<Rightarrow> u32 \<Rightarrow> batch_out" where
  "batch_fail rc lat = \<lparr>bo_rc = rc, bo_k = 0, bo_latency = lat, bo_tids = [], bo_dists = []\<rparr>"

text \<open>
  The results of a batch. The status is set from the header before the object is checked and mapped,
  and not taken back when that fails.
\<close>

definition batch_reply :: "ipc_env \<Rightarrow> nat \<Rightarrow> u32 \<Rightarrow> bytes \<Rightarrow> batch_out option" where
  "batch_reply env n_queries k inp =
    (case cuvs_fd_recv 144 (ie_reply_fd env) (ie_trunc env) inp (ie_recv env) of
       None \<Rightarrow> None
     | Some r \<Rightarrow>
        if fr_rc r < 0 then Some (batch_fail CUVS_STATUS_ERROR 0)
        else let hdr = reply_header_of (fr_data r); lat = rh_latency_us hdr;
                 q = unat (rh_n_results hdr); kk = unat (rh_delta_merged hdr)
          in if rh_status hdr \<noteq> CUVS_STATUS_OK then Some (batch_fail (rh_status hdr) lat)
             else if q \<noteq> n_queries \<or> kk = 0 \<or> sint (rh_delta_merged hdr) > sint k then Some (batch_fail CUVS_STATUS_ERROR lat)
             else case fr_fd r of
               None \<Rightarrow> Some (batch_fail CUVS_STATUS_ERROR lat)
             | Some fd \<Rightarrow>
                (let ob = ie_fd_obj env fd; bs = mapped (8 + q * kk * 12) ob in
                 if \<not> shm_check_daemon_owner env ob \<or> \<not> ie_map env then Some (batch_fail (rh_status hdr) lat)
                 else Some \<lparr>bo_rc = CUVS_STATUS_OK, bo_k = rh_delta_merged hdr, bo_latency = lat,
                        bo_tids = map le_word (chunks 8 (q * kk) (drop 8 bs)),
                        bo_dists = map le_word (chunks 4 (q * kk) (drop (8 + q * kk * 8) bs))\<rparr>))"

definition batch_frame :: "search_args \<Rightarrow> nat \<Rightarrow> u32 \<Rightarrow> CuvsCmdFrame" where
  "batch_frame a n_queries dim = zero_frame\<lparr>cf_op := CUVS_OP_SEARCH_BATCH, cf_db_oid := sa_db_oid a,
     cf_index_oid := sa_index_oid a, cf_k := sa_k a, cf_metric := sa_metric a, cf_dim := dim,
     cf_n_vecs := of_nat n_queries, cf_shard_overfetch := sa_shard_overfetch a,
     cf_parallel_fanout := of_bool (sa_parallel_fanout a), cf_search_mode := sa_search_mode a,
     cf_bf_precision := sa_bf_precision a\<rparr>"

definition cuvs_ipc_search_batch ::
  "ipc_env \<Rightarrow> peer \<Rightarrow> search_args \<Rightarrow> vec list \<Rightarrow> u32 \<Rightarrow> shm \<Rightarrow> (batch_out \<times> shm) option" where
  "cuvs_ipc_search_batch env peer a queries dim s =
    (case ie_key env 0 of
       None \<Rightarrow> Some (batch_fail CUVS_STATUS_ERROR 0, shm_unlink (ie_stack env 0) s)
     | Some key \<Rightarrow>
        (let (ok, s1) = shm_write_query_batch env key queries dim s; finish = (\<lambda>r. (r, shm_unlink key s1)) in
         if \<not> ok then Some (finish (batch_fail CUVS_STATUS_ERROR 0))
         else if \<not> connects env then Some (finish (batch_fail CUVS_STATUS_UNAVAILABLE 0))
         else case send_cmd env ((batch_frame a (length queries) dim)\<lparr>cf_shm_key := key_field key\<rparr>) of
           None \<Rightarrow> None
         | Some (rc, req, _) \<Rightarrow>
             if rc < 0 then Some (finish (batch_fail CUVS_STATUS_ERROR 0))
             else map_option finish (batch_reply env (length queries) (sa_k a) (peer s1 req None))))"

text \<open>The graph of an index: adjacency, vectors, TIDs, and the metric in the object's header.\<close>

record adjacency =
  ad_n_vecs :: nat
  ad_graph_degree :: int
  ad_dim :: int
  ad_metric :: u32
  ad_adj :: "u32 list"
  ad_vecs :: "u32 list"
  ad_tids :: "u64 list"

definition cuvs_ipc_export_adjacency :: "ipc_env \<Rightarrow> peer \<Rightarrow> u32 \<Rightarrow> u32 \<Rightarrow> shm \<Rightarrow> (u32 \<times> adjacency option) option" where
  "cuvs_ipc_export_adjacency env peer db_oid index_oid s =
    (if \<not> connects env then Some (CUVS_STATUS_UNAVAILABLE, None)
     else case send_cmd env (index_frame 8 db_oid index_oid) of
       None \<Rightarrow> None
     | Some (rc, req, _) \<Rightarrow>
        if rc < 0 then Some (CUVS_STATUS_ERROR, None)
        else case cuvs_fd_recv 144 (ie_reply_fd env) (ie_trunc env) (peer s req None) (ie_recv env) of
          None \<Rightarrow> None
        | Some r \<Rightarrow>
           if fr_rc r < 0 then Some (CUVS_STATUS_ERROR, None)
           else let hdr = reply_header_of (fr_data r); n = unat (rh_n_results hdr);
                    gd = sint (rh_latency_us hdr); dim = sint (rh_delta_merged hdr)
             in if rh_status hdr \<noteq> CUVS_STATUS_OK then Some (rh_status hdr, None)
                else if n = 0 \<or> gd \<le> 0 \<or> dim \<le> 0 then Some (CUVS_STATUS_ERROR, None)
                else case fr_fd r of
                  None \<Rightarrow> Some (CUVS_STATUS_ERROR, None)
                | Some fd \<Rightarrow>
                   (let ob = ie_fd_obj env fd; adj_bytes = n * nat gd * 4; vecs_bytes = n * nat dim * 4;
                        bs = mapped (16 + adj_bytes + vecs_bytes + n * 8) ob
                    in if \<not> shm_check_daemon_owner env ob \<or> \<not> ie_map env \<or> \<not> ie_alloc env then Some (CUVS_STATUS_ERROR, None)
                       else Some (CUVS_STATUS_OK, Some \<lparr>ad_n_vecs = n, ad_graph_degree = gd, ad_dim = dim, ad_metric = fld 12 4 bs,
                              ad_adj = map le_word (chunks 4 (n * nat gd) (drop 16 bs)),
                              ad_vecs = map le_word (chunks 4 (n * nat dim) (drop (16 + adj_bytes) bs)),
                              ad_tids = map le_word (chunks 8 n (drop (16 + adj_bytes + vecs_bytes) bs))\<rparr>)))"

definition cuvs_ipc_export_hnsw_shm ::
  "ipc_env \<Rightarrow> peer \<Rightarrow> u32 \<Rightarrow> u32 \<Rightarrow> nat \<Rightarrow> shm \<Rightarrow> (u32 \<times> (string \<times> nat) option) option" where
  "cuvs_ipc_export_hnsw_shm env peer db_oid index_oid path_len s =
    (if \<not> connects env then Some (CUVS_STATUS_UNAVAILABLE, None)
     else case send_cmd env (index_frame 9 db_oid index_oid) of
       None \<Rightarrow> None
     | Some (rc, req, _) \<Rightarrow>
        if rc < 0 then Some (CUVS_STATUS_ERROR, None)
        else case cuvs_fd_recv 144 (ie_reply_fd env) (ie_trunc env) (peer s req None) (ie_recv env) of
          None \<Rightarrow> None
        | Some r \<Rightarrow>
           if fr_rc r < 0 then Some (CUVS_STATUS_ERROR, None)
           else let hdr = reply_header_of (fr_data r) in
             if rh_status hdr \<noteq> CUVS_STATUS_OK then Some (rh_status hdr, None)
             else case fr_fd r of
               None \<Rightarrow> Some (CUVS_STATUS_ERROR, None)
             | Some fd \<Rightarrow>
                 if \<not> shm_check_daemon_owner env (ie_fd_obj env fd) then Some (CUVS_STATUS_ERROR, None)
                 else Some (CUVS_STATUS_OK, Some (take (path_len - 1) (rh_error hdr), fd)))"

section \<open>A transient corpus\<close>

text \<open>The corpus goes into a corpus object, the query into one of its own.\<close>

definition cuvs_ipc_search_bf_transient ::
  "ipc_env \<Rightarrow> peer \<Rightarrow> corpus_env \<Rightarrow> u32 \<Rightarrow> vec list \<Rightarrow> u64 list \<Rightarrow> vec \<Rightarrow> u32 \<Rightarrow> u32 \<Rightarrow> corpus_state
    \<Rightarrow> (ipc_out \<times> corpus_state) option" where
  "cuvs_ipc_search_bf_transient env peer cv db_oid vecs tids query k metric cs =
    (let n = length tids; dim = length query; payload = float_bytes (concat vecs) @ concat (map (le_bytes 8) tids) in
     if n < 1 \<or> dim = 0 \<or> sint k < 1 \<or> n > unat SIZE_MAX div (dim * 4 + 8) then Some (ipc_fail CUVS_STATUS_ERROR, cs)
     else let (rc, c, cs1) = cuvs_corpus_open cv (length payload) cs in
       if rc \<noteq> 0 \<or> co_base c = None
       then Some ((ipc_fail CUVS_STATUS_ERROR)\<lparr>io_error := ''no shared-memory tier for transient BF corpus''\<rparr>,
              snd (cuvs_corpus_close c cs1))
       else let c1 = c\<lparr>co_base := Some payload\<rparr>;
                cs2 = (if co_kind c = CORPUS_SHM
                  then cs1\<lparr>cp_shm := (cp_shm cs1)(c_str (co_name c) \<mapsto> \<lparr>so_owner = cv_uid cv, so_bytes = payload\<rparr>)\<rparr> else cs1);
                finish = (\<lambda>o1 key s. (o1, snd (cuvs_corpus_close c1 (cs2\<lparr>cp_shm := shm_unlink key s\<rparr>))))
         in case ie_key env 0 of
              None \<Rightarrow> Some (finish (ipc_fail CUVS_STATUS_ERROR) [] (cp_shm cs2))
            | Some key \<Rightarrow>
               (let (ok, s1) = shm_write_query env key query (cp_shm cs2);
                    cmd = zero_frame\<lparr>cf_op := 22, cf_db_oid := db_oid, cf_k := k, cf_metric := metric, cf_dim := of_nat dim,
                      cf_n_vecs := of_nat n, cf_shm_key := key_field key,
                      cf_filter_shm_key := (if co_kind c = CORPUS_SHM then key_field (co_name c) else key_field [])\<rparr>
                in if \<not> ok then Some (finish (ipc_fail CUVS_STATUS_ERROR) key s1)
                   else if \<not> connects env then Some (finish (ipc_fail CUVS_STATUS_UNAVAILABLE) key s1)
                   else case send_cmd env cmd of
                     None \<Rightarrow> None
                   | Some (r1, req, _) \<Rightarrow>
                      if r1 < 0 then Some (finish (ipc_fail CUVS_STATUS_ERROR) key s1)
                      else case cuvs_fd_send (replicate 256 0) (ie_fd_send env) of
                        None \<Rightarrow> None
                      | Some (r2, dreq, _) \<Rightarrow>
                          if r2 < 0 then Some (finish (ipc_fail CUVS_STATUS_ERROR) key s1)
                          else map_option (\<lambda>o1. finish o1 key s1) (await_results env (sint k)
                            (peer s1 (req @ dreq) (if co_kind c = CORPUS_MEMFD then Some payload else None)))))"

end
