(* ===== verification/Ipc_Props.thy ===== *)
theory Ipc_Props
  imports Ipc_Calls
begin

text \<open>
  What the backend's calls to the daemon guarantee: with whom they talk, and what they leave behind
  in shared memory; and a failure that a batch call reports as a success.
\<close>

section \<open>Connections\<close>

text \<open>
  No hijacked socket. With an expected owner configured, a connection is used only if the kernel
  says that this user accepted it, whatever happened to the path before.
\<close>

theorem connect_checks_peer:
  assumes "uds_connect_ex expected path ce" "0 \<le> expected"
  shows "ce_peer ce = Some expected \<and> (path = [] \<or> ce_lstat ce = Some (True, expected))"
  using assms by (simp add: uds_connect_ex_def)

theorem connect_checks_peer_witness:
  "uds_connect_ex 7 [1] \<lparr>ce_socket = True, ce_lstat = Some (True, 7), ce_connect = True, ce_peer = Some 7\<rparr> \<and>
   ce_peer \<lparr>ce_socket = True, ce_lstat = Some (True, 7), ce_connect = True, ce_peer = Some 7\<rparr> = Some 7"
  using connect_checks_peer [of 7 "[1]" "\<lparr>ce_socket = True, ce_lstat = Some (True, 7), ce_connect = True, ce_peer = Some 7\<rparr>"]
  by (simp add: uds_connect_ex_def)

section \<open>Shared memory\<close>

lemma shm_write_outcome:
  assumes "shm_write env key bs s = (ok, s1)" "s (c_str key) = None"
  shows "shm_unlink key s1 = s" "\<not> ok \<Longrightarrow> s1 = s" "ok \<Longrightarrow> s1 = s(c_str key \<mapsto> \<lparr>so_owner = ie_uid env, so_bytes = bs\<rparr>)"
    "ie_open env key \<Longrightarrow> ie_size env key \<Longrightarrow> ok"
  using assms by (auto simp: shm_write_def shm_unlink_def split: if_splits)

lemma query_call_cleans:
  assumes "query_call env peer query cmd s = Some (r, s')" "ie_key env 0 = Some key" "s (c_str key) = None"
  shows "s' = s"
proof -
  obtain ok s1 where w: "shm_write_query env key query s = (ok, s1)" by fastforce
  have c: "shm_unlink key s1 = s"
    using shm_write_outcome(1) [OF w [unfolded shm_write_query_def] assms(3)] .
  show ?thesis
    using assms(1,2) w c by (auto simp: query_call_def Let_def split: if_splits option.splits)
qed

lemma shm_unlink_absent: "s (c_str key) = None \<Longrightarrow> shm_unlink key s = s"
  by (auto simp: shm_unlink_def)

lemma filter_call_cleans:
  assumes "filter_call env peer query tids cmd s = Some (r, s')" "ie_key env 0 = Some key" "ie_key env 1 = Some fkey"
    and "s (c_str key) = None" "s (c_str fkey) = None" "c_str fkey \<noteq> c_str key"
  shows "s' = (if fst (shm_write_query env key query s) then s else shm_unlink (ie_stack env 1) s)"
proof -
  obtain ok s1 where w: "shm_write_query env key query s = (ok, s1)" by fastforce
  note q = shm_write_outcome [OF w [unfolded shm_write_query_def] assms(4)]
  obtain fok s2 where f: "shm_write_filter env fkey tids s1 = (fok, s2)" by fastforce
  have s1: "s1 (c_str fkey) = None"
    using q(2,3) assms(5,6) by (cases ok) auto
  have "shm_unlink fkey (shm_unlink key s2) = shm_unlink key (shm_unlink fkey s2)"
    by (auto simp: shm_unlink_def fun_upd_twist)
  also have "shm_unlink fkey s2 = s1"
    using shm_write_outcome(1) [OF f [unfolded shm_write_filter_def] s1] .
  finally have c: "shm_unlink fkey (shm_unlink key s2) = s" using q(1) by simp
  show ?thesis
    using assms(1-3) w f c q(1) by (auto simp: filter_call_def Let_def split: if_splits option.splits)
qed

text \<open>
  C39. Nothing is left in shared memory, if the search could make its query object under a new name.
  Provided the random keys can be drawn, differ and name no existing object, and the query's object can
  be created and sized, then however the search, plain or filtered, ends, by an answer, an error, a
  cancel or a daemon that is down, and whatever the daemon replied, the objects it made are gone and no
  other is touched. \<open>unset_key_unlinked\<close> shows what happens where the object cannot be made.
\<close>

theorem searches_leave_no_shm:
  assumes "ie_key env 0 = Some key" "ie_key env 1 = Some fkey" "c_str fkey \<noteq> c_str key"
    and "s (c_str key) = None" "s (c_str fkey) = None" "ie_open env key" "ie_size env key"
  shows "(\<forall>r s'. cuvs_ipc_search env peer a query s = Some (r, s') \<longrightarrow> s' = s) \<and>
    (\<forall>r s'. cuvs_ipc_search_filtered env peer db idx query k metric mode prec flt pre cap s = Some (r, s') \<longrightarrow> s' = s) \<and>
    (\<forall>r s'. cuvs_ipc_search_stream_bf env peer db idx query k metric tids cap s = Some (r, s') \<longrightarrow> s' = s)"
proof -
  have w: "fst (shm_write_query env key query s)"
    using shm_write_outcome(4) [of env key "float_bytes query" s] assms(4,6,7)
    by (metis fst_conv shm_write_query_def surj_pair)
  have q: "s' = s" if "query_call env peer query cmd s = Some (r, s')" for cmd r s'
    using query_call_cleans [OF that assms(1,4)] .
  have f: "s' = s" if "filter_call env peer query ts cmd s = Some (r, s')" for ts cmd r s'
    using filter_call_cleans [OF that assms(1,2,4,5,3)] w by simp
  show ?thesis
    using q f
    by (auto simp: cuvs_ipc_search_def cuvs_ipc_search_filtered_def cuvs_ipc_search_stream_bf_def Let_def
        split: if_splits option.splits list.splits)
qed

text \<open>
  An object that cannot be made takes an unrelated one along. When the query's object cannot be
  made, the filtered calls also unlink the name in the buffer of the second key, which nothing has set.
\<close>

theorem unset_key_unlinked:
  assumes "ie_key env 0 = Some key" "s (c_str key) = None" "\<not> ie_open env key" "tids \<noteq> []"
  shows "cuvs_ipc_search_stream_bf env peer db idx query k metric tids cap s
    = Some (ipc_fail CUVS_STATUS_ERROR, s(c_str (ie_stack env 1) := None))"
  using assms
  by (simp add: cuvs_ipc_search_stream_bf_def filter_call_def shm_write_query_def shm_write_def shm_unlink_def fun_upd_idem)

section \<open>Batches\<close>

text \<open>
  A batch whose answer cannot be read is reported as a success. When the daemon's reply is in
  order but its object has another owner or cannot be mapped, the call returns the status OK with
  no results instead of an error.
\<close>

theorem batch_failure_reported_ok:
  assumes "cuvs_fd_recv 144 (ie_reply_fd env) (ie_trunc env) inp (ie_recv env) = Some r" "fr_rc r = 0"
    and "reply_header_of (fr_data r) = hdr" "rh_status hdr = CUVS_STATUS_OK"
    and "unat (rh_n_results hdr) = n_queries" "rh_delta_merged hdr \<noteq> 0" "sint (rh_delta_merged hdr) \<le> sint k"
    and "fr_fd r = Some fd" "\<not> shm_check_daemon_owner env (ie_fd_obj env fd) \<or> \<not> ie_map env"
  shows "batch_reply env n_queries k inp = Some (batch_fail CUVS_STATUS_OK (rh_latency_us hdr))"
  using assms by (simp add: batch_reply_def Let_def unat_eq_0)

lemma chunks_append: "length xs = n * w \<Longrightarrow> chunks w n (xs @ ys) = chunks w n xs"
  by (induction n arbitrary: xs) auto

text \<open>
  A batch answer that is read is the object's: with a proper owner and a mapping the call
  returns the \<open>Q * K\<close> TIDs and distances that stand in the object behind its header.
\<close>

lemma batch_reply_reads:
  assumes "cuvs_fd_recv 144 (ie_reply_fd env) (ie_trunc env) inp (ie_recv env) = Some r" "fr_rc r = 0"
    and "reply_header_of (fr_data r) = hdr" "rh_status hdr = CUVS_STATUS_OK"
    and "unat (rh_n_results hdr) = n_queries" "unat (rh_delta_merged hdr) = kk" "0 < kk" "sint (rh_delta_merged hdr) \<le> sint k"
    and "fr_fd r = Some fd" "shm_check_daemon_owner env (ie_fd_obj env fd)" "ie_map env"
    and "so_bytes (ie_fd_obj env fd) = le_bytes 4 (of_nat n_queries :: u32) @ le_bytes 4 (of_nat kk :: u32)
      @ concat (map (le_bytes 8) tids) @ concat (map (le_bytes 4) dists)"
    and "length tids = n_queries * kk" "length dists = n_queries * kk"
  shows "batch_reply env n_queries k inp = Some \<lparr>bo_rc = CUVS_STATUS_OK, bo_k = of_nat kk,
    bo_latency = rh_latency_us hdr, bo_tids = tids, bo_dists = dists\<rparr>"
proof -
  let ?bs = "so_bytes (ie_fd_obj env fd)"
  have lt: "length (concat (map (le_bytes 8) tids)) = n_queries * kk * 8"
    and ld: "length (concat (map (le_bytes 4) dists)) = n_queries * kk * 4"
    using u64_codec.length_concat_enc [of tids] u32_codec.length_concat_enc [of dists] assms(13,14) by simp_all
  then have len: "length ?bs = 8 + n_queries * kk * 12"
    by (simp add: assms(12))
  have m: "mapped (8 + n_queries * kk * 12) (ie_fd_obj env fd) = ?bs"
    by (simp add: mapped_def len)
  have d8: "drop 8 ?bs = concat (map (le_bytes 8) tids) @ concat (map (le_bytes 4) dists)"
    by (simp add: assms(12))
  have t: "map le_word (chunks 8 (n_queries * kk) (drop 8 ?bs)) = tids"
    using u64_codec.chunks_concat_enc [of tids] lt assms(13) by (simp add: d8 chunks_append)
  have "drop (8 + n_queries * kk * 8) ?bs = concat (map (le_bytes 4) dists)"
    using lt by (simp add: assms(12))
  then have dd: "map le_word (chunks 4 (n_queries * kk) (drop (8 + n_queries * kk * 8) ?bs)) = dists"
    using u32_codec.chunks_concat_enc [of dists] assms(14) by simp
  have kk: "rh_delta_merged hdr = of_nat kk"
    using assms(6) by auto
  show ?thesis
    using assms(1-11) t dd m kk by (simp add: batch_reply_def Let_def unat_eq_0)
qed

section \<open>A concrete client\<close>

definition sample_ipc :: ipc_env where
  "sample_ipc = \<lparr>ie_uid = 7, ie_expected = 7, ie_path = [1],
     ie_conn = \<lparr>ce_socket = True, ce_lstat = Some (True, 7), ce_connect = True, ce_peer = Some 7\<rparr>,
     ie_key = \<lambda>i. Some [of_nat i + 1], ie_stack = \<lambda>_. [5], ie_open = \<lambda>_. True, ie_size = \<lambda>_. True, ie_alloc = True,
     ie_itopk = 0, ie_width = 0, ie_pad = [0, 0, 0, 0], ie_send = [Io_eintr, Io_upto 300], ie_fd_send = [Io_upto 300],
     ie_wait = [Signal False, Readable (Io_upto 144)], ie_start = 0, ie_recv = [Io_upto 1000, Io_upto 1000],
     ie_reply_fd = [4], ie_trunc = False, ie_fd_obj = \<lambda>_. \<lparr>so_owner = 8, so_bytes = []\<rparr>, ie_map = True\<rparr>"

definition sample_args :: search_args where
  "sample_args = \<lparr>sa_db_oid = 1, sa_index_oid = 10, sa_k = 1, sa_metric = 0, sa_shard_overfetch = 0,
     sa_parallel_fanout = False, sa_use_cpu_hnsw = 0, sa_search_mode = 1, sa_bf_precision = 0,
     sa_bf_batch_wait_us = 0, sa_cagra_batch_wait_us = 0\<rparr>"

text \<open>A daemon is down, and an object of somebody else is there.\<close>

definition other_shm :: shm where
  "other_shm = [[9] \<mapsto> \<lparr>so_owner = 3, so_bytes = []\<rparr>, [5] \<mapsto> \<lparr>so_owner = 3, so_bytes = []\<rparr>]"

theorem searches_leave_no_shm_witness:
  "\<exists>r. cuvs_ipc_search (sample_ipc\<lparr>ie_expected := 6\<rparr>) (\<lambda>_ _ _. []) sample_args [0] other_shm = Some (r, other_shm) \<and>
    io_rc r = CUVS_STATUS_UNAVAILABLE"
proof -
  let ?env = "sample_ipc\<lparr>ie_expected := 6\<rparr>"
  have c: "\<not> connects ?env" by (simp add: connects_def uds_connect_ex_def sample_ipc_def)
  have k: "ie_key ?env 0 = Some [1]" "ie_key ?env 1 = Some [2]" "c_str [2] \<noteq> c_str [1]"
    "other_shm (c_str [1]) = None" "other_shm (c_str [2]) = None" "ie_open ?env [1]" "ie_size ?env [1]"
    by (simp_all add: sample_ipc_def c_str_def other_shm_def)
  obtain r s' where s: "cuvs_ipc_search ?env (\<lambda>_ _ _. []) sample_args [0] other_shm = Some (r, s')"
    "io_rc r = CUVS_STATUS_UNAVAILABLE"
    using c k(1,4,6,7)
    by (simp add: cuvs_ipc_search_def query_call_def shm_write_query_def shm_write_def ipc_fail_def Let_def)
  then show ?thesis
    using searches_leave_no_shm [OF k, of "\<lambda>_ _ _. []" sample_args "[0]"] by blast
qed

theorem unset_key_unlinked_witness:
  "\<exists>r s'. cuvs_ipc_search_stream_bf (sample_ipc\<lparr>ie_open := \<lambda>_. False\<rparr>) (\<lambda>_ _ _. []) 1 10 [0] 1 0 [20] 8 other_shm = Some (r, s') \<and>
    s' [5] = None \<and> other_shm [5] \<noteq> None"
  using unset_key_unlinked [of "sample_ipc\<lparr>ie_open := \<lambda>_. False\<rparr>" "[1]" other_shm "[20]" "\<lambda>_ _ _. []" 1 10 "[0]" 1 0 8]
  by (simp add: sample_ipc_def c_str_def other_shm_def)

text \<open>One query, one result, in an object of user 8, while user 7 accepted the connection.\<close>

definition good_reply :: bytes where
  "good_reply = reply_header_bytes \<lparr>rh_status = 0, rh_n_results = 1, rh_latency_us = 3, rh_delta_merged = 1, rh_error = []\<rparr>"

theorem batch_failure_reported_ok_witness:
  "batch_reply sample_ipc 1 5 good_reply = Some (batch_fail CUVS_STATUS_OK 3)"
proof -
  have l: "length good_reply = 144" by (simp add: good_reply_def)
  have ra: "recv_all 0 xs ios = Some (0, [], xs, ios)" for xs ios by simp
  define r where "r = \<lparr>fr_rc = 0, fr_data = good_reply, fr_fd = Some 4, fr_closed = [], fr_rest = [], fr_ios = [Io_upto 1000]\<rparr>"
  have c: "cuvs_fd_recv 144 (ie_reply_fd sample_ipc) (ie_trunc sample_ipc) good_reply (ie_recv sample_ipc) = Some r"
    using l by (simp add: sample_ipc_def r_def)
  have h: "rh_status (reply_header_of good_reply) = 0" "rh_n_results (reply_header_of good_reply) = 1"
    "rh_delta_merged (reply_header_of good_reply) = 1" "rh_latency_us (reply_header_of good_reply) = 3"
    by (simp_all add: good_reply_def)
  show ?thesis
    using batch_failure_reported_ok [OF c, of "reply_header_of good_reply" 1 5 4] h
    by (simp add: r_def shm_check_daemon_owner_def sample_ipc_def CUVS_STATUS_OK_def)
qed

end
