(* ===== verification/Build_Flat.thy ===== *)
theory Build_Flat
  imports Ipc_Props
begin

text \<open>
  The two other kinds of index: flat (exact search only, \<open>handle_build_flat\<close>) and IVF-PQ
  (\<open>handle_build_ivfpq\<close>, \<open>handle_search_ivfpq\<close>) of
  \<open>src/pg_cuvs_server.c\<close>.
\<close>

section \<open>Building a flat index\<close>

text \<open>The largest budget of the usable GPUs; \<open>None\<close> when one of them is unlimited.\<close>

definition largest_budget :: "daemon \<Rightarrow> u64 option" where
  "largest_budget st =
    (let bs = map (\<lambda>i. g_max_vram_per_gpu st ! nat (usable_gpu i st)) [0..<n_usable_gpus st]
     in if 0 \<in> set bs then None else Some (fold max bs 0))"

definition megabytes :: "u64 \<Rightarrow> string" where
  "megabytes n = dec_digits (unat n div 1048576)"

definition flat_too_large :: "u64 \<Rightarrow> u64 \<Rightarrow> string" where
  "flat_too_large need budget =
    ''flat corpus '' @ megabytes need @ '' MB (float16 '' @ megabytes (need div 2)
    @ '' MB) exceeds the GPU VRAM budget ('' @ megabytes budget @ '' MB); shard the table or use a cagra/ivfpq index''"

definition flat_budget_gate :: "CuvsCmdFrame \<Rightarrow> daemon \<Rightarrow> string option" where
  "flat_budget_gate cmd st =
    (let need = cf_n_vecs cmd * ucast (cf_dim cmd) * 4 in
     case largest_budget st of
       None \<Rightarrow> None
     | Some b \<Rightarrow> if 0 < b \<and> need div 2 > b then Some (flat_too_large need b) else None)"

text \<open>The sidecar with the vectors, under its temporary name.\<close>

definition stage_flat ::
  "outside \<Rightarrow> CuvsCmdFrame \<Rightarrow> u32 list \<Rightarrow> u64 list \<Rightarrow> daemon \<Rightarrow> bool \<times> daemon" where
  "stage_flat out cmd vecs tids st =
    (let db = cf_db_oid cmd; idx = cf_index_oid cmd; tmp = (db, idx, F_vectors_tmp) in
     case o_tids_room out tmp of
       None \<Rightarrow> (False, unlink_files db idx [F_vectors_tmp] st)
     | Some r \<Rightarrow>
        (let (rc, f) = cuvs_vectors_write \<lparr>written = [], room = r\<rparr> (cf_n_vecs cmd) (cf_dim cmd) (cf_metric cmd)
               (cuvs_crc32 (concat (map (le_bytes 8) tids))) vecs
         in if rc = 0 \<and> o_sync_ok out tmp then (True, st\<lparr>d_files := (d_files st)(tmp \<mapsto> written f)\<rparr>)
            else (False, unlink_files db idx [F_vectors_tmp] st)))"

text \<open>The commit: \<open>.vectors\<close>, then \<open>.tids\<close>, then the old artifacts go. An error is its message.\<close>

definition commit_flat ::
  "outside \<Rightarrow> CuvsCmdFrame \<Rightarrow> u32 list \<Rightarrow> u64 list \<Rightarrow> daemon \<Rightarrow> string option \<times> daemon" where
  "commit_flat out cmd vecs tids st =
    (let db = cf_db_oid cmd; idx = cf_index_oid cmd; (ok, st1) = stage_flat out cmd vecs tids st in
     if \<not> ok then (Some ''flat .vectors persist failed'', st1)
     else let (rc, st2) = write_tids_atomic out (db, idx, F_tids_tmp) (sint (cf_n_vecs cmd)) (cf_dim cmd) (cf_metric cmd) tids st1
       in if rc \<noteq> 0 then (Some ''flat .tids persist failed'', unlink_files db idx [F_vectors_tmp] st2)
          else if \<not> o_rename_ok out (db, idx, F_vectors)
          then (Some ''flat .vectors rename failed'', unlink_files db idx [F_vectors_tmp, F_tids_tmp] st2)
          else let st3 = rename_file db idx F_vectors_tmp F_vectors st2 in
            if \<not> o_rename_ok out (db, idx, F_tids)
            then (Some ''flat .tids rename failed'', unlink_files db idx [F_tids_tmp, F_vectors] st3)
            else (None, unlink_files db idx [F_cagra, F_ivfpq, F_stale, F_shards] (rename_file db idx F_tids_tmp F_tids st3)))"

text \<open>Replacing a resident entry; shards it may have are dropped from the entry.\<close>

definition swap_flat :: "outside \<Rightarrow> CuvsCmdFrame \<Rightarrow> u64 list \<Rightarrow> int \<Rightarrow> nat \<Rightarrow> daemon \<Rightarrow> daemon" where
  "swap_flat out cmd tids fgpu i st =
    (let e = entry_at i st;
         st1 = gpu_free (e_ivfpq_handle e) (gpu_free (e_handle e) st);
         (e1, st2) = free_delta_cache e st1;
         (e2, st3) = free_main_bf_cache e1 st2;
         st4 = gpu_free (e_hnsw_idx e2) st3;
         e3 = e2\<lparr>e_hnsw_idx := None, e_handle := None, e_ivfpq_handle := None, e_ivfpq_n_vecs := 0,
           e_ivfpq_vram_bytes := 0, e_tids := Some tids, e_dim := cf_dim cmd, e_metric := cf_metric cmd,
           e_n_vecs := sint (cf_n_vecs cmd), e_vram_bytes := 0, e_shard_count := 0, e_shards := None, e_inflight := 0,
           e_gpu_device_id := dev_word fgpu, e_last_search := d_now st, e_valid := True, e_stale := False,
           e_stale_since := 0, e_n_extended := 0, e_compact_count := 0, e_last_compact_at := 0,
           e_warmup_state := WARMUP_HOT, e_last_search_mode := 3, e_rev_tids := None, e_rev_item_ids := None\<rparr>
     in set_slot i ((reset_entry_stats (build_rev_tid_map out e3))\<lparr>e_is_flat := True\<rparr>) st4)"

definition new_flat_entry :: "outside \<Rightarrow> CuvsCmdFrame \<Rightarrow> u64 list \<Rightarrow> int \<Rightarrow> daemon \<Rightarrow> IndexEntry" where
  "new_flat_entry out cmd tids fgpu st =
    (let e = (g_indexes st ! g_n_indexes st)\<lparr>e_db_oid := cf_db_oid cmd, e_index_oid := cf_index_oid cmd,
           e_dim := cf_dim cmd, e_metric := cf_metric cmd, e_n_vecs := sint (cf_n_vecs cmd), e_handle := None,
           e_ivfpq_handle := None, e_ivfpq_n_vecs := 0, e_ivfpq_vram_bytes := 0, e_tids := Some tids,
           e_rev_tids := None, e_rev_item_ids := None\<rparr>;
         e1 = (build_rev_tid_map out e)\<lparr>e_vram_bytes := 0, e_last_search := d_now st, e_valid := True,
           e_stale := False, e_stale_since := 0, e_shard_count := 0, e_shards := None, e_inflight := 0,
           e_gpu_device_id := dev_word fgpu, e_delta_idx := None, e_delta_tids := None, e_n_delta := 0,
           e_delta_generation := 0, e_delta_mtime := 0, e_delta_vram_bytes := 0, e_delta_vecs_host := None,
           e_delta_n_cached := 0, e_main_bf_idx := None, e_main_bf_n := 0, e_main_bf_vram_bytes := 0,
           e_main_bf_mtime := 0, e_main_bf_generation := 0, e_bf_precision := 0, e_hnsw_idx := None,
           e_n_extended := 0, e_compact_count := 0, e_last_compact_at := 0, e_warmup_state := WARMUP_HOT,
           e_last_search_mode := 3\<rparr>
     in (reset_entry_stats e1)\<lparr>e_is_flat := True\<rparr>)"

definition install_flat :: "outside \<Rightarrow> CuvsCmdFrame \<Rightarrow> u64 list \<Rightarrow> daemon \<Rightarrow> daemon" where
  "install_flat out cmd tids st =
    (let p = pick_gpu_for_index out 0 st; fgpu = (if p < 0 then usable_gpu 0 st else p) in
     case find_index (cf_db_oid cmd) (cf_index_oid cmd) st of
       Some i \<Rightarrow> swap_flat out cmd tids fgpu i st
     | None \<Rightarrow>
        (let st1 = (if length (g_indexes st) \<le> g_n_indexes st then snd (evict_lru out fgpu st) else st)
         in if length (g_indexes st1) \<le> g_n_indexes st1 then st1
            else register_entry (new_flat_entry out cmd tids fgpu st1) st1))"

text \<open>The files are written without the registry mutex; \<open>bn_meanwhile\<close> at 0 comes before it is taken.\<close>

definition handle_build_flat :: "outside \<Rightarrow> build_env \<Rightarrow> CuvsCmdFrame \<Rightarrow> daemon \<Rightarrow> reply \<times> daemon" where
  "handle_build_flat out bn cmd st =
    (if \<not> bn_dir_ok bn then (send_error ''recv index_dir failed'', st)
     else case check_payload 1 ''flat build needs at least 1 vector'' ''build payload size overflow'' cmd of
       Some e \<Rightarrow> (send_error e, st)
     | None \<Rightarrow>
        (case map_corpus bn cmd of
           Inl e \<Rightarrow> (send_error e, st)
         | Inr (vecs, tids) \<Rightarrow>
            (case flat_budget_gate cmd st of
               Some msg \<Rightarrow> (oom_reply msg, st)
             | None \<Rightarrow>
                if \<not> bn_alloc bn ''tids'' then (send_error_code CUVS_STATUS_BUILD_FAILED ''malloc tids failed'', st)
                else case commit_flat out cmd vecs tids st of
                  (Some msg, st1) \<Rightarrow> (send_error_code CUVS_STATUS_PERSIST_FAILED msg, st1)
                | (None, st1) \<Rightarrow> (status_reply CUVS_STATUS_OK, install_flat out cmd tids (bn_meanwhile bn 0 st1)))))"

section \<open>Building an IVF-PQ index\<close>

text \<open>The library's IVF-PQ calls.\<close>

record ivfpq_lib =
  iv_build :: "handle list \<Rightarrow> u32 list \<Rightarrow> nat \<Rightarrow> CuvsCmdFrame \<Rightarrow> u32 \<Rightarrow> u32 \<Rightarrow> int \<Rightarrow> bool"
  iv_serialize :: "handle \<Rightarrow> bytes option"
  iv_search :: "handle option \<Rightarrow> vec \<Rightarrow> nat \<Rightarrow> u32 \<Rightarrow> u32 \<Rightarrow> int \<times> gpu_hit list"

text \<open>
  The size of the payload is computed in 64 bits and not checked for overflow, here and in
  \<open>handle_extend\<close>; when it wraps, the mapping is shorter than the corpus that is read from it.
\<close>

definition payload_wraps :: "CuvsCmdFrame \<Rightarrow> bool" where
  "payload_wraps cmd \<longleftrightarrow> 2 ^ 64 \<le> unat (cf_n_vecs cmd) * (unat (cf_dim cmd) * 4 + 8)"

definition ivfpq_dim :: "CuvsCmdFrame \<Rightarrow> u32" where
  "ivfpq_dim cmd = (if cf_pq_dim cmd \<noteq> 0 then cf_pq_dim cmd else (cf_dim cmd + 1) div 2)"

definition ivfpq_bits :: "CuvsCmdFrame \<Rightarrow> u32" where
  "ivfpq_bits cmd = (if cf_pq_bits cmd \<noteq> 0 then cf_pq_bits cmd else 8)"

definition ivfpq_needed :: "CuvsCmdFrame \<Rightarrow> u64" where
  "ivfpq_needed cmd = cf_n_vecs cmd * ucast (ivfpq_dim cmd) * ucast (ivfpq_bits cmd div 8 + 1)"

definition persist_ivfpq ::
  "outside \<Rightarrow> ivfpq_lib \<Rightarrow> CuvsCmdFrame \<Rightarrow> handle \<Rightarrow> u64 list \<Rightarrow> daemon \<Rightarrow> bool \<times> daemon" where
  "persist_ivfpq out iv cmd h tids st =
    (let db = cf_db_oid cmd; idx = cf_index_oid cmd;
         fail = (\<lambda>s. (False, unlink_files db idx [F_tids_tmp, F_ivfpq_tmp] s));
         (rc, st1) = write_tids_atomic out (db, idx, F_tids_tmp) (sint (cf_n_vecs cmd)) (cf_dim cmd) (cf_metric cmd) tids st
     in if rc \<noteq> 0 then fail st1
        else case iv_serialize iv h of
          None \<Rightarrow> fail st1
        | Some img \<Rightarrow>
           (let st2 = st1\<lparr>d_files := (d_files st1)((db, idx, F_ivfpq_tmp) \<mapsto> img)\<rparr> in
            if \<not> o_rename_ok out (db, idx, F_tids) then fail st2
            else let st3 = rename_file db idx F_tids_tmp F_tids st2 in
              if \<not> o_rename_ok out (db, idx, F_ivfpq) then fail (unlink_files db idx [F_tids] st3)
              else (True, unlink_files db idx [F_cagra, F_stale] (rename_file db idx F_ivfpq_tmp F_ivfpq st3))))"

text \<open>Replacing a resident entry; its shard fields are left as they are.\<close>

definition swap_ivfpq :: "outside \<Rightarrow> CuvsCmdFrame \<Rightarrow> handle \<Rightarrow> u64 list \<Rightarrow> int \<Rightarrow> nat \<Rightarrow> daemon \<Rightarrow> daemon" where
  "swap_ivfpq out cmd h tids target_gpu i st =
    (let e = entry_at i st;
         st1 = gpu_free (e_ivfpq_handle e) (gpu_free (e_handle e) st);
         (e1, st2) = free_delta_cache e st1;
         (e2, st3) = free_main_bf_cache e1 st2;
         st4 = gpu_free (e_hnsw_idx e2) st3;
         e3 = e2\<lparr>e_hnsw_idx := None, e_handle := None, e_ivfpq_handle := Some h,
           e_ivfpq_n_vecs := sint (cf_n_vecs cmd), e_ivfpq_vram_bytes := ivfpq_needed cmd, e_tids := Some tids,
           e_dim := cf_dim cmd, e_metric := cf_metric cmd, e_n_vecs := sint (cf_n_vecs cmd),
           e_vram_bytes := ivfpq_needed cmd, e_gpu_device_id := dev_word target_gpu, e_last_search := d_now st,
           e_valid := True, e_stale := False, e_stale_since := 0, e_last_search_mode := 5\<rparr>;
         e4 = (reset_entry_stats e3)\<lparr>e_n_extended := 0, e_rev_tids := None, e_rev_item_ids := None\<rparr>
     in set_slot i (build_rev_tid_map out e4) st4)"

text \<open>A first build leaves the reverse map the slot had before when it cannot make a new one.\<close>

definition new_ivfpq_entry :: "outside \<Rightarrow> CuvsCmdFrame \<Rightarrow> handle \<Rightarrow> u64 list \<Rightarrow> int \<Rightarrow> daemon \<Rightarrow> IndexEntry" where
  "new_ivfpq_entry out cmd h tids target_gpu st =
    (let e = (g_indexes st ! g_n_indexes st)\<lparr>e_db_oid := cf_db_oid cmd, e_index_oid := cf_index_oid cmd,
           e_dim := cf_dim cmd, e_metric := cf_metric cmd, e_n_vecs := sint (cf_n_vecs cmd), e_handle := None,
           e_ivfpq_handle := Some h, e_ivfpq_n_vecs := sint (cf_n_vecs cmd), e_ivfpq_vram_bytes := ivfpq_needed cmd,
           e_tids := Some tids, e_vram_bytes := ivfpq_needed cmd, e_last_search := d_now st, e_valid := True,
           e_stale := False, e_stale_since := 0, e_shard_count := 0, e_shards := None,
           e_gpu_device_id := dev_word target_gpu, e_delta_idx := None, e_delta_tids := None, e_n_delta := 0,
           e_delta_generation := 0, e_delta_mtime := 0, e_delta_vram_bytes := 0, e_delta_vecs_host := None,
           e_delta_n_cached := 0, e_main_bf_idx := None, e_main_bf_n := 0, e_main_bf_vram_bytes := 0,
           e_main_bf_mtime := 0, e_main_bf_generation := 0, e_bf_precision := 0, e_hnsw_idx := None,
           e_warmup_state := WARMUP_HOT, e_last_search_mode := 5\<rparr>
     in build_rev_tid_map out (reset_entry_stats e))"

definition install_ivfpq :: "outside \<Rightarrow> CuvsCmdFrame \<Rightarrow> handle \<Rightarrow> u64 list \<Rightarrow> int \<Rightarrow> daemon \<Rightarrow> daemon" where
  "install_ivfpq out cmd h tids target_gpu st =
    (case find_index (cf_db_oid cmd) (cf_index_oid cmd) st of
       Some i \<Rightarrow> swap_ivfpq out cmd h tids target_gpu i st
     | None \<Rightarrow>
        (let st1 = (if length (g_indexes st) \<le> g_n_indexes st then snd (evict_lru out target_gpu st) else st)
         in if length (g_indexes st1) \<le> g_n_indexes st1 then gpu_free (Some h) st1
            else register_entry (new_ivfpq_entry out cmd h tids target_gpu st1) st1))"

text \<open>Under the mutex from the admission on. \<open>None\<close>: it reads behind the end of its mapping.\<close>

definition handle_build_ivfpq ::
  "outside \<Rightarrow> ivfpq_lib \<Rightarrow> build_env \<Rightarrow> CuvsCmdFrame \<Rightarrow> daemon \<Rightarrow> (reply \<times> daemon) option" where
  "handle_build_ivfpq out iv bn cmd st =
    (if \<not> bn_dir_ok bn then Some (send_error ''recv index_dir failed'', st)
     else if sint (cf_n_vecs cmd) < 1 \<or> cf_dim cmd = 0 then Some (send_error ''IVF-PQ build needs at least 1 vector'', st)
     else case map_corpus (bn\<lparr>bn_memfd := None\<rparr>) cmd of
       Inl e \<Rightarrow> Some (send_error e, st)
     | Inr (vecs, tids) \<Rightarrow>
        (let needed = ivfpq_needed cmd; target_gpu = pick_gpu_for_index out needed st in
         if target_gpu < 0 then Some (oom_reply ''IVF-PQ index too large for any GPU VRAM budget'', st)
         else let (rc, st1) = ensure_vram out needed target_gpu st in
           if rc < 0 then Some (oom_reply (exhausted_msg target_gpu), st1)
           else if payload_wraps cmd then None
           else if \<not> iv_build iv (d_live st1) vecs (unat (cf_n_vecs cmd)) cmd (ivfpq_bits cmd) (ivfpq_dim cmd) target_gpu
           then Some (send_error_code CUVS_STATUS_BUILD_FAILED ''cuvs_ivfpq_build failed'', st1)
           else let (h, st2) = gpu_alloc st1 in
             if \<not> bn_alloc bn ''tids''
             then Some (send_error_code CUVS_STATUS_BUILD_FAILED ''malloc tids failed'', gpu_free (Some h) st2)
             else let (ok, st3) = persist_ivfpq out iv cmd h tids st2 in
               if \<not> ok then Some (send_error_code CUVS_STATUS_PERSIST_FAILED ''IVF-PQ disk persist failed'', gpu_free (Some h) st3)
               else Some (status_reply CUVS_STATUS_OK, install_ivfpq out cmd h tids target_gpu st3)))"

section \<open>Searching an IVF-PQ index\<close>

definition ivfpq_missing :: "CuvsCmdFrame \<Rightarrow> string" where
  "ivfpq_missing cmd = ''IVF-PQ index '' @ dec_digits (unat (cf_db_oid cmd)) @ ''/''
     @ dec_digits (unat (cf_index_oid cmd)) @ '' not found''"

definition ivfpq_record :: "search_env \<Rightarrow> CuvsCmdFrame \<Rightarrow> int \<Rightarrow> int \<Rightarrow> nat \<Rightarrow> IndexEntry \<Rightarrow> IndexEntry" where
  "ivfpq_record en cmd now rc n e =
    (record_search_stat now (if rc = 0 then CUVS_STATUS_OK else CUVS_STATUS_ERROR) (en_latency_us en) None
      (e\<lparr>e_last_search := now, e_last_search_mode := 5\<rparr>))\<lparr>e_last_requested_k := cf_k cmd, e_last_returned_k := of_nat n\<rparr>"

definition handle_search_ivfpq ::
  "outside \<Rightarrow> ivfpq_lib \<Rightarrow> search_env \<Rightarrow> CuvsCmdFrame \<Rightarrow> daemon \<Rightarrow> reply \<times> daemon" where
  "handle_search_ivfpq out iv en cmd st =
    (let db = cf_db_oid cmd; idx = cf_index_oid cmd;
         (found, st1) = (case find_index db idx st of
           Some i \<Rightarrow> (Some i, st)
         | None \<Rightarrow> let (rc, s) = load_index out db idx st in (if rc = 0 then find_index db idx s else None, s))
     in case found of
          None \<Rightarrow> (send_error_code CUVS_STATUS_NOT_FOUND (ivfpq_missing cmd), st1)
        | Some i \<Rightarrow>
           (let e = entry_at i st1 in
            if e_ivfpq_handle e = None then (send_error_code CUVS_STATUS_NOT_FOUND (ivfpq_missing cmd), st1)
            else if cf_metric cmd \<noteq> e_metric e
            then (send_error_code CUVS_STATUS_METRIC_MISMATCH (metric_msg (e_metric e) (cf_metric cmd)), st1)
            else case map_query (en_can_map en) (en_shm en) (en_peer_uid en) (cf_shm_key cmd) (cf_dim cmd) of
              Inl msg \<Rightarrow> (send_error msg, st1)
            | Inr query \<Rightarrow>
               if cf_dim cmd \<noteq> e_dim e then (send_error_code CUVS_STATUS_DIM_MISMATCH (dim_msg (cf_dim cmd) (e_dim e)), st1)
               else let k = (if sint (cf_k cmd) \<le> 0 then 1 else nat (sint (cf_k cmd))) in
                 if \<not> (en_alloc en ''raw'' \<and> en_alloc en ''results'') then (send_error ''malloc failed'', st1)
                 else let (rc, raw) = iv_search iv (e_ivfpq_handle e) query k (if cf_n_probes cmd \<noteq> 0 then cf_n_probes cmd else 64)
                            (e_gpu_device_id e);
                          rs = (if rc = 0 then map (hit_result (entry_tids e)) (filter (in_range (e_n_vecs e)) (take k raw)) else []);
                          st2 = update_entry i (ivfpq_record en cmd (d_now st1) rc (length rs)) st1
                   in if rc \<noteq> 0 then (send_error_code CUVS_STATUS_ERROR ''IVF-PQ search failed'', st2)
                      else (results_reply (en_latency_us en) False rs, st2)))"

end
