(* ===== verification/Flat_Props.thy ===== *)
theory Flat_Props
  imports Build_Flat
begin

text \<open>
  What flat and IVF-PQ builds guarantee: handle ownership, the commit of a flat build and its crash
  points, the way from a build to the next exact search, the guards of an IVF-PQ search, and where
  the two differ from a CAGRA build.
\<close>

section \<open>Ownership\<close>

lemma shape_swap_flat:
  "\<exists>e'. swap_flat out cmd tids gpu i st = set_slot i e' (frees (opt_list (e_handle (entry_at i st)) @ opt_list (e_ivfpq_handle (entry_at i st))
      @ opt_list (e_delta_idx (entry_at i st)) @ opt_list (e_main_bf_idx (entry_at i st)) @ opt_list (e_hnsw_idx (entry_at i st))) st) \<and>
    wf_entry e' \<and> entry_handles e' = []"
  unfolding swap_flat_def Let_def free_delta_cache_def free_main_bf_cache_def prod.case
  by (intro exI conjI, rule arg_cong [where f = "set_slot i _"])
    (simp_all add: gpu_free_frees frees_append wf_entry_def plain_cagra_def is_sharded_def reset_entry_stats_def
      build_rev_tid_map_def entry_handles_def Let_def split: option.split)

lemma new_flat_entry_ok: "wf_entry (new_flat_entry out cmd tids gpu st)" "entry_handles (new_flat_entry out cmd tids gpu st) = []"
  by (simp_all add: new_flat_entry_def wf_entry_def plain_cagra_def is_sharded_def reset_entry_stats_def
      build_rev_tid_map_def entry_handles_def Let_def split: option.split)

definition not_sharded :: "u32 \<Rightarrow> u32 \<Rightarrow> daemon \<Rightarrow> bool" where
  "not_sharded db idx st \<longleftrightarrow> (\<forall>e \<in> set (live_entries st). entry_is db idx e \<longrightarrow> \<not> is_sharded e)"

lemma holds_install_flat:
  assumes "holds [] st" "not_sharded (cf_db_oid cmd) (cf_index_oid cmd) st"
  shows "holds [] (install_flat out cmd tids st)"
proof (cases "find_index (cf_db_oid cmd) (cf_index_oid cmd) st")
  case (Some i)
  note s = slot_wf [OF assms(1) Some]
  have ns: "\<not> is_sharded (entry_at i st)" using assms(2) s(3,4) by (auto simp: not_sharded_def)
  define gpu where "gpu = (if pick_gpu_for_index out 0 st < 0 then usable_gpu 0 st else pick_gpu_for_index out 0 st)"
  obtain e' where e': "swap_flat out cmd tids gpu i st = set_slot i e' (frees (opt_list (e_handle (entry_at i st))
      @ opt_list (e_ivfpq_handle (entry_at i st)) @ opt_list (e_delta_idx (entry_at i st))
      @ opt_list (e_main_bf_idx (entry_at i st)) @ opt_list (e_hnsw_idx (entry_at i st))) st)"
    "wf_entry e'" "entry_handles e' = []"
    using shape_swap_flat by blast
  have "holds [] (swap_flat out cmd tids gpu i st)"
    unfolding e'(1) by (rule holds_replace [OF assms(1) s(1) e'(2)]) (simp add: s(2) e'(3) ns entry_handles_def [of "entry_at i st"])
  then show ?thesis by (simp add: install_flat_def Some gpu_def Let_def)
next
  case None
  define gpu where "gpu = (if pick_gpu_for_index out 0 st < 0 then usable_gpu 0 st else pick_gpu_for_index out 0 st)"
  define st1 where "st1 = (if length (g_indexes st) \<le> g_n_indexes st then snd (evict_lru out gpu st) else st)"
  have h1: "holds [] st1" using assms(1) holds_evict by (simp add: st1_def)
  have "holds [] (register_entry (new_flat_entry out cmd tids gpu st1) st1)" if "g_n_indexes st1 < length (g_indexes st1)"
    by (rule holds_register [OF h1 that]) (simp_all add: new_flat_entry_ok)
  then show ?thesis
    using h1 unfolding install_flat_def Let_def None option.case gpu_def [symmetric] st1_def [symmetric]
    by (simp add: not_le)
qed

lemma same_registry_stage_flat: "same_registry st (snd (stage_flat out cmd vecs tids st))"
  by (auto simp: stage_flat_def Let_def case_prod_beta split: option.split)

lemma same_registry_commit_flat: "same_registry st (snd (commit_flat out cmd vecs tids st))"
  using same_registry_stage_flat [of st out cmd vecs tids] same_registry_tids [of "snd (stage_flat out cmd vecs tids st)" out]
  by (auto simp: commit_flat_def Let_def case_prod_beta
      intro!: same_registry_trans [OF _ same_registry_files(2)] same_registry_trans [OF _ same_registry_files(3)]
      elim: same_registry_trans)

lemma holds_build_flat:
  assumes "holds [] st" "rely (bn_meanwhile bn)"
    and "not_sharded (cf_db_oid cmd) (cf_index_oid cmd) (bn_meanwhile bn 0 (snd (commit_flat out cmd (fst c) (snd c) st)))"
    and "map_corpus bn cmd = Inr c"
  shows "holds [] (snd (handle_build_flat out bn cmd st))"
proof -
  obtain msg st1 where cm: "commit_flat out cmd (fst c) (snd c) st = (msg, st1)" by fastforce
  have h1: "holds [] st1"
    using holds_same [OF assms(1) same_registry_commit_flat] cm by (metis snd_conv)
  then have "holds [] (install_flat out cmd (snd c) (bn_meanwhile bn 0 st1))"
    using assms(2,3) cm by (intro holds_install_flat) (simp_all add: rely_def)
  then show ?thesis
    using assms(1,4) cm h1 by (auto simp: handle_build_flat_def case_prod_beta split: option.splits)
qed

lemma shape_swap_ivfpq:
  assumes "wf_entry (entry_at i st)"
  shows "\<exists>e'. swap_ivfpq out cmd h tids gpu i st = set_slot i e' (frees (opt_list (e_handle (entry_at i st)) @ opt_list (e_ivfpq_handle (entry_at i st))
      @ opt_list (e_delta_idx (entry_at i st)) @ opt_list (e_main_bf_idx (entry_at i st)) @ opt_list (e_hnsw_idx (entry_at i st))) st) \<and>
    wf_entry e' \<and> entry_handles e' = h # (if is_sharded (entry_at i st) then concat (map shard_handles (shard_list (entry_at i st))) else [])"
  unfolding swap_ivfpq_def Let_def free_delta_cache_def free_main_bf_cache_def prod.case
  by (intro exI conjI, rule arg_cong [where f = "set_slot i _"])
    (use assms in \<open>simp_all add: gpu_free_frees frees_append wf_entry_def plain_cagra_def is_sharded_def reset_entry_stats_def
      build_rev_tid_map_def entry_handles_def shard_list_def Let_def split: option.split\<close>)

lemma new_ivfpq_entry_ok:
  "wf_entry (new_ivfpq_entry out cmd h tids gpu st)" "entry_handles (new_ivfpq_entry out cmd h tids gpu st) = [h]"
  by (simp_all add: new_ivfpq_entry_def wf_entry_def plain_cagra_def is_sharded_def reset_entry_stats_def
      build_rev_tid_map_def entry_handles_def Let_def split: option.split)

lemma holds_install_ivfpq:
  assumes "holds [h] st"
  shows "holds [] (install_ivfpq out cmd h tids gpu st)"
proof (cases "find_index (cf_db_oid cmd) (cf_index_oid cmd) st")
  case (Some i)
  note s = slot_wf [OF assms Some]
  obtain e' where e': "swap_ivfpq out cmd h tids gpu i st = set_slot i e' (frees (opt_list (e_handle (entry_at i st))
      @ opt_list (e_ivfpq_handle (entry_at i st)) @ opt_list (e_delta_idx (entry_at i st))
      @ opt_list (e_main_bf_idx (entry_at i st)) @ opt_list (e_hnsw_idx (entry_at i st))) st)"
    "wf_entry e'" "entry_handles e' = h # (if is_sharded (entry_at i st) then concat (map shard_handles (shard_list (entry_at i st))) else [])"
    using shape_swap_ivfpq [OF s(5)] by blast
  have "holds [] (swap_ivfpq out cmd h tids gpu i st)"
    unfolding e'(1) by (rule holds_replace [OF assms s(1) e'(2)]) (simp add: s(2) e'(3) entry_handles_def [of "entry_at i st"])
  then show ?thesis by (simp add: install_ivfpq_def Some)
next
  case None
  define st1 where "st1 = (if length (g_indexes st) \<le> g_n_indexes st then snd (evict_lru out gpu st) else st)"
  have h1: "holds [h] st1" using assms holds_evict by (simp add: st1_def)
  have "holds [] (gpu_free (Some h) st1)"
    using holds_free [of "[]" "[h]" st1] h1 by (simp add: frees_def)
  moreover have "holds [] (register_entry (new_ivfpq_entry out cmd h tids gpu st1) st1)" if "g_n_indexes st1 < length (g_indexes st1)"
    by (rule holds_register [OF h1 that]) (simp_all add: new_ivfpq_entry_ok)
  ultimately show ?thesis
    unfolding install_ivfpq_def Let_def None option.case st1_def [symmetric] by (simp add: not_le)
qed

lemma same_registry_ivfpq: "same_registry st (snd (persist_ivfpq out iv cmd h tids st))"
  using same_registry_tids [of st out]
  by (auto simp: persist_ivfpq_def Let_def case_prod_beta split: option.split
      intro!: same_registry_trans [OF _ same_registry_files(2)] same_registry_trans [OF _ same_registry_files(3)]
        same_registry_trans [OF _ same_registry_files(1)])

lemma holds_build_ivfpq:
  assumes "holds [] st" "handle_build_ivfpq out iv bn cmd st = Some (r, st')"
  shows "holds [] st'"
proof -
  define needed target where "needed = ivfpq_needed cmd" and "target = pick_gpu_for_index out needed st"
  obtain rc st1 where ev: "ensure_vram out needed target st = (rc, st1)" by fastforce
  have h1: "holds [] st1" using holds_ensure [OF assms(1)] ev by (metis snd_conv)
  obtain h st2 where al: "gpu_alloc st1 = (h, st2)" by fastforce
  have h2: "holds [h] st2" using holds_alloc [OF h1] al by simp
  have fr: "holds [] (gpu_free (Some h) s)" if "holds [h] s" for s
    using holds_free [of "[]" "[h]" s] that by (simp add: frees_def)
  show ?thesis
  proof (cases "map_corpus (bn\<lparr>bn_memfd := None\<rparr>) cmd")
    case (Inl e)
    then show ?thesis using assms by (auto simp: handle_build_ivfpq_def split: if_splits)
  next
    case (Inr c)
    obtain ok st3 where p: "persist_ivfpq out iv cmd h (snd c) st2 = (ok, st3)" by fastforce
    have h3: "holds [h] st3" using holds_same [OF h2 same_registry_ivfpq] p by (metis snd_conv)
    show ?thesis
      using assms Inr h1 fr [OF h2] fr [OF h3] holds_install_ivfpq [OF h3]
      unfolding handle_build_ivfpq_def Let_def needed_def [symmetric] target_def [symmetric]
      by (auto simp: ev al p case_prod_beta split: if_splits)
  qed
qed

text \<open>
  C26. IVF-PQ builds, and flat builds of an index that is not resident with shards when its files are
  written, keep handle ownership: whatever fails, and whatever the other threads do while a flat build
  writes its files, no GPU object is leaked and none is freed twice. With shards resident a flat build
  leaks them: \<open>flat_build_leaks_shards\<close>.
\<close>

theorem other_builds_keep_handles:
  assumes "holds [] st" "handle_build_ivfpq out iv bn cmd st = Some (r, st')" "rely (bn_meanwhile bn)"
    and "\<forall>c. map_corpus bn cmd = Inr c \<longrightarrow>
      not_sharded (cf_db_oid cmd) (cf_index_oid cmd) (bn_meanwhile bn 0 (snd (commit_flat out cmd (fst c) (snd c) st)))"
  shows "holds [] st' \<and> holds [] (snd (handle_build_flat out bn cmd st))"
proof
  show "holds [] st'" by (rule holds_build_ivfpq [OF assms(1,2)])
  show "holds [] (snd (handle_build_flat out bn cmd st))"
  proof (cases "map_corpus bn cmd")
    case (Inl e)
    then show ?thesis using assms(1) by (simp add: handle_build_flat_def split: option.split)
  next
    case (Inr c)
    then show ?thesis using holds_build_flat [OF assms(1,3) _ Inr] assms(4) by blast
  qed
qed

text \<open>
  A flat build over an index that is resident with shards leaks them: their GPU objects stay
  allocated and no entry refers to them any more.
\<close>

theorem flat_build_leaks_shards:
  assumes "holds [] st" "find_index (cf_db_oid cmd) (cf_index_oid cmd) st = Some i" "is_sharded (entry_at i st)"
    and "s \<in> set (shard_list (entry_at i st))" "h \<in> set (shard_handles s)"
  shows "h \<in> set (d_live (install_flat out cmd tids st)) \<and>
    (\<forall>e \<in> set (live_entries (install_flat out cmd tids st)). h \<notin> set (entry_handles e))"
proof -
  let ?e = "entry_at i st"
  define gpu where "gpu = (if pick_gpu_for_index out 0 st < 0 then usable_gpu 0 st else pick_gpu_for_index out 0 st)"
  define rel where "rel = opt_list (e_handle ?e) @ opt_list (e_ivfpq_handle ?e) @ opt_list (e_delta_idx ?e)
    @ opt_list (e_main_bf_idx ?e) @ opt_list (e_hnsw_idx ?e)"
  obtain e' where e': "install_flat out cmd tids st = set_slot i e' (frees rel st)" "entry_handles e' = []"
    using shape_swap_flat [of out cmd tids gpu i st] by (auto simp: install_flat_def assms(2) gpu_def rel_def Let_def)
  have m: "mset (entry_handles ?e) = mset rel + mset [] + mset (concat (map shard_handles (shard_list ?e)))"
    using assms(3) by (simp add: entry_handles_def rel_def)
  show ?thesis
    unfolding e'(1) by (rule slot_leaks [OF assms(1,2) m]) (use assms(4,5) e'(2) in auto)
qed

end
