(* ===== verification/Flat_Commit.thy ===== *)
theory Flat_Commit
  imports Flat_Props
begin

text \<open>
  The commit of a flat build, from the request to the next exact search, and the requests an IVF-PQ
  build and search let through.
\<close>

section \<open>Writing and reading vectors\<close>

lemma vectors_write_read:
  assumes "length vecs = unat n * unat dim" "0 < sint n" "sint n \<le> CUVS_TIDS_MAX_VECS" "dim \<noteq> 0"
    and "unat dim \<le> CUVS_VECTORS_MAX_DIM" "written f = []" "mem (4 * length vecs)"
    and "cuvs_vectors_write f n dim metric gen vecs = (0, g)"
  shows "\<exists>h. cuvs_vectors_read mem (written g) = Some (h, vecs) \<and> vh_n_vecs h = n \<and> vh_dim h = dim \<and>
    vh_metric h = metric \<and> vh_base_tids_crc32 h = gen"
proof -
  let ?image = "concat (map (le_bytes 4) vecs)"
  define h where "h = \<lparr>vh_magic = CUVS_VECTORS_MAGIC, vh_version = CUVS_VECTORS_VERSION, vh_n_vecs = n,
    vh_dim = dim, vh_metric = metric, vh_body_crc32 = cuvs_crc32 ?image, vh_base_tids_crc32 = gen, vh_reserved = 0\<rparr>"
  have len: "length ?image = 4 * (unat n * unat dim)" using assms(1) by (simp add: wire)
  have g: "written g = vectors_header_bytes h @ ?image"
    using assms(6,8) len vectors_body_n [OF assms(2,3,5)]
    by (auto simp: cuvs_vectors_write_def Let_def h_def [symmetric] wire split: prod.splits if_splits)
       (auto simp: fwrite_def split: if_splits)
  have "vectors_header_ok mem h"
    using assms by (simp add: vectors_header_ok_def h_def)
  then show ?thesis
    using vectors_file.roundtrip [of mem h vecs "[]"] assms(1) g by (auto simp: h_def)
qed

section \<open>The commit of a flat build\<close>

definition flat_image :: "CuvsCmdFrame \<Rightarrow> u32 list \<Rightarrow> u64 list \<Rightarrow> bytes \<Rightarrow> bool" where
  "flat_image cmd vecs tids v \<longleftrightarrow>
    (\<exists>g r. cuvs_vectors_write \<lparr>written = [], room = r\<rparr> (cf_n_vecs cmd) (cf_dim cmd) (cf_metric cmd)
      (cuvs_crc32 (concat (map (le_bytes 8) tids))) vecs = (0, g) \<and> v = written g)"

definition flat_ops :: "bytes \<Rightarrow> bytes \<Rightarrow> dir_op list" where
  "flat_ops v f = [Create F_vectors_tmp v, Create F_tids_tmp f, Rename F_vectors_tmp F_vectors, Rename F_tids_tmp F_tids]"

text \<open>The files when the daemon dies after \<open>k\<close> of them.\<close>

definition flat_crash :: "nat \<Rightarrow> u32 \<Rightarrow> u32 \<Rightarrow> bytes \<Rightarrow> bytes \<Rightarrow> (fkey \<rightharpoonup> bytes) \<Rightarrow> (fkey \<rightharpoonup> bytes)" where
  "flat_crash k db idx v f fs = fold (run_dir_op db idx) (take k (flat_ops v f)) fs"

lemma flat_crash_early:
  assumes "k < 3" "x \<notin> {F_vectors_tmp, F_tids_tmp}"
  shows "flat_crash k db idx v f fs (db, idx, x) = fs (db, idx, x)"
proof -
  have "k = 0 \<or> k = 1 \<or> k = 2" using assms(1) by linarith
  then show ?thesis using assms(2) by (auto simp: flat_crash_def flat_ops_def)
qed

lemma flat_crash_renamed:
  "flat_crash 3 db idx v f fs (db, idx, x) = (if x = F_vectors then Some v else if x = F_vectors_tmp then None
    else if x = F_tids_tmp then Some f else fs (db, idx, x))"
  by (simp add: flat_crash_def flat_ops_def)

lemma flat_crash_done:
  "flat_crash 4 db idx v f fs (db, idx, x) = (if x = F_vectors then Some v else if x = F_tids then Some f
    else if x = F_vectors_tmp \<or> x = F_tids_tmp then None else fs (db, idx, x))"
  by (simp add: flat_crash_def flat_ops_def)

lemma commit_flat_outcome:
  assumes "commit_flat out cmd vecs tids st = (None, st1)" "db = cf_db_oid cmd" "idx = cf_index_oid cmd"
  shows "\<exists>v f. flat_image cmd vecs tids v \<and> tids_image cmd tids f \<and>
    st1 = unlink_files db idx [F_cagra, F_ivfpq, F_stale, F_shards] (st\<lparr>d_files := flat_crash 4 db idx v f (d_files st)\<rparr>)"
proof -
  obtain ok s1 where sg: "stage_flat out cmd vecs tids st = (ok, s1)" by fastforce
  have ok: "ok" using assms(1) sg by (cases ok) (auto simp: commit_flat_def Let_def)
  then obtain v where v: "flat_image cmd vecs tids v" "s1 = st\<lparr>d_files := (d_files st)((db, idx, F_vectors_tmp) \<mapsto> v)\<rparr>"
    using sg by (auto simp: stage_flat_def flat_image_def assms(2,3) Let_def case_prod_beta split: option.splits if_splits)
      (metis prod.collapse)
  obtain rc s2 where w: "write_tids_atomic out (db, idx, F_tids_tmp) (sint (cf_n_vecs cmd)) (cf_dim cmd) (cf_metric cmd) tids s1 = (rc, s2)"
    by fastforce
  have r: "rc = 0" "o_rename_ok out (db, idx, F_vectors)" "o_rename_ok out (db, idx, F_tids)"
    and st1: "st1 = unlink_files db idx [F_cagra, F_ivfpq, F_stale, F_shards]
      (rename_file db idx F_tids_tmp F_tids (rename_file db idx F_vectors_tmp F_vectors s2))"
    using assms(1) sg ok w by (auto simp: commit_flat_def assms(2,3) [symmetric] Let_def split: if_splits)
  obtain f where f: "s2 = s1\<lparr>d_files := (d_files s1)((db, idx, F_tids_tmp) \<mapsto> f)\<rparr>" "tids_image cmd tids f"
    using tids_written [OF w] r(1) by (auto simp: tids_image_def)
  show ?thesis
    using v f by (intro exI [of _ v] exI [of _ f]) (simp add: st1 rename_file_def flat_crash_def flat_ops_def)
qed

lemma flat_source:
  assumes "flat_image cmd vecs tids v" "corpus_ok out cmd tids" "length vecs = unat (cf_n_vecs cmd) * unat (cf_dim cmd)"
    and "unat (cf_dim cmd) \<le> CUVS_VECTORS_MAX_DIM" "mem (4 * length vecs)"
  shows "\<exists>h. cuvs_vectors_read mem v = Some (h, vecs) \<and> vh_n_vecs h = cf_n_vecs cmd \<and> vh_dim h = cf_dim cmd \<and>
    vh_metric h = cf_metric cmd \<and> vh_base_tids_crc32 h = cuvs_crc32 (concat (map (le_bytes 8) tids))"
proof -
  obtain g r where "cuvs_vectors_write \<lparr>written = [], room = r\<rparr> (cf_n_vecs cmd) (cf_dim cmd) (cf_metric cmd)
      (cuvs_crc32 (concat (map (le_bytes 8) tids))) vecs = (0, g)" "v = written g"
    using assms(1) by (auto simp: flat_image_def)
  moreover from this have "\<exists>h. cuvs_vectors_read mem (written g) = Some (h, vecs) \<and> vh_n_vecs h = cf_n_vecs cmd \<and>
      vh_dim h = cf_dim cmd \<and> vh_metric h = cf_metric cmd \<and> vh_base_tids_crc32 h = cuvs_crc32 (concat (map (le_bytes 8) tids))"
    using assms by (intro vectors_write_read) (simp_all add: corpus_ok_def)
  ultimately show ?thesis by simp
qed

lemma tids_image_header:
  assumes "tids_image cmd tids f" "corpus_ok out cmd tids"
  shows "\<exists>hdr. cuvs_tids_read (o_mem out) f = Some (hdr, tids) \<and> th_n_vecs hdr = cf_n_vecs cmd \<and>
    th_dim hdr = cf_dim cmd \<and> th_metric hdr = cf_metric cmd \<and> 32 \<le> length f \<and> tids_header_of (take 32 f) = hdr \<and>
    th_magic hdr = CUVS_TIDS_MAGIC \<and> th_body_crc32 hdr = cuvs_crc32 (concat (map (le_bytes 8) tids))"
proof -
  obtain g r where "cuvs_tids_write \<lparr>written = [], room = r\<rparr> (cf_n_vecs cmd) (cf_dim cmd) (cf_metric cmd) tids = (0, g)"
    "f = written g"
    using assms(1) by (auto simp: tids_image_def)
  then obtain h where h: "cuvs_tids_read (o_mem out) f = Some (h, tids)" "th_n_vecs h = cf_n_vecs cmd"
    "th_dim h = cf_dim cmd" "th_metric h = cf_metric cmd" "th_body_crc32 h = cuvs_crc32 (concat (map (le_bytes 8) tids))"
    using tids_write_read [of tids "cf_n_vecs cmd" 0 "\<lparr>written = [], room = r\<rparr>" "o_mem out" "cf_dim cmd" "cf_metric cmd" g "[]"]
      assms(2) by (auto simp: corpus_ok_def)
  obtain hb body rest where "f = hb @ body @ rest" "length hb = 32" "h = tids_header_of hb" "tids_header_ok (o_mem out) h"
    using tids_file.parts [OF h(1)] by metis
  then show ?thesis using h by (auto simp: tids_header_ok_def)
qed

lemma load_flat_committed:
  assumes "d_files st (db, idx, F_tids) = Some f" "cuvs_tids_read (o_mem out) f = Some (hdr, tids)" "th_dim hdr \<noteq> 0"
    and "d_files st (db, idx, F_shards) = None" "d_files st (db, idx, F_cagra) = None" "d_files st (db, idx, F_ivfpq) = None"
    and "d_files st (db, idx, F_vectors) \<noteq> None" "g_n_indexes st < length (g_indexes st)"
  shows "\<exists>st' e. load_index out db idx st = (0, st') \<and> live_entries st' = live_entries st @ [e] \<and>
    describes db idx hdr tids (d_files st (db, idx, F_stale) \<noteq> None) e \<and> e_is_flat e \<and> d_files st' = d_files st"
proof -
  define gpu where "gpu = (if pick_gpu_for_index out 0 st < 0 then usable_gpu 0 st else pick_gpu_for_index out 0 st)"
  define e where "e = flat_entry out db idx hdr tids gpu st"
  have l: "load_index out db idx st = (0, register_entry e st)"
    unfolding load_index_def assms(1,2) option.case prod.case load_index_sharded_def assms(4)
    using assms(3,5-8) by (auto simp: load_flat_def e_def gpu_def Let_def)
  have "live_entries (register_entry e st) = live_entries st @ [e]" using assms(8) by (rule register_live)
  moreover have "describes db idx hdr tids (d_files st (db, idx, F_stale) \<noteq> None) e" "e_is_flat e"
    by (simp_all add: e_def flat_entry_def entry_parts describes_def)
  ultimately show ?thesis using l by (auto simp: register_entry_def set_slot_def)
qed

text \<open>
  C24. From a flat build to exact search after a restart. Once a flat build has committed, any daemon
  that finds its files loads a flat entry with the TIDs of the build, and the source of its exact
  search yields exactly the vectors of the build: no file of an earlier build can be taken instead.
\<close>

theorem flat_survives_restart:
  assumes "commit_flat out cmd vecs tids st = (None, st1)" "corpus_ok out cmd tids"
    and "length vecs = unat (cf_n_vecs cmd) * unat (cf_dim cmd)" "unat (cf_dim cmd) \<le> CUVS_VECTORS_MAX_DIM"
    and "o_mem out (4 * length vecs)" "db = cf_db_oid cmd" "idx = cf_index_oid cmd"
    and "\<And>x. d_files st2 (db, idx, x) = d_files st1 (db, idx, x)" "g_n_indexes st2 < length (g_indexes st2)"
  shows "\<exists>st3 e v h. load_index out db idx st2 = (0, st3) \<and> live_entries st3 = live_entries st2 @ [e] \<and>
    entry_is db idx e \<and> e_is_flat e \<and> e_tids e = Some tids \<and> e_n_vecs e = sint (cf_n_vecs cmd) \<and> \<not> e_stale e \<and>
    d_files st3 (db, idx, F_vectors) = Some v \<and>
    vectors_source (o_mem out) v (d_files st3 (db, idx, F_tids)) e = Some (h, vecs)"
proof -
  obtain v f where vf: "flat_image cmd vecs tids v" "tids_image cmd tids f"
    "st1 = unlink_files db idx [F_cagra, F_ivfpq, F_stale, F_shards] (st\<lparr>d_files := flat_crash 4 db idx v f (d_files st)\<rparr>)"
    using commit_flat_outcome [OF assms(1,6,7)] by blast
  have fs: "d_files st2 (db, idx, F_tids) = Some f" "d_files st2 (db, idx, F_vectors) = Some v"
    "d_files st2 (db, idx, F_cagra) = None" "d_files st2 (db, idx, F_ivfpq) = None"
    "d_files st2 (db, idx, F_shards) = None" "d_files st2 (db, idx, F_stale) = None"
    by (simp_all add: assms(8) vf(3) unlink_files_def flat_crash_done)
  obtain hdr where hdr: "cuvs_tids_read (o_mem out) f = Some (hdr, tids)" "th_n_vecs hdr = cf_n_vecs cmd"
    "th_dim hdr = cf_dim cmd" "th_metric hdr = cf_metric cmd" "32 \<le> length f" "tids_header_of (take 32 f) = hdr"
    "th_magic hdr = CUVS_TIDS_MAGIC" "th_body_crc32 hdr = cuvs_crc32 (concat (map (le_bytes 8) tids))"
    using tids_image_header [OF vf(2) assms(2)] by blast
  obtain h where h: "cuvs_vectors_read (o_mem out) v = Some (h, vecs)" "vh_n_vecs h = cf_n_vecs cmd" "vh_dim h = cf_dim cmd"
    "vh_metric h = cf_metric cmd" "vh_base_tids_crc32 h = cuvs_crc32 (concat (map (le_bytes 8) tids))"
    using flat_source [OF vf(1) assms(2-4), of "o_mem out"] assms(5) by blast
  have nz: "th_dim hdr \<noteq> 0" using assms(2) hdr(3) by (simp add: corpus_ok_def)
  obtain st3 e where e: "load_index out db idx st2 = (0, st3)" "live_entries st3 = live_entries st2 @ [e]"
    "describes db idx hdr tids (d_files st2 (db, idx, F_stale) \<noteq> None) e" "e_is_flat e" "d_files st3 = d_files st2"
    using load_flat_committed [OF fs(1) hdr(1) nz fs(5,3,4) _ assms(9)] fs(2) by blast
  have "vectors_source (o_mem out) v (d_files st3 (db, idx, F_tids)) e = Some (h, vecs)"
    using e(3) h hdr by (simp add: vectors_source_def e(5) fs(1) describes_def not_less)
  then show ?thesis using e fs hdr by (auto simp: describes_def)
qed

text \<open>
  C25. A torn flat commit is recognised. Before the first rename a crash leaves the pair of
  \<open>.vectors\<close> and \<open>.tids\<close> of the old build; between the two renames it leaves the new
  \<open>.vectors\<close> beside the old \<open>.tids\<close>, and exact search refuses them, for every entry,
  unless the two builds' TIDs have the same checksum.
\<close>

theorem flat_torn_commit_refused:
  assumes "commit_flat out cmd vecs tids st = (None, st1)" "corpus_ok out cmd tids"
    and "length vecs = unat (cf_n_vecs cmd) * unat (cf_dim cmd)" "unat (cf_dim cmd) \<le> CUVS_VECTORS_MAX_DIM"
    and "db = cf_db_oid cmd" "idx = cf_index_oid cmd" "d_files st (db, idx, F_tids) = Some old"
    and "th_body_crc32 (tids_header_of (take 32 old)) \<noteq> cuvs_crc32 (concat (map (le_bytes 8) tids))"
  shows "\<exists>v f. d_files st1 = d_files (unlink_files db idx [F_cagra, F_ivfpq, F_stale, F_shards]
        (st\<lparr>d_files := flat_crash 4 db idx v f (d_files st)\<rparr>)) \<and>
    (\<forall>k. let fs = flat_crash k db idx v f (d_files st) in
      (k < 3 \<longrightarrow> fs (db, idx, F_vectors) = d_files st (db, idx, F_vectors) \<and> fs (db, idx, F_tids) = Some old) \<and>
      (k = 3 \<longrightarrow> fs (db, idx, F_vectors) = Some v \<and> (\<forall>mem e. vectors_source mem v (fs (db, idx, F_tids)) e = None)))"
proof -
  obtain v f where vf: "flat_image cmd vecs tids v" "tids_image cmd tids f"
    "st1 = unlink_files db idx [F_cagra, F_ivfpq, F_stale, F_shards] (st\<lparr>d_files := flat_crash 4 db idx v f (d_files st)\<rparr>)"
    using commit_flat_outcome [OF assms(1,5,6)] by blast
  have "vectors_source mem v (Some old) e = None" for mem e
  proof (cases "cuvs_vectors_read mem v")
    case None
    then show ?thesis by (simp add: vectors_source_def)
  next
    case (Some r)
    obtain h vs where r: "r = (h, vs)" by fastforce
    obtain hb body rest where b: "v = hb @ body @ rest" "length hb = 40" "h = vectors_header_of hb"
      using vectors_file.parts [OF Some [unfolded r]] by metis
    obtain h' where "cuvs_vectors_read (\<lambda>_. True) v = Some (h', vecs)"
      "vh_base_tids_crc32 h' = cuvs_crc32 (concat (map (le_bytes 8) tids))"
      using flat_source [OF vf(1) assms(2-4), of "\<lambda>_. True"] by blast
    moreover obtain hb' body' rest' where "v = hb' @ body' @ rest'" "length hb' = 40" "h' = vectors_header_of hb'"
      using vectors_file.parts [OF calculation(1)] by metis
    ultimately have "vh_base_tids_crc32 h = cuvs_crc32 (concat (map (le_bytes 8) tids))"
      using b by (metis append_eq_append_conv)
    then show ?thesis
      using assms(8) Some r by (auto simp: vectors_source_def Let_def)
  qed
  then show ?thesis
    using vf(3) assms(7)
    by (intro exI [of _ v] exI [of _ f]) (auto simp: Let_def flat_crash_early flat_crash_renamed)
qed

section \<open>Payload sizes\<close>

lemma per_vec_unat: "unat (ucast (dim :: u32) * 4 + 8 :: u64) = unat dim * 4 + 8"
proof -
  have "unat dim < 2 ^ 32" using unsigned_less [of dim] by simp
  then have "unat (ucast dim * 4 :: u64) = unat dim * 4"
    by (subst unat_mult_small) (simp_all add: unat_ucast_u32)
  with \<open>unat dim < 2 ^ 32\<close> show ?thesis by (subst unat_add_small) simp_all
qed

text \<open>The check of the other builds refuses exactly the payloads whose size does not fit in 64 bits.\<close>

lemma check_payload_exact:
  assumes "1 \<le> sint (cf_n_vecs cmd)" "cf_dim cmd \<noteq> 0"
  shows "check_payload 1 few overflow cmd = (if payload_wraps cmd then Some overflow else None)"
proof -
  define p where "p = unat (cf_dim cmd) * 4 + 8"
  have m: "unat (- 1 :: u64) = 2 ^ 64 - 1" by (simp add: unsigned_minus_1_eq_mask mask_eq_exp_minus_1)
  have "cf_n_vecs cmd > SIZE_MAX div (ucast (cf_dim cmd) * 4 + 8) \<longleftrightarrow> (2 ^ 64 - 1) div p < unat (cf_n_vecs cmd)"
    by (simp add: word_less_nat_alt unat_div per_vec_unat p_def SIZE_MAX_def m)
  also have "\<dots> \<longleftrightarrow> 2 ^ 64 - 1 < unat (cf_n_vecs cmd) * p"
    by (metis (no_types, lifting) add_gr_0 div_less_iff_less_mult p_def zero_less_numeral)
  finally show ?thesis
    using assms by (simp add: check_payload_def payload_wraps_def p_def Let_def)
qed

text \<open>
  An unchecked size. A request whose payload size does not fit in 64 bits is refused by a flat
  build; an IVF-PQ build accepts it, maps the wrapped size, and reads behind the end of the mapping.
\<close>

theorem ivfpq_payload_unchecked:
  assumes "payload_wraps cmd" "1 \<le> sint (cf_n_vecs cmd)" "cf_dim cmd \<noteq> 0" "bn_dir_ok bn"
    and "map_corpus (bn\<lparr>bn_memfd := None\<rparr>) cmd = Inr c" "0 \<le> pick_gpu_for_index out (ivfpq_needed cmd) st"
    and "fst (ensure_vram out (ivfpq_needed cmd) (pick_gpu_for_index out (ivfpq_needed cmd) st) st) = 0"
  shows "handle_build_flat out bn cmd st = (send_error ''build payload size overflow'', st)"
    and "handle_build_ivfpq out iv bn cmd st = None"
  using assms check_payload_exact [OF assms(2,3)]
  by (simp_all add: handle_build_flat_def handle_build_ivfpq_def Let_def case_prod_beta)

section \<open>Searching an IVF-PQ index\<close>

text \<open>
  What an IVF-PQ search may answer: rows of an entry of that index, with its metric and dimension,
  at most as many as asked for (one at least).
\<close>

theorem ivfpq_search_guarded:
  assumes "handle_search_ivfpq out iv en cmd st = ((hdr, rs), st')" "rh_status hdr = CUVS_STATUS_OK"
  shows "\<exists>s i. (s = st \<or> s = snd (load_index out (cf_db_oid cmd) (cf_index_oid cmd) st)) \<and>
    find_index (cf_db_oid cmd) (cf_index_oid cmd) s = Some i \<and> e_metric (entry_at i s) = cf_metric cmd \<and>
    e_dim (entry_at i s) = cf_dim cmd \<and> e_ivfpq_handle (entry_at i s) \<noteq> None \<and>
    length rs \<le> nat (max 1 (sint (cf_k cmd))) \<and>
    (\<forall>r \<in> set rs. \<exists>j < nat (e_n_vecs (entry_at i s)). r_tid r = entry_tids (entry_at i s) ! j)"
proof -
  define p where "p = (case find_index (cf_db_oid cmd) (cf_index_oid cmd) st of
      Some i \<Rightarrow> (Some i, st)
    | None \<Rightarrow> let (rc, s) = load_index out (cf_db_oid cmd) (cf_index_oid cmd) st
        in (if rc = 0 then find_index (cf_db_oid cmd) (cf_index_oid cmd) s else None, s))"
  obtain found s where fs: "p = (found, s)" by fastforce
  note h = assms(1) [unfolded handle_search_ivfpq_def Let_def p_def [unfolded Let_def, symmetric], unfolded fs prod.case]
  have ne: "CUVS_STATUS_OK \<noteq> CUVS_STATUS_NOT_FOUND" "CUVS_STATUS_OK \<noteq> CUVS_STATUS_METRIC_MISMATCH"
    "CUVS_STATUS_OK \<noteq> CUVS_STATUS_DIM_MISMATCH" "CUVS_STATUS_OK \<noteq> CUVS_STATUS_ERROR"
    by (simp_all add: reply_codes)
  obtain i where i: "found = Some i"
    using h assms(2) by (cases found) (auto simp: send_error_code_def ne [symmetric])
  have s: "s = st \<or> s = snd (load_index out (cf_db_oid cmd) (cf_index_oid cmd) st)"
    "find_index (cf_db_oid cmd) (cf_index_oid cmd) s = Some i"
    using fs i by (auto simp: p_def Let_def case_prod_beta split: option.splits if_splits)
  define k where "k = (if sint (cf_k cmd) \<le> 0 then 1 else nat (sint (cf_k cmd)))"
  have "e_metric (entry_at i s) = cf_metric cmd \<and> e_dim (entry_at i s) = cf_dim cmd \<and> e_ivfpq_handle (entry_at i s) \<noteq> None \<and>
    (\<exists>raw. rs = map (hit_result (entry_tids (entry_at i s))) (filter (in_range (e_n_vecs (entry_at i s))) (take k raw)))"
    using h [folded k_def] assms(2) unfolding i option.case
    by (auto simp: send_error_code_def send_error_def results_reply_def ne [symmetric] case_prod_beta
        simp del: not_None_eq split: if_splits sum.splits)
  then obtain raw where r: "e_metric (entry_at i s) = cf_metric cmd" "e_dim (entry_at i s) = cf_dim cmd"
    "e_ivfpq_handle (entry_at i s) \<noteq> None"
    "rs = map (hit_result (entry_tids (entry_at i s))) (filter (in_range (e_n_vecs (entry_at i s))) (take k raw))"
    by blast
  have "length rs \<le> k" unfolding r(4) by (metis length_map length_filter_le length_take min.cobounded2 le_trans)
  then have "length rs \<le> nat (max 1 (sint (cf_k cmd)))" by (simp add: k_def split: if_splits)
  moreover have "\<forall>r \<in> set rs. \<exists>j < nat (e_n_vecs (entry_at i s)). r_tid r = entry_tids (entry_at i s) ! j"
    unfolding r(4) by (auto simp: hit_result_def in_range_def intro!: exI)
  ultimately show ?thesis using s r(1-3) by blast
qed

text \<open>
  An IVF-PQ search does not look at the staleness mark: its reply on a stale index is the one on a
  fresh index, where a search of a CAGRA index is refused.
\<close>

theorem ivfpq_search_ignores_stale:
  assumes "find_index (cf_db_oid cmd) (cf_index_oid cmd) st = Some i" "g_n_indexes st \<le> length (g_indexes st)"
  shows "fst (handle_search_ivfpq out iv en cmd (update_entry i (\<lambda>e. e\<lparr>e_stale := b\<rparr>) st))
    = fst (handle_search_ivfpq out iv en cmd st)"
proof -
  note f = find_index_live [OF assms]
  have lt: "i < length (g_indexes st)" using f assms(2) by linarith
  define st' where "st' = update_entry i (\<lambda>e. e\<lparr>e_stale := b\<rparr>) st"
  have slot: "slot_of P (xs[j := x]) = slot_of P xs" if "j < length xs" "P x = P (xs ! j)" for P xs j and x :: IndexEntry
    using that by (induction xs arbitrary: j) (auto simp: nth_Cons split: nat.splits)
  have live: "live_entries st' = (live_entries st)[i := (entry_at i st)\<lparr>e_stale := b\<rparr>]"
    by (simp add: st'_def live_entries_def update_entry_def set_slot_def take_update_swap)
  have "find_index (cf_db_oid cmd) (cf_index_oid cmd) st' = Some i"
    using assms(1) f lt unfolding find_index_def live
    by (subst slot) (auto simp: live_entries_def entry_is_def)
  moreover have e: "entry_at i st' = (entry_at i st)\<lparr>e_stale := b\<rparr>" "d_now st' = d_now st"
    using lt by (simp_all add: st'_def update_entry_def set_slot_def)
  ultimately have "fst (handle_search_ivfpq out iv en cmd st') = fst (handle_search_ivfpq out iv en cmd st)"
    using assms(1)
    by (simp add: handle_search_ivfpq_def Let_def case_prod_beta entry_tids_def e split: sum.split)
  then show ?thesis by (simp add: st'_def)
qed

end
