(* ===== verification/Flat_Witness.thy ===== *)
theory Flat_Witness
  imports Flat_Commit
begin

text \<open>
  Concrete flat and IVF-PQ builds and searches: the instances at which their properties are
  evaluated.
\<close>

section \<open>Witnesses\<close>

text \<open>The corpus of two rows in an object that the client owns, for the builds of the sample frame.\<close>

definition shm_build :: build_env where
  "shm_build = quiet_build\<lparr>bn_memfd := None, bn_shm := (\<lambda>_. Some \<lparr>so_owner = 0, so_bytes = replicate 24 0\<rparr>)\<rparr>"

definition plain_ivfpq :: ivfpq_lib where
  "plain_ivfpq = \<lparr>iv_build = \<lambda>_ _ _ _ _ _ _. True, iv_serialize = \<lambda>_. Some [4],
     iv_search = \<lambda>_ _ k _ _. (0, take k [(1, 0), (0, 3)])\<rparr>"

lemma build_frame_fits: "\<not> payload_wraps build_frame"
  by (simp add: payload_wraps_def)

lemma sample_ivfpq_returns: "handle_build_ivfpq calm_outside plain_ivfpq shm_build build_frame empty_run \<noteq> None"
  using build_frame_fits
  by (simp add: handle_build_ivfpq_def Let_def case_prod_beta shm_build_def quiet_build_def split: sum.split)

theorem other_builds_keep_handles_witness:
  "\<exists>r st'. handle_build_ivfpq calm_outside plain_ivfpq shm_build build_frame empty_run = Some (r, st') \<and> holds [] st' \<and>
    holds [] (snd (handle_build_flat calm_outside shm_build build_frame empty_run))"
proof -
  obtain r st' where b: "handle_build_ivfpq calm_outside plain_ivfpq shm_build build_frame empty_run = Some (r, st')"
    using sample_ivfpq_returns by fast
  have m: "bn_meanwhile shm_build = (\<lambda>_ st. st)" by (simp add: shm_build_def quiet_build_def)
  have "live_entries (snd (commit_flat calm_outside build_frame vecs tids empty_run)) = []" for vecs tids
    using same_registry_live [OF same_registry_commit_flat, of calm_outside build_frame vecs tids empty_run]
    by (simp add: live_entries_def empty_run_def idle_daemon_def)
  then have ns: "\<forall>c. map_corpus shm_build build_frame = Inr c \<longrightarrow> not_sharded (cf_db_oid build_frame) (cf_index_oid build_frame)
      (bn_meanwhile shm_build 0 (snd (commit_flat calm_outside build_frame (fst c) (snd c) empty_run)))"
    by (simp add: m not_sharded_def)
  have "rely (bn_meanwhile shm_build)" by (simp add: m rely_def)
  from other_builds_keep_handles [OF committing_ok(2) b this ns] b show ?thesis by blast
qed

text \<open>An index resident with two shards.\<close>

definition sharded_run :: daemon where
  "sharded_run = idle_daemon\<lparr>
     g_indexes := [zero_entry\<lparr>e_db_oid := 1, e_index_oid := 12, e_dim := 1, e_n_vecs := 2, e_tids := Some [7, 8],
       e_valid := True, e_shard_count := 2, e_shards := Some [zero_shard\<lparr>se_handle := Some 1, se_valid := True\<rparr>,
         zero_shard\<lparr>se_handle := Some 2, se_valid := True\<rparr>]\<rparr>],
     g_n_indexes := 1, d_live := [1, 2], d_next := 3\<rparr>"

theorem flat_build_leaks_shards_witness:
  "1 \<in> set (d_live (install_flat calm_outside build_frame [5, 6] sharded_run)) \<and>
   filter (\<lambda>e. 1 \<in> set (entry_handles e)) (live_entries (install_flat calm_outside build_frame [5, 6] sharded_run)) = []"
proof -
  have h: "holds [] sharded_run"
    by (simp add: holds_def owns_def fresh_def sharded_run_def idle_daemon_def live_entries_def entry_handles_def
        wf_entry_def plain_cagra_def is_sharded_def shard_list_def shard_handles_def zero_entry_def zero_shard_def)
  have f: "find_index (cf_db_oid build_frame) (cf_index_oid build_frame) sharded_run = Some 0"
    "is_sharded (entry_at 0 sharded_run)"
    by (simp_all add: find_index_def sharded_run_def idle_daemon_def live_entries_def entry_is_def is_sharded_def)
  have s: "zero_shard\<lparr>se_handle := Some 1, se_valid := True\<rparr> \<in> set (shard_list (entry_at 0 sharded_run))"
    "1 \<in> set (shard_handles (zero_shard\<lparr>se_handle := Some 1, se_valid := True\<rparr>))"
    by (simp_all add: sharded_run_def shard_list_def shard_handles_def numeral_2_eq_2)
  show ?thesis using flat_build_leaks_shards [OF h f s] by (auto simp: filter_empty_conv)
qed

lemma sample_flat_commit: "fst (commit_flat calm_outside build_frame [5, 6] [7, 8] st) = None"
proof -
  have "fst (stage_flat calm_outside build_frame [5, 6] [7, 8] st)"
    by (simp add: stage_flat_def calm_outside_def cuvs_vectors_write_def fwrite_def Let_def vectors_hdr.length_enc wire)
  moreover obtain rc s where "write_tids_atomic calm_outside (1, 12, F_tids_tmp) 2 1 0 [7, 8]
      (snd (stage_flat calm_outside build_frame [5, 6] [7, 8] st)) = (rc, s)"
    by fastforce
  moreover from this have "rc = 0" by (rule sample_write)
  ultimately show ?thesis by (simp add: commit_flat_def case_prod_beta Let_def) (simp add: calm_outside_def)
qed

lemma sample_vectors: "length [5 :: u32, 6] = unat (cf_n_vecs build_frame) * unat (cf_dim build_frame)"
  "unat (cf_dim build_frame) \<le> CUVS_VECTORS_MAX_DIM" "o_mem calm_outside n"
  by (simp_all add: CUVS_VECTORS_MAX_DIM_def calm_outside_def)

theorem flat_survives_restart_witness:
  "\<exists>st1 st3 e v h. commit_flat calm_outside build_frame [5, 6] [7, 8] committing = (None, st1) \<and>
    load_index calm_outside 1 12 (empty_run\<lparr>d_files := d_files st1\<rparr>) = (0, st3) \<and> live_entries st3 = [e] \<and>
    e_is_flat e \<and> e_tids e = Some [7, 8] \<and>
    vectors_source (\<lambda>_. True) v (d_files st3 (1, 12, F_tids)) e = Some (h, [5, 6])"
proof -
  obtain st1 where c: "commit_flat calm_outside build_frame [5, 6] [7, 8] committing = (None, st1)"
    using sample_flat_commit [of committing] by (metis prod.collapse)
  have l: "live_entries (empty_run\<lparr>d_files := d_files st1\<rparr>) = []"
    "g_n_indexes (empty_run\<lparr>d_files := d_files st1\<rparr>) < length (g_indexes (empty_run\<lparr>d_files := d_files st1\<rparr>))"
    "o_mem calm_outside = (\<lambda>_. True)"
    by (simp_all add: live_entries_def empty_run_def idle_daemon_def calm_outside_def)
  show ?thesis
    using flat_survives_restart [OF c sample_corpus sample_vectors(1,2) sample_vectors(3) _ _ _ l(2), of 1 12] c l by auto
qed

theorem flat_torn_commit_refused_witness:
  "\<exists>old v f. flat_crash 3 1 12 v f [(1, 12, F_tids) \<mapsto> old] (1, 12, F_vectors) = Some v \<and>
    (\<forall>mem e. vectors_source mem v (Some old) e = None)"
proof -
  define c where "c = cuvs_crc32 (concat (map (le_bytes 8) [7, 8 :: u64]))"
  define old where "old = the (sample_tids (c + 1))"
  define st where "st = committing\<lparr>d_files := [(1, 12, F_tids) \<mapsto> old]\<rparr>"
  obtain st1 where cm: "commit_flat calm_outside build_frame [5, 6] [7, 8] st = (None, st1)"
    using sample_flat_commit [of st] by (metis prod.collapse)
  have "d_files st (1, 12, F_tids) = Some old" by (simp add: st_def)
  moreover have "th_body_crc32 (tids_header_of (take 32 old)) \<noteq> cuvs_crc32 (concat (map (le_bytes 8) [7, 8 :: u64]))"
    unfolding c_def [symmetric] by (simp add: old_def sample_tids_def tids_hdr.length_enc tids_hdr.dec_enc)
  ultimately obtain v f where "\<forall>k. let fs = flat_crash k 1 12 v f (d_files st) in
      (k < 3 \<longrightarrow> fs (1, 12, F_vectors) = d_files st (1, 12, F_vectors) \<and> fs (1, 12, F_tids) = Some old) \<and>
      (k = 3 \<longrightarrow> fs (1, 12, F_vectors) = Some v \<and> (\<forall>mem e. vectors_source mem v (fs (1, 12, F_tids)) e = None))"
    using flat_torn_commit_refused [OF cm sample_corpus sample_vectors(1,2), of 1 12 old] by auto
  from this [rule_format, of 3] show ?thesis
    by (auto simp: Let_def st_def flat_crash_renamed)
qed

definition huge_frame :: CuvsCmdFrame where
  "huge_frame = build_frame\<lparr>cf_n_vecs := 0x2000000000000001, cf_dim := 2, cf_pq_dim := 8, cf_pq_bits := 8\<rparr>"

theorem ivfpq_payload_unchecked_witness:
  "handle_build_flat calm_outside shm_build huge_frame empty_run = (send_error ''build payload size overflow'', empty_run) \<and>
   handle_build_ivfpq calm_outside plain_ivfpq shm_build huge_frame empty_run = None"
proof -
  have w: "payload_wraps huge_frame" "1 \<le> sint (cf_n_vecs huge_frame)" "cf_dim huge_frame \<noteq> 0"
    by (simp_all add: payload_wraps_def huge_frame_def)
  have n: "ivfpq_needed huge_frame = 16"
    by (simp add: ivfpq_needed_def ivfpq_dim_def ivfpq_bits_def huge_frame_def)
  have m: "bn_dir_ok shm_build" "\<exists>c. map_corpus (shm_build\<lparr>bn_memfd := None\<rparr>) huge_frame = Inr c"
    by (simp_all add: shm_build_def quiet_build_def map_corpus_def)
  have g: "0 \<le> pick_gpu_for_index calm_outside (ivfpq_needed huge_frame) empty_run"
    "fst (ensure_vram calm_outside (ivfpq_needed huge_frame) (pick_gpu_for_index calm_outside (ivfpq_needed huge_frame) empty_run) empty_run) = 0"
    by (simp_all add: n pick_gpu_for_index_def pick_gpu_step_def n_usable_gpus_def usable_gpu_def upt_rec
      empty_run_def idle_daemon_def gpu_free_vram_bytes_def calm_outside_def ensure_vram_def evict_to_free.simps Let_def)
  show ?thesis using ivfpq_payload_unchecked [OF w m(1) _ g] m(2) by blast
qed

text \<open>A resident IVF-PQ index with three rows.\<close>

definition ivfpq_run :: daemon where
  "ivfpq_run = search_run\<lparr>g_indexes := [(entry_at 0 search_run)\<lparr>e_handle := None, e_ivfpq_handle := Some 1\<rparr>]\<rparr>"

lemma ivfpq_run_found: "find_index (cf_db_oid filter_frame) (cf_index_oid filter_frame) ivfpq_run = Some 0"
  "g_n_indexes ivfpq_run \<le> length (g_indexes ivfpq_run)"
  by (simp_all add: find_index_def ivfpq_run_def search_run_def idle_daemon_def live_entries_def entry_is_def filter_frame_def)

lemma sample_key: "c_str (1 # replicate n 0) = [1]"
  by (cases n) (simp_all add: c_str_def)

lemma ivfpq_run_answers:
  "fst (handle_search_ivfpq calm_outside plain_ivfpq sample_env filter_frame ivfpq_run)
    = results_reply 5 False [\<lparr>r_tid = 20, r_distance = 0\<rparr>]"
  using ivfpq_run_found(1)
  by (simp add: handle_search_ivfpq_def Let_def ivfpq_run_def search_run_def filter_frame_def sample_frame_def
      cmd_frame_of_def fld_def zero_entry_def map_query_def sample_env_def key_of_def plain_ivfpq_def hit_result_def
      entry_tids_def in_range_def sample_key)

theorem ivfpq_search_guarded_witness:
  "\<exists>hdr st'. handle_search_ivfpq calm_outside plain_ivfpq sample_env filter_frame ivfpq_run
     = ((hdr, [\<lparr>r_tid = 20, r_distance = 0\<rparr>]), st') \<and> (\<exists>s i. find_index 1 10 s = Some i \<and> e_dim (entry_at i s) = 1)"
proof -
  obtain hdr rs st' where h: "handle_search_ivfpq calm_outside plain_ivfpq sample_env filter_frame ivfpq_run = ((hdr, rs), st')"
    by (metis prod.collapse)
  have r: "rs = [\<lparr>r_tid = 20, r_distance = 0\<rparr>]" "rh_status hdr = CUVS_STATUS_OK"
    using ivfpq_run_answers h by (simp_all add: results_reply_def)
  have "cf_dim filter_frame = 1" "cf_db_oid filter_frame = 1" "cf_index_oid filter_frame = 10" by (simp_all add: filter_frame_def)
  then show ?thesis using ivfpq_search_guarded [OF h r(2)] h r(1) by metis
qed

theorem ivfpq_search_ignores_stale_witness:
  "fst (handle_search_ivfpq calm_outside plain_ivfpq sample_env filter_frame (update_entry 0 (\<lambda>e. e\<lparr>e_stale := True\<rparr>) ivfpq_run))
    = results_reply 5 False [\<lparr>r_tid = 20, r_distance = 0\<rparr>]"
  by (simp only: ivfpq_search_ignores_stale [OF ivfpq_run_found] ivfpq_run_answers)

end
