(* ===== verification/Extend_Compact.thy ===== *)
theory Extend_Compact
  imports Flat_Witness
begin

text \<open>
  Changing a resident CAGRA index: \<open>handle_extend\<close> adds rows to the graph in place,
  \<open>handle_compact\<close> takes the tombstoned rows out (\<open>src/pg_cuvs_server.c\<close>); and the
  administrative commands. Extending keeps the GPU object: what it holds afterwards is the library's
  affair, its handle stays the same.
\<close>

section \<open>Extending\<close>

record update_lib =
  ul_extend :: "handle option \<Rightarrow> u32 list \<Rightarrow> nat \<Rightarrow> u32 \<Rightarrow> u32 \<Rightarrow> u32 \<Rightarrow> bool"
  ul_compact :: "handle option \<Rightarrow> u32 list \<Rightarrow> int \<Rightarrow> u32 \<Rightarrow> u32 \<Rightarrow> bool"

definition not_extendable :: "CuvsCmdFrame \<Rightarrow> string" where
  "not_extendable cmd = ''index '' @ dec_digits (unat (cf_db_oid cmd)) @ ''/'' @ dec_digits (unat (cf_index_oid cmd))
     @ '' not loaded or not extendable (extend is cagra-only)''"

definition extend_over_budget :: "int \<Rightarrow> IndexEntry \<Rightarrow> daemon \<Rightarrow> bool" where
  "extend_over_budget n_new e st =
    (let new_vram = estimate_vram_bytes (e_n_vecs e + n_new) (sint (e_dim e)) (e_graph_degree e);
         delta_vram = (if new_vram > e_vram_bytes e then new_vram - e_vram_bytes e else 0);
         dev = unat (e_gpu_device_id e)
     in 0 < delta_vram \<and> 0 < g_max_vram_per_gpu st ! dev \<and>
        total_vram_used (int dev) st + delta_vram > g_max_vram_per_gpu st ! dev)"

definition extended_entry :: "outside \<Rightarrow> u64 list \<Rightarrow> int \<Rightarrow> IndexEntry \<Rightarrow> IndexEntry" where
  "extended_entry out tids n_new e =
    (let e1 = e\<lparr>e_tids := Some (entry_tids e @ tids), e_n_vecs := e_n_vecs e + n_new,
           e_n_extended := e_n_extended e + n_new\<rparr>;
         e2 = e1\<lparr>e_vram_bytes := estimate_vram_bytes (e_n_vecs e1) (sint (e_dim e1)) (e_graph_degree e1),
           e_rev_tids := None, e_rev_item_ids := None\<rparr>
     in build_rev_tid_map out e2)"

text \<open>\<open>None\<close>: it reads behind the end of its mapping.\<close>

definition handle_extend ::
  "outside \<Rightarrow> update_lib \<Rightarrow> build_env \<Rightarrow> CuvsCmdFrame \<Rightarrow> daemon \<Rightarrow> (reply \<times> daemon) option" where
  "handle_extend out ul bn cmd st =
    (if \<not> bn_dir_ok bn then Some (send_error ''recv index_dir failed'', st)
     else if sint (cf_n_vecs cmd) < 1 \<or> cf_dim cmd = 0 then Some (send_error ''EXTEND needs at least 1 vector'', st)
     else case map_corpus (bn\<lparr>bn_memfd := None\<rparr>) cmd of
       Inl e \<Rightarrow> Some (send_error e, st)
     | Inr (vecs, tids) \<Rightarrow>
        (let n_new = sint (cf_n_vecs cmd); missing = Some (send_error_code CUVS_STATUS_NOT_FOUND (not_extendable cmd), st) in
         case find_index (cf_db_oid cmd) (cf_index_oid cmd) st of
           None \<Rightarrow> missing
         | Some i \<Rightarrow>
            (let e = entry_at i st in
             if e_handle e = None then missing
             else if extend_over_budget n_new e st
             then Some (send_error_code CUVS_STATUS_BUILD_FAILED ''not enough VRAM for extend'', st)
             else if \<not> bn_alloc bn ''tids'' then Some (send_error_code CUVS_STATUS_ERROR ''realloc tids failed'', st)
             else if payload_wraps cmd then None
             else if \<not> ul_extend ul (e_handle e) vecs (nat n_new) (cf_dim cmd) (cf_max_chunk_size cmd) (e_gpu_device_id e)
             then Some (send_error_code CUVS_STATUS_BUILD_FAILED ''cuvs_cagra_extend failed'', st)
             else Some (status_reply CUVS_STATUS_OK, set_slot i (extended_entry out tids n_new e) st))))"

section \<open>Compacting\<close>

definition cmp_u64 :: "u64 \<Rightarrow> u64 \<Rightarrow> int" where
  "cmp_u64 x y = (if x > y then 1 else 0) - (if x < y then 1 else 0)"

text \<open>The C library's \<open>bsearch\<close> on an array in the order of the comparison.\<close>

definition bsearch :: "(u64 \<Rightarrow> u64 \<Rightarrow> int) \<Rightarrow> u64 \<Rightarrow> u64 list \<Rightarrow> bool" where
  "bsearch cmp key xs = list_ex (\<lambda>x. cmp key x = 0) xs"

text \<open>The TIDs of all tombstones of the file: generation and deleting transaction are not looked at.\<close>

definition read_dead_tids :: "(string \<Rightarrow> bool) \<Rightarrow> bytes \<Rightarrow> string + u64 list" where
  "read_dead_tids alloc f =
    (case fread 32 1 f of
       None \<Rightarrow> Inl ''invalid tombstone file''
     | Some (hb, f1) \<Rightarrow>
        (let thdr = tombstone_header_of hb in
         if bh_magic thdr \<noteq> CUVS_TOMBSTONE_MAGIC \<or> sint (bh_n_entries thdr) \<le> 0 then Inl ''invalid tombstone file''
         else if \<not> alloc ''dead_tids'' then Inl ''malloc dead_tids failed''
         else let n = unat (bh_n_entries thdr) in
           case fread 16 n f1 of
             None \<Rightarrow> Inl ''tombstone read failed''
           | Some (body, _) \<Rightarrow> Inr (qsort cmp_u64 (map (\<lambda>b. tr_tid (tombstone_record_of b)) (chunks 16 n body)))))"

definition keep_bit :: "u64 list \<Rightarrow> u64 list \<Rightarrow> nat \<Rightarrow> u32 list \<Rightarrow> u32 list" where
  "keep_bit dead tids i bits =
    (if bsearch cmp_u64 (tids ! i) dead then bits
     else bits[i div 32 := bits ! (i div 32) OR push_bit (i mod 32) 1])"

definition keep_bits :: "u64 list \<Rightarrow> u64 list \<Rightarrow> nat \<Rightarrow> u32 list" where
  "keep_bits dead tids n = fold (keep_bit dead tids) [0..<n] (replicate ((n + 31) div 32) 0)"

definition kept_tids :: "u32 list \<Rightarrow> u64 list \<Rightarrow> nat \<Rightarrow> u64 list" where
  "kept_tids bits tids n =
     map (\<lambda>i. tids ! i) (filter (\<lambda>i. bits ! (i div 32) AND push_bit (i mod 32) 1 \<noteq> 0) [0..<n])"

definition compacted_entry :: "outside \<Rightarrow> int \<Rightarrow> handle \<Rightarrow> u64 list \<Rightarrow> IndexEntry \<Rightarrow> IndexEntry" where
  "compacted_entry out now h tids e =
    (let new_n = int (length tids) in
     build_rev_tid_map out (e\<lparr>e_handle := Some h, e_tids := Some tids, e_n_vecs := new_n, e_n_extended := 0,
       e_compact_count := e_compact_count e + 1, e_last_compact_at := now,
       e_vram_bytes := estimate_vram_bytes new_n (sint (e_dim e)) (e_graph_degree e),
       e_rev_tids := None, e_rev_item_ids := None\<rparr>))"

text \<open>Under the mutex, with the dead TIDs read before.\<close>

definition compact_locked ::
  "outside \<Rightarrow> update_lib \<Rightarrow> build_env \<Rightarrow> CuvsCmdFrame \<Rightarrow> u64 list \<Rightarrow> daemon \<Rightarrow> reply \<times> daemon" where
  "compact_locked out ul bn cmd dead st =
    (let db = cf_db_oid cmd; idx = cf_index_oid cmd;
         missing = (send_error_code CUVS_STATUS_NOT_FOUND ''CAGRA index not loaded for compact'', st)
     in case find_index db idx st of
          None \<Rightarrow> missing
        | Some i \<Rightarrow>
           (let e = entry_at i st; n = nat (e_n_vecs e); tids = entry_tids e in
            if e_handle e = None then missing
            else if \<not> bn_alloc bn ''keep_bits'' then (send_error_code CUVS_STATUS_ERROR ''calloc keep_bits failed'', st)
            else if \<not> list_ex (\<lambda>i. bsearch cmp_u64 (tids ! i) dead) [0..<n]
            then (status_reply CUVS_STATUS_OK, unlink_files db idx [F_tombstone] st)
            else if \<not> bn_alloc bn ''new_tids'' then (send_error_code CUVS_STATUS_ERROR ''malloc new_tids failed'', st)
            else let bits = keep_bits dead tids n; new_tids = kept_tids bits tids n in
              if \<not> ul_compact ul (e_handle e) bits (e_n_vecs e) (e_metric e) (e_gpu_device_id e)
              then (send_error_code CUVS_STATUS_BUILD_FAILED ''cuvs_cagra_compact failed'', st)
              else let (h, st1) = gpu_alloc st;
                       st2 = gpu_free (e_handle e) st1;
                       e' = compacted_entry out (d_now st) h new_tids e;
                       (rc, st3) = save_index out e' (set_slot i e' st2)
                in if rc \<noteq> 0 then (send_error_code CUVS_STATUS_PERSIST_FAILED ''save_index failed after compact'', st3)
                   else (status_reply CUVS_STATUS_OK, unlink_files db idx [F_tombstone] st3)))"

text \<open>The tombstones are read before the mutex is taken; \<open>bn_meanwhile\<close> at 0 comes in between.\<close>

definition handle_compact ::
  "outside \<Rightarrow> update_lib \<Rightarrow> build_env \<Rightarrow> CuvsCmdFrame \<Rightarrow> daemon \<Rightarrow> reply \<times> daemon" where
  "handle_compact out ul bn cmd st =
    (if \<not> bn_dir_ok bn then (send_error ''recv index_dir failed'', st)
     else case d_files st (cf_db_oid cmd, cf_index_oid cmd, F_tombstone) of
       None \<Rightarrow> (status_reply CUVS_STATUS_OK, st)
     | Some f \<Rightarrow>
        (case read_dead_tids (bn_alloc bn) f of
           Inl msg \<Rightarrow> (send_error_code CUVS_STATUS_ERROR msg, st)
         | Inr dead \<Rightarrow> compact_locked out ul bn cmd dead (bn_meanwhile bn 0 st)))"

section \<open>Administration\<close>

definition handle_set_vram_budget :: "CuvsCmdFrame \<Rightarrow> daemon \<Rightarrow> reply \<times> daemon" where
  "handle_set_vram_budget cmd st =
    (status_reply CUVS_STATUS_OK, st\<lparr>g_max_vram_per_gpu := replicate CUVS_MAX_GPUS (cf_n_vecs cmd)\<rparr>)"

definition admin_device :: "CuvsCmdFrame \<Rightarrow> int" where
  "admin_device cmd = (let d = sint (cf_dim cmd) in if 0 \<le> d \<and> d < int CUVS_MAX_GPUS then d else 0)"

definition handle_eat_vram :: "(u64 \<Rightarrow> int \<Rightarrow> bool) \<Rightarrow> CuvsCmdFrame \<Rightarrow> daemon \<Rightarrow> reply \<times> daemon" where
  "handle_eat_vram cuvs_eat_vram cmd st =
    (status_reply (if cuvs_eat_vram (cf_n_vecs cmd) (admin_device cmd) then CUVS_STATUS_OK else CUVS_STATUS_ERROR), st)"

definition handle_free_vram :: "CuvsCmdFrame \<Rightarrow> daemon \<Rightarrow> reply \<times> daemon" where
  "handle_free_vram cmd st = (status_reply CUVS_STATUS_OK, st)"

section \<open>The bit set of kept rows\<close>

lemma bsearch_member: "bsearch cmp_u64 x xs \<longleftrightarrow> x \<in> set xs"
  by (auto simp: bsearch_def cmp_u64_def list_ex_iff split: if_splits)

lemma keep_bits_inv:
  assumes "m \<le> n"
  shows "length (fold (keep_bit dead tids) [0..<m] (replicate ((n + 31) div 32) 0)) = (n + 31) div 32 \<and>
    (\<forall>i < n. bit (fold (keep_bit dead tids) [0..<m] (replicate ((n + 31) div 32) (0 :: u32)) ! (i div 32)) (i mod 32)
      \<longleftrightarrow> i < m \<and> tids ! i \<notin> set dead)"
  using assms
proof (induction m)
  case 0
  then show ?case by (auto simp: less_mult_imp_div_less)
next
  case (Suc m)
  define b where "b = fold (keep_bit dead tids) [0..<m] (replicate ((n + 31) div 32) (0 :: u32))"
  have ih: "length b = (n + 31) div 32" "\<And>i. i < n \<Longrightarrow> bit (b ! (i div 32)) (i mod 32) \<longleftrightarrow> i < m \<and> tids ! i \<notin> set dead"
    using Suc by (simp_all add: b_def)
  have w: "m div 32 < length b" using Suc.prems ih(1) by linarith
  have eq: "fold (keep_bit dead tids) [0..<Suc m] (replicate ((n + 31) div 32) 0) = keep_bit dead tids m b"
    by (simp add: b_def)
  have new: "bit (b[m div 32 := b ! (m div 32) OR push_bit (m mod 32) 1] ! (i div 32)) (i mod 32)
      \<longleftrightarrow> bit (b ! (i div 32)) (i mod 32) \<or> i = m" if "i < n" for i
  proof (cases "i div 32 = m div 32")
    case True
    have "bit (push_bit (m mod 32) (1 :: u32)) (i mod 32) \<longleftrightarrow> i mod 32 = m mod 32"
      by (auto simp: bit_exp_iff possible_bit_word)
    moreover have "i = m \<longleftrightarrow> i mod 32 = m mod 32" using True by (metis div_mult_mod_eq)
    ultimately show ?thesis using True w by (simp add: bit_or_iff)
  next
    case False
    then have "i \<noteq> m" by blast
    then show ?thesis using False by simp
  qed
  show ?case
    unfolding eq using ih new
    by (auto simp: keep_bit_def bsearch_member less_Suc_eq)
qed

lemma kept_tids_filter:
  assumes "length tids = n"
  shows "kept_tids (keep_bits dead tids n) tids n = filter (\<lambda>t. t \<notin> set dead) tids"
proof -
  have "(keep_bits dead tids n ! (i div 32) AND push_bit (i mod 32) 1 \<noteq> 0) = (tids ! i \<notin> set dead)" if "i < n" for i
  proof -
    have "bit (keep_bits dead tids n ! (i div 32)) (i mod 32) \<longleftrightarrow> tids ! i \<notin> set dead"
      using keep_bits_inv [of n n dead tids] that by (simp add: keep_bits_def)
    then show ?thesis by (simp add: bit_iff_and_push_bit_not_eq_0)
  qed
  then have "kept_tids (keep_bits dead tids n) tids n = map (\<lambda>i. tids ! i) (filter (\<lambda>i. tids ! i \<notin> set dead) [0..<n])"
    unfolding kept_tids_def by (intro arg_cong [where f = "map _"] filter_cong) auto
  also have "\<dots> = filter (\<lambda>t. t \<notin> set dead) (map (\<lambda>i. tids ! i) [0..<n])" by (simp add: filter_map o_def)
  also have "map (\<lambda>i. tids ! i) [0..<n] = tids" using map_nth [of tids] unfolding assms .
  finally show ?thesis .
qed

lemma read_dead_tids_set:
  assumes "read_dead_tids alloc f = Inr dead"
  shows "\<exists>hb body rest. f = hb @ body @ rest \<and> length hb = 32 \<and> length body = 16 * unat (bh_n_entries (tombstone_header_of hb)) \<and>
    set dead = (\<lambda>b. tr_tid (tombstone_record_of b)) ` set (chunks 16 (unat (bh_n_entries (tombstone_header_of hb))) body)"
proof -
  obtain hb f1 where h: "fread 32 1 f = Some (hb, f1)"
    using assms by (auto simp: read_dead_tids_def split: option.splits)
  obtain body f2 where b: "fread 16 (unat (bh_n_entries (tombstone_header_of hb))) f1 = Some (body, f2)"
    using assms h by (auto simp: read_dead_tids_def Let_def split: option.splits if_splits)
  have "dead = qsort cmp_u64 (map (\<lambda>b. tr_tid (tombstone_record_of b)) (chunks 16 (unat (bh_n_entries (tombstone_header_of hb))) body))"
    using assms h b by (auto simp: read_dead_tids_def Let_def split: if_splits)
  then show ?thesis
    using fread_SomeD [OF h] fread_SomeD [OF b] by (intro exI [of _ hb] exI [of _ body] exI [of _ f2]) (auto simp: mult.commute)
qed

end
