(* ===== verification/Extend_Props.thy ===== *)
theory Extend_Props
  imports Extend_Compact
begin

text \<open>
  What extending and compacting a resident index guarantee, and two ways in which they lose changes.
\<close>

lemma entry_ok_build_rev:
  assumes "e_tids e = Some tids" "e_n_vecs e = int (length tids)" "length tids < 2 ^ 31" "e_rev_tids e = None"
  shows "entry_ok (build_rev_tid_map out e)"
proof -
  let ?e = "build_rev_tid_map out e"
  have t: "entry_tids ?e = tids" "e_n_vecs ?e = int (length tids)" using assms(1,2) by (simp_all add: entry_tids_def)
  show ?thesis
  proof (cases "e_rev_tids ?e")
    case None
    then show ?thesis using t assms(3) by (simp add: entry_ok_def)
  next
    case (Some rt)
    let ?n = "length tids"
    have ne: "tids \<noteq> []" using Some assms by (auto simp: build_rev_tid_map_def)
    have "o_mem out (?n * 16) \<and> o_mem out (?n * 8) \<and> o_mem out (?n * 4)"
    proof (rule ccontr)
      assume "\<not> (o_mem out (?n * 16) \<and> o_mem out (?n * 8) \<and> o_mem out (?n * 4))"
      then have "e_rev_tids ?e = None" using assms(1,2,4) ne unfolding build_rev_tid_map_def Let_def by simp
      then show False using Some by simp
    qed
    then have eq: "?e = build_rev_tid_map (out\<lparr>o_mem := \<lambda>_. True\<rparr>) e"
      using assms(1,2) ne unfolding build_rev_tid_map_def Let_def by simp
    obtain rt' ri' where "e_rev_tids ?e = Some rt'" "e_rev_item_ids ?e = Some ri'" "rev_map_ok tids rt' ri'"
      using build_rev_tid_map_ok [OF assms(1,2) ne assms(3), of "out\<lparr>o_mem := \<lambda>_. True\<rparr>"] unfolding eq by auto
    then show ?thesis using t assms(3) by (simp add: entry_ok_def)
  qed
qed

lemma build_rev_more [simp]:
  "e_main_bf_n (build_rev_tid_map out e) = e_main_bf_n e" "e_main_bf_mtime (build_rev_tid_map out e) = e_main_bf_mtime e"
  "e_bf_precision (build_rev_tid_map out e) = e_bf_precision e" "e_shards (build_rev_tid_map out e) = e_shards e"
  "e_shard_count (build_rev_tid_map out e) = e_shard_count e" "e_is_flat (build_rev_tid_map out e) = e_is_flat e"
  "e_valid (build_rev_tid_map out e) = e_valid e"
  by (simp_all add: build_rev_tid_map_def Let_def split: option.split)

lemma build_rev_handles [simp]:
  "entry_handles (build_rev_tid_map out e) = entry_handles e" "wf_entry (build_rev_tid_map out e) = wf_entry e"
  "is_sharded (build_rev_tid_map out e) = is_sharded e"
  by (simp_all add: entry_handles_def wf_entry_def plain_cagra_def is_sharded_def shard_list_def)

lemma extended_entry_fields [simp]:
  "e_tids (extended_entry out tids n e) = Some (entry_tids e @ tids)" "e_n_vecs (extended_entry out tids n e) = e_n_vecs e + n"
  "e_handle (extended_entry out tids n e) = e_handle e" "e_main_bf_idx (extended_entry out tids n e) = e_main_bf_idx e"
  "e_main_bf_n (extended_entry out tids n e) = e_main_bf_n e" "e_main_bf_mtime (extended_entry out tids n e) = e_main_bf_mtime e"
  "e_bf_precision (extended_entry out tids n e) = e_bf_precision e" "e_db_oid (extended_entry out tids n e) = e_db_oid e"
  "e_index_oid (extended_entry out tids n e) = e_index_oid e" "e_dim (extended_entry out tids n e) = e_dim e"
  "e_metric (extended_entry out tids n e) = e_metric e" "entry_handles (extended_entry out tids n e) = entry_handles e"
  "wf_entry (extended_entry out tids n e) = wf_entry e"
  by (simp_all add: extended_entry_def Let_def) (simp_all add: entry_handles_def wf_entry_def plain_cagra_def is_sharded_def shard_list_def)

section \<open>Extending\<close>

lemma handle_extend_cases:
  assumes "handle_extend out ul bn cmd st = Some (r, st')"
  obtains "rh_status (fst r) \<noteq> CUVS_STATUS_OK" "st' = st"
  | vecs tids i where "rh_status (fst r) = CUVS_STATUS_OK" "map_corpus (bn\<lparr>bn_memfd := None\<rparr>) cmd = Inr (vecs, tids)"
    "find_index (cf_db_oid cmd) (cf_index_oid cmd) st = Some i" "e_handle (entry_at i st) \<noteq> None"
    "1 \<le> sint (cf_n_vecs cmd)" "st' = set_slot i (extended_entry out tids (sint (cf_n_vecs cmd)) (entry_at i st)) st"
proof -
  have ne: "CUVS_STATUS_NOT_FOUND \<noteq> CUVS_STATUS_OK" "CUVS_STATUS_BUILD_FAILED \<noteq> CUVS_STATUS_OK"
    "CUVS_STATUS_ERROR \<noteq> CUVS_STATUS_OK" by (simp_all add: build_codes)
  have pre: "bn_dir_ok bn \<and> 1 \<le> sint (cf_n_vecs cmd) \<and> cf_dim cmd \<noteq> 0 \<or> rh_status (fst r) \<noteq> CUVS_STATUS_OK \<and> st' = st"
    using assms by (auto simp: handle_extend_def send_error_def send_error_code_def ne split: if_splits)
  show thesis
  proof (cases "rh_status (fst r) \<noteq> CUVS_STATUS_OK \<and> st' = st")
    case True
    then show thesis using that(1) by blast
  next
    case False
    with pre have p: "bn_dir_ok bn" "1 \<le> sint (cf_n_vecs cmd)" "cf_dim cmd \<noteq> 0" by blast+
    note h = assms [unfolded handle_extend_def Let_def]
    obtain vecs tids where c: "map_corpus (bn\<lparr>bn_memfd := None\<rparr>) cmd = Inr (vecs, tids)"
      using h p False by (cases "map_corpus (bn\<lparr>bn_memfd := None\<rparr>) cmd") (auto simp: send_error_def send_error_code_def ne)
    obtain i where i: "find_index (cf_db_oid cmd) (cf_index_oid cmd) st = Some i"
      using h p c False by (cases "find_index (cf_db_oid cmd) (cf_index_oid cmd) st") (auto simp: send_error_code_def ne)
    have "e_handle (entry_at i st) \<noteq> None \<and> rh_status (fst r) = CUVS_STATUS_OK \<and>
        st' = set_slot i (extended_entry out tids (sint (cf_n_vecs cmd)) (entry_at i st)) st"
      using h p c i False by (auto simp: send_error_code_def status_reply_def ne simp del: not_None_eq split: if_splits)
    then show thesis using that(2) c i p(2) by blast
  qed
qed

lemma map_corpus_length:
  assumes "map_corpus bn cmd = Inr (vecs, tids)"
  shows "length tids = unat (cf_n_vecs cmd)"
proof -
  have l: "length (snd (split_corpus n d bs)) = n" for n d bs by (simp add: split_corpus_def Let_def tids_of_bytes_def)
  obtain bs where "split_corpus (unat (cf_n_vecs cmd)) (unat (cf_dim cmd)) bs = (vecs, tids)"
    using assms by (auto simp: map_corpus_def Let_def split: option.splits if_splits)
  then show ?thesis using l [of "unat (cf_n_vecs cmd)" "unat (cf_dim cmd)" bs] by simp
qed

lemma extend_outcome:
  assumes "handle_extend out ul bn cmd st = Some (r, st')" "g_n_indexes st \<le> length (g_indexes st)"
  shows "if rh_status (fst r) \<noteq> CUVS_STATUS_OK then st' = st
    else \<exists>vecs tids i. map_corpus (bn\<lparr>bn_memfd := None\<rparr>) cmd = Inr (vecs, tids) \<and>
      find_index (cf_db_oid cmd) (cf_index_oid cmd) st = Some i \<and>
      find_index (cf_db_oid cmd) (cf_index_oid cmd) st' = Some i \<and>
      e_tids (entry_at i st') = Some (entry_tids (entry_at i st) @ tids) \<and>
      (entry_ok (entry_at i st) \<and> length (entry_tids (entry_at i st) @ tids) < 2 ^ 31 \<longrightarrow> entry_ok (entry_at i st')) \<and>
      e_handle (entry_at i st') = e_handle (entry_at i st) \<and> (\<forall>hs. holds hs st \<longrightarrow> holds hs st') \<and>
      (\<forall>j. j \<noteq> i \<longrightarrow> entry_at j st' = entry_at j st) \<and> d_files st' = d_files st"
  using assms(1)
proof (cases rule: handle_extend_cases)
  case 1
  then show ?thesis by simp
next
  case (2 vecs tids i)
  note f = find_index_live [OF 2(3) assms(2)]
  have lt: "i < length (g_indexes st)" using f assms(2) by linarith
  let ?e = "entry_at i st" and ?e' = "extended_entry out tids (sint (cf_n_vecs cmd)) (entry_at i st)"
  have e': "entry_at i st' = ?e'" using lt by (simp add: 2(6) set_slot_def)
  have live: "live_entries st' = (live_entries st)[i := ?e']"
    by (simp add: 2(6) live_entries_def set_slot_def take_update_swap)
  have valid: "e_valid ?e' = e_valid ?e" by (simp add: extended_entry_def Let_def)
  have slot: "slot_of P (xs[j := x]) = slot_of P xs" if "j < length xs" "P x = P (xs ! j)" for P xs j and x :: IndexEntry
    using that by (induction xs arbitrary: j) (auto simp: nth_Cons split: nat.splits)
  have found: "find_index (cf_db_oid cmd) (cf_index_oid cmd) st' = Some i"
    using 2(3) f lt valid unfolding find_index_def live
    by (subst slot) (auto simp: live_entries_def entry_is_def)
  have n: "int (length tids) = sint (cf_n_vecs cmd)"
    using map_corpus_length [OF 2(2)] 2(5) by (simp add: sint_eq_uint_nonneg)
  have ok: "entry_ok ?e'" if "entry_ok ?e" "length (entry_tids ?e @ tids) < 2 ^ 31"
    unfolding extended_entry_def Let_def
    by (rule entry_ok_build_rev [where tids = "entry_tids ?e @ tids"]) (use that n in \<open>simp_all add: entry_ok_def\<close>)
  have hs: "holds hs st'" if h: "holds hs st" for hs
  proof -
    have "?e \<in> set (live_entries st)" using f nth_mem [of i "live_entries st"] assms(2) by (force simp: live_entries_def)
    then have "wf_entry ?e" using h by (simp add: holds_def owns_def)
    then show ?thesis
      using holds_replace [OF h, of i ?e' "[]" hs] f by (simp add: 2(6) frees_def)
  qed
  show ?thesis
    using 2 found e' ok hs by (auto simp: set_slot_def)
qed

text \<open>
  C15. Extending is all or nothing. If it reports anything but success the daemon is as before. On
  success the new TIDs stand behind the old ones, the counts and the reverse map agree with them, and
  no other entry, no file and no GPU handle has changed.
\<close>

theorem extend_all_or_nothing:
  assumes "handle_extend out ul bn cmd st = Some (r, st')" "g_n_indexes st \<le> length (g_indexes st)"
  shows "if rh_status (fst r) \<noteq> CUVS_STATUS_OK then st' = st
    else \<exists>vecs tids i. map_corpus (bn\<lparr>bn_memfd := None\<rparr>) cmd = Inr (vecs, tids) \<and>
      find_index (cf_db_oid cmd) (cf_index_oid cmd) st = Some i \<and>
      find_index (cf_db_oid cmd) (cf_index_oid cmd) st' = Some i \<and>
      e_tids (entry_at i st') = Some (entry_tids (entry_at i st) @ tids) \<and>
      (entry_ok (entry_at i st) \<and> length (entry_tids (entry_at i st) @ tids) < 2 ^ 31 \<longrightarrow> entry_ok (entry_at i st')) \<and>
      e_handle (entry_at i st') = e_handle (entry_at i st) \<and> (\<forall>hs. holds hs st \<longrightarrow> holds hs st') \<and>
      (\<forall>j. j \<noteq> i \<longrightarrow> entry_at j st' = entry_at j st) \<and> d_files st' = d_files st"
  by (rule extend_outcome [OF assms])

lemma postfilter_unfiltered:
  assumes "cf_n_filter_tids cmd = 0" "r \<in> set (snd (fst (postfilter_search out gl en cmd query i st)))"
  shows "\<exists>k h. h \<in> set (snd (gl_bf_search gl (e_main_bf_idx (entry_at i st)) query k (delta_gpu_of (entry_at i st)))) \<and>
    0 \<le> fst h \<and> r = hit_result (entry_tids (entry_at i st)) h"
proof -
  have "map_filter en cmd = None" using assms(1) by (simp add: map_filter_def)
  then show ?thesis
    using assms(2) unfolding postfilter_search_def Let_def case_prod_beta
    by (auto simp: in_range_def split: if_splits dest!: in_set_takeD) blast
qed

text \<open>
  Exact search misses the rows an index was extended with. Once the exact copy of the vectors is on
  the GPU, extending the graph neither refreshes nor invalidates it: an exact search afterwards
  answers only rows from before, without an error.
\<close>

theorem extended_rows_missed:
  assumes "handle_extend out ul bn cmd st = Some (r, st')" "rh_status (fst r) = CUVS_STATUS_OK"
    and "find_index (cf_db_oid cmd) (cf_index_oid cmd) st = Some i" "i < length (g_indexes st)" "entry_ok (entry_at i st)"
    and "e_main_bf_idx (entry_at i st) \<noteq> None" "e_main_bf_n (entry_at i st) \<le> e_n_vecs (entry_at i st)"
    and "\<forall>q k d. \<forall>h \<in> set (snd (gl_bf_search gl (e_main_bf_idx (entry_at i st)) q k d)). fst h < e_main_bf_n (entry_at i st)"
    and "d_files st (e_db_oid (entry_at i st), e_index_oid (entry_at i st), F_vectors) \<noteq> None"
    and "d_mtime st (e_db_oid (entry_at i st), e_index_oid (entry_at i st), F_vectors) = e_main_bf_mtime (entry_at i st)"
    and "e_bf_precision (entry_at i st) = cf_bf_precision req" "cf_n_filter_tids req = 0"
  shows "r_tid ` set (snd (fst (search_bf out gl en req query i st'))) \<subseteq> set (entry_tids (entry_at i st)) \<and>
    length (entry_tids (entry_at i st)) < length (entry_tids (entry_at i st'))"
  using assms(1)
proof (cases rule: handle_extend_cases)
  case 1
  then show ?thesis using assms(2) by simp
next
  case (2 vecs tids j)
  have j: "j = i" using 2(3) assms(3) by simp
  let ?e = "entry_at i st"
  have e': "entry_at i st' = extended_entry out tids (sint (cf_n_vecs cmd)) ?e" "d_files st' = d_files st" "d_mtime st' = d_mtime st"
    using assms(4) by (simp_all add: 2(6) j set_slot_def)
  have tids: "entry_tids (entry_at i st') = entry_tids ?e @ tids" by (simp add: e' entry_tids_def)
  have "length tids \<noteq> 0" using map_corpus_length [OF 2(2)] 2(5) by (cases "cf_n_vecs cmd = 0") (auto simp: unat_eq_zero)
  have rf: "refresh_main_bf_cache out gl (cf_bf_precision req) i st' = st'"
    using assms(6,9-11) by (auto simp: refresh_main_bf_cache_def e' Let_def)
  have "snd (fst (search_bf out gl en req query i st')) = snd (fst (postfilter_search out gl en req query i st'))"
    using assms(6,12) by (auto simp: search_bf_def rf e' Let_def simp del: not_None_eq)
  moreover have "r_tid x \<in> set (entry_tids ?e)" if x: "x \<in> set (snd (fst (postfilter_search out gl en req query i st')))" for x
  proof -
    obtain k h where h: "h \<in> set (snd (gl_bf_search gl (e_main_bf_idx ?e) query k (delta_gpu_of (entry_at i st'))))" "0 \<le> fst h"
      "x = hit_result (entry_tids ?e @ tids) h"
      using postfilter_unfiltered [OF assms(12) x] by (auto simp: e'(1) tids [unfolded e'(1)])
    have "fst h < e_main_bf_n ?e" using assms(8) h(1) by blast
    then have "nat (fst h) < length (entry_tids ?e)" using assms(5,7) h(2) by (simp add: entry_ok_def)
    then show ?thesis using h(3) by (simp add: hit_result_def nth_append)
  qed
  ultimately show ?thesis using \<open>length tids \<noteq> 0\<close> tids by auto
qed

section \<open>Compacting\<close>

lemma save_index_slots [simp]: "g_indexes (snd (save_index out e st)) = g_indexes st" by simp

lemma same_registry_save: "same_registry st (snd (save_index out e st))"
proof -
  have "d_next (snd (save_index out e st)) = d_next st"
    by (auto simp: save_index_def write_tids_atomic_def Let_def split: option.splits prod.splits)
  then show ?thesis by (simp add: same_registry_def)
qed

lemma compact_locked_outcome:
  assumes "compact_locked out ul bn cmd dead s = (r, st')" "rh_status (fst r) = CUVS_STATUS_OK"
    and "find_index (cf_db_oid cmd) (cf_index_oid cmd) s = Some i" "i < length (g_indexes s)"
    and "e_tids (entry_at i s) = Some tids" "e_n_vecs (entry_at i s) = int (length tids)"
  shows "e_tids (entry_at i st') = Some (filter (\<lambda>t. t \<notin> set dead) tids) \<and>
    e_n_vecs (entry_at i st') = int (length (filter (\<lambda>t. t \<notin> set dead) tids)) \<and>
    (entry_ok (entry_at i s) \<longrightarrow> entry_ok (entry_at i st')) \<and>
    d_files st' (cf_db_oid cmd, cf_index_oid cmd, F_tombstone) = None \<and> (holds [] s \<longrightarrow> holds [] st')"
proof -
  let ?e = "entry_at i s"
  have et: "entry_tids ?e = tids" by (simp add: entry_tids_def assms(5))
  have ne: "CUVS_STATUS_NOT_FOUND \<noteq> CUVS_STATUS_OK" "CUVS_STATUS_BUILD_FAILED \<noteq> CUVS_STATUS_OK"
    "CUVS_STATUS_ERROR \<noteq> CUVS_STATUS_OK" "CUVS_STATUS_PERSIST_FAILED \<noteq> CUVS_STATUS_OK" by (simp_all add: build_codes)
  define h s1 where "h = fst (gpu_alloc s)" and "s1 = snd (gpu_alloc s)"
  define new_tids where "new_tids = filter (\<lambda>t. t \<notin> set dead) tids"
  define e' where "e' = compacted_entry out (d_now s) h new_tids ?e"
  define s2 where "s2 = set_slot i e' (gpu_free (e_handle ?e) s1)"
  have kt: "kept_tids (keep_bits dead tids (length tids)) tids (length tids) = new_tids"
    by (simp add: kept_tids_filter new_tids_def)
  have h: "e_handle ?e \<noteq> None"
    and c: "(\<not> list_ex (\<lambda>i. bsearch cmp_u64 (tids ! i) dead) [0..<length tids] \<and> st' = unlink_files (cf_db_oid cmd) (cf_index_oid cmd) [F_tombstone] s) \<or>
      st' = unlink_files (cf_db_oid cmd) (cf_index_oid cmd) [F_tombstone] (snd (save_index out e' s2))"
    using assms(1,2) unfolding compact_locked_def assms(3) option.case Let_def et assms(6) nat_int
    by (auto simp: send_error_code_def ne kt h_def s1_def e'_def s2_def case_prod_beta simp del: not_None_eq split: if_splits)
  have gone: "d_files st' (cf_db_oid cmd, cf_index_oid cmd, F_tombstone) = None"
    using c by (auto simp: unlink_files_def)
  show ?thesis
    using c
  proof
    assume a: "\<not> list_ex (\<lambda>i. bsearch cmp_u64 (tids ! i) dead) [0..<length tids] \<and> st' = unlink_files (cf_db_oid cmd) (cf_index_oid cmd) [F_tombstone] s"
    have "t \<notin> set dead" if t: "t \<in> set tids" for t
    proof -
      obtain j where "j < length tids" "t = tids ! j" using t by (metis in_set_conv_nth)
      then show ?thesis using a by (auto simp: list_ex_iff bsearch_member)
    qed
    then have "filter (\<lambda>t. t \<notin> set dead) tids = tids" by (simp add: filter_id_conv)
    moreover have "entry_at i st' = ?e" using a by (simp add: unlink_files_def)
    moreover have "holds [] s \<longrightarrow> holds [] st'" using a holds_same by auto
    ultimately show ?thesis using gone assms(5,6) by simp
  next
    assume a: "st' = unlink_files (cf_db_oid cmd) (cf_index_oid cmd) [F_tombstone] (snd (save_index out e' s2))"
    have slot: "entry_at i st' = e'" using assms(4) by (simp add: a unlink_files_def s2_def set_slot_def s1_def gpu_alloc_def)
    have e': "e_tids e' = Some new_tids" "e_n_vecs e' = int (length new_tids)" by (simp_all add: e'_def compacted_entry_def Let_def)
    have "entry_ok e'" if "entry_ok ?e"
      unfolding e'_def compacted_entry_def Let_def
      by (rule entry_ok_build_rev [where tids = new_tids])
        (use that et in \<open>simp_all add: entry_ok_def new_tids_def order_le_less_trans [OF length_filter_le]\<close>)
    moreover have "holds [] st'" if hd: "holds [] s"
    proof -
      note sl = slot_wf [OF hd assms(3)]
      have eh: "entry_handles e' = h # opt_list (e_ivfpq_handle ?e) @ opt_list (e_delta_idx ?e) @ opt_list (e_main_bf_idx ?e)
          @ opt_list (e_hnsw_idx ?e) @ (if is_sharded ?e then concat (map shard_handles (shard_list ?e)) else [])" "wf_entry e'"
        using sl(5) h
        by (auto simp: e'_def compacted_entry_def Let_def entry_handles_def wf_entry_def plain_cagra_def is_sharded_def shard_list_def)
      have h1: "holds [h] s1" using holds_alloc [OF hd] by (simp add: h_def s1_def)
      have i1: "i < g_n_indexes s1" "live_entries s1 ! i = ?e" using sl(1,2) by (simp_all add: s1_def gpu_alloc_def live_entries_def)
      have "mset (entry_handles (live_entries s1 ! i)) + mset [h]
          = mset (opt_list (e_handle ?e)) + mset (entry_handles e') + mset []"
        by (simp add: i1(2) eh(1) entry_handles_def [of ?e])
      from holds_replace [OF h1 i1(1) eh(2) this] have "holds [] s2"
        by (simp add: s2_def gpu_free_frees)
      then show ?thesis
        unfolding a by (meson holds_same same_registry_save same_registry_files(2))
    qed
    ultimately show ?thesis using gone e' slot by (simp add: new_tids_def)
  qed
qed

text \<open>
  C16. Compacting removes exactly the tombstoned rows. When it reports success and the file named any
  dead TIDs, the resident index has exactly the other TIDs, in order, with counts and reverse map to
  match, the tombstone file is gone, and no GPU object is leaked or freed twice, whatever the other
  threads did between reading the file and taking the mutex.
\<close>

theorem compact_removes_dead:
  assumes "handle_compact out ul bn cmd st = (r, st')" "rh_status (fst r) = CUVS_STATUS_OK"
    and "d_files st (cf_db_oid cmd, cf_index_oid cmd, F_tombstone) = Some f" "read_dead_tids (bn_alloc bn) f = Inr dead"
    and "find_index (cf_db_oid cmd) (cf_index_oid cmd) (bn_meanwhile bn 0 st) = Some i"
    and "i < length (g_indexes (bn_meanwhile bn 0 st))"
    and "e_tids (entry_at i (bn_meanwhile bn 0 st)) = Some tids" "entry_ok (entry_at i (bn_meanwhile bn 0 st))"
    and "holds [] st" "rely (bn_meanwhile bn)"
  shows "e_tids (entry_at i st') = Some (filter (\<lambda>t. t \<notin> set dead) tids) \<and> entry_ok (entry_at i st') \<and>
    d_files st' (cf_db_oid cmd, cf_index_oid cmd, F_tombstone) = None \<and> holds [] st'"
proof -
  have "compact_locked out ul bn cmd dead (bn_meanwhile bn 0 st) = (r, st')"
    using assms(1-4) by (auto simp: handle_compact_def send_error_def send_error_code_def reply_codes split: if_splits)
  from compact_locked_outcome [OF this assms(2,5-7)] show ?thesis
    using assms(7-10) by (auto simp: entry_ok_def entry_tids_def rely_def)
qed

text \<open>
  C40. Compacting loses tombstones. A tombstone that a backend appends, durably, after the daemon has
  read the file and before it takes the mutex is neither applied nor kept: the row stays in the index
  and the file with its tombstone is removed.
\<close>

theorem compact_loses_tombstone:
  assumes "handle_compact out ul bn cmd st = (r, st')" "rh_status (fst r) = CUVS_STATUS_OK"
    and "d_files st (cf_db_oid cmd, cf_index_oid cmd, F_tombstone) = Some f" "read_dead_tids (bn_alloc bn) f = Inr dead"
    and "bn_meanwhile bn 0 st = st\<lparr>d_files := (d_files st)((cf_db_oid cmd, cf_index_oid cmd, F_tombstone) \<mapsto> f2)\<rparr>"
    and "read_dead_tids (bn_alloc bn) f2 = Inr dead2" "t \<in> set dead2" "t \<notin> set dead"
    and "find_index (cf_db_oid cmd) (cf_index_oid cmd) st = Some i" "i < length (g_indexes st)"
    and "e_tids (entry_at i st) = Some tids" "e_n_vecs (entry_at i st) = int (length tids)" "t \<in> set tids"
  shows "t \<in> set (entry_tids (entry_at i st')) \<and> d_files st' (cf_db_oid cmd, cf_index_oid cmd, F_tombstone) = None"
proof -
  define s where "s = bn_meanwhile bn 0 st"
  have "compact_locked out ul bn cmd dead s = (r, st')"
    using assms(1-4) by (auto simp: s_def handle_compact_def send_error_def send_error_code_def reply_codes split: if_splits)
  moreover have "find_index (cf_db_oid cmd) (cf_index_oid cmd) s = Some i"
    using assms(9) by (simp add: s_def assms(5) find_index_def live_entries_def)
  ultimately have "e_tids (entry_at i st') = Some (filter (\<lambda>t. t \<notin> set dead) tids)"
    "d_files st' (cf_db_oid cmd, cf_index_oid cmd, F_tombstone) = None"
    using compact_locked_outcome [of out ul bn cmd dead s r st' i tids] assms(2,10-12) by (simp_all add: s_def assms(5))
  then show ?thesis using assms(8,13) by (simp add: entry_tids_def)
qed

end
