(* ===== verification/Extend_Witness.thy ===== *)
theory Extend_Witness
  imports Extend_Props
begin

text \<open>
  Concrete extensions and compactions of a resident index of two rows: the instances at which
  their properties are evaluated.
\<close>

section \<open>Witnesses\<close>

definition willing_lib :: update_lib where
  "willing_lib = \<lparr>ul_extend = \<lambda>_ _ _ _ _ _. True, ul_compact = \<lambda>_ _ _ _ _. True\<rparr>"

text \<open>An index of two rows whose exact copy is on the GPU.\<close>

definition cached_run :: daemon where
  "cached_run = idle_daemon\<lparr>
     g_indexes := [zero_entry\<lparr>e_db_oid := 1, e_index_oid := 12, e_dim := 1, e_n_vecs := 2, e_handle := Some 1,
       e_tids := Some [7, 8], e_main_bf_idx := Some 2, e_main_bf_n := 2, e_valid := True\<rparr>],
     g_n_indexes := 1, g_max_vram_per_gpu := replicate 16 0, d_live := [1, 2], d_next := 3,
     d_files := [(1, 12, F_vectors) \<mapsto> []]\<rparr>"

lemma cached_run_found:
  "find_index (cf_db_oid build_frame) (cf_index_oid build_frame) cached_run = Some 0"
  "g_n_indexes cached_run = 1" "length (g_indexes cached_run) = 1"
  "entry_tids (entry_at 0 cached_run) = [7, 8]" "entry_ok (entry_at 0 cached_run)"
  by (simp_all add: find_index_def cached_run_def idle_daemon_def live_entries_def entry_is_def entry_tids_def entry_ok_def zero_entry_def)

lemma cached_run_holds: "holds [] cached_run"
  by (simp add: holds_def owns_def fresh_def cached_run_def idle_daemon_def live_entries_def entry_handles_def
      wf_entry_def plain_cagra_def is_sharded_def shard_list_def zero_entry_def)

lemma sample_extend:
  obtains r st' where "handle_extend calm_outside willing_lib shm_build build_frame cached_run = Some (r, st')"
    "rh_status (fst r) = CUVS_STATUS_OK"
proof -
  obtain vecs tids where m: "map_corpus (shm_build\<lparr>bn_memfd := None\<rparr>) build_frame = Inr (vecs, tids)"
    by (force simp: map_corpus_def Let_def shm_build_def quiet_build_def split_corpus_def)
  have "e_handle (entry_at 0 cached_run) = Some (Suc 0)" "g_max_vram_per_gpu cached_run ! 0 = 0"
    "e_gpu_device_id (entry_at 0 cached_run) = 0"
    by (simp_all add: cached_run_def zero_entry_def)
  then have "handle_extend calm_outside willing_lib shm_build build_frame cached_run
      = Some (status_reply CUVS_STATUS_OK, set_slot 0 (extended_entry calm_outside tids 2 (entry_at 0 cached_run)) cached_run)"
    using build_frame_fits m cached_run_found(1)
    by (simp add: handle_extend_def extend_over_budget_def Let_def shm_build_def quiet_build_def willing_lib_def)
  then show thesis using that by (force simp: status_reply_def)
qed

theorem extend_all_or_nothing_witness:
  "\<exists>r st' tids. handle_extend calm_outside willing_lib shm_build build_frame cached_run = Some (r, st') \<and>
    e_tids (entry_at 0 st') = Some ([7, 8] @ tids) \<and> holds [] st'"
proof -
  obtain r st' where x: "handle_extend calm_outside willing_lib shm_build build_frame cached_run = Some (r, st')"
    "rh_status (fst r) = CUVS_STATUS_OK" by (rule sample_extend)
  have "g_n_indexes cached_run \<le> length (g_indexes cached_run)" by (simp add: cached_run_found)
  from extend_all_or_nothing [OF x(1) this] x cached_run_found cached_run_holds show ?thesis by auto
qed

definition clamped_lib :: gpu_lib where
  "clamped_lib = honest_lib\<lparr>gl_bf_search := \<lambda>_ _ k _. (0, take k [(1, 0), (0, 3)])\<rparr>"

theorem extended_rows_missed_witness:
  "\<exists>r st'. handle_extend calm_outside willing_lib shm_build build_frame cached_run = Some (r, st') \<and>
    r_tid ` set (snd (fst (search_bf calm_outside clamped_lib sample_env (filter_frame\<lparr>cf_n_filter_tids := 0\<rparr>) [0] 0 st'))) \<subseteq> {7, 8} \<and>
    2 < length (entry_tids (entry_at 0 st'))"
proof -
  obtain r st' where x: "handle_extend calm_outside willing_lib shm_build build_frame cached_run = Some (r, st')"
    "rh_status (fst r) = CUVS_STATUS_OK" by (rule sample_extend)
  have hits: "\<forall>q k d. \<forall>h \<in> set (snd (gl_bf_search clamped_lib (e_main_bf_idx (entry_at 0 cached_run)) q k d)).
      fst h < e_main_bf_n (entry_at 0 cached_run)"
    by (auto simp: clamped_lib_def cached_run_def dest!: in_set_takeD)
  have c: "e_main_bf_idx (entry_at 0 cached_run) \<noteq> None" "e_main_bf_n (entry_at 0 cached_run) \<le> e_n_vecs (entry_at 0 cached_run)"
    "d_files cached_run (e_db_oid (entry_at 0 cached_run), e_index_oid (entry_at 0 cached_run), F_vectors) \<noteq> None"
    "d_mtime cached_run (e_db_oid (entry_at 0 cached_run), e_index_oid (entry_at 0 cached_run), F_vectors)
      = e_main_bf_mtime (entry_at 0 cached_run)"
    "e_bf_precision (entry_at 0 cached_run) = cf_bf_precision (filter_frame\<lparr>cf_n_filter_tids := 0\<rparr>)"
    "cf_n_filter_tids (filter_frame\<lparr>cf_n_filter_tids := 0\<rparr>) = 0"
    by (simp_all add: cached_run_def idle_daemon_def zero_entry_def filter_frame_def sample_frame_def cmd_frame_of_def fld_def)
  have "0 < length (g_indexes cached_run)" by (simp add: cached_run_found)
  from extended_rows_missed [OF x cached_run_found(1) this cached_run_found(5) c(1,2) hits c(3-6), of sample_env "[0]"]
  show ?thesis using x(1) by (auto simp: cached_run_found(4))
qed

text \<open>A tombstone file with the TIDs given.\<close>

definition tombstones :: "u64 list \<Rightarrow> bytes" where
  "tombstones ts = tombstone_header_bytes \<lparr>bh_magic = CUVS_TOMBSTONE_MAGIC, bh_version = 1,
       bh_n_entries = of_nat (length ts), bh_base_tids_crc32 = 0, bh_reserved = 0, bh_pad0 = 0\<rparr>
     @ concat (map (\<lambda>t. tombstone_record_bytes \<lparr>tr_tid = t, tr_delete_xid = 3\<rparr>) ts)"

lemma read_tombstones:
  "read_dead_tids (\<lambda>_. True) (tombstones [7]) = Inr [7]" 
  "read_dead_tids (\<lambda>_. True) (tombstones [7, 8]) = Inr (qsort cmp_u64 [7, 8])"
  by (simp_all add: read_dead_tids_def tombstones_def fread_def Let_def chunks_def tombstone_hdr.length_enc tombstone_hdr.dec_enc
      tombstone_rec.length_enc tombstone_rec.dec_enc)

definition dying_run :: daemon where
  "dying_run = cached_run\<lparr>d_files := [(1, 12, F_tombstone) \<mapsto> tombstones [7]]\<rparr>"

lemma sample_save_one:
  assumes "e_handle e = Some h" "e_tids e = Some [t]" "e_n_vecs e = 1" "e_dim e = 1" "e_metric e = 0"
  shows "fst (save_index calm_outside e st) = 0"
proof -
  obtain rc s where w: "write_tids_atomic calm_outside (e_db_oid e, e_index_oid e, F_tids_tmp) 1 1 0 [t] st = (rc, s)"
    by fastforce
  then have "rc = 0"
    using tids_write_read [of "[t]" 1 _ "\<lparr>written = [], room = 1000\<rparr>" "\<lambda>_. True" 1 0 _ "[]"]
    by (fastforce simp: write_tids_atomic_def calm_outside_def CUVS_TIDS_MAX_VECS_def split: prod.splits if_splits)
  then show ?thesis using w assms by (simp add: save_index_def Let_def) (simp add: calm_outside_def)
qed

lemma dying_found:
  "find_index (cf_db_oid build_frame) (cf_index_oid build_frame) dying_run = Some 0" "0 < length (g_indexes dying_run)"
  "e_tids (entry_at 0 dying_run) = Some [7, 8]" "e_n_vecs (entry_at 0 dying_run) = 2" "entry_ok (entry_at 0 dying_run)"
  "e_handle (entry_at 0 dying_run) = Some 1" "e_dim (entry_at 0 dying_run) = 1" "e_metric (entry_at 0 dying_run) = 0"
  by (simp_all add: find_index_def dying_run_def cached_run_def idle_daemon_def live_entries_def entry_is_def entry_tids_def
      entry_ok_def zero_entry_def)

lemma dying_holds: "holds [] dying_run"
  by (simp add: holds_def owns_def fresh_def dying_run_def cached_run_def idle_daemon_def live_entries_def entry_handles_def
      wf_entry_def plain_cagra_def is_sharded_def shard_list_def zero_entry_def)

lemma sample_compact_locked:
  assumes "find_index 1 12 st = Some 0" "entry_at 0 st = entry_at 0 dying_run" "bn_alloc bn = (\<lambda>_. True)"
  shows "rh_status (fst (fst (compact_locked calm_outside willing_lib bn build_frame [7] st))) = CUVS_STATUS_OK"
proof -
  have k: "kept_tids (keep_bits [7] [7, 8 :: u64] 2) [7, 8] 2 = [8]" by (subst kept_tids_filter) simp_all
  have t: "entry_tids (entry_at 0 dying_run) = [7, 8]" by (simp add: entry_tids_def dying_found)
  have w: "ul_compact willing_lib h bits n m d" for h bits n m d by (simp add: willing_lib_def)
  have l: "list_ex (\<lambda>i. bsearch cmp_u64 ([7, 8] ! i) [7]) [0..<2]" by (auto simp: list_ex_iff bsearch_member intro!: bexI [of _ 0])
  define e' where "e' = compacted_entry calm_outside (d_now st) (fst (gpu_alloc st)) [8] (entry_at 0 dying_run)"
  have "fst (save_index calm_outside e' s) = 0" for s
    by (rule sample_save_one [of _ "fst (gpu_alloc st)" 8])
      (simp_all add: e'_def compacted_entry_def Let_def dying_found)
  then show ?thesis
    unfolding compact_locked_def build_frame_fields assms(1,2) option.case Let_def t dying_found nat_numeral k
      case_prod_beta e'_def [symmetric]
    using w l by (simp add: assms(3) status_reply_def)
qed

theorem compact_removes_dead_witness:
  "\<exists>r st'. handle_compact calm_outside willing_lib shm_build build_frame dying_run = (r, st') \<and>
    e_tids (entry_at 0 st') = Some [8] \<and> d_files st' (1, 12, F_tombstone) = None \<and> holds [] st'"
proof -
  obtain r st' where h: "handle_compact calm_outside willing_lib shm_build build_frame dying_run = (r, st')" by fastforce
  have f: "d_files dying_run (cf_db_oid build_frame, cf_index_oid build_frame, F_tombstone) = Some (tombstones [7])"
    by (simp add: dying_run_def)
  have a: "bn_alloc shm_build = (\<lambda>_. True)" "bn_meanwhile shm_build = (\<lambda>_ st. st)" "bn_dir_ok shm_build"
    by (simp_all add: shm_build_def quiet_build_def)
  have "rh_status (fst r) = CUVS_STATUS_OK"
    using h f sample_compact_locked [of dying_run shm_build] dying_found(1)
    by (auto simp: handle_compact_def a read_tombstones)
  from compact_removes_dead [OF h this f _ _ _ _ _ dying_holds, of "[7]" 0 "[7, 8]"] h show ?thesis
    using dying_found(1,2) by (simp add: a read_tombstones rely_def dying_found(3,5))
qed

theorem compact_loses_tombstone_witness:
  "\<exists>bn r st'. bn_meanwhile bn 0 dying_run = dying_run\<lparr>d_files := (d_files dying_run)((1, 12, F_tombstone) \<mapsto> tombstones [7, 8])\<rparr> \<and>
    handle_compact calm_outside willing_lib bn build_frame dying_run = (r, st') \<and>
    8 \<in> set (entry_tids (entry_at 0 st')) \<and> d_files st' (1, 12, F_tombstone) = None"
proof -
  define bn where "bn = shm_build\<lparr>bn_meanwhile := \<lambda>_ st. st\<lparr>d_files := (d_files st)((1, 12, F_tombstone) \<mapsto> tombstones [7, 8])\<rparr>\<rparr>"
  obtain r st' where h: "handle_compact calm_outside willing_lib bn build_frame dying_run = (r, st')" by fastforce
  have f: "d_files dying_run (cf_db_oid build_frame, cf_index_oid build_frame, F_tombstone) = Some (tombstones [7])"
    by (simp add: dying_run_def)
  have a: "bn_alloc bn = (\<lambda>_. True)" "bn_dir_ok bn"
    and m: "bn_meanwhile bn 0 dying_run = dying_run\<lparr>d_files := (d_files dying_run)((1, 12, F_tombstone) \<mapsto> tombstones [7, 8])\<rparr>"
    by (simp_all add: bn_def shm_build_def quiet_build_def)
  have "find_index 1 12 (bn_meanwhile bn 0 dying_run) = Some 0" "entry_at 0 (bn_meanwhile bn 0 dying_run) = entry_at 0 dying_run"
    using dying_found(1) by (simp_all add: m find_index_def live_entries_def)
  then have "rh_status (fst r) = CUVS_STATUS_OK"
    using h f sample_compact_locked [of "bn_meanwhile bn 0 dying_run" bn]
    by (auto simp: handle_compact_def a read_tombstones)
  from compact_loses_tombstone [OF h this f, of "[7]" "tombstones [7, 8]" "qsort cmp_u64 [7, 8]" 8 0 "[7, 8]"] h m show ?thesis
    by (intro exI [of _ bn] exI [of _ r] exI [of _ st']) (use dying_found(1,2) in \<open>simp add: a read_tombstones dying_found(3,4) cmp_u64_def\<close>)
qed

end
