(* ===== verification/Backend_Writes.thy ===== *)
theory Backend_Writes
  imports Extend_Witness
begin

text \<open>
  What a heap write does to an index (\<open>src/pg_cuvs.c\<close>): an inserted row goes into the resident
  graph, or into the delta file, or else the index is marked stale; VACUUM records the dead rows of
  the base build as tombstones, or marks the index stale. The backends and the daemon share the
  index directory, so both work on the files of the daemon's state.
\<close>

section \<open>Reaching the daemon\<close>

text \<open>
  A request is not delivered, or delivered and its reply lost (a timeout, a broken connection), or
  answered. A write leaves the rest to chance: which files open, where an append is cut short, the
  comparison of the dead ratio in double arithmetic.
\<close>

datatype link = Link_down | Link_lost | Link_ok

record writer =
  wr_socket :: bool
  wr_cagra :: bool
  wr_max_delta_rows :: u32
  wr_link :: "string \<Rightarrow> link"
  wr_build :: build_env
  wr_key :: bytes
  wr_chunk :: u32
  wr_open :: bool
  wr_lock :: bool
  wr_fault :: "nat \<Rightarrow> fault"
  wr_mem :: "nat \<Rightarrow> bool"
  wr_can_mark :: bool
  wr_compact_due :: "nat \<Rightarrow> int \<Rightarrow> bool"

definition exchange :: "link \<Rightarrow> (daemon \<Rightarrow> (reply \<times> daemon) option) \<Rightarrow> daemon \<Rightarrow> (u32 \<times> daemon) option" where
  "exchange l handler st =
    (case l of
       Link_down \<Rightarrow> Some (CUVS_STATUS_UNAVAILABLE, st)
     | _ \<Rightarrow> map_option (\<lambda>(r, st'). (if l = Link_ok then rh_status (fst r) else CUVS_STATUS_ERROR, st')) (handler st))"

definition cuvs_mark_index_stale :: "writer \<Rightarrow> u32 \<Rightarrow> u32 \<Rightarrow> daemon \<Rightarrow> daemon" where
  "cuvs_mark_index_stale wr db idx st =
    (if wr_link wr ''mark_stale'' = Link_down then st else snd (handle_mark_stale (wr_can_mark wr) db idx st))"

definition cuvs_index_is_stale :: "u32 \<Rightarrow> u32 \<Rightarrow> daemon \<Rightarrow> bool" where
  "cuvs_index_is_stale db idx st \<longleftrightarrow> d_files st (db, idx, F_stale) \<noteq> None"

text \<open>The frame and the shared object of \<open>cuvs_ipc_extend\<close>.\<close>

definition extend_frame :: "writer \<Rightarrow> u32 \<Rightarrow> u32 \<Rightarrow> u32 list \<Rightarrow> CuvsCmdFrame" where
  "extend_frame wr db idx vec = (index_frame 13 db idx)\<lparr>cf_dim := of_nat (length vec), cf_n_vecs := 1,
     cf_max_chunk_size := wr_chunk wr, cf_shm_key := key_field (wr_key wr)\<rparr>"

definition extend_env :: "writer \<Rightarrow> u32 list \<Rightarrow> u64 \<Rightarrow> build_env" where
  "extend_env wr vec tid = (wr_build wr)\<lparr>bn_shm := (bn_shm (wr_build wr))(c_str (key_field (wr_key wr))
     \<mapsto> \<lparr>so_owner = bn_uid (wr_build wr), so_bytes = float_bytes vec @ le_bytes 8 tid\<rparr>)\<rparr>"

section \<open>The pending files\<close>

text \<open>\<open>O_CREAT\<close> leaves a file even where the append then fails.\<close>

definition append_env_of :: "writer \<Rightarrow> u32 \<Rightarrow> u32 \<Rightarrow> daemon \<Rightarrow> append_env" where
  "append_env_of wr db idx st = \<lparr>ae_open = wr_open wr, ae_lock = wr_lock wr, ae_tids = d_files st (db, idx, F_tids),
     ae_max_rows = wr_max_delta_rows wr\<rparr>"

definition contents_of :: "fkey \<Rightarrow> daemon \<Rightarrow> bytes" where
  "contents_of k st = (case d_files st k of None \<Rightarrow> [] | Some f \<Rightarrow> f)"

definition put_file :: "writer \<Rightarrow> fkey \<Rightarrow> bytes \<Rightarrow> daemon \<Rightarrow> daemon" where
  "put_file wr k f st =
    (if wr_open wr then st\<lparr>d_files := (d_files st)(k \<mapsto> f), d_mtime := (d_mtime st)(k := d_now st)\<rparr> else st)"

definition delta_put :: "writer \<Rightarrow> u32 \<Rightarrow> u32 \<Rightarrow> u64 \<Rightarrow> u32 list \<Rightarrow> u32 \<Rightarrow> daemon \<Rightarrow> bool \<times> daemon" where
  "delta_put wr db idx tid vec metric st =
    (let k = (db, idx, F_delta);
         (ok, f) = cuvs_delta_append (append_env_of wr db idx st) (wr_fault wr 0) (contents_of k st) tid vec (of_nat (length vec)) metric
     in (ok, put_file wr k f st))"

definition tombstone_put :: "writer \<Rightarrow> nat \<Rightarrow> u32 \<Rightarrow> u32 \<Rightarrow> u64 \<Rightarrow> u64 \<Rightarrow> daemon \<Rightarrow> bool \<times> daemon" where
  "tombstone_put wr i db idx tid xid st =
    (let k = (db, idx, F_tombstone);
         (ok, f) = cuvs_tombstone_append (append_env_of wr db idx st) (wr_fault wr i) (contents_of k st) tid xid
     in (ok, put_file wr k f st))"

section \<open>Inserting\<close>

text \<open>
  \<open>cache\<close>: \<open>rd_amcache\<close> is set. The value is \<open>None\<close> for NULL. The result is
  \<open>None\<close> if the daemon dies on the request.
\<close>

definition insert_to_delta :: "writer \<Rightarrow> u32 \<Rightarrow> u32 \<Rightarrow> u64 \<Rightarrow> u32 list \<Rightarrow> u32 \<Rightarrow> daemon \<Rightarrow> daemon" where
  "insert_to_delta wr db idx tid vec metric st =
    (let (ok, st') = delta_put wr db idx tid vec metric st in if ok then st' else cuvs_mark_index_stale wr db idx st')"

definition cuvs_aminsert ::
  "outside \<Rightarrow> update_lib \<Rightarrow> writer \<Rightarrow> u32 \<Rightarrow> u32 \<Rightarrow> bool \<Rightarrow> u32 list option \<Rightarrow> u32 \<times> u16 \<Rightarrow> u32 \<Rightarrow> daemon
    \<Rightarrow> (bool \<times> daemon) option" where
  "cuvs_aminsert out ul wr db idx cache value heap_tid metric st =
    (case value of
       None \<Rightarrow> Some (cache, st)
     | Some vec \<Rightarrow>
        if sint (wr_max_delta_rows wr) \<le> 0 then Some (True, if cache then st else cuvs_mark_index_stale wr db idx st)
        else if cuvs_index_is_stale db idx st then Some (cache, st)
        else
          (let tid = cuvs_tid_encode (fst heap_tid) (snd heap_tid);
               to_delta = insert_to_delta wr db idx tid vec metric
           in if wr_socket wr \<and> wr_cagra wr
              then (case exchange (wr_link wr ''extend'')
                     (handle_extend out ul (extend_env wr vec tid) (extend_frame wr db idx vec)) st of
                   None \<Rightarrow> None
                 | Some (rc, s) \<Rightarrow> Some (cache, if rc = CUVS_STATUS_OK then s else to_delta s))
              else Some (cache, to_delta st)))"

section \<open>Deleting\<close>

text \<open>The loop over the TIDs of the base build: it stops at the first append that fails.\<close>

primrec bulkdelete_loop ::
  "writer \<Rightarrow> u32 \<Rightarrow> u32 \<Rightarrow> u64 \<Rightarrow> (u32 \<times> u16 \<Rightarrow> bool) \<Rightarrow> nat \<Rightarrow> u64 list \<Rightarrow> nat \<Rightarrow> daemon \<Rightarrow> bool \<times> nat \<times> daemon" where
  "bulkdelete_loop wr db idx xid callback i [] removed st = (True, removed, st)"
| "bulkdelete_loop wr db idx xid callback i (t # ts) removed st =
    (if callback (cuvs_tid_decode t)
     then (let (ok, st') = tombstone_put wr i db idx t xid st
       in if ok then bulkdelete_loop wr db idx xid callback (Suc i) ts (Suc removed) st' else (False, Suc removed, st'))
     else bulkdelete_loop wr db idx xid callback (Suc i) ts removed st)"

definition compact_request :: "outside \<Rightarrow> update_lib \<Rightarrow> writer \<Rightarrow> u32 \<Rightarrow> u32 \<Rightarrow> daemon \<Rightarrow> daemon" where
  "compact_request out ul wr db idx st =
    (if wr_link wr ''compact'' = Link_down then st
     else snd (handle_compact out ul (wr_build wr) (index_frame 14 db idx) st))"

definition cuvs_ambulkdelete ::
  "outside \<Rightarrow> update_lib \<Rightarrow> writer \<Rightarrow> u32 \<Rightarrow> u32 \<Rightarrow> u64 \<Rightarrow> (u32 \<times> u16 \<Rightarrow> bool) \<Rightarrow> nat \<Rightarrow> daemon \<Rightarrow> nat \<times> daemon" where
  "cuvs_ambulkdelete out ul wr db idx xid callback removed st =
    (if sint (wr_max_delta_rows wr) \<le> 0 then (removed, cuvs_mark_index_stale wr db idx st)
     else if cuvs_index_is_stale db idx st then (removed, st)
     else case Option.bind (d_files st (db, idx, F_tids)) (cuvs_tids_read (wr_mem wr)) of
       None \<Rightarrow> (removed, cuvs_mark_index_stale wr db idx st)
     | Some (thdr, base_tids) \<Rightarrow>
        (let (all_ok, n, st1) = bulkdelete_loop wr db idx xid callback 0 base_tids removed st
         in if \<not> all_ok then (n, cuvs_mark_index_stale wr db idx st1)
            else if wr_socket wr \<and> wr_compact_due wr n (sint (th_n_vecs thdr))
            then (n, compact_request out ul wr db idx st1)
            else (n, st1)))"

definition cuvs_amvacuumcleanup :: "outside \<Rightarrow> update_lib \<Rightarrow> writer \<Rightarrow> u32 \<Rightarrow> u32 \<Rightarrow> daemon \<Rightarrow> daemon" where
  "cuvs_amvacuumcleanup out ul wr db idx st =
    (if wr_socket wr \<and> \<not> cuvs_index_is_stale db idx st \<and> d_files st (db, idx, F_tombstone) \<noteq> None
     then compact_request out ul wr db idx st else st)"

section \<open>Lemmas\<close>

lemma mark_stale_marks:
  assumes "wr_link wr ''mark_stale'' \<noteq> Link_down" "wr_can_mark wr"
  shows "cuvs_index_is_stale db idx (cuvs_mark_index_stale wr db idx st)"
  using assms
  by (auto simp: cuvs_mark_index_stale_def cuvs_index_is_stale_def handle_mark_stale_def Let_def set_slot_def split: option.splits)

lemma float_word: "map le_word (chunks 4 (length vec) (float_bytes vec)) = vec"
  unfolding float_bytes_def by (induction vec) (simp_all add: wire)

lemma extend_corpus:
  assumes "bn_can_map (wr_build wr) (c_str (key_field (wr_key wr)))" "length vec < 2 ^ 32"
  shows "map_corpus ((extend_env wr vec tid)\<lparr>bn_memfd := None\<rparr>) (extend_frame wr db idx vec) = Inr (vec, [tid])"
proof -
  have l: "length (float_bytes vec) = 4 * length vec" by (simp add: float_bytes_def length_concat_words)
  have d: "unat (of_nat (length vec) :: u32) = length vec" using assms(2) by (simp add: unat_of_nat)
  show ?thesis
    using assms(1) l d
    by (simp add: map_corpus_def extend_env_def extend_frame_def split_corpus_def Let_def float_word tids_of_bytes_def wire)
qed

end
