(* ===== verification/Backend_Props.thy ===== *)
theory Backend_Props
  imports Backend_Writes
begin

text \<open>
  No insert and no deletion of a base row goes unrecorded while the daemon can be told; what is lost
  when it cannot, and the rows VACUUM does not see.
\<close>

section \<open>Acknowledged appends\<close>

lemma run_ops_acked:
  "run_ops flt ops f = (True, f') \<Longrightarrow> run_ops None ops f = (True, f')"
  by (induction flt ops f rule: run_ops.induct) auto

lemma delta_append_acked:
  assumes "delta_attempt (live_env tids max_rows) dim metric flt (delta_image dim m crc rs t) r = (True, f)"
    and "\<forall>x \<in> set rs. delta_good dim x" "delta_good dim r" "length rs \<le> 2 ^ 62"
  shows "f = delta_image dim m crc (rs @ [r]) []"
proof (cases "nat (sint max_rows) \<le> length rs")
  case True
  then show ?thesis using delta_append_full [OF True assms(4)] assms(1) by simp
next
  case False
  then have "delta_attempt (live_env tids max_rows) dim metric None (delta_image dim m crc rs t) r = (True, f)"
    using assms(1) run_ops_acked by (simp add: delta_append_run [OF _ assms(3)])
  moreover have "header_atomic delta_parts r None" by (simp add: header_atomic_def)
  ultimately show ?thesis
    using delta_log.attempt_step [OF assms(2,3) _ assms(4), of None tids max_rows metric m crc t]
    unfolding delta_image_def by (metis Pair_inject)
qed

lemma delta_first_acked:
  assumes "delta_attempt (live_env tids max_rows) dim metric flt [] r = (True, f)" "delta_good dim r"
  shows "\<exists>crc. f = delta_image dim metric crc [r] []"
proof -
  have m: "0 < sint max_rows" and c: "cuvs_read_tids_crc tids \<noteq> None"
    using assms(1) by (auto simp: delta_attempt_def cuvs_delta_append_def live_env_def cuvs_delta_header_init_def Let_def
        split: option.splits if_splits)
  then obtain crc where crc: "cuvs_read_tids_crc tids = Some crc" by blast
  have l: "length (concat (map (le_bytes 4) (snd r))) = 4 * unat dim"
    using assms(2) by (simp add: delta_good_def length_concat_words)
  have h: "length (delta_count_header dim metric crc n) = 32" for n by (simp add: delta_count_header_def delta_hdr.length_enc)
  define v where "v = concat (map (le_bytes 4) (snd r))"
  define t where "t = le_bytes 8 (fst r)"
  define H where "H = delta_count_header dim metric crc 1"
  have z: "length t = 8" "length v = 4 * unat dim" "length H = 32" using l h by (simp_all add: t_def v_def H_def wire)
  have w1: "pwrite 32 t [] = replicate 32 0 @ t" using z by (auto simp: pwrite_def)
  have w2: "pwrite 40 v (replicate 32 0 @ t) = replicate 32 0 @ t @ v"
    using pwrite_at_end_of [of "replicate 32 0 @ t" 40 v "[]"] z by simp
  have w3: "pwrite 0 H (replicate 32 0 @ t @ v) = H @ t @ v" using z by (auto simp: pwrite_def)
  have "f = snd (run_ops None (split_writes 32 (delta_parts r) @ [Pwrite 0 H, Ftruncate (32 + cuvs_delta_record_bytes dim), Fsync]) [])"
    using assms(1) run_ops_acked unfolding delta_first_append [OF crc m assms(2)] H_def by (metis snd_conv)
  also have "\<dots> = H @ t @ v"
    using z by (simp add: delta_parts_def t_def [symmetric] v_def [symmetric] w1 w2 w3 cuvs_delta_record_bytes_def)
  also have "\<dots> = delta_image dim metric crc [r] []"
    by (simp add: delta_image_def log_image_def log_rows_def delta_parts_def H_def t_def v_def)
  finally show ?thesis by blast
qed

lemma tombstone_append_acked:
  assumes "tombstone_attempt (live_env tids max_rows) flt (tombstone_image crc rs t) r = (True, f)" "length rs \<le> 2 ^ 62"
  shows "f = tombstone_image crc (rs @ [r]) [] \<and> length rs < nat (sint max_rows)"
proof (cases "nat (sint max_rows) \<le> length rs")
  case True
  then show ?thesis using tombstone_append_full [OF True assms(2)] assms(1) by simp
next
  case False
  then have "tombstone_attempt (live_env tids max_rows) None (tombstone_image crc rs t) r = (True, f)"
    using assms(1) run_ops_acked by (simp add: tombstone_append_run)
  moreover have "header_atomic tombstone_parts r None" by (simp add: header_atomic_def)
  ultimately show ?thesis
    using tombstone_log.attempt_step [OF _ _ _ assms(2), of r None tids max_rows crc t] False
    unfolding tombstone_image_def by (metis Pair_inject leI)
qed

lemma append_opened:
  "cuvs_delta_append env flt f tid vec dim metric = (True, f') \<Longrightarrow> ae_open env \<and> ae_lock env"
  "cuvs_tombstone_append env flt f tid xid = (True, g') \<Longrightarrow> ae_open env \<and> ae_lock env"
  by (auto simp: cuvs_delta_append_def cuvs_tombstone_append_def Let_def split: if_splits)

lemma append_env_live:
  "ae_open (append_env_of wr db idx st) \<Longrightarrow> ae_lock (append_env_of wr db idx st) \<Longrightarrow>
    append_env_of wr db idx st = live_env (d_files st (db, idx, F_tids)) (wr_max_delta_rows wr)"
  by (simp add: append_env_of_def live_env_def)

text \<open>A delta file of an index: absent, or an image of some rows.\<close>

definition delta_file :: "u32 \<Rightarrow> (u64 \<times> u32 list) list \<Rightarrow> bytes option \<Rightarrow> bool" where
  "delta_file dim rs f \<longleftrightarrow> (\<forall>r \<in> set rs. delta_good dim r) \<and> length rs \<le> 2 ^ 62 \<and>
     (f = None \<and> rs = [] \<or> (\<exists>m crc t. f = Some (delta_image dim m crc rs t)))"

lemma delta_put_acked:
  assumes "delta_put wr db idx tid vec metric st = (True, st')" "length vec < 2 ^ 32"
    and "delta_file (of_nat (length vec)) rs (d_files st (db, idx, F_delta))"
  shows "\<exists>m crc. d_files st' (db, idx, F_delta) = Some (delta_image (of_nat (length vec)) m crc (rs @ [(tid, vec)]) [])"
proof -
  let ?dim = "of_nat (length vec) :: u32"
  have g: "delta_good ?dim (tid, vec)" using assms(2) by (simp add: delta_good_def unat_of_nat)
  obtain f where f: "cuvs_delta_append (append_env_of wr db idx st) (wr_fault wr 0) (contents_of (db, idx, F_delta) st) tid vec ?dim metric = (True, f)"
    "st' = put_file wr (db, idx, F_delta) f st"
    using assms(1) by (auto simp: delta_put_def Let_def split: prod.splits)
  note o = append_opened(1) [OF f(1)]
  have a: "delta_attempt (live_env (d_files st (db, idx, F_tids)) (wr_max_delta_rows wr)) ?dim metric (wr_fault wr 0)
      (contents_of (db, idx, F_delta) st) (tid, vec) = (True, f)"
    using f(1) append_env_live [of wr db idx st] o by (simp add: delta_attempt_def)
  have "\<exists>m crc. f = delta_image ?dim m crc (rs @ [(tid, vec)]) []"
  proof (cases "d_files st (db, idx, F_delta)")
    case None
    then have "rs = []" using assms(3) by (simp add: delta_file_def)
    then show ?thesis using delta_first_acked [OF a [unfolded contents_of_def None option.case] g] by auto
  next
    case (Some x)
    then obtain m crc t where x: "x = delta_image ?dim m crc rs t" using assms(3) by (auto simp: delta_file_def)
    show ?thesis using delta_append_acked [OF a [unfolded contents_of_def Some option.case x]] assms(3) g by (auto simp: delta_file_def)
  qed
  moreover have "wr_open wr" using o by (simp add: append_env_of_def)
  ultimately show ?thesis using f(2) by (auto simp: put_file_def)
qed

section \<open>Inserting\<close>

lemma exchange_extend:
  assumes "exchange l (handle_extend out ul bn cmd) st = Some (rc, st')" "g_n_indexes st \<le> length (g_indexes st)"
  shows "d_files st' = d_files st \<and> (rc = CUVS_STATUS_OK \<longrightarrow> (\<exists>vecs tids i. map_corpus (bn\<lparr>bn_memfd := None\<rparr>) cmd = Inr (vecs, tids) \<and>
    find_index (cf_db_oid cmd) (cf_index_oid cmd) st = Some i \<and> find_index (cf_db_oid cmd) (cf_index_oid cmd) st' = Some i \<and>
    e_tids (entry_at i st') = Some (entry_tids (entry_at i st) @ tids)))"
proof (cases "l = Link_down")
  case True
  then show ?thesis using assms(1) by (simp add: exchange_def build_codes CUVS_STATUS_UNAVAILABLE_def CUVS_STATUS_OK_def)
next
  case False
  then obtain r where r: "handle_extend out ul bn cmd st = Some (r, st')"
    "rc = (if l = Link_ok then rh_status (fst r) else CUVS_STATUS_ERROR)"
    using assms(1) by (cases l) (auto simp: exchange_def)
  have "CUVS_STATUS_ERROR \<noteq> CUVS_STATUS_OK" by (simp add: build_codes)
  then show ?thesis
    using extend_outcome [OF r(1) assms(2)] r(2) by (cases "rh_status (fst r) = CUVS_STATUS_OK") (auto split: if_splits)
qed

lemma extend_answered:
  assumes "exchange l (handle_extend out ul (extend_env wr vec tid) (extend_frame wr db idx vec)) st = Some (CUVS_STATUS_OK, st')"
    and "g_n_indexes st \<le> length (g_indexes st)" "length vec < 2 ^ 32"
  shows "\<exists>i. find_index db idx st' = Some i \<and> e_tids (entry_at i st') = Some (entry_tids (entry_at i st) @ [tid])"
proof -
  have key: "cf_db_oid (extend_frame wr db idx vec) = db" "cf_index_oid (extend_frame wr db idx vec) = idx"
    by (simp_all add: extend_frame_def index_frame_def)
  obtain vecs tids i where x: "map_corpus ((extend_env wr vec tid)\<lparr>bn_memfd := None\<rparr>) (extend_frame wr db idx vec) = Inr (vecs, tids)"
    "find_index db idx st' = Some i" "e_tids (entry_at i st') = Some (entry_tids (entry_at i st) @ tids)"
    using exchange_extend [OF assms(1,2)] unfolding key by blast
  have "bn_can_map (wr_build wr) (c_str (key_field (wr_key wr)))"
    using x(1) by (auto simp: map_corpus_def extend_env_def extend_frame_def Let_def split: if_splits option.splits)
  from extend_corpus [OF this assms(3), of tid db idx] x show ?thesis by auto
qed

text \<open>
  C4. An insert is never lost while the index can be marked stale. If the mark-stale request reaches
  the daemon and the marker can be written, then whatever happens to the request to extend and to the
  append, an insert that returns has left its row in the resident graph, or as the last row of the
  delta file, behind all rows acknowledged before, or the index is marked stale and no plan uses it.
  With the delta switched off (\<open>cuvs.max_delta_rows\<close> not positive) this is the first insert of a
  backend, the one that marks; \<open>insert_mark_not_retried\<close> and \<open>insert_lost_when_down\<close> show the
  excluded cases.
\<close>

theorem insert_recorded:
  assumes "cuvs_aminsert out ul wr db idx cache (Some vec) heap_tid metric st = Some (cache', st')"
    and "0 < sint (wr_max_delta_rows wr) \<or> \<not> cache" "length vec < 2 ^ 32"
    and "wr_link wr ''mark_stale'' \<noteq> Link_down" "wr_can_mark wr" "g_n_indexes st \<le> length (g_indexes st)"
    and "delta_file (of_nat (length vec)) rs (d_files st (db, idx, F_delta))"
  shows "let tid = cuvs_tid_encode (fst heap_tid) (snd heap_tid) in
    cuvs_index_is_stale db idx st' \<or>
    (\<exists>m crc. d_files st' (db, idx, F_delta) = Some (delta_image (of_nat (length vec)) m crc (rs @ [(tid, vec)]) [])) \<or>
    (\<exists>i. find_index db idx st' = Some i \<and> e_tids (entry_at i st') = Some (entry_tids (entry_at i st) @ [tid]))"
proof -
  define tid where "tid = cuvs_tid_encode (fst heap_tid) (snd heap_tid)"
  let ?D = "insert_to_delta wr db idx tid vec metric"
  let ?x = "exchange (wr_link wr ''extend'') (handle_extend out ul (extend_env wr vec tid) (extend_frame wr db idx vec)) st"
  have delta: "cuvs_index_is_stale db idx (?D s) \<or>
      (\<exists>m crc. d_files (?D s) (db, idx, F_delta) = Some (delta_image (of_nat (length vec)) m crc (rs @ [(tid, vec)]) []))"
    if "d_files s = d_files st" for s
  proof -
    obtain ok s' where p: "delta_put wr db idx tid vec metric s = (ok, s')" by fastforce
    show ?thesis
    proof (cases ok)
      case True
      then show ?thesis using delta_put_acked [of wr db idx tid vec metric s s' rs] p assms(3,7) that by (simp add: insert_to_delta_def)
    next
      case False
      then show ?thesis using p mark_stale_marks [OF assms(4,5)] by (simp add: insert_to_delta_def)
    qed
  qed
  note i = assms(1) [unfolded cuvs_aminsert_def option.case Let_def tid_def [symmetric]]
  consider "cuvs_index_is_stale db idx st'" | "st' = ?D st"
    | rc s where "?x = Some (rc, s)" "st' = (if rc = CUVS_STATUS_OK then s else ?D s)"
  proof (cases "sint (wr_max_delta_rows wr) \<le> 0 \<or> cuvs_index_is_stale db idx st")
    case True
    then show thesis
      using i assms(2) mark_stale_marks [OF assms(4,5), of db idx st] that(1) by (cases "sint (wr_max_delta_rows wr) \<le> 0") auto
  next
    case False
    show thesis
    proof (cases "wr_socket wr \<and> wr_cagra wr")
      case True
      then obtain rc s where x: "?x = Some (rc, s)" using i False by (cases ?x) auto
      then show thesis using i True False that(3) [OF x] by simp
    qed (use i False that(2) in auto)
  qed
  then show ?thesis
  proof cases
    case 1
    then show ?thesis by simp
  next
    case 2
    then show ?thesis using delta [of st] unfolding Let_def tid_def [symmetric] by blast
  next
    case (3 rc s)
    show ?thesis
    proof (cases "rc = CUVS_STATUS_OK")
      case True
      then show ?thesis using 3 extend_answered [OF _ assms(6,3)] unfolding Let_def tid_def [symmetric] by auto
    next
      case False
      then show ?thesis
        using exchange_extend [OF 3(1) assms(6)] delta [of s] 3(2) unfolding Let_def tid_def [symmetric] by auto
    qed
  qed
qed

text \<open>
  With the delta switched off a failed mark is not tried again: the backend remembers that it has
  marked the index whether or not the daemon heard it, so its later inserts are recorded nowhere,
  although the daemon is there again, and the index is not stale.
\<close>

theorem insert_mark_not_retried:
  assumes "sint (wr_max_delta_rows wr) \<le> 0" "wr_link wr ''mark_stale'' = Link_down" "sint (wr_max_delta_rows wr') \<le> 0"
    and "cuvs_aminsert out ul wr db idx False (Some vec) heap_tid metric st = Some (cache, st1)"
  shows "cuvs_aminsert out ul wr' db idx cache (Some vec') heap_tid' metric st1 = Some (True, st)"
  using assms by (auto simp: cuvs_aminsert_def cuvs_mark_index_stale_def)

text \<open>
  An insert can be lost without a trace. With the daemon out of reach and the delta file full, the
  insert reports success, yet the files and the daemon are as before: no row, no marker.
\<close>

theorem insert_lost_when_down:
  assumes "wr_link wr = (\<lambda>_. Link_down)" "0 < sint (wr_max_delta_rows wr)" "\<not> cuvs_index_is_stale db idx st"
    and "d_files st (db, idx, F_delta) = Some (delta_image (of_nat (length vec)) m crc rs t)"
    and "nat (sint (wr_max_delta_rows wr)) \<le> length rs" "length rs \<le> 2 ^ 62"
  shows "\<exists>st'. cuvs_aminsert out ul wr db idx cache (Some vec) heap_tid metric st = Some (cache, st') \<and>
    d_files st' = d_files st \<and> live_entries st' = live_entries st"
proof -
  let ?tid = "cuvs_tid_encode (fst heap_tid) (snd heap_tid)" and ?dim = "of_nat (length vec) :: u32"
  let ?f = "delta_image ?dim m crc rs t"
  have a: "cuvs_delta_append (append_env_of wr db idx st) (wr_fault wr 0) ?f ?tid vec ?dim metric = (False, ?f)"
  proof (cases "wr_open wr \<and> wr_lock wr")
    case True
    then have "append_env_of wr db idx st = live_env (d_files st (db, idx, F_tids)) (wr_max_delta_rows wr)"
      by (simp add: append_env_of_def live_env_def)
    then show ?thesis
      using delta_append_full [OF assms(5,6), of "d_files st (db, idx, F_tids)" ?dim metric "wr_fault wr 0" m crc t "(?tid, vec)"]
      by (simp add: delta_attempt_def)
  next
    case False
    then have "\<not> (ae_open (append_env_of wr db idx st) \<and> ae_lock (append_env_of wr db idx st))" by (simp add: append_env_of_def)
    then show ?thesis unfolding cuvs_delta_append_def by (cases "ae_open (append_env_of wr db idx st)") simp_all
  qed
  have "insert_to_delta wr db idx ?tid vec metric st = put_file wr (db, idx, F_delta) ?f st"
    using assms(1,4) a by (simp add: insert_to_delta_def delta_put_def contents_of_def cuvs_mark_index_stale_def)
  moreover have "d_files (put_file wr (db, idx, F_delta) ?f st) = d_files st"
    "live_entries (put_file wr (db, idx, F_delta) ?f st) = live_entries st"
    using assms(4) by (auto simp: put_file_def live_entries_def)
  moreover have "CUVS_STATUS_UNAVAILABLE \<noteq> CUVS_STATUS_OK" by (simp add: CUVS_STATUS_UNAVAILABLE_def CUVS_STATUS_OK_def)
  ultimately show ?thesis
    using assms(1-3) by (auto simp: cuvs_aminsert_def exchange_def Let_def)
qed

section \<open>Deleting\<close>

text \<open>A tombstone file of an index: absent, or an image of some records.\<close>

definition tombstone_file :: "CuvsTombstoneRecord list \<Rightarrow> bytes option \<Rightarrow> bool" where
  "tombstone_file rs f \<longleftrightarrow> length rs \<le> 2 ^ 62 \<and> (f = None \<and> rs = [] \<or> (\<exists>crc t. f = Some (tombstone_image crc rs t)))"

lemma tombstone_first_acked:
  assumes "tombstone_attempt (live_env tids max_rows) flt [] r = (True, f)"
  shows "\<exists>crc. f = tombstone_image crc [r] []"
proof -
  have m: "0 < sint max_rows" and c: "cuvs_read_tids_crc tids \<noteq> None"
    using assms(1) by (auto simp: tombstone_attempt_def cuvs_tombstone_append_def live_env_def cuvs_tombstone_header_init_def Let_def
        split: option.splits if_splits)
  then obtain crc where crc: "cuvs_read_tids_crc tids = Some crc" by blast
  define H where "H = tombstone_count_header crc 1"
  define v where "v = tombstone_record_bytes r"
  have z: "length H = 32" "length v = 16"
    by (simp_all add: H_def v_def tombstone_count_header_def tombstone_hdr.length_enc tombstone_rec.length_enc)
  have run: "tombstone_attempt (live_env tids max_rows) flt [] r = run_ops flt [Pwrite 32 v, Pwrite 0 H, Ftruncate 48, Fsync] []"
    using crc m by (cases r) (simp add: tombstone_attempt_def cuvs_tombstone_append_def live_env_def Let_def
      cuvs_tombstone_header_init_def tombstone_count_header_def H_def v_def)
  have w1: "pwrite 32 v [] = replicate 32 0 @ v" using z by (auto simp: pwrite_def)
  have w2: "pwrite 0 H (replicate 32 0 @ v) = H @ v" using z by (auto simp: pwrite_def)
  have "run_ops None [Pwrite 32 v, Pwrite 0 H, Ftruncate 48, Fsync] [] = (True, f)"
    using assms(1) run_ops_acked unfolding run by blast
  then have "f = H @ v" using z by (simp add: w1 w2)
  then show ?thesis
    by (auto simp: tombstone_image_def log_image_def log_rows_def tombstone_parts_def H_def v_def)
qed

lemma tombstone_put_acked:
  assumes "tombstone_put wr i db idx tid xid st = (True, st')" "tombstone_file rs (d_files st (db, idx, F_tombstone))"
  shows "tombstone_file (rs @ [\<lparr>tr_tid = tid, tr_delete_xid = xid\<rparr>]) (d_files st' (db, idx, F_tombstone))"
proof -
  let ?r = "\<lparr>tr_tid = tid, tr_delete_xid = xid\<rparr>"
  obtain f where f: "cuvs_tombstone_append (append_env_of wr db idx st) (wr_fault wr i) (contents_of (db, idx, F_tombstone) st) tid xid = (True, f)"
    "st' = put_file wr (db, idx, F_tombstone) f st"
    using assms(1) by (auto simp: tombstone_put_def Let_def split: prod.splits)
  note o = append_opened(2) [OF f(1)]
  have a: "tombstone_attempt (live_env (d_files st (db, idx, F_tids)) (wr_max_delta_rows wr)) (wr_fault wr i)
      (contents_of (db, idx, F_tombstone) st) ?r = (True, f)"
    using f(1) append_env_live [of wr db idx st] o by (simp add: tombstone_attempt_def)
  have "tombstone_file (rs @ [?r]) (Some f)"
  proof (cases "d_files st (db, idx, F_tombstone)")
    case None
    then have "rs = []" using assms(2) by (simp add: tombstone_file_def)
    then show ?thesis using tombstone_first_acked [OF a [unfolded contents_of_def None option.case]] by (auto simp: tombstone_file_def)
  next
    case (Some x)
    then obtain crc t where x: "x = tombstone_image crc rs t" using assms(2) by (auto simp: tombstone_file_def)
    have l: "length rs \<le> 2 ^ 62" using assms(2) by (simp add: tombstone_file_def)
    note acked = tombstone_append_acked [OF a [unfolded contents_of_def Some option.case x] l]
    then have "length (rs @ [?r]) \<le> 2 ^ 62" using max_rows_bound [of "wr_max_delta_rows wr"] by auto
    then show ?thesis using acked by (auto simp: tombstone_file_def)
  qed
  moreover have "wr_open wr" using o by (simp add: append_env_of_def)
  ultimately show ?thesis using f(2) by (simp add: put_file_def)
qed

lemma tombstone_put_other:
  "k \<noteq> (db, idx, F_tombstone) \<Longrightarrow> d_files (snd (tombstone_put wr i db idx tid xid st)) k = d_files st k"
  "live_entries (snd (tombstone_put wr i db idx tid xid st)) = live_entries st"
  "g_indexes (snd (tombstone_put wr i db idx tid xid st)) = g_indexes st"
  by (auto simp: tombstone_put_def put_file_def live_entries_def Let_def split: prod.split)

lemma bulkdelete_loop_other:
  assumes "bulkdelete_loop wr db idx xid callback i ts removed st = (ok, n, st')"
  shows "(k \<noteq> (db, idx, F_tombstone) \<longrightarrow> d_files st' k = d_files st k) \<and> g_indexes st' = g_indexes st \<and> live_entries st' = live_entries st"
  using assms
proof (induction ts arbitrary: i removed st)
  case (Cons t ts)
  obtain b s where p: "tombstone_put wr i db idx t xid st = (b, s)" by fastforce
  have o: "k \<noteq> (db, idx, F_tombstone) \<longrightarrow> d_files s k = d_files st k" "g_indexes s = g_indexes st" "live_entries s = live_entries st"
    using tombstone_put_other [where wr = wr and i = i and db = db and idx = idx and tid = t and xid = xid and st = st] p by auto
  show ?case
    using Cons.prems Cons.IH [of "Suc i" _ s] Cons.IH [of "Suc i" removed st] p o by (auto split: if_splits)
qed simp

lemma bulkdelete_loop_records:
  assumes "bulkdelete_loop wr db idx xid callback i ts removed st = (ok, n, st')"
    and "tombstone_file rs (d_files st (db, idx, F_tombstone))" "ok"
  shows "tombstone_file (rs @ map (\<lambda>t. \<lparr>tr_tid = t, tr_delete_xid = xid\<rparr>) (filter (\<lambda>t. callback (cuvs_tid_decode t)) ts))
      (d_files st' (db, idx, F_tombstone)) \<and>
    n = removed + length (filter (\<lambda>t. callback (cuvs_tid_decode t)) ts)"
  using assms
proof (induction ts arbitrary: i removed st rs)
  case (Cons t ts)
  show ?case
  proof (cases "callback (cuvs_tid_decode t)")
    case True
    obtain b s where p: "tombstone_put wr i db idx t xid st = (b, s)" by fastforce
    then have b: "b" "bulkdelete_loop wr db idx xid callback (Suc i) ts (Suc removed) s = (ok, n, st')"
      using Cons.prems(1,3) True by (auto split: if_splits)
    from Cons.IH [OF b(2) tombstone_put_acked [OF p [unfolded eq_True [THEN iffD2, OF b(1)]] Cons.prems(2)] Cons.prems(3)] True
    show ?thesis by simp
  qed (use Cons in simp)
qed simp

text \<open>
  C7. No dead row of the base build goes unrecorded while the index can be marked stale. If the
  mark-stale request reaches the daemon and the marker can be written, then a bulk delete that leaves
  the index not stale has read the TIDs of the base build and has left, in the tombstone file, the
  earlier records and, in order, one for every dead TID, and has counted them; a compaction, if one is
  due, is asked for only after that. \<open>bulkdelete_lost_when_down\<close> shows the excluded case.
\<close>

theorem bulkdelete_recorded:
  assumes "cuvs_ambulkdelete out ul wr db idx xid callback removed st = (n, st')"
    and "wr_link wr ''mark_stale'' \<noteq> Link_down" "wr_can_mark wr" "\<not> cuvs_index_is_stale db idx st'"
    and "tombstone_file rs (d_files st (db, idx, F_tombstone))"
  shows "\<exists>hdr base s. Option.bind (d_files st (db, idx, F_tids)) (cuvs_tids_read (wr_mem wr)) = Some (hdr, base) \<and>
    tombstone_file (rs @ map (\<lambda>t. \<lparr>tr_tid = t, tr_delete_xid = xid\<rparr>) (filter (\<lambda>t. callback (cuvs_tid_decode t)) base))
      (d_files s (db, idx, F_tombstone)) \<and>
    n = removed + length (filter (\<lambda>t. callback (cuvs_tid_decode t)) base) \<and>
    st' = (if wr_socket wr \<and> wr_compact_due wr n (sint (th_n_vecs hdr)) then compact_request out ul wr db idx s else s)"
proof -
  note m = mark_stale_marks [OF assms(2,3), of db idx]
  obtain hdr base where r: "Option.bind (d_files st (db, idx, F_tids)) (cuvs_tids_read (wr_mem wr)) = Some (hdr, base)"
    "0 < sint (wr_max_delta_rows wr)" "\<not> cuvs_index_is_stale db idx st"
    using assms(1,4) m by (fastforce simp: cuvs_ambulkdelete_def split: if_splits option.splits)
  obtain ok k s where l: "bulkdelete_loop wr db idx xid callback 0 base removed st = (ok, k, s)"
    using prod_cases3 by blast
  have c: "cuvs_ambulkdelete out ul wr db idx xid callback removed st
      = (if \<not> ok then (k, cuvs_mark_index_stale wr db idx s)
         else if wr_socket wr \<and> wr_compact_due wr k (sint (th_n_vecs hdr)) then (k, compact_request out ul wr db idx s) else (k, s))"
    using r l by (simp add: cuvs_ambulkdelete_def)
  have ok: ok
  proof (rule ccontr)
    assume "\<not> ok"
    then have "st' = cuvs_mark_index_stale wr db idx s" using c assms(1) by simp
    then show False using assms(4) m by simp
  qed
  then have "n = k" "st' = (if wr_socket wr \<and> wr_compact_due wr k (sint (th_n_vecs hdr)) then compact_request out ul wr db idx s else s)"
    using c assms(1) by (auto split: if_splits)
  then show ?thesis using bulkdelete_loop_records [OF l assms(5) ok] r(1) by auto
qed

text \<open>
  A dead row can stay unrecorded. With the daemon out of reach and the tombstone file full, the bulk
  delete counts the dead row as removed, yet the files and the daemon are as before: no tombstone, no
  marker.
\<close>

theorem bulkdelete_lost_when_down:
  assumes "wr_link wr = (\<lambda>_. Link_down)" "0 < sint (wr_max_delta_rows wr)" "\<not> cuvs_index_is_stale db idx st"
    and "Option.bind (d_files st (db, idx, F_tids)) (cuvs_tids_read (wr_mem wr)) = Some (hdr, base)"
    and "\<exists>t \<in> set base. callback (cuvs_tid_decode t)"
    and "d_files st (db, idx, F_tombstone) = Some (tombstone_image crc rs t)"
    and "nat (sint (wr_max_delta_rows wr)) \<le> length rs" "length rs \<le> 2 ^ 62"
  shows "\<exists>st'. cuvs_ambulkdelete out ul wr db idx xid callback removed st = (Suc removed, st') \<and>
    d_files st' = d_files st \<and> live_entries st' = live_entries st"
proof -
  let ?f = "tombstone_image crc rs t"
  have put: "tombstone_put wr i db idx tid xid st = (False, put_file wr (db, idx, F_tombstone) ?f st)" for i tid
  proof -
    have "cuvs_tombstone_append (append_env_of wr db idx st) (wr_fault wr i) ?f tid xid = (False, ?f)"
    proof (cases "wr_open wr \<and> wr_lock wr")
      case True
      then have "append_env_of wr db idx st = live_env (d_files st (db, idx, F_tids)) (wr_max_delta_rows wr)"
        by (simp add: append_env_of_def live_env_def)
      then show ?thesis
        using tombstone_append_full [OF assms(7,8), of "d_files st (db, idx, F_tids)" "wr_fault wr i" crc t "\<lparr>tr_tid = tid, tr_delete_xid = xid\<rparr>"]
        by (simp add: tombstone_attempt_def)
    next
      case False
      then have "\<not> (ae_open (append_env_of wr db idx st) \<and> ae_lock (append_env_of wr db idx st))" by (simp add: append_env_of_def)
      then show ?thesis unfolding cuvs_tombstone_append_def by (cases "ae_open (append_env_of wr db idx st)") simp_all
    qed
    then show ?thesis using assms(6) by (simp add: tombstone_put_def contents_of_def)
  qed
  have "bulkdelete_loop wr db idx xid callback i ts removed st = (False, Suc removed, put_file wr (db, idx, F_tombstone) ?f st)"
    if "\<exists>t \<in> set ts. callback (cuvs_tid_decode t)" for i ts
    using that by (induction ts arbitrary: i) (auto simp: put)
  from this [OF assms(5)]
  have "cuvs_ambulkdelete out ul wr db idx xid callback removed st = (Suc removed, put_file wr (db, idx, F_tombstone) ?f st)"
    using assms(1-4) by (simp add: cuvs_ambulkdelete_def cuvs_mark_index_stale_def)
  moreover have "d_files (put_file wr (db, idx, F_tombstone) ?f st) = d_files st"
    "live_entries (put_file wr (db, idx, F_tombstone) ?f st) = live_entries st"
    using assms(6) by (auto simp: put_file_def live_entries_def)
  ultimately show ?thesis by blast
qed

lemma bulkdelete_nothing_dead:
  assumes "0 < sint (wr_max_delta_rows wr)" "\<not> cuvs_index_is_stale db idx st"
    and "cuvs_tids_read (wr_mem wr) f = Some (hdr, base)" "d_files st (db, idx, F_tids) = Some f"
    and "\<forall>t \<in> set base. \<not> callback (cuvs_tid_decode t)" "\<not> wr_compact_due wr removed (sint (th_n_vecs hdr))"
  shows "cuvs_ambulkdelete out ul wr db idx xid callback removed st = (removed, st)"
proof -
  have "bulkdelete_loop wr db idx xid callback j ts removed st = (True, removed, st)"
    if "\<forall>t \<in> set ts. \<not> callback (cuvs_tid_decode t)" for j ts
    using that by (induction ts arbitrary: j) auto
  from this [OF assms(5)] show ?thesis using assms(1-4,6) by (simp add: cuvs_ambulkdelete_def)
qed

text \<open>
  VACUUM does not see the rows an index was extended with. A row is inserted, the daemon extends
  its graph with it, and the row is deleted: the bulk delete reads the TIDs of the \<open>.tids\<close>
  file only, so it writes no tombstone, marks nothing stale and tells the daemon nothing, and the
  resident index keeps the dead TID.
\<close>

theorem deleted_insert_kept:
  assumes "cuvs_aminsert out ul wr db idx cache (Some vec) heap_tid metric st = Some (cache', st1)"
    and "cuvs_ambulkdelete out ul wr db idx xid (\<lambda>p. p = heap_tid) removed st1 = (n, st2)"
    and "exchange (wr_link wr ''extend'') (handle_extend out ul (extend_env wr vec tid) (extend_frame wr db idx vec)) st = Some (CUVS_STATUS_OK, s)"
    and "wr_socket wr" "wr_cagra wr" "tid = cuvs_tid_encode (fst heap_tid) (snd heap_tid)" "0 < sint (wr_max_delta_rows wr)" "\<not> cuvs_index_is_stale db idx st"
    and "length vec < 2 ^ 32" "bn_can_map (wr_build wr) (c_str (key_field (wr_key wr)))" "g_n_indexes st \<le> length (g_indexes st)"
    and "cuvs_tids_read (wr_mem wr) f = Some (hdr, base)" "d_files st (db, idx, F_tids) = Some f"
    and "\<forall>t \<in> set base. cuvs_tid_decode t \<noteq> heap_tid" "\<not> wr_compact_due wr removed (sint (th_n_vecs hdr))"
  shows "n = removed \<and> d_files st2 = d_files st \<and> (\<exists>i. find_index db idx st2 = Some i \<and> last (entry_tids (entry_at i st2)) = tid)"
proof -
  have key: "cf_db_oid (extend_frame wr db idx vec) = db" "cf_index_oid (extend_frame wr db idx vec) = idx"
    by (simp_all add: extend_frame_def index_frame_def)
  have st1: "st1 = s"
    using assms(1,3-8) by (simp add: cuvs_aminsert_def)
  note x = exchange_extend [OF assms(3,11)]
  have "(n, st2) = (removed, st1)"
    using bulkdelete_nothing_dead [OF assms(7) _ assms(12) _ _ assms(15), of db idx st1 "\<lambda>p. p = heap_tid" out ul xid]
      assms(2,8,13,14) x by (simp add: cuvs_index_is_stale_def st1)
  then show ?thesis
    using x key st1 extend_corpus [OF assms(10,9), of tid db idx] by (auto simp: entry_tids_def)
qed

end
