(* ===== verification/Backend_Witness.thy ===== *)
theory Backend_Witness
  imports Backend_Props
begin

text \<open>
  Concrete writes to a resident index of two rows: the instances at which the properties of the
  backend's writes are evaluated.
\<close>

section \<open>Witnesses\<close>

definition plain_writer :: writer where
  "plain_writer = \<lparr>wr_socket = True, wr_cagra = True, wr_max_delta_rows = 10, wr_link = \<lambda>_. Link_ok, wr_build = shm_build,
     wr_key = [47, 65], wr_chunk = 0, wr_open = True, wr_lock = True, wr_fault = \<lambda>_. None, wr_mem = \<lambda>_. True,
     wr_can_mark = True, wr_compact_due = \<lambda>_ _. False\<rparr>"

lemma plain_writer_fields [simp]:
  "0 < sint (wr_max_delta_rows plain_writer)" "\<not> sint (wr_max_delta_rows plain_writer) \<le> 0" "wr_can_mark plain_writer" "wr_socket plain_writer" "wr_cagra plain_writer"
  "bn_can_map (wr_build plain_writer) k" "wr_link plain_writer = (\<lambda>_. Link_ok)" "\<not> wr_compact_due plain_writer r n"
  "wr_mem plain_writer = (\<lambda>_. True)"
  by (simp_all add: plain_writer_def shm_build_def quiet_build_def)

text \<open>The resident index of two rows, and its TIDs on disk.\<close>

definition base_image :: bytes where
  "base_image = written (snd (cuvs_tids_write \<lparr>written = [], room = 1000\<rparr> 2 1 0 [7, 8]))"

definition base_run :: daemon where
  "base_run = cached_run\<lparr>d_files := [(1, 12, F_tids) \<mapsto> base_image]\<rparr>"

lemma base_read: "\<exists>hdr. cuvs_tids_read (\<lambda>_. True) base_image = Some (hdr, [7, 8])"
proof -
  obtain rc g where w: "cuvs_tids_write \<lparr>written = [], room = 1000\<rparr> 2 1 0 [7, 8] = (rc, g)" by fastforce
  have "\<exists>h. cuvs_tids_read (\<lambda>_. True) (written g @ []) = Some (h, [7, 8])"
    using tids_write_read [of "[7, 8]" 2 rc "\<lparr>written = [], room = 1000\<rparr>" "\<lambda>_. True" 1 0 g "[]"] w
    by (auto simp: CUVS_TIDS_MAX_VECS_def)
  then show ?thesis by (simp add: base_image_def w)
qed

lemma base_run_found:
  "find_index 1 12 base_run = Some 0" "g_n_indexes base_run \<le> length (g_indexes base_run)"
  "entry_at 0 base_run = entry_at 0 cached_run" "\<not> cuvs_index_is_stale 1 12 base_run"
  "d_files base_run (1, 12, F_tids) = Some base_image" "d_files base_run (1, 12, F_delta) = None"
  "d_files base_run (1, 12, F_tombstone) = None"
  using cached_run_found by (simp_all add: base_run_def find_index_def live_entries_def cuvs_index_is_stale_def)

lemma base_extend:
  obtains s where "exchange Link_ok (handle_extend calm_outside willing_lib (extend_env plain_writer [5] tid)
    (extend_frame plain_writer 1 12 [5])) base_run = Some (CUVS_STATUS_OK, s)"
proof -
  let ?bn = "extend_env plain_writer [5] tid" and ?cmd = "extend_frame plain_writer 1 12 [5]"
  have m: "map_corpus (?bn\<lparr>bn_memfd := None\<rparr>) ?cmd = Inr ([5], [tid])" by (rule extend_corpus) simp_all
  have c: "cf_db_oid ?cmd = 1" "cf_index_oid ?cmd = 12" "cf_n_vecs ?cmd = 1" "cf_dim ?cmd = 1"
    by (simp_all add: extend_frame_def index_frame_def)
  have b: "bn_dir_ok ?bn" "bn_alloc ?bn = (\<lambda>_. True)"
    by (simp_all add: extend_env_def plain_writer_def shm_build_def quiet_build_def)
  have e: "e_handle (entry_at 0 base_run) = Some (Suc 0)" "g_max_vram_per_gpu base_run ! 0 = 0"
    "e_gpu_device_id (entry_at 0 base_run) = 0"
    by (simp_all add: base_run_def cached_run_def zero_entry_def)
  have "\<not> payload_wraps ?cmd" by (simp add: payload_wraps_def c)
  then have "handle_extend calm_outside willing_lib ?bn ?cmd base_run
      = Some (status_reply CUVS_STATUS_OK, set_slot 0 (extended_entry calm_outside [tid] 1 (entry_at 0 base_run)) base_run)"
    using m b c e base_run_found(1) by (simp add: handle_extend_def extend_over_budget_def Let_def willing_lib_def)
  then show thesis using that by (simp add: exchange_def status_reply_def)
qed

theorem insert_recorded_witness:
  "\<exists>st'. cuvs_aminsert calm_outside willing_lib plain_writer 1 12 False (Some [5]) (3, 9) 0 base_run = Some (False, st') \<and>
    (cuvs_index_is_stale 1 12 st' \<or>
     (\<exists>m crc. d_files st' (1, 12, F_delta) = Some (delta_image 1 m crc [(cuvs_tid_encode 3 9, [5])] [])) \<or>
     (\<exists>i. find_index 1 12 st' = Some i \<and> e_tids (entry_at i st') = Some (entry_tids (entry_at i base_run) @ [cuvs_tid_encode 3 9])))"
proof -
  obtain s where "exchange Link_ok (handle_extend calm_outside willing_lib (extend_env plain_writer [5] (cuvs_tid_encode 3 9))
    (extend_frame plain_writer 1 12 [5])) base_run = Some (CUVS_STATUS_OK, s)" by (rule base_extend)
  then have i: "cuvs_aminsert calm_outside willing_lib plain_writer 1 12 False (Some [5]) (3, 9) 0 base_run = Some (False, s)"
    using base_run_found(4) by (simp add: cuvs_aminsert_def Let_def not_le)
  have "delta_file (of_nat (length [5])) [] (d_files base_run (1, 12, F_delta))"
    by (simp add: delta_file_def base_run_found)
  from insert_recorded [OF i _ _ _ _ base_run_found(2) this] i show ?thesis by (simp add: Let_def)
qed

definition full_run :: daemon where
  "full_run = base_run\<lparr>d_files := (d_files base_run)((1, 12, F_delta) \<mapsto> delta_image 1 0 3 [(1, [2])] [])\<rparr>"

theorem insert_lost_when_down_witness:
  "\<exists>st'. cuvs_aminsert calm_outside willing_lib (plain_writer\<lparr>wr_link := \<lambda>_. Link_down, wr_max_delta_rows := 1\<rparr>) 1 12 False
      (Some [5]) (3, 9) 0 full_run = Some (False, st') \<and> d_files st' = d_files full_run \<and> live_entries st' = live_entries full_run"
  by (rule insert_lost_when_down [where rs = "[(1, [2])]" and m = 0 and crc = 3 and t = "[]"])
    (simp_all add: full_run_def base_run_def cuvs_index_is_stale_def)

theorem bulkdelete_recorded_witness:
  "\<exists>n st'. cuvs_ambulkdelete calm_outside willing_lib plain_writer 1 12 3 (\<lambda>p. p = cuvs_tid_decode 8) 0 base_run = (n, st') \<and>
    tombstone_file [\<lparr>tr_tid = 8, tr_delete_xid = 3\<rparr>] (d_files st' (1, 12, F_tombstone)) \<and> n = 1"
proof -
  obtain hdr where r: "cuvs_tids_read (\<lambda>_. True) base_image = Some (hdr, [7, 8])" using base_read by blast
  obtain n st' where d: "cuvs_ambulkdelete calm_outside willing_lib plain_writer 1 12 3 (\<lambda>p. p = cuvs_tid_decode 8) 0 base_run = (n, st')"
    by fastforce
  have dead: "filter (\<lambda>t. cuvs_tid_decode t = cuvs_tid_decode 8) [7, 8] = [8]"
    by (simp add: cuvs_tid_decode_def)
  obtain crc where "cuvs_read_tids_crc (Some base_image) = Some crc"
    using r by (auto simp: cuvs_tids_read_def cuvs_read_tids_crc_def fread_def Let_def split: option.splits if_splits)
  then have "fst (tombstone_put plain_writer 1 1 12 8 3 base_run)"
    using base_run_found
    by (simp add: tombstone_put_def case_prod_beta Let_def cuvs_tombstone_append_def append_env_of_def contents_of_def
        cuvs_tombstone_header_init_def) (simp add: plain_writer_def)
  then obtain s where p: "tombstone_put plain_writer 1 1 12 8 3 base_run = (True, s)" by (metis prod.collapse)
  have "d_files s (1, 12, F_stale) = d_files base_run (1, 12, F_stale)"
    using tombstone_put_other(1) [of "(1, 12, F_stale)" 1 12 plain_writer 1 8 3 base_run] p by simp
  then have ns: "\<not> cuvs_index_is_stale 1 12 s" using base_run_found(4) by (simp add: cuvs_index_is_stale_def)
  have "st' = s"
    using d r dead p base_run_found(4,5) by (simp add: cuvs_ambulkdelete_def not_le cuvs_tid_decode_def)
  with ns have ns': "\<not> cuvs_index_is_stale 1 12 st'" by simp
  have "tombstone_file [] (d_files base_run (1, 12, F_tombstone))" by (simp add: tombstone_file_def base_run_found)
  note b = bulkdelete_recorded [OF d _ _ ns' this]
  have "Option.bind (d_files base_run (1, 12, F_tids)) (cuvs_tids_read (wr_mem plain_writer)) = Some (hdr, [7, 8])"
    using r base_run_found(5) by simp
  with b have "tombstone_file [\<lparr>tr_tid = 8, tr_delete_xid = 3\<rparr>] (d_files st' (1, 12, F_tombstone)) \<and> n = 1"
    using dead by auto
  then show ?thesis using d by blast
qed

theorem deleted_insert_kept_witness:
  "\<exists>st1 st2. cuvs_aminsert calm_outside willing_lib plain_writer 1 12 False (Some [5]) (3, 9) 0 base_run = Some (False, st1) \<and>
    cuvs_ambulkdelete calm_outside willing_lib plain_writer 1 12 4 (\<lambda>p. p = (3, 9)) 0 st1 = (0, st2) \<and>
    d_files st2 = d_files base_run \<and> (\<exists>i. find_index 1 12 st2 = Some i \<and> last (entry_tids (entry_at i st2)) = cuvs_tid_encode 3 9)"
proof -
  obtain s where x: "exchange Link_ok (handle_extend calm_outside willing_lib (extend_env plain_writer [5] (cuvs_tid_encode 3 9))
    (extend_frame plain_writer 1 12 [5])) base_run = Some (CUVS_STATUS_OK, s)" by (rule base_extend)
  then have i: "cuvs_aminsert calm_outside willing_lib plain_writer 1 12 False (Some [5]) (3, 9) 0 base_run = Some (False, s)"
    using base_run_found(4) by (simp add: cuvs_aminsert_def Let_def not_le)
  obtain hdr where r: "cuvs_tids_read (wr_mem plain_writer) base_image = Some (hdr, [7, 8])" using base_read by auto
  obtain n st2 where d: "cuvs_ambulkdelete calm_outside willing_lib plain_writer 1 12 4 (\<lambda>p. p = (3, 9)) 0 s = (n, st2)" by fastforce
  have off: "\<forall>t \<in> set [7, 8 :: u64]. cuvs_tid_decode t \<noteq> (3, 9)" by (simp add: cuvs_tid_decode_def)
  have x': "exchange (wr_link plain_writer ''extend'') (handle_extend calm_outside willing_lib (extend_env plain_writer [5] (cuvs_tid_encode 3 9))
    (extend_frame plain_writer 1 12 [5])) base_run = Some (CUVS_STATUS_OK, s)" using x by simp
  from deleted_insert_kept [OF i d x' _ _ _ _ base_run_found(4) _ _ base_run_found(2) r base_run_found(5) off] i d
  show ?thesis by simp
qed

theorem insert_mark_not_retried_witness:
  "\<exists>cache st1. cuvs_aminsert calm_outside willing_lib (plain_writer\<lparr>wr_link := \<lambda>_. Link_down, wr_max_delta_rows := 0\<rparr>) 1 12 False
      (Some [5]) (3, 9) 0 base_run = Some (cache, st1) \<and>
    cuvs_aminsert calm_outside willing_lib (plain_writer\<lparr>wr_max_delta_rows := 0\<rparr>) 1 12 cache (Some [6]) (3, 10) 0 st1
      = Some (True, base_run)"
proof -
  let ?w = "plain_writer\<lparr>wr_link := \<lambda>_. Link_down, wr_max_delta_rows := 0\<rparr>"
  obtain cache st1 where i: "cuvs_aminsert calm_outside willing_lib ?w 1 12 False (Some [5]) (3, 9) 0 base_run = Some (cache, st1)"
    by (simp add: cuvs_aminsert_def)
  have "sint (wr_max_delta_rows ?w) \<le> 0" "wr_link ?w ''mark_stale'' = Link_down"
    "sint (wr_max_delta_rows (plain_writer\<lparr>wr_max_delta_rows := 0\<rparr>)) \<le> 0" by simp_all
  from insert_mark_not_retried [OF this i] i show ?thesis by blast
qed

theorem bulkdelete_lost_when_down_witness:
  "\<exists>st'. cuvs_ambulkdelete calm_outside willing_lib (plain_writer\<lparr>wr_link := \<lambda>_. Link_down, wr_max_delta_rows := 1\<rparr>) 1 12 3
      (\<lambda>p. p = cuvs_tid_decode 8) 0 (base_run\<lparr>d_files := (d_files base_run)((1, 12, F_tombstone)
        \<mapsto> tombstone_image 3 [\<lparr>tr_tid = 7, tr_delete_xid = 2\<rparr>] [])\<rparr>) = (1, st') \<and>
    \<not> cuvs_index_is_stale 1 12 st'"
proof -
  let ?w = "plain_writer\<lparr>wr_link := \<lambda>_. Link_down, wr_max_delta_rows := 1\<rparr>"
  let ?s = "base_run\<lparr>d_files := (d_files base_run)((1, 12, F_tombstone) \<mapsto> tombstone_image 3 [\<lparr>tr_tid = 7, tr_delete_xid = 2\<rparr>] [])\<rparr>"
  obtain hdr where r: "cuvs_tids_read (\<lambda>_. True) base_image = Some (hdr, [7, 8])" using base_read by blast
  have ns: "\<not> cuvs_index_is_stale 1 12 ?s" using base_run_found(4) by (simp add: cuvs_index_is_stale_def)
  have "Option.bind (d_files ?s (1, 12, F_tids)) (cuvs_tids_read (wr_mem ?w)) = Some (hdr, [7, 8])"
    using r base_run_found(5) by simp
  from bulkdelete_lost_when_down [OF _ _ ns this, where callback = "\<lambda>p. p = cuvs_tid_decode 8" and crc = 3
      and rs = "[\<lparr>tr_tid = 7, tr_delete_xid = 2\<rparr>]" and t = "[]" and out = calm_outside and ul = willing_lib and xid = 3
      and removed = 0]
  obtain st' where "cuvs_ambulkdelete calm_outside willing_lib ?w 1 12 3 (\<lambda>p. p = cuvs_tid_decode 8) 0 ?s = (1, st')"
    "d_files st' = d_files ?s" by auto
  then show ?thesis using ns by (auto simp: cuvs_index_is_stale_def)
qed

end
