(* ===== verification/Planner.thy ===== *)
theory Planner
  imports Complex_Main Backend_Witness Circuit
begin

text \<open>
  Choosing the GPU at plan time (\<open>src/pg_cuvs.c\<close>): the eight gates of
  \<open>cuvsamcostestimate\<close> and its copy for flat indexes, and the shared table that counts why an
  index was passed over. Costs in floating point are not modelled beyond the one that excludes a
  path; row counts and fractions are exact rationals here, doubles in the code.
\<close>

section \<open>Why an index is passed over\<close>

datatype CuvsFbReason =
  CUVS_FB_NONE | CUVS_FB_DISABLED | CUVS_FB_BREAKER | CUVS_FB_STALE | CUVS_FB_DRIFT | CUVS_FB_DAEMON_DOWN
  | CUVS_FB_NO_ARTIFACT | CUVS_FB_DELTA | CUVS_FB_TOMBSTONE

definition cuvs_fb_reason_name :: "CuvsFbReason \<Rightarrow> string" where
  "cuvs_fb_reason_name r =
    (case r of
       CUVS_FB_DISABLED \<Rightarrow> ''disabled''
     | CUVS_FB_BREAKER \<Rightarrow> ''circuit_breaker''
     | CUVS_FB_STALE \<Rightarrow> ''stale''
     | CUVS_FB_DRIFT \<Rightarrow> ''delete_drift''
     | CUVS_FB_DAEMON_DOWN \<Rightarrow> ''daemon_down''
     | CUVS_FB_NO_ARTIFACT \<Rightarrow> ''no_artifact''
     | CUVS_FB_DELTA \<Rightarrow> ''delta_unusable''
     | CUVS_FB_TOMBSTONE \<Rightarrow> ''tombstone_unusable''
     | CUVS_FB_NONE \<Rightarrow> ''none'')"

definition CUVS_FB_SLOTS :: nat where "CUVS_FB_SLOTS = 128"

record CuvsFbSlot =
  fs_db_oid :: u32
  fs_index_oid :: u32
  fs_fallback_count :: u64
  fs_last_reason :: CuvsFbReason
  fs_last_fallback_at :: int

definition cuvs_fb_shmem_startup :: "CuvsFbSlot list" where
  "cuvs_fb_shmem_startup = replicate CUVS_FB_SLOTS \<lparr>fs_db_oid = 0, fs_index_oid = 0, fs_fallback_count = 0,
     fs_last_reason = CUVS_FB_NONE, fs_last_fallback_at = 0\<rparr>"

text \<open>The scan: the slot of the index, or else the first free one met before the end.\<close>

fun fb_scan :: "u32 \<Rightarrow> u32 \<Rightarrow> nat \<Rightarrow> nat option \<Rightarrow> CuvsFbSlot list \<Rightarrow> nat option \<times> nat option" where
  "fb_scan db idx i free [] = (None, free)"
| "fb_scan db idx i free (s # ss) =
    (if fs_index_oid s = idx \<and> fs_db_oid s = db then (Some i, free)
     else fb_scan db idx (i + 1) (if free = None \<and> fs_index_oid s = 0 then Some i else free) ss)"

definition cuvs_fb_record :: "u32 \<Rightarrow> u32 \<Rightarrow> CuvsFbReason \<Rightarrow> int \<Rightarrow> CuvsFbSlot list \<Rightarrow> CuvsFbSlot list" where
  "cuvs_fb_record db idx reason now slots =
    (if reason = CUVS_FB_NONE then slots
     else case fb_scan db idx 0 None slots of
       (Some i, _) \<Rightarrow> slots[i := (slots ! i)\<lparr>fs_fallback_count := fs_fallback_count (slots ! i) + 1,
         fs_last_reason := reason, fs_last_fallback_at := now\<rparr>]
     | (None, Some i) \<Rightarrow> slots[i := \<lparr>fs_db_oid = db, fs_index_oid = idx, fs_fallback_count = 1,
         fs_last_reason = reason, fs_last_fallback_at = now\<rparr>]
     | (None, None) \<Rightarrow> slots)"

section \<open>The gates\<close>

record planner =
  pl_enable :: bool
  pl_breakers :: breakers
  pl_max_stale_fraction :: rat
  pl_live_rows :: rat
  pl_socket :: bool
  pl_max_delta_rows :: u32

definition cuvs_index_delete_drift_stale :: "rat \<Rightarrow> rat \<Rightarrow> bytes option \<Rightarrow> bool" where
  "cuvs_index_delete_drift_stale max_fraction live_rows tids =
    (if max_fraction \<ge> 1 \<or> live_rows < 0 then False
     else case tids of
       None \<Rightarrow> False
     | Some f \<Rightarrow>
        (let hdr = tids_header_of (take 32 f); n = of_int (sint (th_n_vecs hdr)) in
         if length f < 32 \<or> th_magic hdr \<noteq> CUVS_TIDS_MAGIC \<or> th_version hdr \<noteq> CUVS_TIDS_VERSION \<or> sint (th_n_vecs hdr) \<le> 0
         then False
         else if live_rows \<ge> n then False
         else (n - live_rows) / n > max_fraction))"

definition cuvs_index_has_artifact :: "u32 \<Rightarrow> u32 \<Rightarrow> daemon \<Rightarrow> bool" where
  "cuvs_index_has_artifact db idx st \<longleftrightarrow> d_files st (db, idx, F_tids) \<noteq> None"

definition gate_reason :: "planner \<Rightarrow> u32 \<Rightarrow> u32 \<Rightarrow> daemon \<Rightarrow> CuvsFbReason" where
  "gate_reason pl db idx st =
    (if \<not> pl_enable pl then CUVS_FB_DISABLED
     else if cuvs_circuit_is_open idx (pl_breakers pl) \<noteq> 0 then CUVS_FB_BREAKER
     else if cuvs_index_is_stale db idx st then CUVS_FB_STALE
     else if cuvs_index_delete_drift_stale (pl_max_stale_fraction pl) (pl_live_rows pl) (d_files st (db, idx, F_tids))
     then CUVS_FB_DRIFT
     else if \<not> pl_socket pl then CUVS_FB_DAEMON_DOWN
     else if \<not> cuvs_index_has_artifact db idx st then CUVS_FB_NO_ARTIFACT
     else if cuvs_index_delta_unusable (pl_max_delta_rows pl) (d_files st (db, idx, F_tids)) (d_files st (db, idx, F_delta))
     then CUVS_FB_DELTA
     else if cuvs_index_tombstone_unusable (pl_max_delta_rows pl) (d_files st (db, idx, F_tids)) (d_files st (db, idx, F_tombstone))
     then CUVS_FB_TOMBSTONE
     else CUVS_FB_NONE)"

text \<open>A path without ORDER BY is excluded and not counted.\<close>

definition admit_path :: "planner \<Rightarrow> u32 \<Rightarrow> u32 \<Rightarrow> bool \<Rightarrow> int \<Rightarrow> daemon \<Rightarrow> CuvsFbSlot list \<Rightarrow> bool \<times> CuvsFbSlot list" where
  "admit_path pl db idx has_order_by now st slots =
    (if \<not> has_order_by then (False, slots)
     else let fb_reason = gate_reason pl db idx st in
       if fb_reason \<noteq> CUVS_FB_NONE then (False, cuvs_fb_record db idx fb_reason now slots) else (True, slots))"

text \<open>The copy for flat indexes.\<close>

definition flat_admit_path :: "planner \<Rightarrow> u32 \<Rightarrow> u32 \<Rightarrow> bool \<Rightarrow> int \<Rightarrow> daemon \<Rightarrow> CuvsFbSlot list \<Rightarrow> bool \<times> CuvsFbSlot list" where
  "flat_admit_path pl db idx has_order_by now st slots =
    (if \<not> has_order_by then (False, slots)
     else let fb_reason = gate_reason pl db idx st in
       if fb_reason \<noteq> CUVS_FB_NONE then (False, cuvs_fb_record db idx fb_reason now slots) else (True, slots))"

section \<open>The table counts exactly\<close>

definition slot_key :: "CuvsFbSlot \<Rightarrow> u32 \<times> u32" where
  "slot_key s = (fs_db_oid s, fs_index_oid s)"

definition used_slots :: "CuvsFbSlot list \<Rightarrow> CuvsFbSlot list" where
  "used_slots slots = filter (\<lambda>s. fs_index_oid s \<noteq> 0) slots"

text \<open>A fallback: the index, why, and when.\<close>

type_synonym fallback = "(u32 \<times> u32) \<times> CuvsFbReason \<times> int"

definition fb_event :: "fallback \<Rightarrow> CuvsFbSlot list \<Rightarrow> CuvsFbSlot list" where
  "fb_event ev slots = cuvs_fb_record (fst (fst ev)) (snd (fst ev)) (fst (snd ev)) (snd (snd ev)) slots"

text \<open>What the table is to hold of an index after some fallbacks.\<close>

definition fb_slot_of :: "u32 \<times> u32 \<Rightarrow> fallback list \<Rightarrow> CuvsFbSlot" where
  "fb_slot_of k evs = (let mine = filter (\<lambda>e. fst e = k) evs in
    \<lparr>fs_db_oid = fst k, fs_index_oid = snd k, fs_fallback_count = of_nat (length mine),
     fs_last_reason = fst (snd (last mine)), fs_last_fallback_at = snd (snd (last mine))\<rparr>)"

definition fb_inv :: "fallback list \<Rightarrow> CuvsFbSlot list \<Rightarrow> bool" where
  "fb_inv evs slots \<longleftrightarrow> length slots = CUVS_FB_SLOTS \<and> distinct (map slot_key (used_slots slots)) \<and>
     set (used_slots slots) = (\<lambda>k. fb_slot_of k evs) ` fst ` set evs"

lemma fb_scan_found:
  "fb_scan db idx i free ss = (Some j, x) \<Longrightarrow> \<exists>m < length ss. j = i + m \<and> slot_key (ss ! m) = (db, idx)"
proof (induction ss arbitrary: i free)
  case (Cons s ss)
  show ?case
  proof (cases "fs_index_oid s = idx \<and> fs_db_oid s = db")
    case True
    then show ?thesis using Cons.prems by (auto simp: slot_key_def)
  next
    case False
    then obtain fr where "fb_scan db idx (i + 1) fr ss = (Some j, x)" using Cons.prems by auto
    from Cons.IH [OF this] obtain m where "m < length ss" "j = i + 1 + m" "slot_key (ss ! m) = (db, idx)" by blast
    then show ?thesis by (intro exI [of _ "Suc m"]) simp
  qed
qed simp

lemma fb_scan_nowhere: "fb_scan db idx i free ss = (None, None) \<Longrightarrow> free = None"
proof (induction ss arbitrary: i free)
  case (Cons s ss)
  then show ?case by (cases free) (auto split: if_splits)
qed simp

lemma fb_scan_none:
  "fb_scan db idx i free ss = (None, r) \<Longrightarrow> (db, idx) \<notin> slot_key ` set ss \<and>
    (r = None \<longrightarrow> used_slots ss = ss) \<and>
    (\<forall>j. r = Some j \<longrightarrow> free = Some j \<or> (\<exists>m < length ss. j = i + m \<and> fs_index_oid (ss ! m) = 0))"
proof (induction ss arbitrary: i free)
  case (Cons s ss)
  define fr where "fr = (if free = None \<and> fs_index_oid s = 0 then Some i else free)"
  have n: "slot_key s \<noteq> (db, idx)" and r: "fb_scan db idx (i + 1) fr ss = (None, r)"
    using Cons.prems by (auto simp: fr_def slot_key_def split: if_splits)
  note ih = Cons.IH [OF r]
  have "r = None \<longrightarrow> used_slots (s # ss) = s # ss"
  proof
    assume z: "r = None"
    then have "fr = None" using r fb_scan_nowhere by blast
    then have "fs_index_oid s \<noteq> 0" by (cases free) (auto simp: fr_def split: if_splits)
    then show "used_slots (s # ss) = s # ss" using ih z by (simp add: used_slots_def)
  qed
  moreover have "free = Some j \<or> (\<exists>m < length (s # ss). j = i + m \<and> fs_index_oid ((s # ss) ! m) = 0)" if "r = Some j" for j
  proof -
    note c = ih [THEN conjunct2, THEN conjunct2, rule_format, OF that]
    consider "fr = Some j" | m where "m < length ss" "j = i + 1 + m" "fs_index_oid (ss ! m) = 0" using c by (elim disjE exE conjE)
    then show ?thesis
    proof cases
      case 1
      then show ?thesis by (cases "free = None \<and> fs_index_oid s = 0") (auto simp: fr_def)
    next
      case (2 m)
      then show ?thesis by (intro disjI2 exI [of _ "Suc m"]) simp
    qed
  qed
  moreover have "(db, idx) \<notin> slot_key ` set (s # ss)" using ih n by auto
  ultimately show ?case by blast
qed (simp add: used_slots_def)

lemma slot_key_of [simp]: "slot_key (fb_slot_of k evs) = k"
  by (simp add: fb_slot_of_def slot_key_def Let_def)

lemma fb_slot_of_other [simp]: "fst ev \<noteq> k \<Longrightarrow> fb_slot_of k (evs @ [ev]) = fb_slot_of k evs"
  by (simp add: fb_slot_of_def)

lemma used_keys:
  assumes "fb_inv evs slots"
  shows "slot_key ` set (used_slots slots) = fst ` set evs"
  using assms by (force simp: fb_inv_def image_image)

lemma fb_put:
  assumes "fb_inv evs slots" "j < length slots" "snd k \<noteq> 0" "fst ev = k"
    and "fs_index_oid (slots ! j) = 0 \<and> k \<notin> slot_key ` set slots \<or> slot_key (slots ! j) = k"
  shows "fb_inv (evs @ [ev]) (slots[j := fb_slot_of k (evs @ [ev])])"
proof -
  define A B x where "A = used_slots (take j slots)" and "B = used_slots (drop (Suc j) slots)" and "x = fb_slot_of k (evs @ [ev])"
  have xu: "fs_index_oid x \<noteq> 0" "slot_key x = k" using assms(3) by (simp_all add: x_def fb_slot_of_def Let_def slot_key_def)
  have new: "used_slots (slots[j := x]) = A @ x # B"
    using assms(2) xu(1) by (simp add: A_def B_def used_slots_def upd_conv_take_nth_drop)
  have old: "used_slots slots = A @ (if fs_index_oid (slots ! j) = 0 then [] else [slots ! j]) @ B"
    by (subst id_take_nth_drop [OF assms(2)]) (simp add: A_def B_def used_slots_def)
  have inv: "distinct (map slot_key (used_slots slots))" "set (used_slots slots) = (\<lambda>k. fb_slot_of k evs) ` fst ` set evs"
    "length slots = CUVS_FB_SLOTS"
    using assms(1) by (simp_all add: fb_inv_def)
  have sub: "set (used_slots slots) \<subseteq> set slots" by (auto simp: used_slots_def)
  have d: "distinct (map slot_key (A @ B))" using inv(1) by (auto simp: old)
  have off: "k \<notin> slot_key ` set (A @ B)"
  proof (cases "fs_index_oid (slots ! j) = 0")
    case True
    then have "slot_key (slots ! j) \<noteq> k" using assms(3) by (auto simp: slot_key_def)
    then have "k \<notin> slot_key ` set slots" using assms(5) by blast
    then show ?thesis using sub by (auto simp: old True)
  next
    case False
    then have "slot_key (slots ! j) = k" using assms(5) by blast
    then show ?thesis using inv(1) False by (auto simp: old)
  qed
  have "set (A @ B) = (\<lambda>k. fb_slot_of k evs) ` (fst ` set evs - {k})"
  proof
    show "set (A @ B) \<subseteq> (\<lambda>k. fb_slot_of k evs) ` (fst ` set evs - {k})"
    proof
      fix y assume y: "y \<in> set (A @ B)"
      then have "y \<in> set (used_slots slots)" by (auto simp: old)
      then obtain k' where "k' \<in> fst ` set evs" "y = fb_slot_of k' evs" using inv(2) by blast
      moreover from this have "k' \<noteq> k" using off y by force
      ultimately show "y \<in> (\<lambda>k. fb_slot_of k evs) ` (fst ` set evs - {k})" by blast
    qed
    show "(\<lambda>k. fb_slot_of k evs) ` (fst ` set evs - {k}) \<subseteq> set (A @ B)"
    proof
      fix y assume "y \<in> (\<lambda>k. fb_slot_of k evs) ` (fst ` set evs - {k})"
      then obtain k' where k': "k' \<in> fst ` set evs" "k' \<noteq> k" "y = fb_slot_of k' evs" by blast
      then have y: "y \<in> set (used_slots slots)" using inv(2) by blast
      have "slot_key y \<noteq> k" using k' by simp
      then have "y \<noteq> slots ! j \<or> fs_index_oid (slots ! j) = 0" using assms(5) by auto
      then show "y \<in> set (A @ B)" using y by (auto simp: old split: if_splits)
    qed
  qed
  also have "\<dots> = (\<lambda>k. fb_slot_of k (evs @ [ev])) ` (fst ` set evs - {k})"
    using assms(4) by (intro image_cong) auto
  finally have ab: "set (A @ B) = (\<lambda>k. fb_slot_of k (evs @ [ev])) ` (fst ` set evs - {k})" .
  have "set (A @ x # B) = insert x (set (A @ B))" by simp
  also have "\<dots> = (\<lambda>k. fb_slot_of k (evs @ [ev])) ` insert k (fst ` set evs - {k})"
    unfolding ab x_def by (rule image_insert [symmetric])
  also have "insert k (fst ` set evs - {k}) = fst ` set (evs @ [ev])" using assms(4) by auto
  finally have st: "set (A @ x # B) = (\<lambda>k. fb_slot_of k (evs @ [ev])) ` fst ` set (evs @ [ev])" .
  have ds: "distinct (map slot_key (A @ x # B))" using d off xu(2) by auto
  show ?thesis
    unfolding fb_inv_def x_def [symmetric] new using st ds inv(3) by simp
qed

lemma fb_event_inv:
  assumes "fb_inv evs slots" "snd (fst ev) \<noteq> 0" "fst (snd ev) \<noteq> CUVS_FB_NONE" "card (fst ` set (evs @ [ev])) \<le> CUVS_FB_SLOTS"
  shows "fb_inv (evs @ [ev]) (fb_event ev slots)"
proof -
  obtain db idx reason now where ev: "ev = ((db, idx), reason, now)" by (metis prod.collapse)
  obtain a b where sc: "fb_scan db idx 0 None slots = (a, b)" by fastforce
  show ?thesis
  proof (cases a)
    case (Some j)
    then have j: "j < length slots" "slot_key (slots ! j) = (db, idx)" using fb_scan_found [of db idx 0 None slots] sc by auto
    then have "slots ! j \<in> set (used_slots slots)" using assms(2) by (auto simp: ev slot_key_def used_slots_def)
    then obtain k where "slots ! j = fb_slot_of k evs" using assms(1) by (auto simp: fb_inv_def)
    then have s: "slots ! j = fb_slot_of (db, idx) evs" using j(2) by simp
    have "fb_event ev slots = slots[j := fb_slot_of (db, idx) (evs @ [ev])]"
      using assms(3) sc Some by (simp add: ev fb_event_def cuvs_fb_record_def s fb_slot_of_def Let_def add.commute)
    then show ?thesis using fb_put [OF assms(1) j(1), of "(db, idx)" ev] j(2) assms(2) by (simp add: ev)
  next
    case None
    note n = fb_scan_none [OF sc [unfolded None]]
    have fresh: "(db, idx) \<notin> fst ` set evs"
      using n used_keys [OF assms(1)] by (auto simp: used_slots_def)
    show ?thesis
    proof (cases b)
      case (Some j)
      then have j: "j < length slots" "fs_index_oid (slots ! j) = 0" using n by auto
      have mine: "filter (\<lambda>e. fst e = (db, idx)) evs = []" using fresh by (auto simp: filter_empty_conv image_iff)
      have "fb_event ev slots = slots[j := fb_slot_of (db, idx) (evs @ [ev])]"
        using assms(3) sc None Some mine by (simp add: ev fb_event_def cuvs_fb_record_def fb_slot_of_def Let_def)
      then show ?thesis using fb_put [OF assms(1) j(1), of "(db, idx)" ev] j(2) n assms(2) by (simp add: ev)
    next
      case None
      then have u: "used_slots slots = slots" using n by blast
      have "card (fst ` set evs) = CUVS_FB_SLOTS"
        using assms(1) used_keys [OF assms(1)] distinct_card [of "map slot_key slots"] by (simp add: u fb_inv_def)
      then have "card (fst ` set (evs @ [ev])) = Suc CUVS_FB_SLOTS" using fresh by (simp add: ev)
      then show ?thesis using assms(4) by simp
    qed
  qed
qed

lemma fb_startup_inv: "fb_inv [] cuvs_fb_shmem_startup"
  by (simp add: fb_inv_def cuvs_fb_shmem_startup_def used_slots_def)

section \<open>Properties\<close>

text \<open>
  C30. The fallback table counts exactly: as long as no more than 128 pairs of database and index ever
  fall back, after any sequence of fallbacks it has one slot per pair that fell back, with the number
  of its fallbacks (in 64 bits) and the reason and time of the last one, and nothing else.
\<close>

theorem fallback_counts_exact:
  assumes "\<forall>ev \<in> set evs. snd (fst ev) \<noteq> 0 \<and> fst (snd ev) \<noteq> CUVS_FB_NONE" "card (fst ` set evs) \<le> CUVS_FB_SLOTS"
  shows "set (used_slots (fold fb_event evs cuvs_fb_shmem_startup)) = (\<lambda>k. fb_slot_of k evs) ` fst ` set evs \<and>
    distinct (map slot_key (used_slots (fold fb_event evs cuvs_fb_shmem_startup)))"
proof -
  have "fb_inv evs (fold fb_event evs cuvs_fb_shmem_startup)"
    using assms
  proof (induction evs rule: rev_induct)
    case Nil
    then show ?case by (simp add: fb_startup_inv)
  next
    case (snoc ev evs)
    have "card (fst ` set evs) \<le> card (fst ` set (evs @ [ev]))" by (intro card_mono) auto
    then have "fb_inv evs (fold fb_event evs cuvs_fb_shmem_startup)" using snoc by simp
    then show ?case using fb_event_inv [of evs _ ev] snoc.prems by simp
  qed
  then show ?thesis by (simp add: fb_inv_def)
qed

text \<open>A path is admitted exactly when the query orders by distance and no gate applies.\<close>

lemma admitted_path:
  "fst (admit_path pl db idx ord now st slots) \<longleftrightarrow> ord \<and> pl_enable pl \<and> cuvs_circuit_is_open idx (pl_breakers pl) = 0 \<and>
     \<not> cuvs_index_is_stale db idx st \<and>
     \<not> cuvs_index_delete_drift_stale (pl_max_stale_fraction pl) (pl_live_rows pl) (d_files st (db, idx, F_tids)) \<and>
     pl_socket pl \<and> d_files st (db, idx, F_tids) \<noteq> None \<and>
     \<not> cuvs_index_delta_unusable (pl_max_delta_rows pl) (d_files st (db, idx, F_tids)) (d_files st (db, idx, F_delta)) \<and>
     \<not> cuvs_index_tombstone_unusable (pl_max_delta_rows pl) (d_files st (db, idx, F_tids)) (d_files st (db, idx, F_tombstone))"
  by (simp add: admit_path_def gate_reason_def cuvs_index_has_artifact_def Let_def)

theorem fallback_counts_exact_witness:
  "set (used_slots (fold fb_event [((1, 12), CUVS_FB_STALE, 5), ((1, 13), CUVS_FB_BREAKER, 6), ((1, 12), CUVS_FB_DELTA, 7)]
      cuvs_fb_shmem_startup)) =
    {\<lparr>fs_db_oid = 1, fs_index_oid = 12, fs_fallback_count = 2, fs_last_reason = CUVS_FB_DELTA, fs_last_fallback_at = 7\<rparr>,
     \<lparr>fs_db_oid = 1, fs_index_oid = 13, fs_fallback_count = 1, fs_last_reason = CUVS_FB_BREAKER, fs_last_fallback_at = 6\<rparr>}"
  using fallback_counts_exact [of "[((1, 12), CUVS_FB_STALE, 5), ((1, 13), CUVS_FB_BREAKER, 6), ((1, 12), CUVS_FB_DELTA, 7)]",
      THEN conjunct1]
  by (simp add: fb_slot_of_def CUVS_FB_SLOTS_def card_insert_if insert_commute)

end
