(* ===== verification/Scan.thy ===== *)
theory Scan
  imports Planner Pending_Merge Ipc_Client
begin

text \<open>
  An index scan of a backend (\<open>cuvs_rescan\<close>, \<open>cuvs_gettuple\<close> and their copies for
  flat and IVF-PQ indexes, \<open>src/pg_cuvs.c\<close>). The first call asks the daemon, merges the pending
  rows and filters the dead ones; every call then delivers one stored result. What the daemon
  answers is \<open>search\<close>, in practice \<open>cuvs_ipc_search\<close>. \<open>ereport (ERROR)\<close> is a value.
\<close>

section \<open>Results of a call\<close>

datatype scan_ereport =
  Unordered_scan | Null_query | Interrupted | Metric_differs | Dimension_differs int | Protocol_mismatch
  | Daemon_unavailable | Out_of_vram | Not_loaded | No_vectors_sidecar | Search_failed u32 | Merge_failed scan_error

text \<open>A heap TID with the values of the ORDER BY keys, of which only the first is known.\<close>

datatype fetch = Row "u32 \<times> u16" "u32 option list" | End_of_scan | Ereport scan_ereport

record CuvsScanState =
  ss_searched :: bool
  ss_cur :: nat
  ss_results :: "CuvsResult list"

definition cuvs_rescan :: "CuvsScanState \<Rightarrow> CuvsScanState" where
  "cuvs_rescan ss = ss\<lparr>ss_searched := False, ss_cur := 0, ss_results := []\<rparr>"

definition ivfpq_rescan :: "CuvsScanState \<Rightarrow> CuvsScanState" where
  "ivfpq_rescan ss = ss\<lparr>ss_searched := False, ss_cur := 0, ss_results := []\<rparr>"

text \<open>The argument of the first ORDER BY key.\<close>

datatype order_by = No_order_by | Null_vector | Query_vector vec

text \<open>The files as the scan finds them, when it counts the tombstones and again after the search.\<close>

record pending =
  pg_tids :: "bytes option"
  pg_delta :: "bytes option"
  pg_tombstone :: "bytes option"

record scan =
  sc_enable :: bool
  sc_index :: u32
  sc_order_by :: order_by
  sc_n_keys :: nat
  sc_k :: int
  sc_max_delta_rows :: u32
  sc_delta_mode :: int
  sc_threshold :: int
  sc_metric :: u32
  sc_args :: search_args
  sc_flat_precision :: u32
  sc_n_probes :: u32
  sc_before :: pending
  sc_after :: pending
  sc_distance :: "u32 \<Rightarrow> u32 list \<Rightarrow> u32 list \<Rightarrow> u32"
  sc_did_commit :: "u32 \<Rightarrow> bool"
  sc_in_snapshot :: "u32 \<Rightarrow> bool"
  sc_interrupt :: bool

text \<open>The statistics of the last search of the backend, and its breakers.\<close>

record session =
  se_breakers :: breakers
  se_latency_us :: u32
  se_n_results :: int
  se_k_requested :: int
  se_index_oid :: u32
  se_metric :: u32

definition over_fetch :: "scan \<Rightarrow> int" where
  "over_fetch sc =
    (let n_tomb = cuvs_tombstone_count (pg_tids (sc_before sc)) (pg_tombstone (sc_before sc)) in
     if 0 < sint (sc_max_delta_rows sc) \<and> 0 < n_tomb then sc_k sc + min n_tomb (sc_k sc) else sc_k sc)"

text \<open>The switch over the status: a stale index is a warning and no rows, anything else an error.\<close>

definition search_error :: "scan \<Rightarrow> int \<Rightarrow> u32 \<Rightarrow> fetch" where
  "search_error sc d rc =
    (if rc = CUVS_STATUS_STALE then End_of_scan
     else if rc = CUVS_STATUS_METRIC_MISMATCH then Ereport Metric_differs
     else if rc = CUVS_STATUS_DIM_MISMATCH then Ereport (Dimension_differs d)
     else if rc = CUVS_STATUS_PROTO_MISMATCH then Ereport Protocol_mismatch
     else if rc = CUVS_STATUS_UNAVAILABLE then Ereport Daemon_unavailable
     else if rc = CUVS_STATUS_OOM_FALLBACK then Ereport Out_of_vram
     else if rc = CUVS_STATUS_NOT_FOUND then Ereport Not_loaded
     else if rc = CUVS_STATUS_NO_VECTORS then Ereport No_vectors_sidecar
     else Ereport (Search_failed rc))"

definition canceled :: "scan \<Rightarrow> fetch" where
  "canceled sc = (if sc_interrupt sc then Ereport Interrupted else End_of_scan)"

text \<open>The pending rows and the tombstones.\<close>

definition merge_pending :: "scan \<Rightarrow> u32 list \<Rightarrow> int \<Rightarrow> u32 \<Rightarrow> CuvsResult list \<Rightarrow> scan_error + CuvsResult list" where
  "merge_pending sc query k delta_merged rs =
    (let p = sc_after sc in
     if 0 < sint (sc_max_delta_rows sc)
     then (let do_cpu = (sc_delta_mode sc = 1 \<or> (sc_delta_mode sc = 0 \<and> delta_merged = 0));
               merged = (if do_cpu then cuvs_merge_delta (sc_distance sc) (sc_max_delta_rows sc) (pg_tids p) (pg_delta p) query
                   (of_nat (length query)) (nat k) (sc_metric sc) rs
                 else Inr rs)
       in case merged of
            Inl err \<Rightarrow> Inl err
          | Inr rs' \<Rightarrow> Inr (cuvs_apply_tombstones (sc_did_commit sc) (sc_in_snapshot sc) (pg_tids p) (pg_tombstone p) rs'))
     else Inr rs)"

text \<open>Delivering the next stored result.\<close>

definition next_tuple :: "scan \<Rightarrow> CuvsScanState \<Rightarrow> fetch \<times> CuvsScanState" where
  "next_tuple sc ss =
    (if ss_cur ss \<ge> length (ss_results ss) then (End_of_scan, ss)
     else let r = ss_results ss ! ss_cur ss in
       (Row (cuvs_tid_decode (r_tid r)) (Some (r_distance r) # replicate (sc_n_keys sc - 1) None),
        ss\<lparr>ss_cur := ss_cur ss + 1\<rparr>))"

definition record_stats :: "scan \<Rightarrow> int \<Rightarrow> u32 \<Rightarrow> CuvsResult list \<Rightarrow> session \<Rightarrow> session" where
  "record_stats sc k latency rs se = se\<lparr>se_latency_us := latency, se_n_results := int (length rs), se_k_requested := k,
     se_index_oid := sc_index sc, se_metric := sc_metric sc\<rparr>"

section \<open>CAGRA\<close>

text \<open>\<open>None\<close>: the search never returns.\<close>

definition cuvs_gettuple ::
  "(search_args \<Rightarrow> vec \<Rightarrow> ipc_out option) \<Rightarrow> scan \<Rightarrow> session \<Rightarrow> CuvsScanState \<Rightarrow> (fetch \<times> session \<times> CuvsScanState) option" where
  "cuvs_gettuple search sc se ss =
    (if ss_searched ss then (let (f, ss') = next_tuple sc ss in Some (f, se, ss'))
     else
       (let ss1 = ss\<lparr>ss_searched := True\<rparr> in
        if \<not> sc_enable sc \<or> cuvs_circuit_is_open (sc_index sc) (se_breakers se) \<noteq> 0 then Some (End_of_scan, se, ss1)
        else case sc_order_by sc of
          No_order_by \<Rightarrow> Some (Ereport Unordered_scan, se, ss1)
        | Null_vector \<Rightarrow> Some (Ereport Null_query, se, ss1)
        | Query_vector query \<Rightarrow>
           (let k = over_fetch sc in
            case search ((sc_args sc)\<lparr>sa_index_oid := sc_index sc, sa_k := of_int k, sa_metric := sc_metric sc\<rparr>) query of
              None \<Rightarrow> None
            | Some out \<Rightarrow>
               (if io_rc out = CUVS_STATUS_CANCELED then Some (canceled sc, se, ss1)
                else if io_rc out \<noteq> CUVS_STATUS_OK
                then Some (search_error sc (int (length query)) (io_rc out),
                  se\<lparr>se_breakers := cuvs_circuit_record_status (sc_index sc) (sc_threshold sc) (sint (io_rc out)) (se_breakers se)\<rparr>, ss1)
                else
                  (let se1 = se\<lparr>se_breakers := cuvs_circuit_record_success (sc_index sc) (se_breakers se)\<rparr> in
                   case merge_pending sc query k (io_merged out) (io_results out) of
                     Inl err \<Rightarrow> Some (Ereport (Merge_failed err), se1, ss1\<lparr>ss_cur := 0, ss_results := io_results out\<rparr>)
                   | Inr rs \<Rightarrow>
                      (let (f, ss2) = next_tuple sc (ss1\<lparr>ss_cur := 0, ss_results := rs\<rparr>)
                       in Some (f, record_stats sc k (io_latency out) rs se1, ss2)))))))"

section \<open>Flat\<close>

text \<open>The same, but brute force whatever the setting, in the precision of the index.\<close>

definition flat_gettuple ::
  "(search_args \<Rightarrow> vec \<Rightarrow> ipc_out option) \<Rightarrow> scan \<Rightarrow> session \<Rightarrow> CuvsScanState \<Rightarrow> (fetch \<times> session \<times> CuvsScanState) option" where
  "flat_gettuple search sc se ss =
    (if ss_searched ss then (let (f, ss') = next_tuple sc ss in Some (f, se, ss'))
     else
       (let ss1 = ss\<lparr>ss_searched := True\<rparr> in
        if \<not> sc_enable sc \<or> cuvs_circuit_is_open (sc_index sc) (se_breakers se) \<noteq> 0 then Some (End_of_scan, se, ss1)
        else case sc_order_by sc of
          No_order_by \<Rightarrow> Some (Ereport Unordered_scan, se, ss1)
        | Null_vector \<Rightarrow> Some (Ereport Null_query, se, ss1)
        | Query_vector query \<Rightarrow>
           (let k = over_fetch sc in
            case search ((sc_args sc)\<lparr>sa_index_oid := sc_index sc, sa_k := of_int k, sa_metric := sc_metric sc,
                sa_search_mode := 1, sa_bf_precision := sc_flat_precision sc, sa_cagra_batch_wait_us := 0\<rparr>) query of
              None \<Rightarrow> None
            | Some out \<Rightarrow>
               (if io_rc out = CUVS_STATUS_CANCELED then Some (canceled sc, se, ss1)
                else if io_rc out \<noteq> CUVS_STATUS_OK
                then Some (search_error sc (int (length query)) (io_rc out),
                  se\<lparr>se_breakers := cuvs_circuit_record_status (sc_index sc) (sc_threshold sc) (sint (io_rc out)) (se_breakers se)\<rparr>, ss1)
                else
                  (let se1 = se\<lparr>se_breakers := cuvs_circuit_record_success (sc_index sc) (se_breakers se)\<rparr> in
                   case merge_pending sc query k (io_merged out) (io_results out) of
                     Inl err \<Rightarrow> Some (Ereport (Merge_failed err), se1, ss1\<lparr>ss_cur := 0, ss_results := io_results out\<rparr>)
                   | Inr rs \<Rightarrow>
                      (let (f, ss2) = next_tuple sc (ss1\<lparr>ss_cur := 0, ss_results := rs\<rparr>)
                       in Some (f, record_stats sc k (io_latency out) rs se1, ss2)))))))"

section \<open>IVF-PQ\<close>

text \<open>Neither pending rows nor tombstones, and no over-fetch.\<close>

definition ivfpq_gettuple ::
  "(u32 \<Rightarrow> u32 \<Rightarrow> u32 \<Rightarrow> u32 \<Rightarrow> vec \<Rightarrow> ipc_out option) \<Rightarrow> scan \<Rightarrow> session \<Rightarrow> CuvsScanState \<Rightarrow> (fetch \<times> session \<times> CuvsScanState) option" where
  "ivfpq_gettuple search sc se ss =
    (if ss_searched ss then (let (f, ss') = next_tuple sc ss in Some (f, se, ss'))
     else
       (let ss1 = ss\<lparr>ss_searched := True\<rparr> in
        if \<not> sc_enable sc \<or> cuvs_circuit_is_open (sc_index sc) (se_breakers se) \<noteq> 0 then Some (End_of_scan, se, ss1)
        else case sc_order_by sc of
          No_order_by \<Rightarrow> Some (Ereport Unordered_scan, se, ss1)
        | Null_vector \<Rightarrow> Some (Ereport Null_query, se, ss1)
        | Query_vector query \<Rightarrow>
           (case search (sc_index sc) (of_int (sc_k sc)) (sc_metric sc) (sc_n_probes sc) query of
              None \<Rightarrow> None
            | Some out \<Rightarrow>
               (if io_rc out \<noteq> CUVS_STATUS_OK
                then Some (if io_rc out = CUVS_STATUS_METRIC_MISMATCH then Ereport Metric_differs
                    else if io_rc out = CUVS_STATUS_DIM_MISMATCH then Ereport (Dimension_differs (int (length query)))
                    else if io_rc out = CUVS_STATUS_CANCELED then canceled sc
                    else if io_rc out = CUVS_STATUS_PROTO_MISMATCH then Ereport Protocol_mismatch
                    else Ereport (Search_failed (io_rc out)),
                  se\<lparr>se_breakers := cuvs_circuit_record_status (sc_index sc) (sc_threshold sc) (sint (io_rc out)) (se_breakers se)\<rparr>, ss1)
                else
                  (let se1 = record_stats sc (sc_k sc) (io_latency out) (io_results out)
                         (se\<lparr>se_breakers := cuvs_circuit_record_success (sc_index sc) (se_breakers se)\<rparr>);
                       (f, ss2) = next_tuple sc (ss1\<lparr>ss_cur := 0, ss_results := io_results out\<rparr>)
                   in Some (f, se1, ss2))))))"

text \<open>The rows of \<open>n\<close> calls of a scan, up to the first that delivers none.\<close>

primrec fetch_rows ::
  "(session \<Rightarrow> CuvsScanState \<Rightarrow> (fetch \<times> session \<times> CuvsScanState) option) \<Rightarrow> nat \<Rightarrow> session \<Rightarrow> CuvsScanState \<Rightarrow> fetch list option" where
  "fetch_rows gettuple 0 se ss = Some []"
| "fetch_rows gettuple (Suc n) se ss =
    (case gettuple se ss of
       None \<Rightarrow> None
     | Some (f, se', ss') \<Rightarrow> map_option (Cons f) (fetch_rows gettuple n se' ss'))"

end
