(* ===== verification/Scan_Witness.thy ===== *)
theory Scan_Witness
  imports Scan_Props
begin

text \<open>
  Concrete index scans over an index with a pending tombstone: the instances at which the
  properties of scans are evaluated.
\<close>

section \<open>Witnesses\<close>

definition scan_files :: daemon where
  "scan_files = idle_daemon\<lparr>d_files := [(1, 12, F_tids) \<mapsto> the (sample_tids 5),
     (1, 12, F_tombstone) \<mapsto> tombstone_image 5 [\<lparr>tr_tid = 8, tr_delete_xid = 1\<rparr>] []]\<rparr>"

definition scan_args :: search_args where
  "scan_args = \<lparr>sa_db_oid = 1, sa_index_oid = 12, sa_k = 2, sa_metric = 0, sa_shard_overfetch = 1, sa_parallel_fanout = False,
     sa_use_cpu_hnsw = 0, sa_search_mode = 0, sa_bf_precision = 0, sa_bf_batch_wait_us = 0, sa_cagra_batch_wait_us = 0\<rparr>"

definition sample_scan :: scan where
  "sample_scan = \<lparr>sc_enable = True, sc_index = 12, sc_order_by = Query_vector [5], sc_n_keys = 1, sc_k = 2,
     sc_max_delta_rows = 10, sc_delta_mode = 0, sc_threshold = 3, sc_metric = 0, sc_args = scan_args, sc_flat_precision = 0,
     sc_n_probes = 4, sc_before = \<lparr>pg_tids = None, pg_delta = None, pg_tombstone = None\<rparr>,
     sc_after = \<lparr>pg_tids = sample_tids 5, pg_delta = None, pg_tombstone = Some (tombstone_image 5 [\<lparr>tr_tid = 8, tr_delete_xid = 1\<rparr>] [])\<rparr>,
     sc_distance = \<lambda>_ _ v. 2, sc_did_commit = \<lambda>_. True, sc_in_snapshot = \<lambda>_. False, sc_interrupt = False\<rparr>"

definition new_session :: session where
  "new_session = \<lparr>se_breakers = [], se_latency_us = 0, se_n_results = -1, se_k_requested = 0, se_index_oid = 0, se_metric = 0\<rparr>"

abbreviation new_scan :: CuvsScanState where
  "new_scan \<equiv> \<lparr>ss_searched = False, ss_cur = 0, ss_results = []\<rparr>"

definition two_rows :: "CuvsResult list" where
  "two_rows = [\<lparr>r_tid = 7, r_distance = 1\<rparr>, \<lparr>r_tid = 8, r_distance = 2\<rparr>]"

definition answered :: ipc_out where
  "answered = \<lparr>io_rc = 0, io_n = 2, io_results = two_rows, io_latency = 9, io_merged = 0, io_error = []\<rparr>"

definition sample_planner :: planner where
  "sample_planner = \<lparr>pl_enable = True, pl_breakers = [], pl_max_stale_fraction = 1, pl_live_rows = 0, pl_socket = True,
     pl_max_delta_rows = 10\<rparr>"

lemma sample_tombstones:
  "\<not> cuvs_index_tombstone_unusable 10 (sample_tids 5) (Some (tombstone_image 5 [\<lparr>tr_tid = 8, tr_delete_xid = 1\<rparr>] []))"
  "tombstone_records (sample_tids 5) (Some (tombstone_image 5 [\<lparr>tr_tid = 8, tr_delete_xid = 1\<rparr>] [])) = Some [\<lparr>tr_tid = 8, tr_delete_xid = 1\<rparr>]"
proof -
  show u: "\<not> cuvs_index_tombstone_unusable 10 (sample_tids 5) (Some (tombstone_image 5 [\<lparr>tr_tid = 8, tr_delete_xid = 1\<rparr>] []))"
    by code_simp
  show "tombstone_records (sample_tids 5) (Some (tombstone_image 5 [\<lparr>tr_tid = 8, tr_delete_xid = 1\<rparr>] [])) = Some [\<lparr>tr_tid = 8, tr_delete_xid = 1\<rparr>]"
    by (subst tombstone_records_image) (use u in \<open>simp_all add: tombstone_image_length\<close>)
qed

lemma sample_kept: "cuvs_apply_tombstones (\<lambda>_. True) (\<lambda>_. False) (sample_tids 5)
    (Some (tombstone_image 5 [\<lparr>tr_tid = 8, tr_delete_xid = 1\<rparr>] [])) two_rows = [\<lparr>r_tid = 7, r_distance = 1\<rparr>]"
  by (simp add: cuvs_apply_tombstones_def sample_tombstones(2) tombstone_dead_def two_rows_def)



theorem ivfpq_scan_returns_dead_witness:
  "\<exists>rows. fetch_rows (ivfpq_gettuple (\<lambda>_ _ _ _ _. Some answered) sample_scan) (Suc (length (io_results answered))) new_session new_scan = Some rows \<and>
    row_of sample_scan \<lparr>r_tid = 8, r_distance = 2\<rparr> \<in> set rows \<and>
    \<lparr>r_tid = 8, r_distance = 2\<rparr> \<notin> set (cuvs_apply_tombstones (\<lambda>_. True) (\<lambda>_. False) (sample_tids 5)
      (Some (tombstone_image 5 [\<lparr>tr_tid = 8, tr_delete_xid = 1\<rparr>] [])) (io_results answered))"
  by (rule ivfpq_scan_returns_dead [where query = "[5]", OF _ refl _ _ sample_tombstones(2)])
    (simp_all add: ready_def sample_scan_def new_session_def cuvs_circuit_is_open_def answered_def CUVS_STATUS_OK_def two_rows_def
      tombstone_dead_def)

end
