(* ===== verification/Drop_Queue.thy ===== *)
theory Drop_Queue
  imports Util
begin

text \<open>
  Telling the daemon of dropped indexes (\<open>src/pg_cuvs.c\<close>, ADR-060): a drop is collected when
  it is executed, follows the fate of its subtransaction, and is sent when the top transaction
  commits. What a transaction does reaches the three callbacks as a sequence of events.
\<close>

section \<open>The callbacks\<close>

record CuvsPendingDrop =
  pd_oid :: u32
  pd_subid :: u32

datatype access_method = Am_cagra | Am_flat | Am_ivfpq | Am_other

text \<open>
  \<open>cuvs_object_access\<close> for an object that is dropped: \<open>class_ok\<close> when it is a whole
  relation with a valid \<open>pg_class\<close> entry.
\<close>

record dropped =
  dr_class_ok :: bool
  dr_is_index :: bool
  dr_am :: access_method
  dr_oid :: u32

definition notifies :: "dropped \<Rightarrow> bool" where
  "notifies d \<longleftrightarrow> dr_class_ok d \<and> dr_is_index d \<and> (dr_am d = Am_cagra \<or> dr_am d = Am_flat)"

definition cuvs_object_access :: "dropped \<Rightarrow> u32 \<Rightarrow> CuvsPendingDrop list \<Rightarrow> CuvsPendingDrop list" where
  "cuvs_object_access d subid pending =
    (if notifies d then pending @ [\<lparr>pd_oid = dr_oid d, pd_subid = subid\<rparr>] else pending)"

datatype xact_event = Xact_commit | Xact_abort | Xact_prepare | Xact_other

text \<open>The OIDs for which \<open>cuvs_ipc_drop\<close> is called, and what stays pending.\<close>

definition cuvs_xact_callback :: "xact_event \<Rightarrow> CuvsPendingDrop list \<Rightarrow> u32 list \<times> CuvsPendingDrop list" where
  "cuvs_xact_callback event pending =
    (if pending = [] then ([], pending)
     else (if event = Xact_commit then map pd_oid pending else [],
       if event = Xact_commit \<or> event = Xact_abort \<or> event = Xact_prepare then [] else pending))"

datatype subxact_event = Subxact_abort | Subxact_commit | Subxact_other

definition cuvs_subxact_callback ::
  "subxact_event \<Rightarrow> u32 \<Rightarrow> u32 \<Rightarrow> CuvsPendingDrop list \<Rightarrow> CuvsPendingDrop list" where
  "cuvs_subxact_callback event my_subid parent_subid pending =
    (case event of
       Subxact_abort \<Rightarrow> filter (\<lambda>pd. pd_subid pd \<noteq> my_subid) pending
     | Subxact_commit \<Rightarrow> map (\<lambda>pd. if pd_subid pd = my_subid then pd\<lparr>pd_subid := parent_subid\<rparr> else pd) pending
     | Subxact_other \<Rightarrow> pending)"

section \<open>Transactions\<close>

text \<open>
  PostgreSQL numbers the subtransactions of a transaction in the order they start, the top one
  being 1, ends them innermost first, and calls back with the number of the one that ends and of
  its parent. The stack holds the numbers of the open ones.
\<close>

datatype event = Drop dropped | Start_sub | Commit_sub | Abort_sub | End_top xact_event

record backend =
  be_pending :: "CuvsPendingDrop list"
  be_stack :: "u32 list"
  be_next :: nat

definition fresh_backend :: backend where
  "fresh_backend = \<lparr>be_pending = [], be_stack = [1], be_next = 2\<rparr>"

text \<open>\<open>None\<close>: the event cannot happen in this state.\<close>

fun xact_step :: "event \<Rightarrow> backend \<Rightarrow> (u32 list \<times> backend) option" where
  "xact_step (Drop d) b =
    (case be_stack b of
       [] \<Rightarrow> None
     | s # _ \<Rightarrow> Some ([], b\<lparr>be_pending := cuvs_object_access d s (be_pending b)\<rparr>))"
| "xact_step Start_sub b =
    (if be_stack b = [] \<or> 2 ^ 32 \<le> be_next b then None
     else Some ([], b\<lparr>be_stack := of_nat (be_next b) # be_stack b, be_next := be_next b + 1\<rparr>))"
| "xact_step Commit_sub b =
    (case be_stack b of
       s # p # ss \<Rightarrow> Some ([], b\<lparr>be_stack := p # ss, be_pending := cuvs_subxact_callback Subxact_commit s p (be_pending b)\<rparr>)
     | _ \<Rightarrow> None)"
| "xact_step Abort_sub b =
    (case be_stack b of
       s # p # ss \<Rightarrow> Some ([], b\<lparr>be_stack := p # ss, be_pending := cuvs_subxact_callback Subxact_abort s p (be_pending b)\<rparr>)
     | _ \<Rightarrow> None)"
| "xact_step (End_top e) b =
    (if length (be_stack b) = 1 \<and> e \<noteq> Xact_other
     then (let (sent, pending) = cuvs_xact_callback e (be_pending b)
       in Some (sent, \<lparr>be_pending = pending, be_stack = [1], be_next = 2\<rparr>))
     else None)"

primrec xact_run :: "event list \<Rightarrow> backend \<Rightarrow> (u32 list \<times> backend) option" where
  "xact_run [] b = Some ([], b)"
| "xact_run (e # es) b =
    (case xact_step e b of
       None \<Rightarrow> None
     | Some (sent, b') \<Rightarrow>
        (case xact_run es b' of
           None \<Rightarrow> None
         | Some (later, b'') \<Rightarrow> Some (sent @ later, b'')))"

section \<open>The specification\<close>

text \<open>
  One level per open subtransaction, innermost first, each with the drops it has performed itself
  or taken over from a committed child. A child that aborts takes its level with it.
\<close>

fun spec_step :: "event \<Rightarrow> u32 list list \<Rightarrow> (u32 list \<times> u32 list list) option" where
  "spec_step (Drop d) (l # ls) = Some ([], (l @ (if notifies d then [dr_oid d] else [])) # ls)"
| "spec_step Start_sub (l # ls) = Some ([], [] # l # ls)"
| "spec_step Commit_sub (l # p # ls) = Some ([], (p @ l) # ls)"
| "spec_step Abort_sub (l # p # ls) = Some ([], p # ls)"
| "spec_step (End_top e) [l] = (if e = Xact_other then None else Some (if e = Xact_commit then l else [], [[]]))"
| "spec_step _ _ = None"

primrec spec_run :: "event list \<Rightarrow> u32 list list \<Rightarrow> (u32 list \<times> u32 list list) option" where
  "spec_run [] ls = Some ([], ls)"
| "spec_run (e # es) ls =
    (case spec_step e ls of
       None \<Rightarrow> None
     | Some (sent, ls') \<Rightarrow>
        (case spec_run es ls' of
           None \<Rightarrow> None
         | Some (later, ls'') \<Rightarrow> Some (sent @ later, ls'')))"

section \<open>The refinement\<close>

text \<open>
  The pending list is the levels, outermost first, each drop with the number of its level; the
  numbers fall strictly from the innermost outwards and are below the next one.
\<close>

definition levels :: "u32 list \<Rightarrow> u32 list list \<Rightarrow> CuvsPendingDrop list" where
  "levels ids ls = concat (map (\<lambda>(s, l). map (\<lambda>x. \<lparr>pd_oid = x, pd_subid = s\<rparr>) l) (rev (zip ids ls)))"

definition xact_rel :: "backend \<Rightarrow> u32 list list \<Rightarrow> bool" where
  "xact_rel b ls \<longleftrightarrow> length (be_stack b) = length ls \<and> be_stack b \<noteq> [] \<and> distinct (be_stack b) \<and>
     (\<forall>s \<in> set (be_stack b). unat s < be_next b) \<and> be_pending b = levels (be_stack b) ls"

lemma levels_Cons: "levels (s # ss) (l # ls) = levels ss ls @ map (\<lambda>x. \<lparr>pd_oid = x, pd_subid = s\<rparr>) l"
  by (simp add: levels_def)

lemma levels_subids: "pd \<in> set (levels ss ls) \<Longrightarrow> pd_subid pd \<in> set ss"
  by (auto simp: levels_def dest!: set_zip_leftD)

lemma levels_filter: "s \<notin> set ss \<Longrightarrow> filter (\<lambda>pd. pd_subid pd \<noteq> s) (levels ss ls) = levels ss ls"
  using levels_subids by (fastforce simp: filter_id_conv)

lemma levels_map: "s \<notin> set ss \<Longrightarrow>
    map (\<lambda>pd. if pd_subid pd = s then pd\<lparr>pd_subid := p\<rparr> else pd) (levels ss ls) = levels ss ls"
  by (rule map_idI) (auto dest: levels_subids)

lemma fresh_xact_rel: "xact_rel fresh_backend [[]]"
  by (simp add: xact_rel_def fresh_backend_def levels_def)

lemma xact_rel_step:
  assumes "xact_rel b ls" "xact_step e b = Some (sent, b')"
  shows "\<exists>ls'. spec_step e ls = Some (sent, ls') \<and> xact_rel b' ls'"
proof -
  obtain s ss where st: "be_stack b = s # ss" using assms(1) by (cases "be_stack b") (auto simp: xact_rel_def)
  obtain l rest where ls: "ls = l # rest" using assms(1) st by (cases ls) (auto simp: xact_rel_def)
  have r: "length ss = length rest" "s \<notin> set ss" "distinct ss" "\<forall>x \<in> set (s # ss). unat x < be_next b"
    "be_pending b = levels ss rest @ map (\<lambda>x. \<lparr>pd_oid = x, pd_subid = s\<rparr>) l"
    using assms(1) by (auto simp: xact_rel_def st ls levels_Cons)
  show ?thesis
  proof (cases e)
    case (Drop d)
    then show ?thesis
      using assms(2) r by (auto simp: st ls xact_rel_def cuvs_object_access_def levels_Cons)
  next
    case Start_sub
    then have n: "be_next b < 2 ^ 32" and b': "sent = []" "b' = b\<lparr>be_stack := of_nat (be_next b) # s # ss, be_next := be_next b + 1\<rparr>"
      using assms(2) by (auto simp: st split: if_splits)
    have u: "unat (of_nat (be_next b) :: u32) = be_next b" using n by (simp add: unat_of_nat)
    then have "(of_nat (be_next b) :: u32) \<notin> set (s # ss)" using r(4) by fastforce
    then show ?thesis
      using r u b' Start_sub by (auto simp: ls xact_rel_def levels_Cons)
  next
    case Commit_sub
    then obtain p ps where p: "ss = p # ps" using assms(2) by (cases ss) (auto simp: st)
    obtain m ms where m: "rest = m # ms" using r(1) p by (cases rest) auto
    have nm: "s \<notin> set ps" "s \<noteq> p" using r(2) p by auto
    show ?thesis
      using assms(2) r Commit_sub nm levels_map [OF nm(1)]
      by (auto simp: st ls p m xact_rel_def levels_Cons cuvs_subxact_callback_def o_def)
  next
    case Abort_sub
    then obtain p ps where p: "ss = p # ps" using assms(2) by (cases ss) (auto simp: st)
    obtain m ms where m: "rest = m # ms" using r(1) p by (cases rest) auto
    have nm: "s \<notin> set ps" "s \<noteq> p" using r(2) p by auto
    show ?thesis
      using assms(2) r Abort_sub nm levels_filter [OF nm(1)]
      by (auto simp: st ls p m xact_rel_def levels_Cons cuvs_subxact_callback_def o_def filter_map)
  next
    case (End_top x)
    then have z: "ss = []" "x \<noteq> Xact_other" using assms(2) by (auto simp: st split: if_splits)
    then have "rest = []" using r(1) by simp
    then show ?thesis
      using assms(2) End_top r(5) z
      by (cases x) (auto simp: st ls xact_rel_def levels_def cuvs_xact_callback_def Let_def o_def split: if_splits)
  qed
qed

lemma xact_rel_run:
  assumes "xact_rel b ls" "xact_run es b = Some (sent, b')"
  shows "\<exists>ls'. spec_run es ls = Some (sent, ls') \<and> xact_rel b' ls'"
  using assms
proof (induction es arbitrary: b ls sent)
  case (Cons e es)
  obtain s1 b1 s2 where r: "xact_step e b = Some (s1, b1)" "xact_run es b1 = Some (s2, b')" "sent = s1 @ s2"
    using Cons.prems(2) by (auto split: option.splits)
  obtain l1 where l: "spec_step e ls = Some (s1, l1)" "xact_rel b1 l1"
    using xact_rel_step [OF Cons.prems(1) r(1)] by blast
  from Cons.IH [OF l(2) r(2)] l(1) r(3) show ?case by auto
qed simp


text \<open>
  The daemon never hears of a drop in a prepared transaction, whether or not that is committed
  later: nothing is sent at PREPARE and nothing stays pending.
\<close>

theorem prepared_drops_forgotten:
  assumes "xact_run (es @ [End_top Xact_prepare]) fresh_backend = Some (sent, b)" "\<forall>e \<in> set es. \<nexists>x. e = End_top x"
  shows "sent = [] \<and> be_pending b = []"
proof -
  have "sent = [] \<and> be_pending b' = []" if "xact_run (es @ [End_top Xact_prepare]) b0 = Some (sent, b')" for b0 b'
    using that assms(2)
  proof (induction es arbitrary: b0 sent)
    case Nil
    then show ?case by (auto simp: cuvs_xact_callback_def Let_def split: if_splits)
  next
    case (Cons e es)
    obtain s1 b1 s2 where r: "xact_step e b0 = Some (s1, b1)" "xact_run (es @ [End_top Xact_prepare]) b1 = Some (s2, b')" "sent = s1 @ s2"
      using Cons.prems(1) by (auto split: option.splits)
    have "s1 = []" using r(1) Cons.prems(2) by (cases e) (auto split: list.splits if_splits)
    then show ?case using Cons.IH [OF r(2)] Cons.prems(2) r(3) by auto
  qed
  from this [OF assms(1)] show ?thesis .
qed

definition sample_drop :: "access_method \<Rightarrow> u32 \<Rightarrow> dropped" where
  "sample_drop am oid = \<lparr>dr_class_ok = True, dr_is_index = True, dr_am = am, dr_oid = oid\<rparr>"


theorem prepared_drops_forgotten_witness:
  "\<exists>b. xact_run ([Drop (sample_drop Am_cagra 7)] @ [End_top Xact_prepare]) fresh_backend = Some ([], b) \<and> be_pending b = []"
proof -
  obtain sent b where "xact_run ([Drop (sample_drop Am_cagra 7)] @ [End_top Xact_prepare]) fresh_backend = Some (sent, b)"
    by (simp add: fresh_backend_def cuvs_object_access_def notifies_def sample_drop_def cuvs_xact_callback_def)
  from this prepared_drops_forgotten [OF this] show ?thesis by auto
qed

end
