(* ===== verification/Half_Float.thy ===== *)
theory Half_Float
  imports Prelude
begin

text \<open>
  The narrowing of a vector element to 16 bits when an HNSW index over \<open>halfvec\<close> is written:
  \<open>float_to_half\<close> of \<open>src/hnsw_export.c\<close>. Both formats are their bits. It is the
  nearest half-precision number, ties to even, and infinity exactly from 65520 on.
\<close>

unbundle bit_operations_syntax

definition float_to_half :: "u32 \<Rightarrow> u16" where
  "float_to_half x =
    (let sign = drop_bit 16 x AND 0x8000;
         ex = int (unat (drop_bit 23 x AND 0xFF)) - 127 + 15;
         mant = x AND 0x7FFFFF
     in if drop_bit 23 x AND 0xFF = 0xFF then ucast (sign OR 0x7C00 OR (if mant \<noteq> 0 then 0x0200 else 0))
        else if ex \<ge> 0x1F then ucast (sign OR 0x7C00)
        else if ex \<le> 0
        then (if ex < -10 then ucast sign
              else let mant = mant OR 0x800000; shift = nat (14 - ex); half_mant = drop_bit shift mant;
                   half_mant = (if drop_bit (shift - 1) mant AND 1 \<noteq> 0 \<and>
                       (mant AND (push_bit (shift - 1) 1 - 1) \<noteq> 0 \<or> half_mant AND 1 \<noteq> 0)
                     then half_mant + 1 else half_mant)
                in ucast (sign OR half_mant))
        else let half_mant = drop_bit 13 mant;
               half_mant = (if mant AND 0x1000 \<noteq> 0 \<and> (mant AND 0xFFF \<noteq> 0 \<or> half_mant AND 1 \<noteq> 0)
                 then half_mant + 1 else half_mant)
          in if half_mant AND 0x400 \<noteq> 0
             then (if ex + 1 \<ge> 0x1F then ucast (sign OR 0x7C00)
                   else ucast (sign OR push_bit 10 (of_int (ex + 1)) OR (0 :: u32)))
             else ucast (sign OR push_bit 10 (of_int ex) OR half_mant))"

section \<open>Rounding\<close>

text \<open>\<open>m\<close> divided by a power of two, to the nearest, ties to even.\<close>

definition rne :: "nat \<Rightarrow> nat \<Rightarrow> nat" where
  "rne n m = (let q = m div 2 ^ n; r = m mod 2 ^ n in if 2 ^ n < 2 * r \<or> (2 ^ n = 2 * r \<and> odd q) then q + 1 else q)"

lemma rne_near:
  "2 * (rne n m * 2 ^ n) \<le> 2 * m + 2 ^ n" "2 * m \<le> 2 * (rne n m * 2 ^ n) + 2 ^ n"
  "2 * (rne n m * 2 ^ n) = 2 * m + 2 ^ n \<or> 2 * m = 2 * (rne n m * 2 ^ n) + 2 ^ n
    \<Longrightarrow> even (rne n m)"
proof -
  define q r where "q = m div 2 ^ n" "r = m mod 2 ^ n"
  have m: "m = q * 2 ^ n + r" "r < 2 ^ n" using div_mult_mod_eq [of m "2 ^ n"] by (simp_all add: q_r_def)
  define k where "k = rne n m"
  have x: "k = (if 2 ^ n < 2 * r \<or> (2 ^ n = 2 * r \<and> odd q) then q + 1 else q)" by (simp add: k_def rne_def q_r_def Let_def)
  show "2 * (rne n m * 2 ^ n) \<le> 2 * m + 2 ^ n" "2 * m \<le> 2 * (rne n m * 2 ^ n) + 2 ^ n"
    unfolding k_def [symmetric] using m x by (auto simp: algebra_simps)
  assume "2 * (rne n m * 2 ^ n) = 2 * m + 2 ^ n \<or> 2 * m = 2 * (rne n m * 2 ^ n) + 2 ^ n"
  then have "2 ^ n = 2 * r" unfolding k_def [symmetric] using m x by (auto simp: algebra_simps split: if_splits)
  then show "even (rne n m)" unfolding k_def [symmetric] using x by auto
qed

lemma rne_bound: "m < a * 2 ^ n \<Longrightarrow> rne n m \<le> a"
proof -
  assume "m < a * 2 ^ n"
  then have "m div 2 ^ n < a" by (simp add: less_mult_imp_div_less)
  then show ?thesis by (auto simp: rne_def Let_def)
qed

section \<open>The values\<close>

text \<open>
  Magnitudes in units of \<open>2 ^ (- 149)\<close>, the smallest single-precision number: of a single by
  its exponent and mantissa fields, and of a half by its low 15 bits. At 31744, the bits of infinity,
  \<open>half_value\<close> goes on to the number the format would reach there, 65536.
\<close>

definition single_value :: "nat \<Rightarrow> nat \<Rightarrow> nat" where
  "single_value e m = (if e = 0 then m else (2 ^ 23 + m) * 2 ^ (e - 1))"

definition half_value :: "nat \<Rightarrow> nat" where
  "half_value h = (if h div 1024 = 0 then h else (1024 + h mod 1024) * 2 ^ (h div 1024 - 1)) * 2 ^ 125"

definition half_mag :: "nat \<Rightarrow> nat \<Rightarrow> nat" where
  "half_mag e m = (if e < 102 then 0 else if e \<le> 112 then rne (126 - e) (2 ^ 23 + m)
     else if e < 143 then 1024 * (e - 112) + rne 13 m else 31744)"

lemma half_value_at:
  assumes "0 < k" "q \<le> 1024"
  shows "half_value (1024 * k + q) = (1024 + q) * 2 ^ (k + 124)"
proof (cases "q < 1024")
  case True
  then have "(1024 * k + q) div 1024 = k" "(1024 * k + q) mod 1024 = q" by simp_all
  then show ?thesis using assms(1) by (cases k) (simp_all add: half_value_def power_add)
next
  case False
  then have "q = 1024" using assms by simp
  then show ?thesis using assms(1) by (cases k) (simp_all add: half_value_def power_add)
qed

lemma half_value_small: "q \<le> 1024 \<Longrightarrow> half_value q = q * 2 ^ 125"
  by (cases "q = 1024") (auto simp: half_value_def)

lemma half_value_step: "half_value h < half_value (Suc h)"
proof (cases "h < 1024")
  case True
  then show ?thesis by (simp add: half_value_small)
next
  case False
  define k q where "k = h div 1024" "q = h mod 1024"
  have h: "h = 1024 * k + q" "q < 1024" "0 < k" using False by (simp_all add: k_q_def div_greater_zero_iff)
  show ?thesis using half_value_at [of k q] half_value_at [of k "Suc q"] h by simp
qed

lemma half_value_mono: "h < k \<Longrightarrow> half_value h < half_value k"
  by (rule lift_Suc_mono_less [of half_value]) (rule half_value_step)

text \<open>The nearest of an increasing sequence is found by looking at the neighbours.\<close>

lemma nearest_of_neighbours:
  assumes "\<And>j. f j < (f (Suc j) :: nat)" "r > 0 \<Longrightarrow> f (r - 1) + f r \<le> 2 * x" "2 * x \<le> f r + f (Suc r)"
  shows "\<bar>int x - int (f r)\<bar> \<le> \<bar>int x - int (f h)\<bar>"
    and "\<bar>int x - int (f r)\<bar> = \<bar>int x - int (f h)\<bar> \<Longrightarrow> h \<noteq> r \<Longrightarrow>
      r > 0 \<and> f (r - 1) + f r = 2 * x \<or> 2 * x = f r + f (Suc r)"
proof -
  have m: "i < j \<Longrightarrow> f i < f j" for i j by (rule lift_Suc_mono_less [of f]) (rule assms(1))
  have w: "i \<le> j \<Longrightarrow> f i \<le> f j" for i j using m [of i j] by (cases "i = j") auto
  have lo: "h < r \<Longrightarrow> f h \<le> f (r - 1)" by (rule w) simp
  have hi: "r < h \<Longrightarrow> f (Suc r) \<le> f h" by (rule w) simp
  have s: "f r < f (Suc r)" "r > 0 \<Longrightarrow> f (r - 1) < f r" using assms(1) [of r] m [of "r - 1" r] by auto
  show "\<bar>int x - int (f r)\<bar> \<le> \<bar>int x - int (f h)\<bar>"
    using lo hi s assms(2,3) by (cases h r rule: linorder_cases) auto
  show "r > 0 \<and> f (r - 1) + f r = 2 * x \<or> 2 * x = f r + f (Suc r)"
    if "\<bar>int x - int (f r)\<bar> = \<bar>int x - int (f h)\<bar>" "h \<noteq> r"
    using lo hi s assms(2,3) that by (cases h r rule: linorder_cases) auto
qed

lemma between_multiples:
  assumes "2 * (q * t) \<le> 2 * a + t" "2 * a \<le> 2 * (q * t) + t" "2 * (q * t) = 2 * a + t \<or> 2 * a = 2 * (q * t) + t \<Longrightarrow> even q"
    and "f r = q * t * s" "Suc q * t * s \<le> f (Suc r)" "0 < (s :: nat)"
    and "0 < r \<Longrightarrow> 0 < q \<and> f (r - 1) \<le> (q - 1) * t * s \<or> f (r - 1) < f r \<and> q * t \<le> a"
  shows "(0 < r \<longrightarrow> f (r - 1) + f r \<le> 2 * (a * s)) \<and> 2 * (a * s) \<le> f r + f (Suc r) \<and>
    (0 < r \<and> f (r - 1) + f r = 2 * (a * s) \<or> 2 * (a * s) = f r + f (Suc r) \<longrightarrow> even q)"
proof -
  have up: "2 * (a * s) \<le> (2 * (q * t) + t) * s" using mult_le_mono1 [OF assms(2), of s] by simp
  have fs: "(2 * (q * t) + t) * s \<le> f r + f (Suc r)" using assms(4,5) by (simp add: algebra_simps)
  have e1: "2 * a = 2 * (q * t) + t" if "2 * (a * s) = f r + f (Suc r)"
  proof -
    have "(2 * a) * s = (2 * (q * t) + t) * s" using that up fs by (metis le_antisym mult.assoc)
    then show ?thesis using assms(6) by (metis mult_cancel2 less_irrefl)
  qed
  have lo: "f (r - 1) + f r \<le> 2 * (a * s) \<and> (f (r - 1) + f r = 2 * (a * s) \<longrightarrow> 2 * (q * t) = 2 * a + t)" if "0 < r"
    using assms(7) [OF that]
  proof
    assume c: "0 < q \<and> f (r - 1) \<le> (q - 1) * t * s"
    have d: "2 * (q * t) * s \<le> (2 * a + t) * s" using mult_le_mono1 [OF assms(1), of s] by simp
    have e: "(q - 1) * t * s + t * s = q * t * s" using c by (cases q) (auto simp: algebra_simps)
    have f: "f (r - 1) + f r + t * s \<le> 2 * (q * t) * s" using c assms(4) by (cases q) (auto simp: algebra_simps)
    have g: "f (r - 1) + f r \<le> 2 * (a * s)" using d f by (simp add: algebra_simps)
    moreover have "2 * (q * t) = 2 * a + t" if "f (r - 1) + f r = 2 * (a * s)"
    proof -
      have "2 * (q * t) * s = (2 * a + t) * s" using d f that by (simp add: algebra_simps)
      then show ?thesis using assms(6) by (metis mult_cancel2 less_irrefl)
    qed
    ultimately show ?thesis by blast
  next
    assume c: "f (r - 1) < f r \<and> q * t \<le> a"
    then have "f r \<le> a * s" using mult_le_mono1 [of "q * t" a s] assms(4) by simp
    then show ?thesis using c by simp
  qed
  show ?thesis using le_trans [OF up fs] e1 lo assms(3) by blast
qed

lemma half_mag_between:
  assumes "e < 143" "m < 2 ^ 23"
  shows "0 < half_mag e m \<Longrightarrow> half_value (half_mag e m - 1) + half_value (half_mag e m) \<le> 2 * single_value e m"
    and "2 * single_value e m \<le> half_value (half_mag e m) + half_value (Suc (half_mag e m))"
    and "0 < half_mag e m \<and> half_value (half_mag e m - 1) + half_value (half_mag e m) = 2 * single_value e m \<or>
      2 * single_value e m = half_value (half_mag e m) + half_value (Suc (half_mag e m)) \<Longrightarrow> even (half_mag e m)"
proof -
  consider "e < 102" | "102 \<le> e" "e \<le> 112" | "112 < e" by linarith
  then have "(0 < half_mag e m \<longrightarrow> half_value (half_mag e m - 1) + half_value (half_mag e m) \<le> 2 * single_value e m) \<and>
    2 * single_value e m \<le> half_value (half_mag e m) + half_value (Suc (half_mag e m)) \<and>
    (0 < half_mag e m \<and> half_value (half_mag e m - 1) + half_value (half_mag e m) = 2 * single_value e m \<or>
      2 * single_value e m = half_value (half_mag e m) + half_value (Suc (half_mag e m)) \<longrightarrow> even (half_mag e m))"
  proof cases
    case 1
    have "(2 ^ 23 + m) * 2 ^ (e - 1) < 2 ^ 24 * 2 ^ 100"
    proof (rule mult_less_le_imp_less)
      show "2 ^ 23 + m < 2 ^ 24" using assms by simp
      show "(2 :: nat) ^ (e - 1) \<le> 2 ^ 100" using 1 by (intro power_increasing) auto
    qed auto
    then have "single_value e m < 2 ^ 124" using assms by (auto simp: single_value_def)
    then show ?thesis using 1 by (simp add: half_mag_def half_value_small)
  next
    case 2
    define q s where "q = rne (126 - e) (2 ^ 23 + m)" "s = (2 :: nat) ^ (e - 1)"
    have p: "2 ^ (126 - e) * s = 2 ^ 125" using 2 by (simp add: q_s_def flip: power_add)
    have "(2 :: nat) ^ 14 \<le> 2 ^ (126 - e)" using 2 by (intro power_increasing) auto
    then have "2 ^ 23 + m < 1024 * 2 ^ (126 - e)" using assms by simp
    then have b: "q \<le> 1024" unfolding q_s_def by (rule rne_bound)
    have v: "single_value e m = (2 ^ 23 + m) * s" using 2 by (simp add: single_value_def q_s_def)
    have h: "half_value j = j * 2 ^ (126 - e) * s" if "j \<le> 1024" for j using half_value_small [OF that] p by (simp add: mult.assoc)
    have h': "half_value (Suc q) = Suc q * 2 ^ (126 - e) * s"
    proof (cases "q = 1024")
      case True
      then show ?thesis using half_value_at [of 1 1] p by (simp add: mult.assoc)
    qed (use b h in auto)
    have r: "half_mag e m = q" using 2 by (simp add: half_mag_def q_s_def)
    note n = rne_near [where n = "126 - e" and m = "2 ^ 23 + m", folded q_s_def]
    have z: "0 < s" by (simp add: q_s_def)
    have "0 < q \<Longrightarrow> 0 < q \<and> half_value (q - 1) \<le> (q - 1) * 2 ^ (126 - e) * s \<or> half_value (q - 1) < half_value q \<and> q * 2 ^ (126 - e) \<le> 2 ^ 23 + m"
      using h [of "q - 1"] b by simp
    from between_multiples [OF n h [OF b] eq_refl [OF h' [symmetric]] z this] show ?thesis by (simp add: r v)
  next
    case 3
    define q s k where "q = rne 13 m" "s = (2 :: nat) ^ (e - 1)" "k = e - 112"
    have k: "0 < k" using 3 by (simp add: q_s_k_def)
    have "k + 124 = 13 + (e - 1)" using 3 by (simp add: q_s_k_def)
    then have p: "(2 :: nat) ^ (k + 124) = 2 ^ 13 * s" by (simp only: power_add q_s_k_def)
    have b: "q \<le> 1024" unfolding q_s_k_def by (rule rne_bound) (use assms in simp)
    have v: "single_value e m = (2 ^ 23 + m) * s" using 3 by (simp add: single_value_def q_s_k_def)
    have r: "half_mag e m = 1024 * k + q" using 3 assms by (simp add: half_mag_def q_s_k_def)
    have h: "half_value (1024 * k + j) = (1024 + j) * 2 ^ 13 * s" if "j \<le> 1024" for j
      using half_value_at [OF k that] p by (simp add: mult.assoc)
    have h': "(Suc (1024 + q)) * 2 ^ 13 * s \<le> half_value (Suc (1024 * k + q))"
    proof (cases "q = 1024")
      case True
      have "half_value (1024 * (k + 1) + 1) = 1025 * 2 ^ (k + 1 + 124)" using half_value_at [of "k + 1" 1] k by simp
      then show ?thesis using True p by (simp add: power_add)
    next
      case False
      then show ?thesis using h [of "Suc q"] b by simp
    qed
    have n: "2 * ((1024 + q) * 2 ^ 13) \<le> 2 * (2 ^ 23 + m) + 2 ^ 13" "2 * (2 ^ 23 + m) \<le> 2 * ((1024 + q) * 2 ^ 13) + 2 ^ 13"
      "2 * ((1024 + q) * 2 ^ 13) = 2 * (2 ^ 23 + m) + 2 ^ 13 \<or> 2 * (2 ^ 23 + m) = 2 * ((1024 + q) * 2 ^ 13) + 2 ^ 13 \<Longrightarrow> even (1024 + q)"
      using rne_near [where n = 13 and m = m, folded q_s_k_def] by auto
    have z: "0 < s" by (simp add: q_s_k_def)
    have l: "0 < 1024 + q \<and> half_value (1024 * k + q - 1) \<le> (1024 + q - 1) * 2 ^ 13 * s \<or>
        half_value (1024 * k + q - 1) < half_value (1024 * k + q) \<and> (1024 + q) * 2 ^ 13 \<le> 2 ^ 23 + m"
    proof (cases q)
      case 0
      then have "half_value (1024 * k + q - 1) < half_value (1024 * k + q)" using k by (intro half_value_mono) simp
      then show ?thesis using 0 by simp
    next
      case (Suc j)
      then show ?thesis using h [of j] b by simp
    qed
    from between_multiples [OF n h [OF b] h' z l] show ?thesis by (simp add: r v)
  qed
  then show "0 < half_mag e m \<Longrightarrow> half_value (half_mag e m - 1) + half_value (half_mag e m) \<le> 2 * single_value e m"
    "2 * single_value e m \<le> half_value (half_mag e m) + half_value (Suc (half_mag e m))"
    "0 < half_mag e m \<and> half_value (half_mag e m - 1) + half_value (half_mag e m) = 2 * single_value e m \<or>
      2 * single_value e m = half_value (half_mag e m) + half_value (Suc (half_mag e m)) \<Longrightarrow> even (half_mag e m)"
    by blast+
qed

lemma half_mag_large: "e < 143 \<Longrightarrow> m < 2 ^ 23 \<Longrightarrow> half_mag e m \<le> 31744"
proof -
  assume a: "e < 143" "m < 2 ^ 23"
  have "rne 13 m \<le> 1024" by (rule rne_bound) (use a in simp)
  moreover have "rne (126 - e) (2 ^ 23 + m) \<le> 1024" if "e \<le> 112"
  proof (rule rne_bound)
    have "(2 :: nat) ^ 14 \<le> 2 ^ (126 - e)" using that by (intro power_increasing) auto
    then show "2 ^ 23 + m < 1024 * 2 ^ (126 - e)" using a by simp
  qed
  ultimately show ?thesis using a by (auto simp: half_mag_def)
qed

lemma half_mag_nearest:
  assumes "e < 255" "m < 2 ^ 23"
  shows "half_mag e m = 31744 \<longleftrightarrow> 65520 * 2 ^ 149 \<le> single_value e m"
    and "half_mag e m < 31744 \<Longrightarrow> \<bar>int (single_value e m) - int (half_value (half_mag e m))\<bar> \<le> \<bar>int (single_value e m) - int (half_value h)\<bar>"
    and "half_mag e m < 31744 \<Longrightarrow> h \<noteq> half_mag e m \<Longrightarrow>
      \<bar>int (single_value e m) - int (half_value (half_mag e m))\<bar> = \<bar>int (single_value e m) - int (half_value h)\<bar> \<Longrightarrow> even (half_mag e m)"
proof -
  have v: "half_value 31743 = 65504 * 2 ^ 149" "half_value 31744 = 65536 * 2 ^ 149" by (simp_all add: half_value_def)
  show "half_mag e m = 31744 \<longleftrightarrow> 65520 * 2 ^ 149 \<le> single_value e m"
  proof (cases "e < 143")
    case True
    note b = half_mag_between [OF True assms(2)]
    show ?thesis
    proof (cases "half_mag e m = 31744")
      case True
      then show ?thesis using b(1) v by simp
    next
      case False
      then have l: "half_mag e m < 31744" using half_mag_large [OF \<open>e < 143\<close> assms(2)] by simp
      have "2 * single_value e m < 2 * (65520 * 2 ^ 149)"
      proof (cases "half_mag e m = 31743")
        case True
        then show ?thesis using b(2,3) v by (cases "2 * single_value e m = half_value 31743 + half_value 31744") auto
      next
        case False
        then have "half_value (half_mag e m) < half_value 31743" using l by (intro half_value_mono) simp
        moreover have "half_value (Suc (half_mag e m)) \<le> half_value 31743"
          using half_value_mono [of "Suc (half_mag e m)" 31743] l False by (cases "Suc (half_mag e m) = 31743") auto
        ultimately show ?thesis using b(2) v by simp
      qed
      then show ?thesis using False by simp
    qed
  next
    case False
    have "(2 ^ 23 + 0) * (2 :: nat) ^ 142 \<le> (2 ^ 23 + m) * 2 ^ (e - 1)" using False by (intro mult_le_mono power_increasing) auto
    then show ?thesis using False by (simp add: half_mag_def single_value_def)
  qed
  assume "half_mag e m < 31744"
  then have "e < 143" by (auto simp: half_mag_def split: if_splits)
  note b = half_mag_between [OF this assms(2)]
  note n = nearest_of_neighbours [of half_value, OF half_value_step b(1,2), of h]
  show "\<bar>int (single_value e m) - int (half_value (half_mag e m))\<bar> \<le> \<bar>int (single_value e m) - int (half_value h)\<bar>"
    using n(1) by simp
  show "even (half_mag e m)" if "h \<noteq> half_mag e m"
      "\<bar>int (single_value e m) - int (half_value (half_mag e m))\<bar> = \<bar>int (single_value e m) - int (half_value h)\<bar>"
    using n(2) that b(3) by blast
qed

section \<open>The code computes it\<close>

lemma bit_32768: "bit (0x8000 :: u32) n \<longleftrightarrow> n = 15"
  using bit_exp_iff [of 15 n, where 'a = u32] by auto

lemma sign_or:
  assumes "w = 0 \<or> w = 0x8000" "unat (v :: u32) < 2 ^ 15"
  shows "unat (ucast (w OR v) :: u16) = unat w + unat v"
proof -
  have "w AND v = 0"
  proof (rule bit_word_eqI)
    fix n
    have "bit (unat v) 15 \<longleftrightarrow> bit v 15" by (simp add: bit_unsigned_iff)
    then have "\<not> bit v 15" using assms(2) by (simp add: bit_iff_odd)
    then show "bit (w AND v) n \<longleftrightarrow> bit 0 n" using assms(1) by (auto simp: bit_and_iff bit_32768 simp del: bit_numeral_word_iff)
  qed
  then have "w OR v = w + v" by (metis add_0 word_plus_and_or)
  moreover have "unat (w + v) = unat w + unat v" using assms by (auto simp: unat_word_ariths)
  ultimately show ?thesis using assms by (auto simp: unsigned_ucast_eq take_bit_eq_mod)
qed

lemma odd_word: "(w AND 1 \<noteq> 0) \<longleftrightarrow> odd (unat (w :: 'a :: len word))"
proof -
  have "bit (unat w) 0 \<longleftrightarrow> bit w 0" by (simp add: bit_unsigned_iff)
  then have "odd (unat w) \<longleftrightarrow> odd w" by (simp only: bit_0)
  then show ?thesis by (auto simp: and_one_eq odd_iff_mod_2_eq_one)
qed

lemma rne_bits:
  assumes "0 < n"
  shows "rne n m = m div 2 ^ n + of_bool (odd (m div 2 ^ (n - 1)) \<and> (m mod 2 ^ (n - 1) \<noteq> 0 \<or> odd (m div 2 ^ n)))"
proof -
  obtain k where n: "n = Suc k" using assms by (cases n) auto
  define a b where "a = m div 2 ^ k" "b = m mod 2 ^ k"
  have b: "b < 2 ^ k" by (simp add: a_b_def)
  have "m mod 2 ^ n = 2 ^ k * (a mod 2) + b" by (simp add: a_b_def n mod_mult2_eq mult.commute [of 2])
  then have r: "2 * (m mod 2 ^ n) = (if odd a then 2 ^ n + 2 * b else 2 * b)" by (auto simp: n odd_iff_mod_2_eq_one)
  have p: "(2 :: nat) ^ n = 2 * 2 ^ k" by (simp add: n)
  have "rne n m = (let q = m div 2 ^ n in if odd a \<and> (b \<noteq> 0 \<or> odd q) then q + 1 else q)"
    unfolding rne_def Let_def r using b p by auto
  then show ?thesis by (simp add: n a_b_def Let_def)
qed

lemma rne_word:
  assumes "0 < n" "unat (mant :: u32) div 2 ^ n < 2 ^ 31"
  shows "unat (let h = drop_bit n mant in if drop_bit (n - 1) mant AND 1 \<noteq> 0 \<and> (mant AND (push_bit (n - 1) 1 - 1) \<noteq> 0 \<or> h AND 1 \<noteq> 0)
      then h + 1 else h) = rne n (unat mant)"
proof -
  have t: "mant AND (push_bit (n - 1) 1 - 1) = take_bit (n - 1) mant" by (simp add: take_bit_eq_mask mask_eq_exp_minus_1 push_bit_eq_mult)
  have z: "take_bit (n - 1) mant \<noteq> 0 \<longleftrightarrow> unat mant mod 2 ^ (n - 1) \<noteq> 0"
    by (metis take_bit_eq_mod unat_eq_zero unsigned_take_bit_eq)
  have d: "unat (drop_bit n mant) = unat mant div 2 ^ n" for n by (simp add: unat_drop_bit_eq [of n mant] drop_bit_eq_div [of n "unat mant"])
  have u: "unat (drop_bit n mant + 1) = unat mant div 2 ^ n + 1"
    using assms(2) unfolding unat_word_ariths d by simp
  show ?thesis
    unfolding Let_def t using z u by (simp only: rne_bits [OF assms(1)] odd_word d) (simp add: d)
qed

lemma sign_cases: "w AND (0x8000 :: u32) = 0 \<or> w AND 0x8000 = 0x8000"
proof (cases "bit w 15")
  case True
  then have "w AND 0x8000 = 0x8000" by (intro bit_word_eqI) (auto simp: bit_and_iff bit_32768 simp del: bit_numeral_word_iff)
  then show ?thesis ..
next
  case False
  then have "w AND 0x8000 = 0" by (intro bit_word_eqI) (auto simp: bit_and_iff bit_32768 simp del: bit_numeral_word_iff)
  then show ?thesis ..
qed

lemma bit_below:
  assumes "unat (v :: 'a :: len word) < 2 ^ k" "bit v n"
  shows "n < k"
proof (rule ccontr)
  assume "\<not> n < k"
  then have "(2 :: nat) ^ k \<le> 2 ^ n" by (intro power_increasing) auto
  then have "unat v < 2 ^ n" by (rule less_le_trans [OF assms(1)])
  moreover have "bit (unat v) n" using assms(2) by (simp add: bit_unsigned_iff)
  ultimately show False by (simp add: bit_iff_odd)
qed

lemma or_above:
  assumes "unat (v :: u32) < 2 ^ k" "unat w * 2 ^ k + unat v < 2 ^ 32"
  shows "unat (push_bit k w OR v) = unat w * 2 ^ k + unat v"
proof -
  have "push_bit k w AND v = 0"
    by (rule bit_word_eqI) (use bit_below [OF assms(1)] in \<open>fastforce simp: bit_and_iff bit_push_bit_iff\<close>)
  then have "push_bit k w OR v = push_bit k w + v" by (metis add_0 word_plus_and_or)
  moreover have "unat (push_bit k w) = unat w * 2 ^ k" using assms(2) by (simp only: unsigned_push_bit_eq) (simp add: take_bit_eq_mod push_bit_eq_mult)
  ultimately show ?thesis using assms(2) by (simp add: unat_word_ariths)
qed

lemma float_to_half_mag:
  assumes "e = unat (drop_bit 23 x AND 0xFF)" "m = unat (x AND 0x7FFFFF)" "e < 255"
  shows "unat (float_to_half x) = unat (drop_bit 16 x AND 0x8000) + half_mag e m"
proof -
  define sign where "sign = drop_bit 16 x AND (0x8000 :: u32)"
  define mant where "mant = x AND (0x7FFFFF :: u32)"
  note sg = sign_cases [of "drop_bit 16 x", folded sign_def]
  have t: "mant = take_bit 23 x" by (simp add: mant_def take_bit_eq_mask mask_eq_exp_minus_1)
  have m: "m < 2 ^ 23" unfolding assms(2) mant_def [symmetric] t unsigned_take_bit_eq by (rule take_bit_nat_less_exp)
  have um: "unat mant = m" by (simp add: assms(2) mant_def)
  have x: "drop_bit 23 x AND 0xFF \<noteq> 0xFF" using assms(1,3) by auto
  note def = float_to_half_def [of x, folded sign_def mant_def, unfolded Let_def, folded assms(1)]
  consider "e < 102" | "102 \<le> e" "e \<le> 112" | "112 < e" "e < 143" | "143 \<le> e" by linarith
  then have "unat (float_to_half x) = unat sign + half_mag e m"
  proof cases
    case 1
    then show ?thesis using sign_or [OF sg, of 0] x by (simp add: def half_mag_def)
  next
    case 2
    define n where "n = 126 - e"
    have n: "0 < n" "nat (14 - (int e - 127 + 15)) = n" using 2 by (simp_all add: n_def)
    have "mant OR 0x800000 = push_bit 23 1 OR mant" by (simp add: or.commute)
    then have u: "unat (mant OR 0x800000) = 2 ^ 23 + m" using or_above [of mant 23 1] m um by simp
    have "(2 :: nat) ^ 14 \<le> 2 ^ n" using 2 by (intro power_increasing) (auto simp: n_def)
    then have b: "2 ^ 23 + m < 1024 * 2 ^ n" using m by simp
    then have "(2 ^ 23 + m) div 2 ^ n < 1024" by (simp add: less_mult_imp_div_less)
    then have r: "unat (let h = drop_bit n (mant OR 0x800000) in if drop_bit (n - 1) (mant OR 0x800000) AND 1 \<noteq> 0 \<and>
        ((mant OR 0x800000) AND (push_bit (n - 1) 1 - 1) \<noteq> 0 \<or> h AND 1 \<noteq> 0) then h + 1 else h) = rne n (2 ^ 23 + m)"
      using rne_word [OF n(1), of "mant OR 0x800000"] u by simp
    show ?thesis using sign_or [OF sg] r rne_bound [OF b] x 2 by (simp only: def half_mag_def n Let_def) (simp add: n_def)
  next
    case 3
    define hm where "hm = (if mant AND 0x1000 \<noteq> 0 \<and> (mant AND 0xFFF \<noteq> 0 \<or> drop_bit 13 mant AND 1 \<noteq> 0)
      then drop_bit 13 mant + 1 else drop_bit 13 mant)"
    have o: "mant AND 0x1000 \<noteq> 0 \<longleftrightarrow> drop_bit 12 mant AND 1 \<noteq> 0"
    proof -
      have "(0x1000 :: u32) = 2 ^ 12" by simp
      then show ?thesis by (simp only: and_exp_eq_0_iff_not_bit) (simp add: and_one_eq bit_iff_odd_drop_bit odd_iff_mod_2_eq_one)
    qed
    have b: "m < 1024 * 2 ^ 13" using m by simp
    then have "m div 2 ^ 13 < 1024" by (simp add: less_mult_imp_div_less)
    then have r: "unat hm = rne 13 m" using rne_word [of 13 mant] um by (simp add: hm_def o Let_def)
    then have l: "unat hm \<le> 1024" using rne_bound [OF b] by simp
    define k where "k = e - 112"
    have k: "int e - 127 + 15 = int k" "0 < k" "k < 31" using 3 by (simp_all add: k_def)
    have y: "unat (float_to_half x) = unat (if hm AND 0x400 \<noteq> 0 then (if int k + 1 \<ge> 0x1F then ucast (sign OR 0x7C00)
        else ucast (sign OR push_bit 10 (of_int (int k + 1)) OR (0 :: u32))) else (ucast (sign OR push_bit 10 (of_int (int k)) OR hm) :: u16))"
      using x k by (simp add: def hm_def)
    have p: "unat (push_bit 10 (of_nat j) OR v) = j * 2 ^ 10 + unat v" if "j < 31" "unat v < 2 ^ 10" for j and v :: u32
      using or_above [OF that(2), of "of_nat j"] that by (simp add: unsigned_of_nat take_bit_eq_mod)
    show ?thesis
    proof (cases "unat hm = 1024")
      case True
      moreover have "hm = of_nat (unat hm)" by simp
      ultimately have h: "hm = 0x400" by simp
      have "unat (push_bit 10 (of_nat (k + 1)) OR (0 :: u32)) = (k + 1) * 2 ^ 10" if "k \<noteq> 30" using p [where j = "k + 1" and v = 0] that k by simp
      then show ?thesis
        using y h r k sign_or [OF sg, where v = "0x7C00"] sign_or [OF sg, where v = "push_bit 10 (of_nat (k + 1)) OR 0"] 3 True
        by (cases "k = 30") (auto simp: half_mag_def k_def)
    next
      case False
      then have h: "unat hm < 2 ^ 10" using l by simp
      then have z: "hm AND 0x400 = 0"
        using bit_below [of hm 10 10] and_exp_eq_0_iff_not_bit [of hm 10] by auto
      show ?thesis
        using p [OF k(3) h] y z r k h sign_or [OF sg, where v = "push_bit 10 (of_nat k) OR hm"] 3 by (simp add: half_mag_def k_def or.assoc)
    qed
  next
    case 4
    then show ?thesis using sign_or [OF sg, of "0x7C00"] x by (simp add: def half_mag_def)
  qed
  then show ?thesis by (simp add: sign_def)
qed

text \<open>Everything but the infinities and NaNs.\<close>

definition single_finite :: "u32 \<Rightarrow> bool" where
  "single_finite x \<longleftrightarrow> drop_bit 23 x AND 0xFF \<noteq> 0xFF"

definition single_mag :: "u32 \<Rightarrow> nat" where
  "single_mag x = single_value (unat (drop_bit 23 x AND 0xFF)) (unat (x AND 0x7FFFFF))"

lemma sign_value: "unat (drop_bit 16 x AND (0x8000 :: u32)) = 32768 * (unat x div 2 ^ 31)"
proof -
  have "drop_bit 16 x AND (0x8000 :: u32) = push_bit 15 (drop_bit 31 x)"
    by (rule bit_word_eqI) (auto simp: bit_and_iff bit_32768 bit_drop_bit_eq bit_push_bit_iff dest: bit_imp_le_length simp del: bit_numeral_word_iff)
  moreover have d: "unat (drop_bit 31 x) = unat x div 2 ^ 31" by (simp add: unat_drop_bit_eq [of 31 x] drop_bit_eq_div [of 31 "unat x"])
  moreover have "unat x < 2 ^ LENGTH(32)" by (rule unsigned_less)
  then have "unat x div 2 ^ 31 < 2" by (simp add: less_mult_imp_div_less)
  then have "unat (push_bit 15 (drop_bit 31 x) OR 0) = unat (drop_bit 31 x) * 2 ^ 15 + unat (0 :: u32)"
    by (intro or_above) (simp_all add: d)
  ultimately show ?thesis by simp
qed

lemma single_fields:
  assumes "single_finite x"
  shows "unat (drop_bit 23 x AND 0xFF) < 255" "unat (x AND 0x7FFFFF) < 2 ^ 23"
proof -
  have "drop_bit 23 x AND 0xFF = take_bit 8 (drop_bit 23 x)" by (simp add: take_bit_eq_mask mask_eq_exp_minus_1)
  then have "unat (drop_bit 23 x AND 0xFF) < 256" using take_bit_nat_less_exp [of 8 "unat (drop_bit 23 x)"] by (simp add: unsigned_take_bit_eq)
  moreover have "unat (drop_bit 23 x AND 0xFF) \<noteq> 255"
  proof
    assume "unat (drop_bit 23 x AND 0xFF) = 255"
    then have "of_nat (unat (drop_bit 23 x AND 0xFF)) = (255 :: u32)" by (simp only: of_nat_numeral)
    then show False using assms by (simp add: single_finite_def)
  qed
  ultimately show "unat (drop_bit 23 x AND 0xFF) < 255" by simp
  have "x AND 0x7FFFFF = take_bit 23 x" by (simp add: take_bit_eq_mask mask_eq_exp_minus_1)
  then show "unat (x AND 0x7FFFFF) < 2 ^ 23" using take_bit_nat_less_exp [of 23 "unat x"] by (simp add: unsigned_take_bit_eq)
qed

text \<open>
  C27. The narrowing of a vector element keeps the sign and rounds to the nearest half-precision number,
  ties to the one with the even last bit, for every finite single-precision number; from 65520 on,
  and from no smaller magnitude, the result is infinite.
\<close>

theorem half_is_nearest:
  assumes "single_finite x"
  shows "\<exists>r. unat (float_to_half x) = 32768 * (unat x div 2 ^ 31) + r \<and>
    (if 65520 * 2 ^ 149 \<le> single_mag x then r = 31744
     else r < 31744 \<and> (\<forall>h. \<bar>int (single_mag x) - int (half_value r)\<bar> \<le> \<bar>int (single_mag x) - int (half_value h)\<bar>) \<and>
       (\<forall>h. h \<noteq> r \<and> \<bar>int (single_mag x) - int (half_value r)\<bar> = \<bar>int (single_mag x) - int (half_value h)\<bar> \<longrightarrow> even r))"
proof -
  define e m where "e = unat (drop_bit 23 x AND 0xFF)" "m = unat (x AND 0x7FFFFF)"
  have em: "e < 255" "m < 2 ^ 23" using single_fields [OF assms] by (simp_all add: e_m_def)
  have s: "single_mag x = single_value e m" by (simp add: single_mag_def e_m_def)
  have f: "unat (float_to_half x) = 32768 * (unat x div 2 ^ 31) + half_mag e m"
    using float_to_half_mag [OF e_m_def em(1)] by (simp add: sign_value)
  have l: "half_mag e m \<le> 31744" using half_mag_large [OF _ em(2)] by (cases "e < 143") (auto simp: half_mag_def)
  note n = half_mag_nearest [OF em]
  show ?thesis unfolding s
    by (intro exI [of _ "half_mag e m"] conjI f) (use n l in \<open>auto simp: order_le_less\<close>)
qed

theorem half_is_nearest_witness:
  "\<exists>r. unat (float_to_half 0xBFC2F000) = 32768 * (unat (0xBFC2F000 :: u32) div 2 ^ 31) + r \<and> r < 31744 \<and>
     (\<forall>h. \<bar>int (single_mag 0xBFC2F000) - int (half_value r)\<bar> \<le> \<bar>int (single_mag 0xBFC2F000) - int (half_value h)\<bar>)"
  using half_is_nearest [of "0xBFC2F000"] by (simp add: single_finite_def single_mag_def single_value_def) metis

end
