(* ===== verification/Hnsw_Pages.thy ===== *)
theory Hnsw_Pages
  imports Half_Float Util Sidecars
begin

text \<open>
  The pages of an HNSW index of pgvector, as \<open>src/hnsw_export.c\<close> writes them: the sizes of
  the tuples and how many pairs fit on a page, the bytes of an element tuple and of its neighbour
  tuple, and the two page writers. The page itself is PostgreSQL's: \<open>PageInit\<close> and
  \<open>PageAddItem\<close> are parameters with the documented law of \<open>page_laws\<close>.
  \<open>ereport (ERROR)\<close> is a value; it rolls the whole statement back.
\<close>

section \<open>Errors\<close>

datatype hnsw_error =
  No_fixed_dimension int | Pair_too_large | Element_does_not_fit | Element_misplaced nat
  | Neighbours_do_not_fit | Neighbours_misplaced nat | No_pgvector | No_source_dimension int | No_target
  | Not_an_index | Not_hnsw | Type_not_found | Type_unknown string | Dimension_mismatch int int | No_socket
  | Export_failed u32 | Metric_mismatch u32 u32 | Out_of_memory | Bad_pack_k | Cannot_open_sidecar
  | Short_header | Empty_sidecar | Invalid_degree int int | Cannot_open_tids | Tids_invalid | Too_few_tids
  | Short_level0 | Label_without_tid nat | Short_upper nat | Short_vector nat | Not_cagra | Wrong_table | Build_failed

section \<open>Geometry\<close>

text \<open>Sizes are \<open>size_t\<close>; with dimensions and degrees in \<open>int\<close> they do not wrap.\<close>

definition PGV_USABLE_BYTES :: nat where "PGV_USABLE_BYTES = 8192 - 24 - 8"

definition MAXALIGN8 :: "nat \<Rightarrow> nat" where "MAXALIGN8 n = (n + 7) div 8 * 8"

definition elem_tuple_size :: "nat \<Rightarrow> nat \<Rightarrow> nat" where
  "elem_tuple_size dim bytes_per_dim = MAXALIGN8 (72 + 8 + dim * bytes_per_dim)"

definition neigh_tuple_size :: "nat \<Rightarrow> nat \<Rightarrow> nat" where
  "neigh_tuple_size level m = MAXALIGN8 (4 + (level + 2) * m * 6)"

definition elems_per_page :: "int \<Rightarrow> nat \<Rightarrow> nat \<Rightarrow> nat \<Rightarrow> hnsw_error + nat" where
  "elems_per_page dim bytes_per_dim m level =
    (if dim \<le> 0 then Inl (No_fixed_dimension dim)
     else let needed = elem_tuple_size (nat dim) bytes_per_dim + 2 * 4 + neigh_tuple_size level m + 2 * 4
       in Inr (PGV_USABLE_BYTES div needed))"

definition check_hnsw_page_fit :: "int \<Rightarrow> nat \<Rightarrow> nat \<Rightarrow> nat \<Rightarrow> hnsw_error + unit" where
  "check_hnsw_page_fit dim bytes_per_dim m maxlevel =
    (case elems_per_page dim bytes_per_dim m maxlevel of
       Inl err \<Rightarrow> Inl err
     | Inr n \<Rightarrow> if n < 1 then Inl Pair_too_large else Inr ())"

section \<open>Item pointers\<close>

definition set_item_ptr :: "u32 \<Rightarrow> u16 \<Rightarrow> bytes" where
  "set_item_ptr blkno offno =
    le_bytes 2 (ucast (drop_bit 16 blkno) :: u16) @ le_bytes 2 (ucast (blkno AND 0xFFFF) :: u16) @ le_bytes 2 offno"

definition set_invalid_item_ptr :: bytes where
  "set_invalid_item_ptr = [255, 255, 255, 255, 0, 0]"

definition tid_to_item_ptr :: "u64 \<Rightarrow> bytes" where
  "tid_to_item_ptr encoded = (case cuvs_tid_decode encoded of (block, offs) \<Rightarrow> set_item_ptr block offs)"

lemma length_item_ptr [simp]: "length (set_item_ptr b w) = 6" "length set_invalid_item_ptr = 6" "length (tid_to_item_ptr t) = 6"
  by (simp_all add: set_item_ptr_def set_invalid_item_ptr_def tid_to_item_ptr_def split: prod.split)

section \<open>Elements\<close>

text \<open>An element in memory: the links in use of level 0 and of each upper level, and its place.\<close>

record ElemDesc =
  ed_level :: nat
  ed_tid_encoded :: u64
  ed_lv0_links :: "int list"
  ed_upper_links :: "int list list"
  ed_elem_blkno :: u32
  ed_elem_offno :: u16
  ed_neigh_blkno :: u32
  ed_neigh_offno :: u16

definition pad :: "nat \<Rightarrow> bytes \<Rightarrow> bytes" where
  "pad n bs = bs @ replicate (n - length bs) 0"

definition vector_body :: "nat \<Rightarrow> u32 list \<Rightarrow> bytes" where
  "vector_body bytes_per_dim vec =
    (if bytes_per_dim = 4 then concat (map (le_bytes 4) vec) else concat (map (\<lambda>x. le_bytes 2 (float_to_half x)) vec))"

text \<open>The element tuple: header, ten heap TIDs of which one is used, the place of the neighbours, the vector.\<close>

definition elem_tuple :: "ElemDesc \<Rightarrow> u32 list \<Rightarrow> nat \<Rightarrow> nat \<Rightarrow> bytes" where
  "elem_tuple e vec dim bytes_per_dim = pad (elem_tuple_size dim bytes_per_dim)
    ([1, of_nat (ed_level e), 0, 0] @ tid_to_item_ptr (ed_tid_encoded e) @ concat (replicate 9 set_invalid_item_ptr)
     @ set_item_ptr (ed_neigh_blkno e) (ed_neigh_offno e) @ [0, 0]
     @ le_bytes 4 (push_bit 2 (of_nat (8 + dim * bytes_per_dim)) :: u32) @ le_bytes 2 (of_nat dim :: u16) @ [0, 0]
     @ vector_body bytes_per_dim vec)"

definition link_slot :: "ElemDesc list \<Rightarrow> int \<Rightarrow> bytes" where
  "link_slot all_elems nb =
    (if 0 \<le> nb \<and> nat nb < length all_elems
     then set_item_ptr (ed_elem_blkno (all_elems ! nat nb)) (ed_elem_offno (all_elems ! nat nb)) else set_invalid_item_ptr)"

definition level_slots :: "nat \<Rightarrow> ElemDesc list \<Rightarrow> int list \<Rightarrow> bytes list" where
  "level_slots n all_elems links =
    map (\<lambda>s. if s < length links then link_slot all_elems (links ! s) else set_invalid_item_ptr) [0..<n]"

definition links_at :: "ElemDesc \<Rightarrow> nat \<Rightarrow> int list" where
  "links_at e lv = (if lv = 0 then ed_lv0_links e
     else if lv - 1 < length (ed_upper_links e) then ed_upper_links e ! (lv - 1) else [])"

text \<open>The neighbour tuple: the levels from the highest down, \<open>m\<close> slots each, and \<open>2 m\<close> for level 0.\<close>

definition neigh_slots :: "nat \<Rightarrow> ElemDesc list \<Rightarrow> ElemDesc \<Rightarrow> bytes list" where
  "neigh_slots m all_elems e =
    concat (map (\<lambda>lv. level_slots m all_elems (links_at e lv)) (rev [1..<Suc (ed_level e)])) @ level_slots (2 * m) all_elems (links_at e 0)"

definition neigh_tuple :: "nat \<Rightarrow> ElemDesc list \<Rightarrow> ElemDesc \<Rightarrow> bytes" where
  "neigh_tuple m all_elems e = pad (neigh_tuple_size (ed_level e) m)
    ([2, 0] @ le_bytes 2 (of_nat ((ed_level e + 2) * m) :: u16) @ concat (neigh_slots m all_elems e))"

section \<open>Pages\<close>

text \<open>Offset 0 is \<open>InvalidOffsetNumber\<close>.\<close>

record 'p page_lib =
  pl_init :: 'p
  pl_add :: "'p \<Rightarrow> bytes \<Rightarrow> nat \<times> 'p"

text \<open>
  What PostgreSQL documents of a page that only ever had items added: an item that fits with its
  line pointer gets the next offset, another is refused.
\<close>

definition page_laws :: "'p page_lib \<Rightarrow> ('p \<Rightarrow> bytes list) \<Rightarrow> ('p \<Rightarrow> nat) \<Rightarrow> bool" where
  "page_laws pl items free \<longleftrightarrow> items (pl_init pl) = [] \<and> free (pl_init pl) = PGV_USABLE_BYTES \<and>
    (\<forall>p b. if MAXALIGN8 (length b) + 4 \<le> free p
       then fst (pl_add pl p b) = length (items p) + 1 \<and> items (snd (pl_add pl p b)) = items p @ [b] \<and>
         free (snd (pl_add pl p b)) = free p - (MAXALIGN8 (length b) + 4)
       else fst (pl_add pl p b) = 0)"

definition write_elem_pair ::
  "'p page_lib \<Rightarrow> 'p \<Rightarrow> ElemDesc \<Rightarrow> u32 list \<Rightarrow> nat \<Rightarrow> nat \<Rightarrow> nat \<Rightarrow> ElemDesc list \<Rightarrow> hnsw_error + 'p" where
  "write_elem_pair pl page e vec dim bytes_per_dim m all_elems =
    (let (eoff, p1) = pl_add pl page (elem_tuple e vec dim bytes_per_dim) in
     if eoff = 0 then Inl Element_does_not_fit
     else if eoff \<noteq> unat (ed_elem_offno e) then Inl (Element_misplaced eoff)
     else let (noff, p2) = pl_add pl p1 (neigh_tuple m all_elems e) in
       if noff = 0 then Inl Neighbours_do_not_fit
       else if noff \<noteq> unat (ed_neigh_offno e) then Inl (Neighbours_misplaced noff)
       else Inr p2)"

text \<open>A block: the special area, and the metadata or the tuples.\<close>

datatype 'p block = Meta_block bytes bytes | Element_block bytes 'p

definition page_opaque :: bytes where
  "page_opaque = le_bytes 4 (0xFFFFFFFF :: u32) @ [0, 0] @ le_bytes 2 (0xFF90 :: u16)"

definition write_elem_page ::
  "'p page_lib \<Rightarrow> ElemDesc \<Rightarrow> u32 list \<Rightarrow> nat \<Rightarrow> nat \<Rightarrow> nat \<Rightarrow> ElemDesc list \<Rightarrow> 'p block list \<Rightarrow> hnsw_error + 'p block list" where
  "write_elem_page pl e vec dim bytes_per_dim m all_elems rel =
    (case write_elem_pair pl (pl_init pl) e vec dim bytes_per_dim m all_elems of
       Inl err \<Rightarrow> Inl err
     | Inr p \<Rightarrow> Inr (rel @ [Element_block page_opaque p]))"

primrec write_pairs ::
  "'p page_lib \<Rightarrow> nat \<Rightarrow> nat \<Rightarrow> nat \<Rightarrow> ElemDesc list \<Rightarrow> (ElemDesc \<times> u32 list) list \<Rightarrow> 'p \<Rightarrow> hnsw_error + 'p" where
  "write_pairs pl dim bytes_per_dim m all_elems [] page = Inr page"
| "write_pairs pl dim bytes_per_dim m all_elems (ev # evs) page =
    (case write_elem_pair pl page (fst ev) (snd ev) dim bytes_per_dim m all_elems of
       Inl err \<Rightarrow> Inl err
     | Inr p \<Rightarrow> write_pairs pl dim bytes_per_dim m all_elems evs p)"

text \<open>\<open>k\<close> pairs a page; the only caller passes at least 2 (with 0 the loop would not end).\<close>

function write_elem_pages_packed ::
  "'p page_lib \<Rightarrow> nat \<Rightarrow> nat \<Rightarrow> nat \<Rightarrow> ElemDesc list \<Rightarrow> nat \<Rightarrow> (ElemDesc \<times> u32 list) list \<Rightarrow> 'p block list
    \<Rightarrow> hnsw_error + 'p block list" where
  "write_elem_pages_packed pl dim bytes_per_dim m all_elems k evs rel =
    (if evs = [] \<or> k = 0 then Inr rel
     else case write_pairs pl dim bytes_per_dim m all_elems (take k evs) (pl_init pl) of
       Inl err \<Rightarrow> Inl err
     | Inr p \<Rightarrow> write_elem_pages_packed pl dim bytes_per_dim m all_elems k (drop k evs) (rel @ [Element_block page_opaque p]))"
  by pat_completeness auto
termination by (relation "measure (\<lambda>(_, _, _, _, _, _, evs, _). length evs)") auto

declare write_elem_pages_packed.simps [simp del]

text \<open>One page per element.\<close>

primrec write_pages ::
  "'p page_lib \<Rightarrow> nat \<Rightarrow> nat \<Rightarrow> nat \<Rightarrow> ElemDesc list \<Rightarrow> (ElemDesc \<times> u32 list) list \<Rightarrow> 'p block list
    \<Rightarrow> hnsw_error + 'p block list" where
  "write_pages pl dim bytes_per_dim m all_elems [] rel = Inr rel"
| "write_pages pl dim bytes_per_dim m all_elems (ev # evs) rel =
    (case write_elem_page pl (fst ev) (snd ev) dim bytes_per_dim m all_elems rel of
       Inl err \<Rightarrow> Inl err
     | Inr rel' \<Rightarrow> write_pages pl dim bytes_per_dim m all_elems evs rel')"

end
