(* ===== verification/Hnsw_Export.thy ===== *)
theory Hnsw_Export
  imports Hnsw_Pages Ipc_Props
begin

text \<open>
  Converting a CAGRA graph to an HNSW index of pgvector (\<open>src/hnsw_export.c\<close>): from the
  adjacency the daemon exports, with or without a hierarchy (\<open>fill_hnsw_from_cagra_ipc\<close>).
  Distances (float arithmetic) and the random levels are parameters. Row numbers are C
  \<open>int\<close>s: an index of \<open>2 ^ 31\<close> rows or more is outside the model.
\<close>

section \<open>The target index\<close>

text \<open>What the catalogs say: the source's dimension, and the target's kind, access method, column and operator class.\<close>

record hnsw_target =
  tg_pgvector :: bool
  tg_source_dim :: int
  tg_found :: bool
  tg_is_index :: bool
  tg_am_ok :: bool
  tg_column :: "(int \<times> string option) option"
  tg_opclass :: "string option"

definition bytes_per_dim_for_typid :: "string option \<Rightarrow> hnsw_error + nat" where
  "bytes_per_dim_for_typid typname =
    (case typname of
       None \<Rightarrow> Inl Type_not_found
     | Some name \<Rightarrow> if name = ''halfvec'' then Inr 2 else if name = ''vector'' then Inr 4 else Inl (Type_unknown name))"

definition strstr :: "string \<Rightarrow> string \<Rightarrow> bool" where
  "strstr s pat \<longleftrightarrow> list_ex (\<lambda>i. take (length pat) (drop i s) = pat) [0..<Suc (length s)]"

definition opclass_metric :: "string option \<Rightarrow> u32" where
  "opclass_metric opc =
    (case opc of
       None \<Rightarrow> CUVS_METRIC_L2
     | Some nm \<Rightarrow> if strstr nm ''cosine'' then CUVS_METRIC_COSINE else if strstr nm ''_ip'' then CUVS_METRIC_IP else CUVS_METRIC_L2)"

text \<open>The checks before any work; the result is the width of an element.\<close>

definition check_target :: "hnsw_target \<Rightarrow> hnsw_error + nat" where
  "check_target tg =
    (if \<not> tg_pgvector tg then Inl No_pgvector
     else if tg_source_dim tg \<le> 0 then Inl (No_source_dimension (tg_source_dim tg))
     else if \<not> tg_found tg then Inl No_target
     else if \<not> tg_is_index tg then Inl Not_an_index
     else if \<not> tg_am_ok tg then Inl Not_hnsw
     else case tg_column tg of
       None \<Rightarrow> Inr 4
     | Some (tgt_dim, typname) \<Rightarrow>
        (case bytes_per_dim_for_typid typname of
           Inl err \<Rightarrow> Inl err
         | Inr bytes_per_dim \<Rightarrow>
            if 0 < tgt_dim \<and> tgt_dim \<noteq> tg_source_dim tg then Inl (Dimension_mismatch (tg_source_dim tg) tgt_dim)
            else Inr bytes_per_dim))"

section \<open>Links\<close>

text \<open>\<open>level0_degree\<close> is M0, the level-0 slots; M is half of it.\<close>

definition level0_degree :: "int \<Rightarrow> nat" where
  "level0_degree graph_degree =
    (let m0 = (if graph_degree < 64 then graph_degree else 64); m0 = (if m0 mod 2 \<noteq> 0 then m0 - 1 else m0)
     in nat (if m0 < 2 then 2 else m0))"

definition row_of_vec :: "u32 list \<Rightarrow> nat \<Rightarrow> nat \<Rightarrow> u32 list" where
  "row_of_vec xs width i = take width (drop (i * width) xs)"

text \<open>Keep a candidate unless one already selected is closer to it than the query is.\<close>

fun heuristic_loop ::
  "(u32 list \<Rightarrow> u32 list \<Rightarrow> u32) \<Rightarrow> (int \<Rightarrow> u32 list) \<Rightarrow> u32 list \<Rightarrow> nat \<Rightarrow> int list \<Rightarrow> int list \<Rightarrow> int list" where
  "heuristic_loop vec_dist_sq vec_of query m [] sel = sel"
| "heuristic_loop vec_dist_sq vec_of query m (c # cs) sel =
    (if \<not> length sel < m then sel
     else let d_q_c = vec_dist_sq query (vec_of c) in
       if list_ex (\<lambda>s. f32_lt (vec_dist_sq (vec_of c) (vec_of s)) d_q_c) sel
       then heuristic_loop vec_dist_sq vec_of query m cs sel
       else heuristic_loop vec_dist_sq vec_of query m cs (sel @ [c]))"

definition heuristic_select_neighbors ::
  "(u32 list \<Rightarrow> u32 list \<Rightarrow> u32) \<Rightarrow> (int \<Rightarrow> u32 list) \<Rightarrow> u32 list \<Rightarrow> nat \<Rightarrow> int list \<Rightarrow> int list" where
  "heuristic_select_neighbors vec_dist_sq vec_of query m candidates = heuristic_loop vec_dist_sq vec_of query m candidates []"

text \<open>A random level is capped at 16.\<close>

definition cagra_assign_level :: "nat \<Rightarrow> nat" where
  "cagra_assign_level lv = (if lv > 16 then 16 else lv)"

text \<open>The element of the highest level, the first of several.\<close>

fun entry_scan :: "nat \<Rightarrow> nat list \<Rightarrow> nat \<Rightarrow> nat \<Rightarrow> nat \<times> nat" where
  "entry_scan i [] max_level entry_elem = (max_level, entry_elem)"
| "entry_scan i (lv # lvs) max_level entry_elem =
    (if max_level < lv then entry_scan (i + 1) lvs lv i else entry_scan (i + 1) lvs max_level entry_elem)"

text \<open>The lists of levels \<open>l\<close>, \<open>l + 1\<close>, ...; the candidates of a level are those of the level below that reach it.\<close>

primrec upper_lists :: "(int list \<Rightarrow> int list) \<Rightarrow> (int \<Rightarrow> nat) \<Rightarrow> nat \<Rightarrow> nat \<Rightarrow> int list \<Rightarrow> int list list" where
  "upper_lists select level_of l 0 cands = []"
| "upper_lists select level_of l (Suc n) cands =
    (let kept = filter (\<lambda>c. l \<le> level_of c) cands in select kept # upper_lists select level_of (l + 1) n kept)"

definition element_links ::
  "(u32 list \<Rightarrow> u32 list \<Rightarrow> u32) \<Rightarrow> adjacency \<Rightarrow> nat list \<Rightarrow> bool \<Rightarrow> nat \<Rightarrow> ElemDesc" where
  "element_links vec_dist_sq ad levels do_hierarchy i =
    (let m0 = level0_degree (ad_graph_degree ad); row = row_of_vec (ad_adj ad) (nat (ad_graph_degree ad)) i;
         cnt0 = (if ad_graph_degree ad < int m0 then nat (ad_graph_degree ad) else m0);
         vec = (\<lambda>c. row_of_vec (ad_vecs ad) (nat (ad_dim ad)) (nat c));
         cands = map sint (filter (\<lambda>c. unat c < ad_n_vecs ad) row)
     in \<lparr>ed_level = levels ! i, ed_tid_encoded = ad_tids ad ! i, ed_lv0_links = map sint (take cnt0 row),
         ed_upper_links = (if do_hierarchy
           then upper_lists (heuristic_select_neighbors vec_dist_sq vec (vec (int i)) (m0 div 2)) (\<lambda>c. levels ! nat c) 1 (levels ! i) cands
           else []),
         ed_elem_blkno = 0, ed_elem_offno = 0, ed_neigh_blkno = 0, ed_neigh_offno = 0\<rparr>)"

section \<open>Layout\<close>

definition place_elem :: "nat \<Rightarrow> nat \<Rightarrow> ElemDesc \<Rightarrow> ElemDesc" where
  "place_elem pack_k i e = e\<lparr>ed_elem_blkno := of_nat (i div pack_k + 1), ed_elem_offno := of_nat (2 * (i mod pack_k) + 1),
     ed_neigh_blkno := of_nat (i div pack_k + 1), ed_neigh_offno := of_nat (2 * (i mod pack_k) + 2)\<rparr>"

definition layout :: "nat \<Rightarrow> ElemDesc list \<Rightarrow> ElemDesc list" where
  "layout pack_k es = map (\<lambda>i. place_elem pack_k i (es ! i)) [0..<length es]"

definition metapage :: "u32 \<Rightarrow> nat \<Rightarrow> nat \<Rightarrow> u32 \<Rightarrow> u16 \<Rightarrow> int \<Rightarrow> u32 \<Rightarrow> bytes" where
  "metapage dim m ef entry_blkno entry_offno entry_level insert_page =
    le_bytes 4 (0xA953A953 :: u32) @ le_bytes 4 (1 :: u32) @ le_bytes 4 dim @ le_bytes 2 (of_nat m :: u16)
    @ le_bytes 2 (of_nat ef :: u16) @ le_bytes 4 entry_blkno @ le_bytes 2 entry_offno @ le_bytes 2 (of_int entry_level :: u16)
    @ le_bytes 4 insert_page"

definition cagra_metapage :: "int \<Rightarrow> nat \<Rightarrow> nat \<Rightarrow> nat \<Rightarrow> ElemDesc list \<Rightarrow> bytes" where
  "cagra_metapage dim m0 max_level entry_elem es =
    (let dims = ucast (of_int dim :: u16) in
     if es = [] then metapage dims (m0 div 2) (m0 * 2) 0xFFFFFFFF 0 (- 1) 0
     else metapage dims (m0 div 2) (m0 * 2) (ed_elem_blkno (es ! entry_elem)) (ed_elem_offno (es ! entry_elem)) (int max_level)
       (ed_elem_blkno (last es)))"

text \<open>The layout and the pages: packed where a page takes several elements, else one page each.\<close>

definition write_cagra_index ::
  "'p page_lib \<Rightarrow> nat \<Rightarrow> adjacency \<Rightarrow> nat \<Rightarrow> nat \<Rightarrow> nat \<Rightarrow> ElemDesc list \<Rightarrow> hnsw_error + 'p block list" where
  "write_cagra_index pl bytes_per_dim ad max_level entry_elem pack_k elems =
    (let dim = nat (ad_dim ad); m0 = level0_degree (ad_graph_degree ad); es = layout pack_k elems;
         evs = map (\<lambda>i. (es ! i, row_of_vec (ad_vecs ad) dim i)) [0..<length elems];
         meta = Meta_block page_opaque (cagra_metapage (ad_dim ad) m0 max_level entry_elem es)
     in if 1 < pack_k then write_elem_pages_packed pl dim bytes_per_dim (m0 div 2) es pack_k evs [meta]
        else write_pages pl dim bytes_per_dim (m0 div 2) es evs [meta])"

section \<open>The conversion\<close>

text \<open>
  \<open>draw\<close> is the level the random number of an element gives, \<open>alloc\<close> whether the
  allocations for an element succeed. The result has the blocks of the index and the number of
  elements.
\<close>

definition fill_hnsw_from_cagra_ipc ::
  "'p page_lib \<Rightarrow> (u32 list \<Rightarrow> u32 list \<Rightarrow> u32) \<Rightarrow> (nat \<Rightarrow> nat) \<Rightarrow> (nat \<Rightarrow> bool) \<Rightarrow> hnsw_target \<Rightarrow> bool
    \<Rightarrow> u32 \<times> adjacency option \<Rightarrow> bool \<Rightarrow> hnsw_error + 'p block list \<times> nat" where
  "fill_hnsw_from_cagra_ipc pl vec_dist_sq draw alloc tg socket export do_hierarchy =
    (case check_target tg of
       Inl err \<Rightarrow> Inl err
     | Inr bytes_per_dim \<Rightarrow>
        if \<not> socket then Inl No_socket
        else case export of
          (_, None) \<Rightarrow> Inl (Export_failed (fst export))
        | (rc, Some ad) \<Rightarrow>
           if rc \<noteq> CUVS_STATUS_OK then Inl (Export_failed rc)
           else if ad_metric ad \<noteq> opclass_metric (tg_opclass tg) then Inl (Metric_mismatch (ad_metric ad) (opclass_metric (tg_opclass tg)))
           else if \<not> list_all alloc [0..<Suc (ad_n_vecs ad)] then Inl Out_of_memory
           else
             (let n = ad_n_vecs ad; m = level0_degree (ad_graph_degree ad) div 2;
                  levels = map (\<lambda>i. if do_hierarchy then cagra_assign_level (draw i) else 0) [0..<n];
                  (max_level, entry_elem) = entry_scan 0 levels 0 0
              in case check_hnsw_page_fit (ad_dim ad) bytes_per_dim m max_level of
                   Inl err \<Rightarrow> Inl err
                 | Inr _ \<Rightarrow>
                    (case (if do_hierarchy then Inr 1 else elems_per_page (ad_dim ad) bytes_per_dim m 0) of
                       Inl err \<Rightarrow> Inl err
                     | Inr pack_k \<Rightarrow>
                        if pack_k < 1 then Inl Bad_pack_k
                        else map_sum id (\<lambda>rel. (rel, n))
                          (write_cagra_index pl bytes_per_dim ad max_level entry_elem pack_k
                            (map (element_links vec_dist_sq ad levels do_hierarchy) [0..<n])))))"

end
