(* ===== verification/Hnsw_Props.thy ===== *)
theory Hnsw_Props
  imports Hnsw_Export "HOL-Library.Sublist"
begin

text \<open>
  What the converted index holds: every element tuple and neighbour tuple where the layout says, no
  two in one place, and neighbour lists that lead to elements of their level.
\<close>

section \<open>Sizes\<close>

lemma MAXALIGN8_ge [simp]: "n \<le> MAXALIGN8 n"
  unfolding MAXALIGN8_def by presburger

lemma MAXALIGN8_idem [simp]: "MAXALIGN8 (MAXALIGN8 n) = MAXALIGN8 n"
  unfolding MAXALIGN8_def by presburger

lemma MAXALIGN8_mono: "n \<le> k \<Longrightarrow> MAXALIGN8 n \<le> MAXALIGN8 k"
  unfolding MAXALIGN8_def by (intro mult_le_mono1 div_le_mono) simp

lemma length_pad [simp]: "length bs \<le> n \<Longrightarrow> length (pad n bs) = n"
  by (simp add: pad_def)

lemma length_vector_body: "bytes_per_dim = 2 \<or> bytes_per_dim = 4 \<Longrightarrow> length (vector_body bytes_per_dim vec) = length vec * bytes_per_dim"
  by (auto simp: vector_body_def length_concat o_def sum_list_triv)

lemma length_elem_tuple:
  assumes "bytes_per_dim = 2 \<or> bytes_per_dim = 4" "length vec = dim"
  shows "length (elem_tuple e vec dim bytes_per_dim) = elem_tuple_size dim bytes_per_dim"
  unfolding elem_tuple_def elem_tuple_size_def
  by (rule length_pad) (simp add: length_vector_body [OF assms(1)] assms(2) length_concat sum_list_replicate)

lemma length_level_slots [simp]: "length (level_slots n all links) = n"
  by (simp add: level_slots_def)

lemma slot_width: "b \<in> set (level_slots n all links) \<Longrightarrow> length b = 6"
  by (auto simp: level_slots_def link_slot_def)

lemma length_neigh_slots: "length (neigh_slots m all e) = (ed_level e + 2) * m"
  by (simp add: neigh_slots_def length_concat o_def sum_list_triv)

lemma neigh_slot_width: "b \<in> set (neigh_slots m all e) \<Longrightarrow> length b = 6"
  by (auto simp: neigh_slots_def dest: slot_width)

lemma length_concat_width: "\<forall>b \<in> set bs. length b = w \<Longrightarrow> length (concat bs) = w * length bs"
  by (induction bs) auto

lemma length_neigh_tuple: "length (neigh_tuple m all e) = neigh_tuple_size (ed_level e) m"
proof -
  have "length (concat (neigh_slots m all e)) = (ed_level e + 2) * m * 6"
    using length_concat_width [of "neigh_slots m all e" 6] neigh_slot_width length_neigh_slots [of m all e] by auto
  then have l: "length ([2, 0] @ le_bytes 2 (of_nat ((ed_level e + 2) * m) :: u16) @ concat (neigh_slots m all e)) = 4 + (ed_level e + 2) * m * 6"
    by simp
  show ?thesis unfolding neigh_tuple_def neigh_tuple_size_def by (rule length_pad) (simp only: l MAXALIGN8_ge)
qed

section \<open>Slots\<close>

lemma nth_concat_width:
  "\<forall>b \<in> set bs. length b = w \<Longrightarrow> i < length bs \<Longrightarrow> take w (drop (w * i) (concat bs)) = bs ! i"
proof (induction bs arbitrary: i)
  case (Cons b bs)
  then show ?case by (cases i) auto
qed simp

lemma nth_concat_map_width:
  assumes "\<And>x. length (f x) = w" "i < length xs" "s < w"
  shows "concat (map f xs) ! (i * w + s) = f (xs ! i) ! s"
  using assms(2)
proof (induction xs arbitrary: i)
  case (Cons x xs)
  then show ?case using assms(1,3) by (cases i) (auto simp: nth_append)
qed simp

lemma take_drop_middle: "length a = w \<Longrightarrow> x + n \<le> length b \<Longrightarrow> take n (drop (w + x) (a @ b @ c)) = take n (drop x b)"
  by simp

text \<open>How pgvector reads the tuple: level \<open>lv\<close> starts at slot \<open>(level - lv) * m\<close>.\<close>

definition neighbour_slot :: "nat \<Rightarrow> nat \<Rightarrow> nat \<Rightarrow> nat \<Rightarrow> bytes \<Rightarrow> bytes" where
  "neighbour_slot level m lv s t = take 6 (drop (4 + 6 * ((level - lv) * m + s)) t)"

lemma neighbour_slot_tuple:
  assumes "lv \<le> ed_level e" "s < (if lv = 0 then 2 * m else m)"
  shows "neighbour_slot (ed_level e) m lv s (neigh_tuple m all e) =
    (if s < length (links_at e lv) then link_slot all (links_at e lv ! s) else set_invalid_item_ptr)"
proof -
  let ?x = "(ed_level e - lv) * m + s"
  have x: "?x < (ed_level e + 2) * m"
  proof -
    have "?x < (ed_level e - lv) * m + (if lv = 0 then 2 else 1) * m" using assms(2) by auto
    also have "\<dots> = (ed_level e - lv + (if lv = 0 then 2 else 1)) * m" by (simp add: algebra_simps)
    also have "\<dots> \<le> (ed_level e + 2) * m" by (intro mult_le_mono1) auto
    finally show ?thesis .
  qed
  have w: "\<forall>b \<in> set (neigh_slots m all e). length b = 6" using neigh_slot_width by blast
  have l: "length (concat (neigh_slots m all e)) = 6 * ((ed_level e + 2) * m)" using length_concat_width [OF w] length_neigh_slots [of m all e] by simp
  have "6 * Suc ?x \<le> 6 * ((ed_level e + 2) * m)" using x by (intro mult_le_mono2) (simp only: Suc_le_eq)
  then have "6 * ?x + 6 \<le> length (concat (neigh_slots m all e))" by (simp only: l) simp
  then have "neighbour_slot (ed_level e) m lv s (neigh_tuple m all e) = take 6 (drop (6 * ?x) (concat (neigh_slots m all e)))"
    unfolding neighbour_slot_def neigh_tuple_def pad_def append_assoc
    using take_drop_middle [of "[2, 0] @ le_bytes 2 (of_nat ((ed_level e + 2) * m) :: u16)" 4 "6 * ?x" 6 "concat (neigh_slots m all e)"] by simp
  also have "\<dots> = neigh_slots m all e ! ?x" using nth_concat_width [OF w, of ?x] x length_neigh_slots [of m all e] by simp
  also have "\<dots> = level_slots (if lv = 0 then 2 * m else m) all (links_at e lv) ! s"
  proof (cases "lv = 0")
    case True
    then show ?thesis by (simp add: neigh_slots_def nth_append length_concat o_def sum_list_triv del: upt_Suc)
  next
    case False
    let ?f = "\<lambda>lv. level_slots m all (links_at e lv)"
    let ?l = "rev [1..<Suc (ed_level e)]"
    have i: "ed_level e - lv < length ?l" using False assms(1) by simp
    have n: "?l ! (ed_level e - lv) = lv" using False assms(1) by (simp add: rev_nth del: upt_Suc)
    have "?x < length (concat (map ?f ?l))"
    proof -
      have "?x < (ed_level e - lv + 1) * m" using False assms(2) by simp
      also have "\<dots> \<le> ed_level e * m" using False assms(1) by (intro mult_le_mono1) simp
      finally show ?thesis by (simp add: length_concat o_def sum_list_triv del: upt_Suc)
    qed
    then have "neigh_slots m all e ! ?x = concat (map ?f ?l) ! ?x" by (simp only: neigh_slots_def nth_append if_True)
    also have "\<dots> = ?f (?l ! (ed_level e - lv)) ! s" using False assms(2) by (intro nth_concat_map_width i) simp_all
    finally show ?thesis using False by (simp only: n if_False)
  qed
  also have "\<dots> = (if s < length (links_at e lv) then link_slot all (links_at e lv ! s) else set_invalid_item_ptr)"
    using assms(2) by (simp add: level_slots_def)
  finally show ?thesis .
qed

section \<open>Writing\<close>

definition pair_cost :: "nat \<Rightarrow> nat \<Rightarrow> nat \<Rightarrow> nat \<Rightarrow> nat" where
  "pair_cost dim bytes_per_dim m level = elem_tuple_size dim bytes_per_dim + neigh_tuple_size level m + 8"

text \<open>A pair that goes at the end of a page with \<open>n\<close> items.\<close>

definition goes_at :: "nat \<Rightarrow> ElemDesc \<Rightarrow> bool" where
  "goes_at n e \<longleftrightarrow> unat (ed_elem_offno e) = n + 1 \<and> unat (ed_neigh_offno e) = n + 2"

lemma page_add:
  assumes "page_laws pl items free" "MAXALIGN8 (length b) + 4 \<le> free p"
  shows "\<exists>p'. pl_add pl p b = (length (items p) + 1, p') \<and> items p' = items p @ [b] \<and> free p' = free p - (MAXALIGN8 (length b) + 4)"
proof -
  have "fst (pl_add pl p b) = length (items p) + 1 \<and> items (snd (pl_add pl p b)) = items p @ [b] \<and>
      free (snd (pl_add pl p b)) = free p - (MAXALIGN8 (length b) + 4)"
    using assms by (simp add: page_laws_def)
  then show ?thesis by (intro exI [of _ "snd (pl_add pl p b)"]) (simp add: prod_eq_iff)
qed

lemma write_elem_pair_ok:
  assumes "page_laws pl items free" "bytes_per_dim = 2 \<or> bytes_per_dim = 4" "length vec = dim"
    and "goes_at (length (items page)) e" "pair_cost dim bytes_per_dim m (ed_level e) \<le> free page"
  shows "\<exists>p. write_elem_pair pl page e vec dim bytes_per_dim m all = Inr p \<and>
    items p = items page @ [elem_tuple e vec dim bytes_per_dim, neigh_tuple m all e] \<and>
    free p = free page - pair_cost dim bytes_per_dim m (ed_level e)"
proof -
  let ?t = "elem_tuple e vec dim bytes_per_dim" and ?u = "neigh_tuple m all e"
  have l: "MAXALIGN8 (length ?t) = elem_tuple_size dim bytes_per_dim" "MAXALIGN8 (length ?u) = neigh_tuple_size (ed_level e) m"
    using length_elem_tuple [OF assms(2,3)] length_neigh_tuple by (simp_all add: elem_tuple_size_def neigh_tuple_size_def)
  obtain p1 where a: "pl_add pl page ?t = (length (items page) + 1, p1)" "items p1 = items page @ [?t]"
      "free p1 = free page - (elem_tuple_size dim bytes_per_dim + 4)"
    using page_add [OF assms(1), of ?t page] l assms(5) by (auto simp: pair_cost_def)
  obtain p2 where b: "pl_add pl p1 ?u = (length (items p1) + 1, p2)" "items p2 = items p1 @ [?u]"
      "free p2 = free p1 - (neigh_tuple_size (ed_level e) m + 4)"
  proof -
    have "MAXALIGN8 (length ?u) + 4 \<le> free p1" using l(2) a(3) assms(5) by (simp add: pair_cost_def)
    from page_add [OF assms(1) this] show ?thesis using that by (auto simp only: l)
  qed
  show ?thesis using a b assms(4) by (simp add: write_elem_pair_def goes_at_def pair_cost_def)
qed

definition pair_tuples :: "nat \<Rightarrow> nat \<Rightarrow> nat \<Rightarrow> ElemDesc list \<Rightarrow> ElemDesc \<times> u32 list \<Rightarrow> bytes list" where
  "pair_tuples dim bytes_per_dim m all ev = [elem_tuple (fst ev) (snd ev) dim bytes_per_dim, neigh_tuple m all (fst ev)]"

lemma write_pairs_ok:
  assumes "page_laws pl items free" "bytes_per_dim = 2 \<or> bytes_per_dim = 4" "\<forall>ev \<in> set evs. length (snd ev) = dim"
    and "\<forall>j < length evs. goes_at (length (items page) + 2 * j) (fst (evs ! j))"
    and "\<forall>ev \<in> set evs. pair_cost dim bytes_per_dim m (ed_level (fst ev)) \<le> c" "length evs * c \<le> free page"
  shows "\<exists>p. write_pairs pl dim bytes_per_dim m all evs page = Inr p \<and> items p = items page @ concat (map (pair_tuples dim bytes_per_dim m all) evs)"
  using assms(3-)
proof (induction evs arbitrary: page)
  case (Cons ev evs)
  let ?c = "pair_cost dim bytes_per_dim m (ed_level (fst ev))"
  have "goes_at (length (items page)) (fst ev)" using Cons.prems(2) by force
  moreover have "?c \<le> c" using Cons.prems(3) by simp
  then have f: "?c \<le> free page" "length evs * c \<le> free page - ?c" using Cons.prems(4) by auto
  ultimately obtain p where p: "write_elem_pair pl page (fst ev) (snd ev) dim bytes_per_dim m all = Inr p"
      "items p = items page @ [elem_tuple (fst ev) (snd ev) dim bytes_per_dim, neigh_tuple m all (fst ev)]" "free p = free page - ?c"
    using write_elem_pair_ok [OF assms(1,2), of "snd ev" dim page "fst ev" m all] Cons.prems(1) by auto
  have "\<forall>j < length evs. goes_at (length (items p) + 2 * j) (fst (evs ! j))" using Cons.prems(2) p(2) by force
  then obtain q where "write_pairs pl dim bytes_per_dim m all evs p = Inr q" "items q = items p @ concat (map (pair_tuples dim bytes_per_dim m all) evs)"
    using Cons.IH [of p] Cons.prems(1,3) f(2) p(3) by auto
  moreover have "items p = items page @ pair_tuples dim bytes_per_dim m all ev" using p(2) by (simp add: pair_tuples_def)
  ultimately show ?case using p(1) by simp
qed simp

section \<open>The pages\<close>

text \<open>The element blocks of \<open>evs\<close>, \<open>k\<close> pairs each.\<close>

definition pages_hold :: "('p \<Rightarrow> bytes list) \<Rightarrow> nat \<Rightarrow> nat \<Rightarrow> nat \<Rightarrow> ElemDesc list \<Rightarrow> nat \<Rightarrow> (ElemDesc \<times> u32 list) list \<Rightarrow> 'p list \<Rightarrow> bool" where
  "pages_hold items dim bytes_per_dim m all k evs ps \<longleftrightarrow> length ps = (length evs + k - 1) div k \<and>
    (\<forall>i < length evs. items (ps ! (i div k)) ! (2 * (i mod k)) = elem_tuple (fst (evs ! i)) (snd (evs ! i)) dim bytes_per_dim \<and>
      items (ps ! (i div k)) ! (2 * (i mod k) + 1) = neigh_tuple m all (fst (evs ! i)))"

lemma concat_pairs_nth:
  "j < length evs \<Longrightarrow> concat (map (pair_tuples dim bytes_per_dim m all) evs) ! (2 * j) = elem_tuple (fst (evs ! j)) (snd (evs ! j)) dim bytes_per_dim"
  "j < length evs \<Longrightarrow> concat (map (pair_tuples dim bytes_per_dim m all) evs) ! (2 * j + 1) = neigh_tuple m all (fst (evs ! j))"
  using nth_concat_map_width [of "pair_tuples dim bytes_per_dim m all" 2 j evs 0]
    nth_concat_map_width [of "pair_tuples dim bytes_per_dim m all" 2 j evs 1]
  by (simp_all add: pair_tuples_def mult.commute)

lemma pages_hold_Cons:
  assumes "pages_hold items dim bytes_per_dim m all k (drop k evs) ps" "0 < k" "evs \<noteq> []"
    and "items p = concat (map (pair_tuples dim bytes_per_dim m all) (take k evs))"
  shows "pages_hold items dim bytes_per_dim m all k evs (p # ps)"
proof -
  have "length (p # ps) = (length evs + k - 1) div k"
  proof (cases "length evs \<le> k")
    case True
    obtain n where "length evs = Suc n" using assms(3) by (cases evs) auto
    then have "(length evs + k - 1) div k = 1" using True assms(2) by (intro div_nat_eqI) auto
    then show ?thesis using assms(1) True assms(2) by (simp add: pages_hold_def)
  next
    case False
    then have "length evs + k - 1 = length (drop k evs) + k - 1 + k" using assms(2) by simp
    then have "(length evs + k - 1) div k = (length (drop k evs) + k - 1) div k + 1" using assms(2) by (metis div_add_self2 less_numeral_extra(3))
    then show ?thesis using assms(1) by (simp add: pages_hold_def)
  qed
  moreover have "items ((p # ps) ! (i div k)) ! (2 * (i mod k)) = elem_tuple (fst (evs ! i)) (snd (evs ! i)) dim bytes_per_dim \<and>
      items ((p # ps) ! (i div k)) ! (2 * (i mod k) + 1) = neigh_tuple m all (fst (evs ! i))" if "i < length evs" for i
  proof (cases "i < k")
    case True
    then show ?thesis using concat_pairs_nth [of i "take k evs"] that assms(4) by simp
  next
    case False
    then have j: "i - k < length (drop k evs)" "i div k = Suc ((i - k) div k)" "i mod k = (i - k) mod k" "drop k evs ! (i - k) = evs ! i"
      using that assms(2) by (auto simp: le_div_geq le_mod_geq)
    then show ?thesis using assms(1) by (auto simp: pages_hold_def)
  qed
  ultimately show ?thesis by (simp add: pages_hold_def)
qed

lemma write_packed_ok:
  assumes "page_laws pl items free" "bytes_per_dim = 2 \<or> bytes_per_dim = 4" "\<forall>ev \<in> set evs. length (snd ev) = dim" "0 < k"
    and "\<forall>j < length evs. goes_at (2 * (j mod k)) (fst (evs ! j))"
    and "\<forall>ev \<in> set evs. pair_cost dim bytes_per_dim m (ed_level (fst ev)) \<le> c" "k * c \<le> PGV_USABLE_BYTES"
  shows "\<exists>ps. write_elem_pages_packed pl dim bytes_per_dim m all k evs rel = Inr (rel @ map (Element_block page_opaque) ps) \<and>
    pages_hold items dim bytes_per_dim m all k evs ps"
  using assms(3,5,6)
proof (induction "length evs" arbitrary: evs rel rule: less_induct)
  case less
  show ?case
  proof (cases "evs = []")
    case True
    then show ?thesis by (intro exI [of _ "[]"]) (simp add: write_elem_pages_packed.simps pages_hold_def assms(4))
  next
    case False
    have s: "\<forall>ev \<in> set (take k evs). length (snd ev) = dim" "\<forall>ev \<in> set (take k evs). pair_cost dim bytes_per_dim m (ed_level (fst ev)) \<le> c"
      using less.prems(1,3) by (auto dest: in_set_takeD)
    have i: "items (pl_init pl) = []" "free (pl_init pl) = PGV_USABLE_BYTES" using assms(1) by (auto simp: page_laws_def)
    have g: "\<forall>j < length (take k evs). goes_at (length (items (pl_init pl)) + 2 * j) (fst (take k evs ! j))"
      using less.prems(2) i by auto
    have "length (take k evs) * c \<le> k * c" by (intro mult_le_mono1) simp
    then have "length (take k evs) * c \<le> free (pl_init pl)" unfolding i(2) by (rule order_trans [OF _ assms(7)])
    then obtain p where p: "write_pairs pl dim bytes_per_dim m all (take k evs) (pl_init pl) = Inr p"
        "items p = concat (map (pair_tuples dim bytes_per_dim m all) (take k evs))"
      using write_pairs_ok [OF assms(1,2) s(1) g s(2)] i by auto
    have d: "\<forall>ev \<in> set (drop k evs). length (snd ev) = dim" "\<forall>ev \<in> set (drop k evs). pair_cost dim bytes_per_dim m (ed_level (fst ev)) \<le> c"
      using less.prems(1,3) by (auto dest: in_set_dropD)
    have "\<forall>j < length (drop k evs). goes_at (2 * (j mod k)) (fst (drop k evs ! j))"
    proof (intro allI impI)
      fix j assume "j < length (drop k evs)"
      then have "k + j < length evs" by simp
      then show "goes_at (2 * (j mod k)) (fst (drop k evs ! j))" using less.prems(2) by (force simp: add.commute dest: spec [of _ "k + j"])
    qed
    moreover have "length (drop k evs) < length evs" using False assms(4) by simp
    ultimately obtain ps where ps: "write_elem_pages_packed pl dim bytes_per_dim m all k (drop k evs) (rel @ [Element_block page_opaque p]) =
        Inr ((rel @ [Element_block page_opaque p]) @ map (Element_block page_opaque) ps)" "pages_hold items dim bytes_per_dim m all k (drop k evs) ps"
      using less.hyps [OF _ d(1) _ d(2)] by blast
    show ?thesis
      using ps p False assms(4) pages_hold_Cons [OF ps(2) assms(4) False p(2)]
      by (intro exI [of _ "p # ps"]) (simp add: write_elem_pages_packed.simps [of pl dim bytes_per_dim m all k evs])
  qed
qed

lemma write_pages_packed:
  "write_pages pl dim bytes_per_dim m all evs rel = write_elem_pages_packed pl dim bytes_per_dim m all (Suc 0) evs rel"
proof (induction evs arbitrary: rel)
  case (Cons ev evs)
  then show ?case
    by (simp add: write_elem_pages_packed.simps [of pl dim bytes_per_dim m all "Suc 0" "ev # evs"] write_elem_page_def split: sum.splits)
qed (simp add: write_elem_pages_packed.simps)

section \<open>Choosing neighbours\<close>

lemma heuristic_loop_sub: "set (heuristic_loop dist vec q m cs sel) \<subseteq> set sel \<union> set cs"
proof (induction cs arbitrary: sel)
  case (Cons c cs)
  then show ?case using Cons.IH [of sel] Cons.IH [of "sel @ [c]"] by (auto simp: Let_def)
qed simp

lemma upper_lists_level:
  assumes "\<And>cs. set (select cs) \<subseteq> set cs" "k < n" "c \<in> set (upper_lists select level_of l n cands ! k)"
  shows "c \<in> set cands \<and> l + k \<le> level_of c"
  using assms(2,3)
proof (induction n arbitrary: l cands k)
  case (Suc n)
  show ?case
  proof (cases k)
    case 0
    then show ?thesis using Suc.prems assms(1) by (fastforce simp: Let_def)
  next
    case (Suc j)
    then show ?thesis using Suc.prems Suc.IH [of j "l + 1" "filter (\<lambda>c. l \<le> level_of c) cands"] by (auto simp: Let_def)
  qed
qed simp

lemma length_upper_lists [simp]: "length (upper_lists select level_of l n cands) = n"
  by (induction n arbitrary: l cands) (auto simp: Let_def)

lemma entry_scan_max:
  "\<forall>lv \<in> set lvs. lv \<le> fst (entry_scan i lvs mx en)" "mx \<le> fst (entry_scan i lvs mx en)"
proof -
  have "(\<forall>lv \<in> set lvs. lv \<le> fst (entry_scan i lvs mx en)) \<and> mx \<le> fst (entry_scan i lvs mx en)"
  proof (induction lvs arbitrary: i mx en)
    case (Cons lv lvs)
    then show ?case using Cons.IH [of "i + 1" lv i] Cons.IH [of "i + 1" mx en] by fastforce
  qed simp
  then show "\<forall>lv \<in> set lvs. lv \<le> fst (entry_scan i lvs mx en)" "mx \<le> fst (entry_scan i lvs mx en)" by auto
qed

lemma entry_scan_at:
  assumes "entry_scan i lvs mx en = (mx', en')"
  shows "mx' = mx \<and> en' = en \<or> (\<exists>j < length lvs. en' = i + j \<and> lvs ! j = mx')"
  using assms
proof (induction lvs arbitrary: i mx en)
  case (Cons lv lvs)
  show ?case
  proof (cases "mx < lv")
    case True
    then have "mx' = lv \<and> en' = i \<or> (\<exists>j < length lvs. en' = i + 1 + j \<and> lvs ! j = mx')" using Cons.IH [of "i + 1" lv i] Cons.prems by simp
    then show ?thesis by (auto intro: exI [of _ "0 :: nat"] exI [of _ "Suc _"])
  next
    case False
    then have "mx' = mx \<and> en' = en \<or> (\<exists>j < length lvs. en' = i + 1 + j \<and> lvs ! j = mx')" using Cons.IH [of "i + 1" mx en] Cons.prems by simp
    then show ?thesis by (auto intro: exI [of _ "Suc _"])
  qed
qed simp

section \<open>The conversion\<close>

text \<open>What \<open>cuvs_ipc_export_adjacency\<close> delivers.\<close>

definition adjacency_ok :: "adjacency \<Rightarrow> bool" where
  "adjacency_ok ad \<longleftrightarrow> 0 < ad_n_vecs ad \<and> 0 < ad_graph_degree ad \<and> 0 < ad_dim ad \<and>
     length (ad_adj ad) = ad_n_vecs ad * nat (ad_graph_degree ad) \<and>
     length (ad_vecs ad) = ad_n_vecs ad * nat (ad_dim ad) \<and> length (ad_tids ad) = ad_n_vecs ad"

lemma export_adjacency_ok: "cuvs_ipc_export_adjacency env peer db idx s = Some (rc, Some ad) \<Longrightarrow> adjacency_ok ad \<and> rc = CUVS_STATUS_OK"
  by (auto simp: cuvs_ipc_export_adjacency_def adjacency_ok_def Let_def split: if_splits option.splits prod.splits)

definition export_levels :: "(nat \<Rightarrow> nat) \<Rightarrow> bool \<Rightarrow> nat \<Rightarrow> nat list" where
  "export_levels draw do_hierarchy n = map (\<lambda>i. if do_hierarchy then cagra_assign_level (draw i) else 0) [0..<n]"

lemma length_row_of_vec: "i < n \<Longrightarrow> length xs = n * w \<Longrightarrow> length (row_of_vec xs w i) = w"
proof -
  assume a: "i < n" "length xs = n * w"
  have "Suc i * w \<le> n * w" using a(1) by (intro mult_le_mono1) simp
  then show ?thesis using a(2) by (simp add: row_of_vec_def)
qed

lemma pack_k_bound: "elems_per_page dim bytes_per_dim m 0 = Inr k \<Longrightarrow> k \<le> 85"
proof -
  assume a: "elems_per_page dim bytes_per_dim m 0 = Inr k"
  then have k: "k = PGV_USABLE_BYTES div (elem_tuple_size (nat dim) bytes_per_dim + 2 * 4 + neigh_tuple_size 0 m + 2 * 4)"
    by (auto simp: elems_per_page_def Let_def split: if_splits)
  have "80 \<le> elem_tuple_size (nat dim) bytes_per_dim"
    using MAXALIGN8_ge [of "72 + 8 + nat dim * bytes_per_dim"] unfolding elem_tuple_size_def by linarith
  then have "96 \<le> elem_tuple_size (nat dim) bytes_per_dim + 2 * 4 + neigh_tuple_size 0 m + 2 * 4" by simp
  then have "k \<le> PGV_USABLE_BYTES div 96" unfolding k by (intro div_le_mono2) simp_all
  then show ?thesis by (simp add: PGV_USABLE_BYTES_def)
qed

lemma fitting_cost:
  assumes "elems_per_page dim bytes_per_dim m level = Inr k" "lv \<le> level"
  shows "k * pair_cost (nat dim) bytes_per_dim m lv \<le> PGV_USABLE_BYTES"
proof -
  let ?n = "elem_tuple_size (nat dim) bytes_per_dim + 2 * 4 + neigh_tuple_size level m + 2 * 4"
  have "neigh_tuple_size lv m \<le> neigh_tuple_size level m"
    unfolding neigh_tuple_size_def using assms(2) by (intro MAXALIGN8_mono add_le_mono mult_le_mono) simp_all
  then have "pair_cost (nat dim) bytes_per_dim m lv \<le> ?n" by (simp add: pair_cost_def)
  moreover have "k = PGV_USABLE_BYTES div ?n" using assms(1) by (auto simp: elems_per_page_def Let_def split: if_splits)
  ultimately have "k * pair_cost (nat dim) bytes_per_dim m lv \<le> PGV_USABLE_BYTES div ?n * ?n" by (simp add: mult_le_mono)
  also have "\<dots> \<le> PGV_USABLE_BYTES" by (rule div_times_less_eq_dividend)
  finally show ?thesis .
qed

text \<open>The tuple at a place of the index.\<close>

definition tuple_at :: "('p \<Rightarrow> bytes list) \<Rightarrow> 'p block list \<Rightarrow> u32 \<Rightarrow> u16 \<Rightarrow> bytes" where
  "tuple_at items rel blkno offno =
    (case rel ! unat blkno of Meta_block _ _ \<Rightarrow> [] | Element_block _ p \<Rightarrow> items p ! (unat offno - 1))"

lemma place_elem_fields [simp]:
  "ed_level (place_elem k i e) = ed_level e" "ed_tid_encoded (place_elem k i e) = ed_tid_encoded e"
  "links_at (place_elem k i e) lv = links_at e lv" "ed_neigh_blkno (place_elem k i e) = ed_elem_blkno (place_elem k i e)"
  by (simp_all add: place_elem_def links_at_def)

lemma u32_of_nat: "x < 2 ^ 32 \<Longrightarrow> unat (of_nat x :: u32) = x"
  by (simp add: unsigned_of_nat take_bit_nat_eq_self)

lemma u16_of_nat: "x < 2 ^ 16 \<Longrightarrow> unat (of_nat x :: u16) = x"
  by (simp add: unsigned_of_nat take_bit_nat_eq_self)

lemma place_elem_at:
  assumes "0 < k" "k \<le> 85" "i < 2 ^ 31"
  shows "unat (ed_elem_blkno (place_elem k i e)) = i div k + 1" "unat (ed_elem_offno (place_elem k i e)) = 2 * (i mod k) + 1"
    "unat (ed_neigh_offno (place_elem k i e)) = 2 * (i mod k) + 2"
proof -
  have "i div k < 2 ^ 31" by (rule le_less_trans [OF _ assms(3)]) simp
  then have "i div k + 1 < 2 ^ 32" by simp
  then have "unat (of_nat (i div k + 1) :: u32) = i div k + 1" by (rule u32_of_nat)
  moreover have "ed_elem_blkno (place_elem k i e) = of_nat (i div k + 1)" by (simp add: place_elem_def)
  ultimately show "unat (ed_elem_blkno (place_elem k i e)) = i div k + 1" by simp
  have "i mod k < 85" using assms(1,2) by (meson less_le_trans mod_less_divisor)
  then show "unat (ed_elem_offno (place_elem k i e)) = 2 * (i mod k) + 1" "unat (ed_neigh_offno (place_elem k i e)) = 2 * (i mod k) + 2"
    using u16_of_nat [of "2 * (i mod k) + 1"] u16_of_nat [of "2 * (i mod k) + 2"] by (simp_all add: place_elem_def)
qed

lemma layout_nth [simp]: "i < length es \<Longrightarrow> layout k es ! i = place_elem k i (es ! i)" "length (layout k es) = length es"
  by (simp_all add: layout_def)

lemma layout_inj:
  assumes "0 < k" "k \<le> 85" "n \<le> 2 ^ 31" "length es = n"
  shows "inj_on (\<lambda>i. (ed_elem_blkno (layout k es ! i), ed_elem_offno (layout k es ! i))) {..<n}"
proof (rule inj_onI)
  fix i j assume a: "i \<in> {..<n}" "j \<in> {..<n}"
    "(ed_elem_blkno (layout k es ! i), ed_elem_offno (layout k es ! i)) = (ed_elem_blkno (layout k es ! j), ed_elem_offno (layout k es ! j))"
  have u: "unat (ed_elem_blkno (layout k es ! x)) = x div k + 1" "unat (ed_elem_offno (layout k es ! x)) = 2 * (x mod k) + 1" if "x < n" for x
    using place_elem_at [OF assms(1,2), of x "es ! x"] that assms(3,4) by auto
  have "i div k = j div k" "i mod k = j mod k" using u [of i] u [of j] a by auto
  then show "i = j" by (metis div_mult_mod_eq)
qed

lemma stored_at:
  assumes "pages_hold items dim bpd m all k evs ps" "i < length evs" "length evs \<le> 2 ^ 31" "0 < k" "k \<le> 85" "fst (evs ! i) = place_elem k i e"
  shows "tuple_at items (meta # map (Element_block op) ps) (ed_elem_blkno (place_elem k i e)) (ed_elem_offno (place_elem k i e)) =
      elem_tuple (place_elem k i e) (snd (evs ! i)) dim bpd"
    "tuple_at items (meta # map (Element_block op) ps) (ed_neigh_blkno (place_elem k i e)) (ed_neigh_offno (place_elem k i e)) =
      neigh_tuple m all (place_elem k i e)"
proof -
  have "i div k < length ps"
  proof -
    have "i div k \<le> (length evs - 1) div k" using assms(2) by (intro div_le_mono) simp
    also have "\<dots> < (length evs - 1) div k + 1" by simp
    also have "\<dots> = (length evs - 1 + k) div k" by (rule div_add_self2 [symmetric]) (use assms(4) in simp)
    also have "length evs - 1 + k = length evs + k - 1" using assms(2) by simp
    finally show ?thesis using assms(1) by (simp add: pages_hold_def)
  qed
  moreover have "i < 2 ^ 31" using assms(2,3) by simp
  ultimately show "tuple_at items (meta # map (Element_block op) ps) (ed_elem_blkno (place_elem k i e)) (ed_elem_offno (place_elem k i e)) =
      elem_tuple (place_elem k i e) (snd (evs ! i)) dim bpd"
    "tuple_at items (meta # map (Element_block op) ps) (ed_neigh_blkno (place_elem k i e)) (ed_neigh_offno (place_elem k i e)) =
      neigh_tuple m all (place_elem k i e)"
    using assms(1,2,6) place_elem_at [OF assms(4,5), of i e] by (simp_all add: tuple_at_def pages_hold_def)
qed

lemma element_links_at:
  assumes "i < n" "n = ad_n_vecs ad" "n < 2 ^ 31" "length levels = n" "0 < lv" "lv \<le> levels ! i"
    and "nb \<in> set (links_at (element_links dist ad levels h i) lv)" "0 \<le> nb" "nat nb < n"
  shows "lv \<le> levels ! nat nb"
proof -
  let ?e = "element_links dist ad levels h i"
  have l: "ed_level ?e = levels ! i" by (simp add: element_links_def Let_def)
  have "lv - 1 < length (ed_upper_links ?e)" using assms(5,7) by (auto simp: links_at_def split: if_splits)
  then have u: "nb \<in> set (ed_upper_links ?e ! (lv - 1))" "lv - 1 < levels ! i" and h
    using assms(5,6,7) by (auto simp: links_at_def element_links_def Let_def split: if_splits)
  have sub: "set (heuristic_select_neighbors d v q mm cs) \<subseteq> set cs" for d v q mm cs
    using heuristic_loop_sub [of d v q mm cs "[]"] by (simp add: heuristic_select_neighbors_def)
  from u \<open>h\<close> have "1 + (lv - 1) \<le> levels ! nat nb"
    by (auto simp: element_links_def Let_def dest!: upper_lists_level [OF sub])
  then show ?thesis using assms(5) by simp
qed

lemma entry_scan_highest:
  assumes "entry_scan 0 levels 0 0 = (mx, en)" "levels \<noteq> []"
  shows "en < length levels" "levels ! en = mx" "Max (set levels) = mx"
proof -
  have le: "\<forall>lv \<in> set levels. lv \<le> mx" using entry_scan_max(1) [of levels 0 0 0] assms(1) by simp
  have "en < length levels \<and> levels ! en = mx" using entry_scan_at [OF assms(1)]
  proof
    assume z: "mx = 0 \<and> en = 0"
    then have "levels ! 0 = 0" using le assms(2) nth_mem [of 0 levels] by fastforce
    then show ?thesis using z assms(2) by simp
  qed simp
  then show en: "en < length levels" "levels ! en = mx" by auto
  show "Max (set levels) = mx" using le en by (intro Max_eqI) (auto intro: nth_mem)
qed

text \<open>After the size check, as many elements as are packed fit on a page.\<close>

lemma packing_fits:
  assumes "elems_per_page dim bpd m mx = Inr q" "0 < q" "\<forall>lv \<in> set levels. lv \<le> mx" "\<not> do_hierarchy \<Longrightarrow> mx = 0"
  shows "\<exists>k. (if do_hierarchy then Inr 1 else elems_per_page dim bpd m 0) = Inr k \<and> 0 < k \<and> k \<le> 85 \<and>
    (\<forall>lv \<in> set levels. k * pair_cost (nat dim) bpd m lv \<le> PGV_USABLE_BYTES)"
proof -
  have f: "q * pair_cost (nat dim) bpd m lv \<le> PGV_USABLE_BYTES" if "lv \<in> set levels" for lv
    using fitting_cost [OF assms(1)] assms(3) that by blast
  show ?thesis
  proof (cases do_hierarchy)
    case True
    have "1 * pair_cost (nat dim) bpd m lv \<le> PGV_USABLE_BYTES" if "lv \<in> set levels" for lv
      using f [OF that] mult_le_mono1 [of 1 q "pair_cost (nat dim) bpd m lv"] assms(2) by linarith
    then show ?thesis using True by simp
  next
    case False
    then show ?thesis using assms(1,2,4) f pack_k_bound by auto
  qed
qed

text \<open>The elements of the new index at their places.\<close>

definition exported :: "(u32 list \<Rightarrow> u32 list \<Rightarrow> u32) \<Rightarrow> adjacency \<Rightarrow> nat list \<Rightarrow> bool \<Rightarrow> nat \<Rightarrow> ElemDesc list" where
  "exported dist ad levels do_hierarchy k = layout k (map (element_links dist ad levels do_hierarchy) [0..<ad_n_vecs ad])"

lemma exported_nth:
  "i < ad_n_vecs ad \<Longrightarrow> exported dist ad levels h k ! i = place_elem k i (element_links dist ad levels h i)"
  "length (exported dist ad levels h k) = ad_n_vecs ad"
  by (simp_all add: exported_def)

lemma exported_fields:
  assumes "i < ad_n_vecs ad"
  shows "ed_level (exported dist ad levels h k ! i) = levels ! i" "ed_tid_encoded (exported dist ad levels h k ! i) = ad_tids ad ! i"
  using assms by (simp_all add: exported_nth element_links_def Let_def)

definition exported_vecs :: "(u32 list \<Rightarrow> u32 list \<Rightarrow> u32) \<Rightarrow> adjacency \<Rightarrow> nat list \<Rightarrow> bool \<Rightarrow> nat \<Rightarrow> (ElemDesc \<times> u32 list) list" where
  "exported_vecs dist ad levels h k =
    map (\<lambda>i. (exported dist ad levels h k ! i, row_of_vec (ad_vecs ad) (nat (ad_dim ad)) i)) [0..<ad_n_vecs ad]"

lemma write_exported:
  assumes "page_laws pl items free" "bpd = 2 \<or> bpd = 4" "adjacency_ok ad" "ad_n_vecs ad < 2 ^ 31" "length levels = ad_n_vecs ad"
    and "0 < k" "k \<le> 85" "m = level0_degree (ad_graph_degree ad) div 2"
    and "\<forall>lv \<in> set levels. k * pair_cost (nat (ad_dim ad)) bpd m lv \<le> PGV_USABLE_BYTES"
  shows "\<exists>ps. write_cagra_index pl bpd ad mx en k (map (element_links dist ad levels h) [0..<ad_n_vecs ad]) =
      Inr (Meta_block page_opaque (cagra_metapage (ad_dim ad) (level0_degree (ad_graph_degree ad)) mx en (exported dist ad levels h k))
        # map (Element_block page_opaque) ps) \<and>
    pages_hold items (nat (ad_dim ad)) bpd m (exported dist ad levels h k) k (exported_vecs dist ad levels h k) ps"
proof -
  let ?d = "nat (ad_dim ad)" and ?es = "exported dist ad levels h k" and ?evs = "exported_vecs dist ad levels h k"
  let ?meta = "Meta_block page_opaque (cagra_metapage (ad_dim ad) (level0_degree (ad_graph_degree ad)) mx en ?es)"
  have w: "\<exists>ps. write_elem_pages_packed pl ?d bpd m ?es k ?evs [?meta] = Inr ([?meta] @ map (Element_block page_opaque) ps) \<and>
      pages_hold items ?d bpd m ?es k ?evs ps"
  proof (rule write_packed_ok [OF assms(1,2) _ assms(6)])
    show "\<forall>ev \<in> set ?evs. length (snd ev) = ?d"
      using assms(3) by (auto simp: exported_vecs_def adjacency_ok_def intro!: length_row_of_vec [where n = "ad_n_vecs ad"])
    show "\<forall>j < length ?evs. goes_at (2 * (j mod k)) (fst (?evs ! j))"
      using assms(4) by (auto simp: exported_vecs_def exported_nth goes_at_def place_elem_at [OF assms(6,7)])
    show "\<forall>ev \<in> set ?evs. pair_cost ?d bpd m (ed_level (fst ev)) \<le> PGV_USABLE_BYTES div k"
      using assms(5,6,9) by (auto simp: exported_vecs_def exported_fields less_eq_div_iff_mult_less_eq mult.commute)
  qed simp
  then show ?thesis
    using assms(6,8) by (cases "1 < k")
      (auto simp: write_cagra_index_def Let_def exported_def exported_vecs_def write_pages_packed not_less le_Suc_eq)
qed

lemma fill_cagra_eq:
  assumes "check_target tg = Inr bpd" "ad_metric ad = opclass_metric (tg_opclass tg)" "list_all alloc [0..<Suc (ad_n_vecs ad)]"
    and "levels = export_levels draw do_hierarchy (ad_n_vecs ad)" "entry_scan 0 levels 0 0 = (mx, en)"
    and "check_hnsw_page_fit (ad_dim ad) bpd (level0_degree (ad_graph_degree ad) div 2) mx = Inr ()"
    and "(if do_hierarchy then Inr 1 else elems_per_page (ad_dim ad) bpd (level0_degree (ad_graph_degree ad) div 2) 0) = Inr k" "0 < k"
  shows "fill_hnsw_from_cagra_ipc pl dist draw alloc tg True (CUVS_STATUS_OK, Some ad) do_hierarchy =
    map_sum id (\<lambda>rel. (rel, ad_n_vecs ad))
      (write_cagra_index pl bpd ad mx en k (map (element_links dist ad levels do_hierarchy) [0..<ad_n_vecs ad]))"
proof -
  have "\<not> k < 1" using assms(8) by simp
  then show ?thesis
    unfolding fill_hnsw_from_cagra_ipc_def assms(1) sum.case
    by (simp only: prod.case option.case Let_def simp_thms if_True if_False not_False_eq_True assms(2,3)
        assms(4) [symmetric, unfolded export_levels_def] assms(5-7) sum.case)
qed

text \<open>The slots of a neighbour tuple lead to elements of their level.\<close>

lemma exported_slots:
  assumes "i < ad_n_vecs ad" "ad_n_vecs ad < 2 ^ 31" "length levels = ad_n_vecs ad" "lv \<le> levels ! i" "s < (if lv = 0 then 2 * m else m)"
  shows "let slot = neighbour_slot (levels ! i) m lv s (neigh_tuple m (exported dist ad levels h k) (exported dist ad levels h k ! i))
    in slot = set_invalid_item_ptr \<or> (\<exists>j < ad_n_vecs ad. lv \<le> levels ! j \<and>
      slot = set_item_ptr (ed_elem_blkno (exported dist ad levels h k ! j)) (ed_elem_offno (exported dist ad levels h k ! j)))"
proof -
  let ?es = "exported dist ad levels h k"
  have r: "neighbour_slot (levels ! i) m lv s (neigh_tuple m ?es (?es ! i)) =
      (if s < length (links_at (?es ! i) lv) then link_slot ?es (links_at (?es ! i) lv ! s) else set_invalid_item_ptr)"
    using neighbour_slot_tuple [of lv "?es ! i" s m ?es] assms by (simp add: exported_fields)
  have "lv \<le> levels ! nat nb" if "nb \<in> set (links_at (?es ! i) lv)" "0 \<le> nb" "nat nb < ad_n_vecs ad" for nb
  proof (cases "lv = 0")
    case False
    have "nb \<in> set (links_at (element_links dist ad levels h i) lv)" using that(1) assms(1) by (simp add: exported_nth)
    then show ?thesis using element_links_at [OF assms(1) refl assms(2,3) _ _ _ that(2,3)] False assms(4) by simp
  qed simp
  then show ?thesis unfolding r Let_def by (auto simp: link_slot_def exported_nth(2))
qed

text \<open>
  C12. Converting a CAGRA graph to an HNSW index always succeeds once the size check has passed, and the
  index is right: no two elements share a place; at the place of each element is its tuple, with its
  TID and its vector, and at the place of its neighbours the neighbour tuple; whatever slot of
  whatever level of an element is read, it is invalid or leads to the tuple of an element that
  reaches that level; and the entry point is an element of the highest level.
\<close>

theorem hnsw_export_correct:
  assumes "page_laws pl items free" "check_target tg = Inr bpd" "adjacency_ok ad" "ad_metric ad = opclass_metric (tg_opclass tg)"
    and "list_all alloc [0..<Suc n]" "n = ad_n_vecs ad" "n < 2 ^ 31" "levels = export_levels draw do_hierarchy n"
    and "dim = nat (ad_dim ad)" "m0 = level0_degree (ad_graph_degree ad)" "m = m0 div 2"
    and "check_hnsw_page_fit (ad_dim ad) bpd m (Max (set levels)) = Inr ()"
  shows "\<exists>rel es en. fill_hnsw_from_cagra_ipc pl vec_dist_sq draw alloc tg True (CUVS_STATUS_OK, Some ad) do_hierarchy = Inr (rel, n) \<and>
    length es = n \<and> inj_on (\<lambda>i. (ed_elem_blkno (es ! i), ed_elem_offno (es ! i))) {..<n} \<and>
    (\<forall>i < n. ed_level (es ! i) = levels ! i \<and> ed_tid_encoded (es ! i) = ad_tids ad ! i \<and>
      tuple_at items rel (ed_elem_blkno (es ! i)) (ed_elem_offno (es ! i)) = elem_tuple (es ! i) (row_of_vec (ad_vecs ad) dim i) dim bpd \<and>
      tuple_at items rel (ed_neigh_blkno (es ! i)) (ed_neigh_offno (es ! i)) = neigh_tuple m es (es ! i)) \<and>
    (\<forall>i < n. \<forall>lv \<le> levels ! i. \<forall>s < (if lv = 0 then 2 * m else m).
      let slot = neighbour_slot (levels ! i) m lv s (tuple_at items rel (ed_neigh_blkno (es ! i)) (ed_neigh_offno (es ! i)))
      in slot = set_invalid_item_ptr \<or>
        (\<exists>j < n. lv \<le> levels ! j \<and> slot = set_item_ptr (ed_elem_blkno (es ! j)) (ed_elem_offno (es ! j)))) \<and>
    en < n \<and> levels ! en = Max (set levels) \<and> hd rel = Meta_block page_opaque (cagra_metapage (ad_dim ad) m0 (levels ! en) en es)"
proof -
  let ?es = "\<lambda>k. exported vec_dist_sq ad levels do_hierarchy k"
  obtain mx en where sc: "entry_scan 0 levels 0 0 = (mx, en)" by (cases "entry_scan 0 levels 0 0") auto
  have ll: "length levels = n" "levels \<noteq> []" using assms(3,6) by (auto simp: assms(8) export_levels_def adjacency_ok_def)
  note top = entry_scan_highest [OF sc ll(2)]
  have bpd: "bpd = 2 \<or> bpd = 4"
    using assms(2) by (auto simp: check_target_def bytes_per_dim_for_typid_def split: if_splits option.splits prod.splits)
  have fit: "check_hnsw_page_fit (ad_dim ad) bpd m mx = Inr ()" using assms(12) by (simp only: top(3))
  then obtain q where q: "elems_per_page (ad_dim ad) bpd m mx = Inr q" "0 < q"
    by (auto simp: check_hnsw_page_fit_def split: sum.splits if_splits)
  have "mx = 0" if "\<not> do_hierarchy" using that top ll by (auto simp: assms(8) export_levels_def)
  then obtain k where k: "(if do_hierarchy then Inr 1 else elems_per_page (ad_dim ad) bpd m 0) = Inr k" "0 < k" "k \<le> 85"
    "\<forall>lv \<in> set levels. k * pair_cost dim bpd m lv \<le> PGV_USABLE_BYTES"
    using packing_fits [OF q, of levels do_hierarchy] top(3) ll by (auto simp: assms(9))
  let ?meta = "Meta_block page_opaque (cagra_metapage (ad_dim ad) m0 mx en (?es k))"
  obtain ps where ps: "write_cagra_index pl bpd ad mx en k (map (element_links vec_dist_sq ad levels do_hierarchy) [0..<ad_n_vecs ad]) =
      Inr (?meta # map (Element_block page_opaque) ps)"
    "pages_hold items dim bpd m (?es k) k (exported_vecs vec_dist_sq ad levels do_hierarchy k) ps"
    using write_exported [OF assms(1) bpd assms(3) _ _ k(2,3), of levels m mx en vec_dist_sq do_hierarchy] assms(6,7,9,10,11) k(4) ll(1) by auto
  let ?rel = "?meta # map (Element_block page_opaque) ps"
  have fill: "fill_hnsw_from_cagra_ipc pl vec_dist_sq draw alloc tg True (CUVS_STATUS_OK, Some ad) do_hierarchy = Inr (?rel, n)"
    unfolding fill_cagra_eq [OF assms(2,4) assms(5) [unfolded assms(6)] assms(8) [unfolded assms(6)] sc
        fit [unfolded assms(10,11)] k(1) [unfolded assms(10,11)] k(2)] ps(1) by (simp add: assms(6))
  have st: "tuple_at items ?rel (ed_elem_blkno (?es k ! i)) (ed_elem_offno (?es k ! i)) = elem_tuple (?es k ! i) (row_of_vec (ad_vecs ad) dim i) dim bpd"
    "tuple_at items ?rel (ed_neigh_blkno (?es k ! i)) (ed_neigh_offno (?es k ! i)) = neigh_tuple m (?es k) (?es k ! i)" if "i < n" for i
    using stored_at [OF ps(2), of i "element_links vec_dist_sq ad levels do_hierarchy i" ?meta page_opaque] that k(2,3) assms(6,7)
    by (simp_all add: exported_vecs_def exported_nth assms(9))
  have inj: "inj_on (\<lambda>i. (ed_elem_blkno (?es k ! i), ed_elem_offno (?es k ! i))) {..<n}"
    unfolding exported_def using assms(6,7) by (intro layout_inj [OF k(2,3)]) simp_all
  show ?thesis
    by (rule exI [of _ ?rel], rule exI [of _ "?es k"], rule exI [of _ en], intro conjI allI impI)
      (use fill inj st top ll(1) assms(6,7) exported_slots [of _ ad levels] in \<open>simp_all add: exported_nth(2) exported_fields\<close>)
qed

section \<open>Diverse neighbours\<close>

lemma heuristic_loop_spec:
  assumes "length sel \<le> m" "\<forall>j < length sel. \<forall>i < j. \<not> f32_lt (dist (v (sel ! j)) (v (sel ! i))) (dist q (v (sel ! j)))"
  shows "let r = heuristic_loop dist v q m cs sel in
    (\<exists>ys. r = sel @ ys \<and> subseq ys cs) \<and> length r \<le> m \<and>
    (\<forall>j < length r. \<forall>i < j. \<not> f32_lt (dist (v (r ! j)) (v (r ! i))) (dist q (v (r ! j)))) \<and>
    (length r < m \<longrightarrow> (\<forall>c \<in> set cs. c \<in> set r \<or> (\<exists>s \<in> set r. f32_lt (dist (v c) (v s)) (dist q (v c)))))"
  using assms
proof (induction cs arbitrary: sel)
  case (Cons c cs)
  let ?far = "list_ex (\<lambda>s. f32_lt (dist (v c) (v s)) (dist q (v c))) sel"
  consider "\<not> length sel < m" | "length sel < m" ?far | "length sel < m" "\<not> ?far" by blast
  then show ?case
  proof cases
    case 1
    then show ?thesis using Cons.prems by (auto simp: Let_def)
  next
    case 2
    let ?r = "heuristic_loop dist v q m cs sel"
    have r: "heuristic_loop dist v q m (c # cs) sel = ?r" using 2 by (simp add: Let_def)
    obtain ys where ys: "?r = sel @ ys" "subseq ys cs" using Cons.IH [OF Cons.prems] by (auto simp: Let_def)
    then have "\<exists>s \<in> set ?r. f32_lt (dist (v c) (v s)) (dist q (v c))" using 2(2) by (auto simp: list_ex_iff)
    then show ?thesis using Cons.IH [OF Cons.prems] ys unfolding r by (auto simp: Let_def intro: subseq_Cons')
  next
    case 3
    let ?r = "heuristic_loop dist v q m cs (sel @ [c])"
    have r: "heuristic_loop dist v q m (c # cs) sel = ?r" using 3 by (simp add: Let_def)
    have "\<forall>j < length (sel @ [c]). \<forall>i < j. \<not> f32_lt (dist (v ((sel @ [c]) ! j)) (v ((sel @ [c]) ! i))) (dist q (v ((sel @ [c]) ! j)))"
      using Cons.prems(2) 3(2) by (auto simp: nth_append less_Suc_eq list_ex_iff)
    note ih = Cons.IH [of "sel @ [c]", OF _ this]
    obtain ys where ys: "?r = (sel @ [c]) @ ys" "subseq ys cs" using ih 3 by (auto simp: Let_def)
    then have "?r = sel @ (c # ys)" "subseq (c # ys) (c # cs)" "c \<in> set ?r" by auto
    then show ?thesis using ih 3 unfolding r by (auto simp: Let_def)
  qed
qed (auto simp: Let_def)

text \<open>
  The neighbours of an upper level: some of the candidates in their order, at most \<open>m\<close>, none
  closer to an earlier one than to the query; and if there is room left, every candidate that was
  passed over is closer to a chosen one than to the query.
\<close>

lemma heuristic_select_diverse:
  fixes dist v q m cs
  defines "r \<equiv> heuristic_select_neighbors dist v q m cs"
  shows "subseq r cs" "length r \<le> m" "i < j \<Longrightarrow> j < length r \<Longrightarrow> \<not> f32_lt (dist (v (r ! j)) (v (r ! i))) (dist q (v (r ! j)))"
    "length r < m \<Longrightarrow> c \<in> set cs \<Longrightarrow> c \<in> set r \<or> (\<exists>s \<in> set r. f32_lt (dist (v c) (v s)) (dist q (v c)))"
  using heuristic_loop_spec [of "[]" m dist v q cs] by (auto simp: r_def heuristic_select_neighbors_def Let_def)

section \<open>Witness\<close>

definition list_page :: "(bytes list \<times> nat) page_lib" where
  "list_page = \<lparr>pl_init = ([], PGV_USABLE_BYTES), pl_add = \<lambda>p b. if MAXALIGN8 (length b) + 4 \<le> snd p
     then (length (fst p) + 1, (fst p @ [b], snd p - (MAXALIGN8 (length b) + 4))) else (0, p)\<rparr>"

lemma list_page_laws: "page_laws list_page fst snd"
  by (simp add: page_laws_def list_page_def)

definition halfvec_target :: hnsw_target where
  "halfvec_target = \<lparr>tg_pgvector = True, tg_source_dim = 1, tg_found = True, tg_is_index = True, tg_am_ok = True,
     tg_column = Some (1, Some ''halfvec''), tg_opclass = Some ''halfvec_l2_ops''\<rparr>"

definition two_rows_graph :: adjacency where
  "two_rows_graph = \<lparr>ad_n_vecs = 2, ad_graph_degree = 2, ad_dim = 1, ad_metric = 0, ad_adj = [1, 5, 0, 1], ad_vecs = [0, 0x3F800000],
     ad_tids = [7, 8]\<rparr>"

theorem hnsw_export_correct_witness:
  "\<exists>rel es en. fill_hnsw_from_cagra_ipc list_page (\<lambda>_ _. 0) (\<lambda>i. i) (\<lambda>_. True) halfvec_target True
      (CUVS_STATUS_OK, Some two_rows_graph) True = Inr (rel, 2) \<and>
    length es = 2 \<and> ed_tid_encoded (es ! 1) = 8 \<and>
    tuple_at fst rel (ed_elem_blkno (es ! 1)) (ed_elem_offno (es ! 1)) = elem_tuple (es ! 1) [0x3F800000] 1 2"
proof -
  have l: "export_levels (\<lambda>i. i) True 2 = [0, 1]" by (simp add: export_levels_def cagra_assign_level_def upt_conv_Cons)
  have m: "level0_degree (ad_graph_degree two_rows_graph) = 2" by (simp add: level0_degree_def two_rows_graph_def)
  have c: "check_target halfvec_target = Inr 2" by (simp add: check_target_def halfvec_target_def bytes_per_dim_for_typid_def)
  have a: "adjacency_ok two_rows_graph" by (simp add: adjacency_ok_def two_rows_graph_def)
  have o: "ad_metric two_rows_graph = opclass_metric (tg_opclass halfvec_target)"
    by (simp add: two_rows_graph_def halfvec_target_def opclass_metric_def strstr_def CUVS_METRIC_L2_def upt_conv_Cons)
  have f: "check_hnsw_page_fit (ad_dim two_rows_graph) 2 (2 div 2) (Max (set [0, 1])) = Inr ()"
    by (simp add: check_hnsw_page_fit_def elems_per_page_def elem_tuple_size_def neigh_tuple_size_def MAXALIGN8_def PGV_USABLE_BYTES_def two_rows_graph_def)
  have n: "2 = ad_n_vecs two_rows_graph" by (simp add: two_rows_graph_def)
  have r: "row_of_vec (ad_vecs two_rows_graph) (nat (ad_dim two_rows_graph)) 1 = [0x3F800000]" "ad_tids two_rows_graph ! 1 = 8"
      "nat (ad_dim two_rows_graph) = 1"
    by (simp_all add: row_of_vec_def two_rows_graph_def)
  from hnsw_export_correct [OF list_page_laws c a o _ n _ refl refl refl refl, where draw = "\<lambda>i. i" and alloc = "\<lambda>_. True" and vec_dist_sq = "\<lambda>_ _. 0"
      and do_hierarchy = True, unfolded m l, OF _ _ f]
  obtain rel es where x: "fill_hnsw_from_cagra_ipc list_page (\<lambda>_ _. 0) (\<lambda>i. i) (\<lambda>_. True) halfvec_target True
      (CUVS_STATUS_OK, Some two_rows_graph) True = Inr (rel, 2)" "length es = 2"
    and y: "\<forall>i < 2. ed_level (es ! i) = [0, 1] ! i \<and> ed_tid_encoded (es ! i) = ad_tids two_rows_graph ! i \<and>
      tuple_at fst rel (ed_elem_blkno (es ! i)) (ed_elem_offno (es ! i)) =
        elem_tuple (es ! i) (row_of_vec (ad_vecs two_rows_graph) (nat (ad_dim two_rows_graph)) i) (nat (ad_dim two_rows_graph)) 2 \<and>
      tuple_at fst rel (ed_neigh_blkno (es ! i)) (ed_neigh_offno (es ! i)) = neigh_tuple (2 div 2) es (es ! i)"
    by (auto simp: list_all_iff)
  show ?thesis using x y [rule_format, of 1] r by (intro exI [of _ rel] exI [of _ es] exI) auto
qed

end
