(* ===== verification/Hnsw_Import.thy ===== *)
theory Hnsw_Import
  imports Hnsw_Props
begin

text \<open>
  Converting a graph that hnswlib has saved (\<open>fill_hnsw_from_hnswlib\<close>,
  \<open>src/hnsw_export.c\<close>): parsing the file, and the index written from it.
\<close>

section \<open>The file\<close>

record HnswlibHeader =
  hl_offsetLevel0 :: u64
  hl_maxElements :: u64
  hl_curElementCount :: u64
  hl_sizeDataPerElement :: u64
  hl_labelOffset :: u64
  hl_offsetData :: u64
  hl_maxlevel :: u32
  hl_enterpointNode :: u32
  hl_maxM :: u64
  hl_maxM0 :: u64
  hl_M :: u64
  hl_mult :: u64
  hl_efConstruction :: u64

text \<open>The fields follow each other without padding, 96 bytes in all.\<close>

definition hnswlib_header_of :: "bytes \<Rightarrow> HnswlibHeader" where
  "hnswlib_header_of bs = \<lparr>hl_offsetLevel0 = fld 0 8 bs, hl_maxElements = fld 8 8 bs, hl_curElementCount = fld 16 8 bs,
     hl_sizeDataPerElement = fld 24 8 bs, hl_labelOffset = fld 32 8 bs, hl_offsetData = fld 40 8 bs, hl_maxlevel = fld 48 4 bs,
     hl_enterpointNode = fld 52 4 bs, hl_maxM = fld 56 8 bs, hl_maxM0 = fld 64 8 bs, hl_M = fld 72 8 bs, hl_mult = fld 80 8 bs,
     hl_efConstruction = fld 88 8 bs\<rparr>"

definition c_int :: "u64 \<Rightarrow> int" where "c_int w = sint (ucast w :: u32)"

text \<open>A read of \<open>n\<close> bytes of the level-0 block; outside of it, undefined.\<close>

definition peek :: "nat \<Rightarrow> nat \<Rightarrow> bytes \<Rightarrow> bytes option" where
  "peek at n bs = (if at + n \<le> length bs then Some (take n (drop at bs)) else None)"

definition int_list :: "nat \<Rightarrow> bytes \<Rightarrow> int list" where
  "int_list n bs = map (\<lambda>b. sint (le_word b :: u32)) (chunks 4 n bs)"

definition clamp_count :: "int \<Rightarrow> int \<Rightarrow> nat" where
  "clamp_count lcount m = (if lcount < 0 \<or> lcount > m then 0 else nat lcount)"

text \<open>Element \<open>i\<close> of the level-0 block: its links and its label.\<close>

definition parse_level0 :: "HnswlibHeader \<Rightarrow> int \<Rightarrow> u64 list \<Rightarrow> bytes \<Rightarrow> nat \<Rightarrow> (hnsw_error + ElemDesc) option" where
  "parse_level0 hdr m0 tids blk i =
    (let base = i * unat (hl_sizeDataPerElement hdr); lv0 = base + unat (hl_offsetLevel0 hdr) in
     case (peek lv0 (4 + nat m0 * 4) blk, peek (base + unat (hl_labelOffset hdr)) 8 blk) of
       (Some ls, Some lb) \<Rightarrow>
         (let label = unat (le_word lb :: u64);
              n_links = clamp_count (sint (le_word (take 4 ls) :: u32)) m0
          in Some (if length tids \<le> label then Inl (Label_without_tid i)
             else Inr \<lparr>ed_level = 0, ed_tid_encoded = tids ! label, ed_lv0_links = take n_links (int_list (nat m0) (drop 4 ls)),
               ed_upper_links = [], ed_elem_blkno = 0, ed_elem_offno = 0, ed_neigh_blkno = 0, ed_neigh_offno = 0\<rparr>))
     | _ \<Rightarrow> None)"

primrec parse_all_level0 ::
  "HnswlibHeader \<Rightarrow> int \<Rightarrow> u64 list \<Rightarrow> bytes \<Rightarrow> nat list \<Rightarrow> (hnsw_error + ElemDesc list) option" where
  "parse_all_level0 hdr m0 tids blk [] = Some (Inr [])"
| "parse_all_level0 hdr m0 tids blk (i # is) =
    (case parse_level0 hdr m0 tids blk i of
       None \<Rightarrow> None
     | Some (Inl err) \<Rightarrow> Some (Inl err)
     | Some (Inr e) \<Rightarrow> map_option (map_sum id (Cons e)) (parse_all_level0 hdr m0 tids blk is))"

text \<open>The upper levels of one element, level 1 first.\<close>

primrec upper_level_lists :: "int \<Rightarrow> nat \<Rightarrow> bytes \<Rightarrow> int list list" where
  "upper_level_lists m 0 p = []"
| "upper_level_lists m (Suc n) p =
    take (clamp_count (sint (le_word (take 4 p) :: u32)) m) (int_list (nat m) (drop 4 p))
      # upper_level_lists m n (drop (4 + nat m * 4) p)"

primrec parse_upper :: "int \<Rightarrow> nat \<Rightarrow> ElemDesc list \<Rightarrow> bytes \<Rightarrow> hnsw_error + ElemDesc list" where
  "parse_upper m i [] f = Inr []"
| "parse_upper m i (e # es) f =
    (case fread 4 1 f of
       None \<Rightarrow> Inl (Short_upper i)
     | Some (b, f1) \<Rightarrow>
        (let llsize = unat (le_word b :: u32); elem_level = llsize div ((nat m + 1) * 4) in
         if llsize = 0 then map_sum id (Cons e) (parse_upper m (i + 1) es f1)
         else if elem_level = 0 then map_sum id (Cons e) (parse_upper m (i + 1) es (drop llsize f1))
         else case fread 1 llsize f1 of
           None \<Rightarrow> Inl (Short_upper i)
         | Some (llbuf, f2) \<Rightarrow>
            map_sum id (Cons (e\<lparr>ed_level := elem_level, ed_upper_links := upper_level_lists m elem_level llbuf\<rparr>))
              (parse_upper m (i + 1) es f2)))"

section \<open>The index\<close>

definition hnswlib_metapage :: "int \<Rightarrow> int \<Rightarrow> HnswlibHeader \<Rightarrow> ElemDesc list \<Rightarrow> bytes" where
  "hnswlib_metapage dim m hdr es =
    (let ep = sint (hl_enterpointNode hdr); ef = unat (hl_efConstruction hdr) in
     if 0 \<le> ep \<and> nat ep < length es
     then metapage (of_int dim) (nat m) ef (ed_elem_blkno (es ! nat ep)) (ed_elem_offno (es ! nat ep)) (int (ed_level (es ! nat ep))) (of_nat (length es))
     else metapage (of_int dim) (nat m) ef 0xFFFFFFFF 0 (- 1) (of_nat (length es)))"

text \<open>The vector of element \<open>i\<close>, read from the file again, and its page.\<close>

definition vector_at :: "HnswlibHeader \<Rightarrow> nat \<Rightarrow> bytes \<Rightarrow> nat \<Rightarrow> u32 list option" where
  "vector_at hdr dim f i =
    (case fread 4 dim (drop (96 + unat (hl_offsetLevel0 hdr) + i * unat (hl_sizeDataPerElement hdr) + unat (hl_offsetData hdr)) f) of
       None \<Rightarrow> None
     | Some (bs, _) \<Rightarrow> Some (map le_word (chunks 4 dim bs)))"

primrec import_pages ::
  "'p page_lib \<Rightarrow> HnswlibHeader \<Rightarrow> nat \<Rightarrow> nat \<Rightarrow> nat \<Rightarrow> ElemDesc list \<Rightarrow> bytes \<Rightarrow> nat list \<Rightarrow> 'p block list
    \<Rightarrow> hnsw_error + 'p block list" where
  "import_pages pl hdr dim bytes_per_dim m es f [] rel = Inr rel"
| "import_pages pl hdr dim bytes_per_dim m es f (i # is) rel =
    (case vector_at hdr dim f i of
       None \<Rightarrow> Inl (Short_vector i)
     | Some vec \<Rightarrow>
        (case write_elem_page pl (es ! i) vec dim bytes_per_dim m es rel of
           Inl err \<Rightarrow> Inl err
         | Inr rel' \<Rightarrow> import_pages pl hdr dim bytes_per_dim m es f is rel'))"

text \<open>
  The elements: the level-0 block behind the header, then the upper levels; \<open>None\<close> where
  the block is read outside its bounds. The allocations per element succeed here; where they fail the
  code reports it and stops.
\<close>

definition parse_elements ::
  "(nat \<Rightarrow> bool) \<Rightarrow> HnswlibHeader \<Rightarrow> u64 list \<Rightarrow> bytes \<Rightarrow> (hnsw_error + HnswlibHeader \<times> ElemDesc list) option" where
  "parse_elements mem hdr tids f1 =
    (let n = unat (hl_curElementCount hdr); lv0_block_bytes = unat (hl_curElementCount hdr * hl_sizeDataPerElement hdr) in
     if \<not> mem lv0_block_bytes then Some (Inl Out_of_memory)
     else case fread 1 lv0_block_bytes f1 of
       None \<Rightarrow> Some (Inl Short_level0)
     | Some (blk, f2) \<Rightarrow>
        if \<not> mem (n * 64) then Some (Inl Out_of_memory)
        else case parse_all_level0 hdr (c_int (hl_maxM0 hdr)) tids blk [0..<n] of
          None \<Rightarrow> None
        | Some (Inl err) \<Rightarrow> Some (Inl err)
        | Some (Inr es) \<Rightarrow> Some (map_sum id (Pair hdr) (parse_upper (c_int (hl_M hdr)) 0 es f2)))"

text \<open>The graph and its TIDs from the two files.\<close>

definition parse_hnswlib ::
  "(nat \<Rightarrow> bool) \<Rightarrow> u32 \<Rightarrow> bytes \<Rightarrow> bytes option \<Rightarrow> (hnsw_error + HnswlibHeader \<times> ElemDesc list) option" where
  "parse_hnswlib mem tgt_metric f tids_file =
    (case fread 96 1 f of
       None \<Rightarrow> Some (Inl Short_header)
     | Some (hb, f1) \<Rightarrow>
        (let hdr = hnswlib_header_of hb; m = c_int (hl_M hdr); m0 = c_int (hl_maxM0 hdr) in
         if unat (hl_curElementCount hdr) = 0 then Some (Inl Empty_sidecar)
         else if m \<le> 0 \<or> m0 \<le> 0 then Some (Inl (Invalid_degree m m0))
         else case tids_file of
           None \<Rightarrow> Some (Inl Cannot_open_tids)
         | Some tf \<Rightarrow>
            (case cuvs_tids_read mem tf of
               None \<Rightarrow> Some (Inl Tids_invalid)
             | Some (thdr, tids) \<Rightarrow>
                if unat (th_n_vecs thdr) < unat (hl_curElementCount hdr) then Some (Inl Too_few_tids)
                else if th_metric thdr \<noteq> tgt_metric then Some (Inl (Metric_mismatch (th_metric thdr) tgt_metric))
                else parse_elements mem hdr tids f1)))"

text \<open>
  \<open>graph_file\<close> is the stream of the graph: the file in the index directory, or the object the
  daemon passed in answer to \<open>shm_rc\<close>. A negative \<open>maxlevel\<close> is outside the model.
\<close>

definition fill_hnsw_from_hnswlib ::
  "'p page_lib \<Rightarrow> (nat \<Rightarrow> bool) \<Rightarrow> hnsw_target \<Rightarrow> bool \<Rightarrow> bool \<Rightarrow> u32 \<Rightarrow> bytes option \<Rightarrow> bytes option \<Rightarrow> bool
    \<Rightarrow> (hnsw_error + 'p block list \<times> nat) option" where
  "fill_hnsw_from_hnswlib pl mem tg use_shm socket shm_rc graph_file tids_file reopens =
    (case check_target tg of
       Inl err \<Rightarrow> Some (Inl err)
     | Inr bytes_per_dim \<Rightarrow>
        if use_shm \<and> \<not> socket then Some (Inl No_socket)
        else if use_shm \<and> shm_rc \<noteq> CUVS_STATUS_OK then Some (Inl (Export_failed shm_rc))
        else case graph_file of
          None \<Rightarrow> Some (Inl Cannot_open_sidecar)
        | Some f \<Rightarrow>
           (case parse_hnswlib mem (opclass_metric (tg_opclass tg)) f tids_file of
              None \<Rightarrow> None
            | Some (Inl err) \<Rightarrow> Some (Inl err)
            | Some (Inr (hdr, parsed)) \<Rightarrow>
               (let es = layout 1 parsed; dim = tg_source_dim tg; m = c_int (hl_M hdr) in
                if sint (hl_maxlevel hdr) < 0 then None
                else case check_hnsw_page_fit dim bytes_per_dim (nat m) (nat (sint (hl_maxlevel hdr))) of
                  Inl err \<Rightarrow> Some (Inl err)
                | Inr _ \<Rightarrow>
                   if \<not> reopens then Some (Inl Cannot_open_sidecar)
                   else Some (map_sum id (\<lambda>rel. (rel, length es))
                     (import_pages pl hdr (nat dim) bytes_per_dim (nat m) es f [0..<length es]
                       [Meta_block page_opaque (hnswlib_metapage dim m hdr es)])))))"

section \<open>What the file says\<close>

text \<open>
  The contents of a saved graph, by position, without the checks and the buffers of the parser. Element
  \<open>i\<close> of the level-0 block has its link list and its label at the offsets of the header; behind
  the block come the upper blocks, each with its size in front; level \<open>lv\<close> of an element is the
  list at position \<open>lv - 1\<close> of its block. A list is a count and that many numbers; an
  impossible count stands for none.
\<close>

definition link_list :: "int \<Rightarrow> bytes \<Rightarrow> int list" where
  "link_list m p = take (clamp_count (sint (le_word (take 4 p) :: u32)) m) (int_list (nat m) (drop 4 p))"

definition element_at :: "HnswlibHeader \<Rightarrow> bytes \<Rightarrow> nat \<Rightarrow> bytes" where
  "element_at hdr f i = drop (96 + i * unat (hl_sizeDataPerElement hdr)) f"

definition file_label :: "HnswlibHeader \<Rightarrow> bytes \<Rightarrow> nat \<Rightarrow> nat" where
  "file_label hdr f i = unat (le_word (take 8 (drop (unat (hl_labelOffset hdr)) (element_at hdr f i))) :: u64)"

primrec upper_block :: "nat \<Rightarrow> bytes \<Rightarrow> bytes" where
  "upper_block 0 p = p"
| "upper_block (Suc i) p = upper_block i (drop (4 + unat (le_word (take 4 p) :: u32)) p)"

definition block_at :: "HnswlibHeader \<Rightarrow> bytes \<Rightarrow> nat \<Rightarrow> bytes" where
  "block_at hdr f i = upper_block i (drop (96 + unat (hl_curElementCount hdr * hl_sizeDataPerElement hdr)) f)"

definition block_level :: "int \<Rightarrow> bytes \<Rightarrow> nat" where
  "block_level m p = unat (le_word (take 4 p) :: u32) div ((nat m + 1) * 4)"

definition file_level :: "HnswlibHeader \<Rightarrow> bytes \<Rightarrow> nat \<Rightarrow> nat" where
  "file_level hdr f i = block_level (c_int (hl_M hdr)) (block_at hdr f i)"

definition file_links :: "HnswlibHeader \<Rightarrow> bytes \<Rightarrow> nat \<Rightarrow> nat \<Rightarrow> int list" where
  "file_links hdr f i lv =
    (if lv = 0 then link_list (c_int (hl_maxM0 hdr)) (drop (unat (hl_offsetLevel0 hdr)) (element_at hdr f i))
     else link_list (c_int (hl_M hdr)) (drop (4 + (lv - 1) * (4 + nat (c_int (hl_M hdr)) * 4)) (block_at hdr f i)))"

section \<open>What is imported\<close>

lemma chunks_take: "w * n \<le> k \<Longrightarrow> chunks w n (take k bs) = chunks w n bs"
  by (induction n arbitrary: k bs) (simp_all add: drop_take min_absorb2)

lemma int_list_take: "4 * n \<le> k \<Longrightarrow> int_list n (take k bs) = int_list n bs"
  by (simp add: int_list_def chunks_take)

lemma link_list_take:
  assumes "4 + 4 * nat m \<le> k"
  shows "link_list m (take k p) = link_list m p"
proof -
  have "4 * nat m \<le> k - 4" "4 \<le> k" using assms by simp_all
  then show ?thesis by (simp add: link_list_def drop_take int_list_take min_absorb1 del: take_take) (simp add: min_absorb1)
qed

lemma parse_level0_fields:
  assumes "parse_level0 hdr m0 tids blk i = Some (Inr e)"
  shows "ed_level e = 0 \<and> ed_upper_links e = [] \<and>
    (\<exists>label. label = unat (le_word (take 8 (drop (unat (hl_labelOffset hdr)) (drop (i * unat (hl_sizeDataPerElement hdr)) blk))) :: u64) \<and>
      label < length tids \<and> ed_tid_encoded e = tids ! label \<and>
      i * unat (hl_sizeDataPerElement hdr) + unat (hl_labelOffset hdr) + 8 \<le> length blk) \<and>
    ed_lv0_links e = link_list m0 (drop (unat (hl_offsetLevel0 hdr)) (drop (i * unat (hl_sizeDataPerElement hdr)) blk)) \<and>
    i * unat (hl_sizeDataPerElement hdr) + unat (hl_offsetLevel0 hdr) + (4 + nat m0 * 4) \<le> length blk"
proof -
  let ?base = "i * unat (hl_sizeDataPerElement hdr)"
  obtain ls lb where p: "peek (?base + unat (hl_offsetLevel0 hdr)) (4 + nat m0 * 4) blk = Some ls"
    "peek (?base + unat (hl_labelOffset hdr)) 8 blk = Some lb"
    using assms by (auto simp: parse_level0_def Let_def split: option.splits)
  then have ls: "ls = take (4 + nat m0 * 4) (drop (?base + unat (hl_offsetLevel0 hdr)) blk)"
    "lb = take 8 (drop (?base + unat (hl_labelOffset hdr)) blk)"
    "?base + unat (hl_offsetLevel0 hdr) + (4 + nat m0 * 4) \<le> length blk" "?base + unat (hl_labelOffset hdr) + 8 \<le> length blk"
    by (auto simp: peek_def split: if_splits)
  let ?label = "unat (le_word lb :: u64)"
  have e: "?label < length tids" "ed_tid_encoded e = tids ! ?label" "ed_level e = 0" "ed_upper_links e = []"
    "ed_lv0_links e = link_list m0 ls"
    using assms p by (auto simp: parse_level0_def Let_def link_list_def not_le split: if_splits)
  have "link_list m0 ls = link_list m0 (drop (?base + unat (hl_offsetLevel0 hdr)) blk)"
    unfolding ls(1) by (rule link_list_take) simp
  then show ?thesis using e ls(2-4) by (simp add: add.commute)
qed

lemma parse_all_level0_nth:
  "parse_all_level0 hdr m0 tids blk is = Some (Inr es) \<Longrightarrow>
    length es = length is \<and> (\<forall>j < length is. parse_level0 hdr m0 tids blk (is ! j) = Some (Inr (es ! j)))"
proof (induction "is" arbitrary: es)
  case (Cons i "is")
  obtain e where e: "parse_level0 hdr m0 tids blk i = Some (Inr e)" using Cons.prems by (auto split: option.splits sum.splits)
  obtain es' where es': "parse_all_level0 hdr m0 tids blk is = Some (Inr es')" "es = e # es'"
  proof -
    obtain z where z: "parse_all_level0 hdr m0 tids blk is = Some z" using Cons.prems e by auto
    show ?thesis using Cons.prems e z that by (cases z) auto
  qed
  show ?case using Cons.IH [OF es'(1)] e by (auto simp: es'(2) nth_Cons split: nat.split)
qed simp

lemma length_upper_level_lists [simp]: "length (upper_level_lists m n p) = n"
  by (induction n arbitrary: p) simp_all

lemma upper_level_lists_nth:
  "l < n \<Longrightarrow> upper_level_lists m n p ! l = link_list m (drop (l * (4 + nat m * 4)) p)"
proof (induction n arbitrary: l p)
  case (Suc n)
  then show ?case by (cases l) (simp_all add: link_list_def add.commute)
qed simp

lemma parse_upper_nth:
  assumes "parse_upper m k es f = Inr es'" "\<forall>e \<in> set es. ed_level e = 0 \<and> ed_upper_links e = []" "i < length es"
  shows "length es' = length es \<and> ed_tid_encoded (es' ! i) = ed_tid_encoded (es ! i) \<and> ed_lv0_links (es' ! i) = ed_lv0_links (es ! i) \<and>
    ed_level (es' ! i) = block_level m (upper_block i f) \<and> length (ed_upper_links (es' ! i)) = ed_level (es' ! i) \<and>
    (\<forall>l < ed_level (es' ! i). ed_upper_links (es' ! i) ! l = link_list m (drop (4 + l * (4 + nat m * 4)) (upper_block i f)))"
  using assms
proof (induction es arbitrary: k f es' i)
  case (Cons e es)
  obtain b f1 where b: "fread 4 1 f = Some (b, f1)" using Cons.prems(1) by (auto split: option.splits)
  have bf: "b = take 4 f" "f1 = drop 4 f" using b by (auto simp: fread_def split: if_splits)
  let ?size = "unat (le_word (take 4 f) :: u32)"
  have next_f: "drop (4 + ?size) f = drop ?size f1" by (simp add: bf add.commute)
  have e0: "ed_level e = 0" "ed_upper_links e = []" using Cons.prems(2) by simp_all
  obtain e1 es1 where s: "es' = e1 # es1" "parse_upper m (k + 1) es (drop ?size f1) = Inr es1"
    "ed_tid_encoded e1 = ed_tid_encoded e" "ed_lv0_links e1 = ed_lv0_links e" "ed_level e1 = block_level m f"
    "ed_upper_links e1 = upper_level_lists m (block_level m f) (take ?size f1)"
  proof (cases "block_level m f = 0")
    case True
    then obtain es1 where "parse_upper m (k + 1) es (drop ?size f1) = Inr es1" "es' = e # es1"
      using Cons.prems(1) b by (auto simp: Let_def bf(1) block_level_def map_sum_def split: sum.splits if_splits)
    then show thesis using that True e0 by simp
  next
    case False
    have nz: "?size \<noteq> 0" using False by (metis block_level_def div_0)
    obtain f2 where f2: "fread 1 ?size f1 = Some (take ?size f1, drop ?size f1)"
      using Cons.prems(1) b False nz by (auto simp: Let_def bf(1) block_level_def fread_def split: option.splits if_splits)
    then obtain es1 where "parse_upper m (k + 1) es (drop ?size f1) = Inr es1"
      "es' = e\<lparr>ed_level := block_level m f, ed_upper_links := upper_level_lists m (block_level m f) (take ?size f1)\<rparr> # es1"
      using Cons.prems(1) b False nz by (auto simp: Let_def bf(1) block_level_def map_sum_def split: sum.splits)
    then show thesis using that by simp
  qed
  have len: "length es' = length (e # es)" if "0 < length es \<longrightarrow> length es1 = length es"
    using that s(1,2) by (cases es) auto
  show ?case
  proof (cases i)
    case 0
    have "upper_level_lists m (block_level m f) (take ?size f1) ! l = link_list m (drop (4 + l * (4 + nat m * 4)) f)"
      if "l < block_level m f" for l
    proof -
      let ?w = "4 + nat m * 4"
      have "(l + 1) * ?w \<le> block_level m f * ?w" using that by (intro mult_le_mono1) simp
      also have "\<dots> \<le> ?size" by (simp add: block_level_def)
      finally have "l * ?w + ?w \<le> ?size" by simp
      then have "link_list m (take (?size - l * ?w) (drop (l * ?w) f1)) = link_list m (drop (l * ?w) f1)"
        by (intro link_list_take) linarith
      then show ?thesis using that by (simp add: upper_level_lists_nth drop_take bf(2) add.commute)
    qed
    then show ?thesis using s len Cons.IH [OF s(2), of 0] Cons.prems(2) by (auto simp: 0)
  next
    case (Suc j)
    then show ?thesis using s len Cons.IH [OF s(2), of j] Cons.prems(2,3) by (auto simp: next_f)
  qed
qed simp


lemma take_in_block: "a + k + n \<le> b \<Longrightarrow> take n (drop k (drop a (take b xs))) = take n (drop k (drop a xs))"
  by (simp add: drop_take min_def)

text \<open>The elements a successful parse yields are those of the file.\<close>

lemma parse_hnswlib_elems:
  assumes "parse_hnswlib mem metric f tids_file = Some (Inr (hdr, es))"
  shows "\<exists>tf thdr tids. tids_file = Some tf \<and> cuvs_tids_read mem tf = Some (thdr, tids) \<and> th_metric thdr = metric \<and>
    length es = unat (hl_curElementCount hdr) \<and> 0 < length es \<and> hdr = hnswlib_header_of (take 96 f) \<and>
    (\<forall>i < length es. file_label hdr f i < length tids \<and> ed_tid_encoded (es ! i) = tids ! file_label hdr f i \<and>
      ed_level (es ! i) = file_level hdr f i \<and> (\<forall>lv \<le> file_level hdr f i. links_at (es ! i) lv = file_links hdr f i lv))"
proof -
  obtain hb f1 where h: "fread 96 1 f = Some (hb, f1)" using assms by (cases "fread 96 1 f") (auto simp: parse_hnswlib_def)
  obtain tf where t: "tids_file = Some tf" using assms h by (auto simp: parse_hnswlib_def Let_def split: if_splits option.splits)
  obtain thdr tids where r: "cuvs_tids_read mem tf = Some (thdr, tids)"
    using assms h t by (auto simp: parse_hnswlib_def Let_def split: if_splits option.splits)
  have hd: "hb = take 96 f" "f1 = drop 96 f" using h by (auto simp: fread_def split: if_splits)
  let ?h = "hnswlib_header_of hb" and ?b = "unat (hl_curElementCount (hnswlib_header_of hb) * hl_sizeDataPerElement (hnswlib_header_of hb))"
  obtain blk f2 where b: "fread 1 ?b f1 = Some (blk, f2)" and c: "0 < unat (hl_curElementCount ?h)" "th_metric thdr = metric"
    using assms h t r by (auto simp: parse_hnswlib_def parse_elements_def Let_def split: if_splits option.splits)
  obtain es0 where e: "parse_all_level0 ?h (c_int (hl_maxM0 ?h)) tids blk [0..<unat (hl_curElementCount ?h)] = Some (Inr es0)"
      "parse_upper (c_int (hl_M ?h)) 0 es0 f2 = Inr es" "hdr = ?h"
    using assms h t r b by (auto simp: parse_hnswlib_def parse_elements_def Let_def map_sum_def split: if_splits option.splits sum.splits)
  have blk: "blk = take ?b f1" "f2 = drop ?b f1" using b by (auto simp: fread_def split: if_splits)
  have f2: "f2 = drop (96 + ?b) f" by (simp add: blk(2) hd(2) add.commute)
  note l0 = parse_all_level0_nth [OF e(1)]
  have len0: "length es0 = unat (hl_curElementCount ?h)" using l0 by simp
  have fresh0: "\<forall>x \<in> set es0. ed_level x = 0 \<and> ed_upper_links x = []"
    using l0 parse_level0_fields by (fastforce simp: in_set_conv_nth)
  have len: "length es = unat (hl_curElementCount ?h)"
    using parse_upper_nth [OF e(2) fresh0, of 0] c(1) len0 by simp
  have elem: "file_label hdr f i < length tids \<and> ed_tid_encoded (es ! i) = tids ! file_label hdr f i \<and>
      ed_level (es ! i) = file_level hdr f i \<and> (\<forall>lv \<le> file_level hdr f i. links_at (es ! i) lv = file_links hdr f i lv)"
    if i: "i < length es" for i
  proof -
    have i0: "i < length es0" using i len len0 by simp
    have "parse_level0 ?h (c_int (hl_maxM0 ?h)) tids blk i = Some (Inr (es0 ! i))" using l0 i0 len0 by simp
    note p = parse_level0_fields [OF this]
    let ?at = "drop (i * unat (hl_sizeDataPerElement ?h))"
    have in_blk: "take n (drop k (?at blk)) = take n (drop k (element_at hdr f i))"
      if "i * unat (hl_sizeDataPerElement ?h) + k + n \<le> length blk" for k n
    proof -
      have "i * unat (hl_sizeDataPerElement ?h) + k + n \<le> ?b" using that by (simp add: blk(1))
      from take_in_block [OF this, of "drop 96 f"] show ?thesis by (simp add: blk(1) hd(2) element_at_def e(3) ac_simps)
    qed
    have label: "file_label hdr f i < length tids" "ed_tid_encoded (es0 ! i) = tids ! file_label hdr f i"
      using p in_blk [of "unat (hl_labelOffset ?h)" 8] by (auto simp: file_label_def e(3))
    have "ed_lv0_links (es0 ! i) = file_links hdr f i 0"
      using p in_blk [of "unat (hl_offsetLevel0 ?h)" "4 + nat (c_int (hl_maxM0 ?h)) * 4"]
        link_list_take [of "c_int (hl_maxM0 ?h)" "4 + nat (c_int (hl_maxM0 ?h)) * 4"]
      by (simp add: file_links_def e(3)) (metis mult.commute order_refl)
    then show ?thesis
      using parse_upper_nth [OF e(2) fresh0 i0] label
      by (auto simp: links_at_def file_links_def file_level_def block_at_def e(3) f2)
  qed
  show ?thesis using t r c e(3) len elem hd(1) by (intro exI [of _ tf] exI [of _ thdr] exI [of _ tids]) simp
qed

lemma written_pair:
  assumes "page_laws pl items free" "write_elem_pair pl page e vec dim bpd m all = Inr p"
  shows "items p = items page @ [elem_tuple e vec dim bpd, neigh_tuple m all e]"
proof -
  have add: "fst (pl_add pl q b) \<noteq> 0 \<Longrightarrow> items (snd (pl_add pl q b)) = items q @ [b]" for q b
  proof -
    assume z: "fst (pl_add pl q b) \<noteq> 0"
    have "MAXALIGN8 (length b) + 4 \<le> free q \<or> fst (pl_add pl q b) = 0" using assms(1) unfolding page_laws_def by metis
    then show ?thesis using page_add [OF assms(1), of b q] z by auto
  qed
  show ?thesis using assms(2) add by (auto simp: write_elem_pair_def Let_def split: prod.splits if_splits) (metis append.assoc append_Cons append_Nil fst_conv snd_conv)
qed

lemma import_pages_hold:
  assumes "page_laws pl items free" "import_pages pl hdr dim bpd m es f is rel = Inr rel'"
  shows "\<exists>ps. rel' = rel @ map (Element_block page_opaque) ps \<and> length ps = length is \<and>
    (\<forall>j < length is. \<exists>vec. vector_at hdr dim f (is ! j) = Some vec \<and>
      items (ps ! j) = [elem_tuple (es ! (is ! j)) vec dim bpd, neigh_tuple m es (es ! (is ! j))])"
  using assms(2)
proof (induction "is" arbitrary: rel)
  case (Cons i "is")
  obtain vec where v: "vector_at hdr dim f i = Some vec" using Cons.prems by (auto split: option.splits)
  obtain p where p: "write_elem_pair pl (pl_init pl) (es ! i) vec dim bpd m es = Inr p"
      "import_pages pl hdr dim bpd m es f is (rel @ [Element_block page_opaque p]) = Inr rel'"
    using Cons.prems v by (auto simp: write_elem_page_def split: sum.splits)
  have "items (pl_init pl) = []" using assms(1) by (simp add: page_laws_def)
  then have ip: "items p = [elem_tuple (es ! i) vec dim bpd, neigh_tuple m es (es ! i)]" using written_pair [OF assms(1) p(1)] by simp
  obtain ps where ps: "rel' = (rel @ [Element_block page_opaque p]) @ map (Element_block page_opaque) ps" "length ps = length is"
      "\<forall>j < length is. \<exists>vec. vector_at hdr dim f (is ! j) = Some vec \<and>
        items (ps ! j) = [elem_tuple (es ! (is ! j)) vec dim bpd, neigh_tuple m es (es ! (is ! j))]"
    using Cons.IH [OF p(2)] by auto
  show ?case
  proof (intro exI [of _ "p # ps"] conjI allI impI)
    fix j assume "j < length (i # is)"
    then show "\<exists>vec. vector_at hdr dim f ((i # is) ! j) = Some vec \<and>
        items ((p # ps) ! j) = [elem_tuple (es ! ((i # is) ! j)) vec dim bpd, neigh_tuple m es (es ! ((i # is) ! j))]"
      using ps(3) v ip by (cases j) auto
  qed (use ps in auto)
qed simp

text \<open>
  C28. An imported index holds the graph of the file. Element \<open>i\<close> gets a page of its own with its
  tuple, made of the TID that the file's label selects from the \<open>.tids\<close> file (a label without
  a TID is refused), the level of its upper block and its vector, and with its neighbour tuple: on every
  level the slots lead, in order, to the tuples of the elements the file's list names, and the others
  are invalid. The two files agree on the metric with the index, and the metadata page names the
  entry point of the file.
\<close>

theorem hnsw_import_sound:
  assumes "page_laws pl items free" "fill_hnsw_from_hnswlib pl mem tg use_shm socket shm_rc graph_file tids_file reopens = Some (Inr (rel, n))"
    and "n < 2 ^ 31"
  shows "\<exists>f tf thdr tids hdr m es bpd. graph_file = Some f \<and> tids_file = Some tf \<and> cuvs_tids_read mem tf = Some (thdr, tids) \<and>
    th_metric thdr = opclass_metric (tg_opclass tg) \<and> hdr = hnswlib_header_of (take 96 f) \<and> m = nat (c_int (hl_M hdr)) \<and>
    n = unat (hl_curElementCount hdr) \<and> length es = n \<and> 0 < n \<and>
    hd rel = Meta_block page_opaque (hnswlib_metapage (tg_source_dim tg) (c_int (hl_M hdr)) hdr es) \<and>
    (\<forall>i < n. \<exists>vec. vector_at hdr (nat (tg_source_dim tg)) f i = Some vec \<and> unat (ed_elem_blkno (es ! i)) = i + 1 \<and>
      file_label hdr f i < length tids \<and> ed_tid_encoded (es ! i) = tids ! file_label hdr f i \<and> ed_level (es ! i) = file_level hdr f i \<and>
      tuple_at items rel (ed_elem_blkno (es ! i)) (ed_elem_offno (es ! i)) = elem_tuple (es ! i) vec (nat (tg_source_dim tg)) bpd \<and>
      (\<forall>lv \<le> file_level hdr f i. \<forall>s < (if lv = 0 then 2 * m else m).
        neighbour_slot (file_level hdr f i) m lv s (tuple_at items rel (ed_neigh_blkno (es ! i)) (ed_neigh_offno (es ! i)))
          = (if s < length (file_links hdr f i lv) then link_slot es (file_links hdr f i lv ! s) else set_invalid_item_ptr)))"
proof -
  obtain bpd where b: "check_target tg = Inr bpd" using assms(2) by (auto simp: fill_hnsw_from_hnswlib_def split: sum.splits)
  obtain f where f: "graph_file = Some f" using assms(2) b by (auto simp: fill_hnsw_from_hnswlib_def split: if_splits option.splits)
  obtain hdr parsed where p: "parse_hnswlib mem (opclass_metric (tg_opclass tg)) f tids_file = Some (Inr (hdr, parsed))"
    using assms(2) b f by (auto simp: fill_hnsw_from_hnswlib_def split: if_splits option.splits sum.splits)
  define es m dim where "es = layout 1 parsed" "m = nat (c_int (hl_M hdr))" "dim = nat (tg_source_dim tg)"
  let ?meta = "Meta_block page_opaque (hnswlib_metapage (tg_source_dim tg) (c_int (hl_M hdr)) hdr es)"
  have i: "import_pages pl hdr dim bpd m es f [0..<n] [?meta] = Inr rel" and n: "n = length es"
    using assms(2) b f p by (auto simp: fill_hnsw_from_hnswlib_def Let_def es_m_dim_def map_sum_def split: if_splits sum.splits)
  have np: "n = length parsed" by (simp add: n es_m_dim_def)
  obtain tf thdr tids where t: "tids_file = Some tf" "cuvs_tids_read mem tf = Some (thdr, tids)" "th_metric thdr = opclass_metric (tg_opclass tg)"
      "length parsed = unat (hl_curElementCount hdr)" "0 < length parsed" "hdr = hnswlib_header_of (take 96 f)"
    and el: "\<forall>i < n. file_label hdr f i < length tids \<and> ed_tid_encoded (parsed ! i) = tids ! file_label hdr f i \<and>
      ed_level (parsed ! i) = file_level hdr f i \<and> (\<forall>lv \<le> file_level hdr f i. links_at (parsed ! i) lv = file_links hdr f i lv)"
    using parse_hnswlib_elems [OF p] unfolding np by blast
  obtain ps where ps: "rel = ?meta # map (Element_block page_opaque) ps" "length ps = n"
      "\<forall>j < n. \<exists>vec. vector_at hdr dim f j = Some vec \<and> items (ps ! j) = [elem_tuple (es ! j) vec dim bpd, neigh_tuple m es (es ! j)]"
    using import_pages_hold [OF assms(1) i] by auto
  have rows: "\<exists>vec. vector_at hdr dim f i = Some vec \<and> unat (ed_elem_blkno (es ! i)) = i + 1 \<and>
      file_label hdr f i < length tids \<and> ed_tid_encoded (es ! i) = tids ! file_label hdr f i \<and> ed_level (es ! i) = file_level hdr f i \<and>
      tuple_at items rel (ed_elem_blkno (es ! i)) (ed_elem_offno (es ! i)) = elem_tuple (es ! i) vec dim bpd \<and>
      (\<forall>lv \<le> file_level hdr f i. \<forall>s < (if lv = 0 then 2 * m else m).
        neighbour_slot (file_level hdr f i) m lv s (tuple_at items rel (ed_neigh_blkno (es ! i)) (ed_neigh_offno (es ! i)))
          = (if s < length (file_links hdr f i lv) then link_slot es (file_links hdr f i lv ! s) else set_invalid_item_ptr))"
    if i: "i < n" for i
  proof -
    have e: "es ! i = place_elem 1 i (parsed ! i)" "unat (ed_elem_blkno (es ! i)) = i + 1" "unat (ed_elem_offno (es ! i)) = 1"
      "unat (ed_neigh_offno (es ! i)) = 2" "ed_neigh_blkno (es ! i) = ed_elem_blkno (es ! i)"
      using i np assms(3) place_elem_at [of 1 i "parsed ! i"] by (simp_all add: es_m_dim_def)
    have ef: "ed_tid_encoded (es ! i) = tids ! file_label hdr f i" "ed_level (es ! i) = file_level hdr f i"
      "\<forall>lv \<le> file_level hdr f i. links_at (es ! i) lv = file_links hdr f i lv"
      using el i by (simp_all add: e(1))
    obtain vec where v: "vector_at hdr dim f i = Some vec" "items (ps ! i) = [elem_tuple (es ! i) vec dim bpd, neigh_tuple m es (es ! i)]"
      using ps(3) i by auto
    then have at: "tuple_at items rel (ed_elem_blkno (es ! i)) (ed_elem_offno (es ! i)) = elem_tuple (es ! i) vec dim bpd"
      "tuple_at items rel (ed_neigh_blkno (es ! i)) (ed_neigh_offno (es ! i)) = neigh_tuple m es (es ! i)"
      using e ps(1,2) i by (simp_all add: tuple_at_def)
    have "neighbour_slot (file_level hdr f i) m lv s (neigh_tuple m es (es ! i))
        = (if s < length (file_links hdr f i lv) then link_slot es (file_links hdr f i lv ! s) else set_invalid_item_ptr)"
      if "lv \<le> file_level hdr f i" "s < (if lv = 0 then 2 * m else m)" for lv s
      using neighbour_slot_tuple [of lv "es ! i" s m es] that ef by simp
    then show ?thesis using v(1) at ef e(2) el i by simp
  qed
  have whole: "graph_file = Some f" "length es = n" "0 < n" "n = unat (hl_curElementCount hdr)" "hd rel = ?meta"
    using f t n np ps(1) by auto
  show ?thesis
    by (rule exI [of _ f], rule exI [of _ tf], rule exI [of _ thdr], rule exI [of _ tids], rule exI [of _ hdr], rule exI [of _ m],
        rule exI [of _ es], rule exI [of _ bpd], intro conjI whole t(1-3,6) es_m_dim_def(2) allI impI rows [unfolded es_m_dim_def(3)])
qed

end
