(* ===== verification/Hnsw_Witness.thy ===== *)
theory Hnsw_Witness
  imports Hnsw_Import Load_Inv
begin

text \<open>A graph of two elements as hnswlib saves it, imported.\<close>

section \<open>Witness\<close>

text \<open>
  Two elements on two levels, each with a link to the other; the first has label 1, the second
  label 0.
\<close>

definition two_element_graph :: bytes where
  "two_element_graph = concat (map (le_bytes 8) [0 :: u64, 2, 2, 24, 16, 12]) @ le_bytes 4 (1 :: u32) @ le_bytes 4 (0 :: u32)
     @ concat (map (le_bytes 8) [1 :: u64, 2, 1, 0, 200])
     @ concat (map (le_bytes 4) [1 :: u32, 1, 0, 0x3F800000]) @ le_bytes 8 (1 :: u64)
     @ concat (map (le_bytes 4) [1 :: u32, 0, 0, 0x40000000]) @ le_bytes 8 (0 :: u64)
     @ concat (map (le_bytes 4) [8 :: u32, 1, 1, 8, 1, 0])"

definition two_tids :: bytes where
  "two_tids = written (snd (cuvs_tids_write \<lparr>written = [], room = 1000\<rparr> 2 1 0 [7, 8]))"

lemma two_tids_read:
  obtains thdr where "cuvs_tids_read (\<lambda>_. True) two_tids = Some (thdr, [7, 8])" "th_n_vecs thdr = 2" "th_metric thdr = 0"
proof -
  obtain rc g where w: "cuvs_tids_write \<lparr>written = [], room = 1000\<rparr> 2 1 0 [7, 8] = (rc, g)" by fastforce
  have "\<exists>h. cuvs_tids_read (\<lambda>_. True) (written g @ []) = Some (h, [7, 8]) \<and> th_n_vecs h = 2 \<and> th_metric h = 0"
    using tids_write_read [of "[7, 8]" 2 rc "\<lparr>written = [], room = 1000\<rparr>" "\<lambda>_. True" 1 0 g "[]"] w
    by (auto simp: CUVS_TIDS_MAX_VECS_def)
  then show thesis using that by (auto simp: two_tids_def w)
qed

lemma two_header:
  "fread 96 1 two_element_graph = Some (take 96 two_element_graph, drop 96 two_element_graph)"
  "hnswlib_header_of (take 96 two_element_graph) = \<lparr>hl_offsetLevel0 = 0, hl_maxElements = 2, hl_curElementCount = 2,
     hl_sizeDataPerElement = 24, hl_labelOffset = 16, hl_offsetData = 12, hl_maxlevel = 1, hl_enterpointNode = 0, hl_maxM = 1,
     hl_maxM0 = 2, hl_M = 1, hl_mult = 0, hl_efConstruction = 200\<rparr>"
  by code_simp+

definition two_elems :: "ElemDesc list" where
  "two_elems = [\<lparr>ed_level = 1, ed_tid_encoded = 8, ed_lv0_links = [1], ed_upper_links = [[1]], ed_elem_blkno = 0, ed_elem_offno = 0,
     ed_neigh_blkno = 0, ed_neigh_offno = 0\<rparr>,
     \<lparr>ed_level = 1, ed_tid_encoded = 7, ed_lv0_links = [0], ed_upper_links = [[0]], ed_elem_blkno = 0, ed_elem_offno = 0,
     ed_neigh_blkno = 0, ed_neigh_offno = 0\<rparr>]"

definition l2_target :: hnsw_target where
  "l2_target = \<lparr>tg_pgvector = True, tg_source_dim = 1, tg_found = True, tg_is_index = True, tg_am_ok = True,
     tg_column = Some (1, Some ''vector''), tg_opclass = Some ''vector_l2_ops''\<rparr>"

lemma two_parse:
  "parse_hnswlib (\<lambda>_. True) 0 two_element_graph (Some two_tids) =
    Some (Inr (hnswlib_header_of (take 96 two_element_graph), two_elems))"
proof -
  let ?h = "hnswlib_header_of (take 96 two_element_graph)"
  obtain thdr where t: "cuvs_tids_read (\<lambda>_. True) two_tids = Some (thdr, [7, 8])" "th_n_vecs thdr = 2" "th_metric thdr = 0"
    by (rule two_tids_read)
  have e: "parse_elements (\<lambda>_. True) ?h [7, 8] (drop 96 two_element_graph) = Some (Inr (?h, two_elems))" by code_simp
  have h: "hl_curElementCount ?h = 2" "c_int (hl_M ?h) = 1" "c_int (hl_maxM0 ?h) = 2" by (simp_all add: two_header(2) c_int_def)
  show ?thesis unfolding parse_hnswlib_def two_header(1) by (simp add: Let_def h t e)
qed

lemma two_imported:
  obtains rel where "fill_hnsw_from_hnswlib list_page (\<lambda>_. True) l2_target False True 0 (Some two_element_graph) (Some two_tids) True
    = Some (Inr (rel, 2))"
proof -
  let ?h = "hnswlib_header_of (take 96 two_element_graph)" and ?es = "layout 1 two_elems"
  have c: "check_target l2_target = Inr 4" by (simp add: check_target_def l2_target_def bytes_per_dim_for_typid_def)
  have m: "opclass_metric (tg_opclass l2_target) = 0"
    by (simp add: l2_target_def opclass_metric_def strstr_def CUVS_METRIC_L2_def upt_conv_Cons)
  have f: "check_hnsw_page_fit 1 4 1 1 = Inr ()"
    by (simp add: check_hnsw_page_fit_def elems_per_page_def elem_tuple_size_def neigh_tuple_size_def MAXALIGN8_def PGV_USABLE_BYTES_def)
  have d: "tg_source_dim l2_target = 1" by (simp add: l2_target_def)
  have v: "vector_at ?h 1 two_element_graph 0 = Some [0x3F800000]" "vector_at ?h 1 two_element_graph 1 = Some [0x40000000]"
    by code_simp+
  have h: "c_int (hl_M ?h) = 1" "hl_maxlevel ?h = 1" by (simp_all add: two_header(2) c_int_def)
  have g: "goes_at 0 (?es ! i)" "ed_level (?es ! i) = 1" "length ?es = 2" if "i < 2" for i
    using that by (auto simp: layout_def place_elem_def goes_at_def two_elems_def less_2_cases_iff)
  have fits: "pair_cost 1 4 1 1 \<le> 8160" by (simp add: pair_cost_def elem_tuple_size_def neigh_tuple_size_def MAXALIGN8_def)
  have w: "\<exists>p. write_elem_pair list_page (pl_init list_page) (?es ! i) [x] 1 4 1 ?es = Inr p" if "i < 2" for i x
    using write_elem_pair_ok [OF list_page_laws, of 4 "[x]" 1 "pl_init list_page" "?es ! i" 1 ?es] g [OF that] fits
    by (auto simp: list_page_def PGV_USABLE_BYTES_def)
  have u: "[0..<2] = [0, 1 :: nat]" by (simp add: upt_rec)
  have "\<exists>rel. import_pages list_page ?h 1 4 1 ?es two_element_graph [0..<length ?es]
      [Meta_block page_opaque (hnswlib_metapage 1 1 ?h ?es)] = Inr rel"
    using w [of 0 "0x3F800000"] w [of 1 "0x40000000"] g(3) [of 0] v by (auto simp: u write_elem_page_def)
  then show thesis using that two_parse f h g(3) [of 0] by (auto simp: fill_hnsw_from_hnswlib_def c m d Let_def)
qed

theorem hnsw_import_sound_witness:
  "\<exists>rel es vec bpd. fill_hnsw_from_hnswlib list_page (\<lambda>_. True) l2_target False True 0 (Some two_element_graph) (Some two_tids) True
      = Some (Inr (rel, 2)) \<and>
    ed_tid_encoded (es ! 0) = 8 \<and> ed_level (es ! 0) = 1 \<and> unat (ed_elem_blkno (es ! 1)) = 2 \<and>
    tuple_at fst rel (ed_elem_blkno (es ! 0)) (ed_elem_offno (es ! 0)) = elem_tuple (es ! 0) vec 1 bpd \<and>
    neighbour_slot 1 1 1 0 (tuple_at fst rel (ed_neigh_blkno (es ! 0)) (ed_neigh_offno (es ! 0))) = link_slot es 1"
proof -
  let ?h = "hnswlib_header_of (take 96 two_element_graph)"
  obtain rel where r: "fill_hnsw_from_hnswlib list_page (\<lambda>_. True) l2_target False True 0 (Some two_element_graph) (Some two_tids) True
      = Some (Inr (rel, 2))" by (rule two_imported)
  obtain thdr where t: "cuvs_tids_read (\<lambda>_. True) two_tids = Some (thdr, [7, 8])" by (rule two_tids_read)
  have x: "file_label ?h two_element_graph 0 = 1" "file_level ?h two_element_graph 0 = 1" "file_links ?h two_element_graph 0 1 = [1]"
    by code_simp+
  have d: "nat (c_int (hl_M ?h)) = 1" "nat (tg_source_dim l2_target) = 1" by (simp_all add: two_header(2) c_int_def l2_target_def)
  have n: "(2 :: nat) < 2 ^ 31" by simp
  from hnsw_import_sound [OF list_page_laws r n] show ?thesis
  proof (elim exE conjE, goal_cases)
    case (1 f tf thdr' tids hdr m es bpd)
    then have e: "f = two_element_graph" "tids = [7, 8]" "hdr = ?h" "m = 1" using t d by simp_all
    obtain vec where "ed_tid_encoded (es ! 0) = 8" "ed_level (es ! 0) = 1"
      "tuple_at fst rel (ed_elem_blkno (es ! 0)) (ed_elem_offno (es ! 0)) = elem_tuple (es ! 0) vec 1 bpd"
      "neighbour_slot 1 1 1 0 (tuple_at fst rel (ed_neigh_blkno (es ! 0)) (ed_neigh_offno (es ! 0))) = link_slot es 1"
      using 1(11) [rule_format, of 0] unfolding e d x by (auto simp: x x(3) [unfolded One_nat_def])
    moreover have "unat (ed_elem_blkno (es ! 1)) = 2" using 1(11) [rule_format, of 1] by auto
    ultimately show ?thesis using r by blast
  qed
qed

end
