(* ===== verification/Spec2Isabelle.thy ===== *)
theory Spec2Isabelle
  imports Crc32 Sidecars Shards Pending_Files Pending_Merge Util Circuit Batch_Group Load_Inv Warmup Gpu_Cache Search_Inv
    Batch_Worker Batch_Queue Batch_Search_Props Search_Stream Ipc_Props Build_Witness Flat_Witness Extend_Witness Backend_Witness Scan_Witness
    Drop_Queue Hnsw_Witness
begin

text \<open>
  A verification development for pg_cuvs, a PostgreSQL extension that answers nearest-neighbour queries
  with GPU indexes (CAGRA graphs, exact search, IVF-PQ) of the cuVS library.

  \<^bold>\<open>The program.\<close> A daemon (\<open>src/pg_cuvs_server.c\<close>) owns the GPU. It keeps a table of resident
  indexes, loads and evicts them under a budget of GPU memory, builds, extends, compacts and drops
  them, and answers searches; every command is a fixed frame over a Unix socket, with the vectors in
  shared memory. A PostgreSQL backend (\<open>src/pg_cuvs.c\<close>) implements the access methods: it talks to the
  daemon through \<open>src/cuvs_ipc.c\<close>, records inserts and deletions that the daemon's graph does not have
  in append-only files beside the index (\<open>.delta\<close>, \<open>.tombstone\<close>), merges them into the answers of index
  scans, and   decides at plan time whether the GPU path may be used. \<open>src/cuvs_util.c\<close> holds the file formats,
  checksums, the circuit breaker and small pure functions; \<open>src/hnsw_export.c\<close> writes a graph as an
  index of pgvector; \<open>src/cuvs_build_corpus.c\<close> the shared memory of a build.

  \<^bold>\<open>Which theory models what.\<close> Definitions keep the names of the C functions and of the fields.

  \<^item> \<open>Prelude\<close>, \<open>Byte_Codec\<close>, \<open>Append_Log\<close>, \<open>Float_Order\<close>: C types as words, \<open>FILE\<close> streams,
    little-endian structs, positioned writes that a crash or an error may tear, the order of floats by
    their bits, and sorting.
  \<^item> \<open>Crc32\<close>, \<open>Sidecars\<close>, \<open>Shards\<close>, \<open>Util\<close>, \<open>Circuit\<close>, \<open>Batch_Group\<close>: \<open>cuvs_util.c\<close>.
  \<^item> \<open>Pending_Files\<close>, \<open>Pending_Merge\<close>: the \<open>.delta\<close> and \<open>.tombstone\<close> files, their appends and their merge into
    results (\<open>cuvs_util.c\<close>, \<open>pg_cuvs.c\<close>).
  \<^item> \<open>Registry\<close>, \<open>Evict\<close>, \<open>Drop\<close>, \<open>Load\<close>, \<open>Warmup_Queue\<close>, \<open>Warmup\<close>, \<open>Gpu_Cache\<close>: the daemon's table of
    indexes, eviction, dropping, loading, background downloads and the GPU copies of files. The state
    is the record \<open>daemon\<close>: slots and their count, cold entries, budgets, the files, and the set of live
    GPU objects, from which a handle is taken when it is freed. \<open>Registry_Inv\<close>, \<open>Vram\<close>, \<open>Load_Inv\<close> hold the
    invariants: \<open>owned\<close> and \<open>holds hs\<close> say that the live GPU objects are exactly those of the table and of
    \<open>hs\<close>, each once, so that nothing leaks and nothing is freed twice.
  \<^item> \<open>Frames\<close>, \<open>Ipc_Socket\<close>, \<open>Ipc_Client\<close>, \<open>Ipc_Calls\<close>, \<open>Ipc_Props\<close>: the wire format, the socket layer and
    the client's calls.
  \<^item> \<open>Search_Handler\<close>, \<open>Search_Exact\<close>, \<open>Search_Stream\<close>, \<open>Search_Inv\<close>: \<open>handle_search\<close> with all its paths,
    and the streaming exact searches.
  \<^item> \<open>Batch_Worker\<close>, \<open>Batch_Queue\<close>: the thread that answers queued requests together;
    \<open>Search_Batch\<close>, \<open>Batch_Search_Props\<close>: the command with several queries in one request.
  \<^item> \<open>Build\<close>, \<open>Build_Sharded\<close>, \<open>Build_Flat\<close>, \<open>Build_Inv\<close>, \<open>Build_Commit\<close>, \<open>Flat_Props\<close>, \<open>Flat_Commit\<close>: builds of
    every kind, from the request through the commit on disk to the registry, and IVF-PQ search.
  \<^item> \<open>Extend_Compact\<close>, \<open>Extend_Props\<close>: extending and compacting a resident index, and the commands that
    set budgets.
  \<^item> \<open>Backend_Writes\<close>, \<open>Backend_Props\<close>, \<open>Drop_Queue\<close>: insert, bulk delete and vacuum of a backend, and the
    drops it passes on when a transaction commits.
  \<^item> \<open>Planner\<close>, \<open>Scan\<close>, \<open>Scan_Props\<close>: the gates before a path is offered, the shared table of fallbacks,
    and index scans.
  \<^item> \<open>Half_Float\<close>, \<open>Hnsw_Pages\<close>, \<open>Hnsw_Export\<close>, \<open>Hnsw_Props\<close>, \<open>Hnsw_Import\<close>: \<open>hnsw_export.c\<close>.
  \<^item> The theories named \<open>..._Witness\<close> hold concrete instances at which the properties are evaluated.

  \<^bold>\<open>How it is modelled.\<close> Handlers are functions from a request, the state and a record of what
  is outside (\<open>outside\<close>, \<open>gpu_lib\<close>, \<open>build_env\<close>, \<open>ipc_env\<close>, \<open>page_lib\<close> and others) to a reply and the new
  state. What is outside is a parameter: whether memory, files and GPU calls succeed, the results of
  GPU searches and builds, the time, random keys, and, for the handlers that release the
  mutex, what the other threads do meanwhile (an arbitrary state transformer, restricted by \<open>rely\<close> where
  a property needs it). Errors are values: a status in the reply, \<open>None\<close>, or the left of a sum. Where
  the C code would be undefined, as a read outside of an object or a negative size, the model has no
  result (\<open>None\<close>) and no property speaks of it. Machine integers keep their width; the float arithmetic
  of distances is a parameter, the order of floats is that of their bits.

  \<^bold>\<open>Interfaces.\<close> The locales state what one component relies on in another, and each is interpreted
  on the definitions that provide it: byte encodings of structs (\<open>codec\<close>, \<open>exact_codec\<close>), a file of header and
  checksummed body (\<open>sidecar\<close>), a streamed checksum (\<open>checksum\<close>), the append protocol of a counted
  file under torn writes (\<open>append_log\<close>, for \<open>.delta\<close> and \<open>.tombstone\<close>), a comparison function that
  sorts by a key (\<open>key_comparator\<close>), and a bounded queue without duplicates (\<open>job_queue\<close>). What the GPU
  library and PostgreSQL's pages must honour are predicates on the parameter, named as hypotheses.

  \<^bold>\<open>What the properties show.\<close> Each property's text states the conditions it needs; where they exclude a
  case in which the code goes wrong, a theorem beside it shows that case. Acknowledged inserts and deletions survive crashes and failed
  appends and reach every answer (C1, C2, C4, C7, C9); a scan that was admitted delivers
  (C5); filtered searches outside the batch worker answer only whitelisted rows (C3); searches are guarded and exact where the
  GPU's are (C6, C8, C21, C31, C32); builds are atomic on disk, survive a restart and own their GPU
  objects (C10, C11, C13, C24, C25, C26); loading, eviction, dropping, extending and compacting keep the
  registry consistent (C14, C15, C16, C22, C23, C34); the breaker, the fallback table, the download queue and
  the drop queue refine their abstract specifications (C17, C18, C30, C33); the batch worker loses and
  repeats no request and answers each (C19, C20); the HNSW index written from a CAGRA graph or a
  hnswlib file is the right one (C12, C27, C28); waiting ends and nothing
  is left behind (C37, C38, C39). Others state a way in which the code loses a change (C40, and
  the theorems listed as findings in the manifest).

  \<^bold>\<open>Termination and bounds.\<close> Loops are structural or have a measure, except those that may not end
  in C: the polling loop of \<open>recv_all_interruptible\<close> runs over the sequence of turns the kernel gives it
  (C38); the retry loop of a build is a partial function whose value is \<open>None\<close>
  where it does not return, and C37 shows when it does; the batch worker is a step
  function run a number of times, and C20 says how many are enough. Fixed capacities (shards,
  breakers, fallback slots, batch and queue sizes) are the constants of the code.

  \<^bold>\<open>Not modelled.\<close> The GPU library wrapper (\<open>cuvs_wrapper.cu\<close>, CUDA), the object store (\<open>cuvs_objstore.c\<close>,
  HTTP through libcurl), the compaction background worker, the daemon's main loop, option parsing,
  signals and threads, logging, the statistics counters, the commands that report statistics and export
  a graph on the daemon's side, the catalog work of an HNSW export, and of the access methods the
  cost arithmetic, options, the scan of the heap in a build and the SQL functions. These
  call the libraries of the operating system, of PostgreSQL or of CUDA and decide little of their own.
\<close>

end
